(* ===== verification/Prelude.thy ===== *)
theory Prelude
  imports
    Main
    "HOL-Library.AList"
    "HOL-Library.Multiset"
    "HOL-Library.Char_ord"
    "HOL-Library.List_Lexorder"
begin

text \<open>
  What every component of the development shares: the model of Go maps, results and
  strings, the lemma collections, and the generic facts about folds and sorted keys.

  A Go map with string keys is an association list with distinct keys. The list's order
  stands for one of the iteration orders the Go runtime may choose, so a definition that
  ranges over a map is a recursion over the list, and a result that does not depend on the
  iteration order is a theorem over every permutation of the list (\<open>same_map\<close>).
  A nil slice or map that the code tells apart from an empty one is \<open>None\<close> of an
  \<open>option\<close>. A Go string is a list of bytes.
\<close>

named_theorems gomap_simps \<open>rewriting of Go map operations into HOL maps\<close>
named_theorems spec_defs \<open>definitions the component proofs unfold together\<close>

section \<open>Results\<close>

text \<open>A call that returns a value and an error: \<open>Inl\<close> is the error, \<open>Inr\<close> the value.\<close>

type_synonym ('e, 'a) result = "'e + 'a"

definition bindE :: "('e, 'a) result \<Rightarrow> ('a \<Rightarrow> ('e, 'b) result) \<Rightarrow> ('e, 'b) result" where
  "bindE m f = (case m of Inl e \<Rightarrow> Inl e | Inr x \<Rightarrow> f x)"

definition is_ok :: "('e, 'a) result \<Rightarrow> bool" where
  "is_ok r = (case r of Inl _ \<Rightarrow> False | Inr _ \<Rightarrow> True)"

lemma bindE_simps [simp]:
  "bindE (Inl e) f = Inl e"
  "bindE (Inr x) f = f x"
  by (simp_all add: bindE_def)

lemma is_ok_simps [simp]: "is_ok (Inl e) = False" "is_ok (Inr x) = True"
  by (simp_all add: is_ok_def)

lemma bindE_Inr_iff [simp]: "(bindE m f = Inr y) = (\<exists>x. m = Inr x \<and> f x = Inr y)"
  by (cases m) auto

lemma bindE_Inl_iff: "(bindE m f = Inl e) = (m = Inl e \<or> (\<exists>x. m = Inr x \<and> f x = Inl e))"
  by (cases m) auto

lemma is_ok_iff: "is_ok r = (\<exists>x. r = Inr x)"
  by (cases r) auto

text \<open>A check that returns an error or nothing, and the check of a list of such conditions.\<close>

type_synonym 'e check = "'e option"

fun first_error :: "'e check list \<Rightarrow> 'e check" where
  "first_error [] = None"
| "first_error (Some e # cs) = Some e"
| "first_error (None # cs) = first_error cs"

definition fail_if :: "bool \<Rightarrow> 'e \<Rightarrow> 'e check" where
  "fail_if b e = (if b then Some e else None)"

lemma fail_if_None [simp]: "(fail_if b e = None) = (\<not> b)"
  by (simp add: fail_if_def)

lemma first_error_None: "(first_error cs = None) = (\<forall>c \<in> set cs. c = None)"
  by (induction cs rule: first_error.induct) auto

lemma first_error_Some_mem: "first_error cs = Some e \<Longrightarrow> Some e \<in> set cs"
  by (induction cs rule: first_error.induct) auto

section \<open>Go maps\<close>

type_synonym 'v gomap = "(string \<times> 'v) list"

definition gm_wf :: "'v gomap \<Rightarrow> bool" where
  "gm_wf m = distinct (map fst m)"

definition gm_get :: "'v gomap \<Rightarrow> string \<Rightarrow> 'v option" where
  "gm_get m k = map_of m k"

definition gm_has :: "'v gomap \<Rightarrow> string \<Rightarrow> bool" where
  "gm_has m k = (gm_get m k \<noteq> None)"

definition gm_put :: "string \<Rightarrow> 'v \<Rightarrow> 'v gomap \<Rightarrow> 'v gomap" where
  "gm_put k v m = AList.update k v m"

definition gm_del :: "string \<Rightarrow> 'v gomap \<Rightarrow> 'v gomap" where
  "gm_del k m = AList.delete k m"

text \<open>Reading a missing key gives the zero value of the element type.\<close>

definition gm_get_or :: "'v \<Rightarrow> 'v gomap \<Rightarrow> string \<Rightarrow> 'v" where
  "gm_get_or z m k = (case gm_get m k of None \<Rightarrow> z | Some v \<Rightarrow> v)"

text \<open>\<open>maps.Copy(dst, src)\<close>.\<close>

definition gm_copy :: "'v gomap \<Rightarrow> 'v gomap \<Rightarrow> 'v gomap" where
  "gm_copy dst src = fold (\<lambda>(k, v). gm_put k v) src dst"

text \<open>\<open>slices.Sorted(maps.Keys(m))\<close>: byte-wise lexicographic order.\<close>

definition sorted_keys :: "'v gomap \<Rightarrow> string list" where
  "sorted_keys m = sort (map fst m)"

text \<open>Two lists that present the same Go map, in any two iteration orders.\<close>

definition same_map :: "'v gomap \<Rightarrow> 'v gomap \<Rightarrow> bool" where
  "same_map m m' = (gm_wf m \<and> gm_wf m' \<and> mset m = mset m')"

lemma gm_get_Nil [simp]: "gm_get [] k = None"
  by (simp add: gm_get_def)

lemma gm_get_Cons: "gm_get ((k', v) # m) k = (if k = k' then Some v else gm_get m k)"
  by (simp add: gm_get_def)

lemma gm_get_put [simp, gomap_simps]:
  "gm_get (gm_put k v m) k' = (if k' = k then Some v else gm_get m k')"
  by (simp add: gm_get_def gm_put_def update_conv)

lemma gm_get_del [simp, gomap_simps]:
  "gm_get (gm_del k m) k' = (if k' = k then None else gm_get m k')"
  by (simp add: gm_get_def gm_del_def delete_conv)

lemma gm_get_or_put [simp]:
  "gm_get_or z (gm_put k v m) k' = (if k' = k then v else gm_get_or z m k')"
  by (simp add: gm_get_or_def)

lemma gm_wf_Nil [simp]: "gm_wf []"
  by (simp add: gm_wf_def)

lemma gm_wf_Cons: "gm_wf ((k, v) # m) = (k \<notin> fst ` set m \<and> gm_wf m)"
  by (simp add: gm_wf_def)

lemma gm_wf_put [simp]: "gm_wf m \<Longrightarrow> gm_wf (gm_put k v m)"
  by (simp add: gm_wf_def gm_put_def distinct_update)

lemma gm_wf_del [simp]: "gm_wf m \<Longrightarrow> gm_wf (gm_del k m)"
  by (simp add: gm_wf_def gm_del_def distinct_delete)

lemma keys_put: "fst ` set (gm_put k v m) = insert k (fst ` set m)"
  by (simp add: gm_put_def dom_update)

lemma set_gm_put: "set (gm_put k v m) \<subseteq> insert (k, v) (set m)"
  unfolding gm_put_def by (induction m) auto

lemma gm_has_keys: "gm_has m k = (k \<in> fst ` set m)"
  by (simp add: gm_has_def gm_get_def map_of_eq_None_iff)

lemma gm_get_None_keys: "(gm_get m k = None) = (k \<notin> fst ` set m)"
  by (simp add: gm_get_def map_of_eq_None_iff)

lemma gm_get_SomeD: "gm_get m k = Some v \<Longrightarrow> (k, v) \<in> set m"
  by (simp add: gm_get_def map_of_SomeD)

lemma gm_get_wf_iff: "gm_wf m \<Longrightarrow> (gm_get m k = Some v) = ((k, v) \<in> set m)"
  by (simp add: gm_wf_def gm_get_def map_of_eq_Some_iff)

lemma set_sorted_keys [simp]: "set (sorted_keys m) = fst ` set m"
  by (simp add: sorted_keys_def)

lemma distinct_sorted_keys: "gm_wf m \<Longrightarrow> distinct (sorted_keys m)"
  by (simp add: sorted_keys_def gm_wf_def)

lemma sorted_sorted_keys [simp]: "sorted (sorted_keys m)"
  by (simp add: sorted_keys_def)

lemma gm_copy_Nil [simp]: "gm_copy d [] = d"
  by (simp add: gm_copy_def)

lemma gm_copy_Cons: "gm_copy d ((k, v) # s) = gm_copy (gm_put k v d) s"
  by (simp add: gm_copy_def)

lemma gm_wf_copy [simp]: "gm_wf d \<Longrightarrow> gm_wf (gm_copy d s)"
  by (induction s arbitrary: d) (auto simp: gm_copy_Cons)

text \<open>\<open>maps.Copy\<close> overlays: the source wins wherever it has a key.\<close>

lemma gm_get_copy [gomap_simps]:
  "gm_wf s \<Longrightarrow> gm_get (gm_copy d s) k = (case gm_get s k of None \<Rightarrow> gm_get d k | Some v \<Rightarrow> Some v)"
proof (induction s arbitrary: d)
  case Nil
  then show ?case by simp
next
  case (Cons p s)
  obtain k' v where p: "p = (k', v)" by (cases p)
  from Cons.prems have fresh: "gm_get s k' = None" and wf: "gm_wf s"
    by (auto simp: p gm_wf_Cons gm_get_None_keys)
  have "gm_get (gm_copy d (p # s)) k
        = (case gm_get s k of None \<Rightarrow> gm_get (gm_put k' v d) k | Some v \<Rightarrow> Some v)"
    using Cons.IH [OF wf] by (simp add: p gm_copy_Cons)
  with fresh show ?case by (auto simp: p gm_get_Cons split: option.splits)
qed

lemma keys_copy: "fst ` set (gm_copy d s) = fst ` set d \<union> fst ` set s"
proof (induction s arbitrary: d)
  case (Cons p s)
  then show ?case by (cases p) (simp add: gm_copy_Cons keys_put)
qed simp

text \<open>A loop \<open>for k, v := range m { m[k] = f(v) }\<close>.\<close>

definition gm_map :: "('v \<Rightarrow> 'w) \<Rightarrow> 'v gomap \<Rightarrow> 'w gomap" where
  "gm_map f m = map (\<lambda>(k, v). (k, f v)) m"

lemma keys_gm_map [simp]: "map fst (gm_map f m) = map fst m"
  by (simp add: gm_map_def split_def)

lemma gm_get_map [simp, gomap_simps]: "gm_get (gm_map f m) k = map_option f (gm_get m k)"
  by (induction m) (auto simp: gm_map_def gm_get_Cons)

lemma gm_wf_map [simp]: "gm_wf (gm_map f m) = gm_wf m"
  by (simp add: gm_wf_def)

lemma gm_map_compose: "gm_map g (gm_map f m) = gm_map (\<lambda>v. g (f v)) m"
  by (simp add: gm_map_def split_def)

text \<open>A loop that puts a value, computed from the key, for some of the keys it visits.\<close>

lemma gm_get_fold_put:
  "gm_get (fold (\<lambda>k out. case f k of None \<Rightarrow> out | Some v \<Rightarrow> gm_put k v out) ks m) k =
     (if k \<in> set ks \<and> f k \<noteq> None then f k else gm_get m k)"
  by (induction ks arbitrary: m) (auto split: option.splits)

lemma gm_wf_fold_put:
  "gm_wf m \<Longrightarrow> gm_wf (fold (\<lambda>k out. case f k of None \<Rightarrow> out | Some v \<Rightarrow> gm_put k v out) ks m)"
  by (induction ks arbitrary: m) (auto split: option.splits)

lemma gm_get_fold_map:
  "gm_wf m \<Longrightarrow> gm_get (fold (\<lambda>(k, v). gm_put k (g k v)) m d) k =
     (case gm_get m k of None \<Rightarrow> gm_get d k | Some v \<Rightarrow> Some (g k v))"
proof (induction m arbitrary: d)
  case (Cons p m)
  obtain k' v where p: "p = (k', v)" by (cases p)
  from Cons.prems have "gm_get m k' = None" and wf: "gm_wf m"
    by (auto simp: p gm_wf_Cons gm_get_None_keys)
  with Cons.IH [OF wf] show ?case by (auto simp: p gm_get_Cons split: option.splits)
qed simp

subsection \<open>Iteration order\<close>

lemma same_map_get: "same_map m m' \<Longrightarrow> gm_get m = gm_get m'"
proof
  fix k
  assume s: "same_map m m'"
  then have "set m = set m'" by (auto simp: same_map_def dest: mset_eq_setD)
  with s have "gm_get m k = Some v \<longleftrightarrow> gm_get m' k = Some v" for v
    by (simp add: same_map_def gm_get_wf_iff)
  then show "gm_get m k = gm_get m' k"
    by (metis option.exhaust)
qed

lemma same_map_sorted_keys: "same_map m m' \<Longrightarrow> sorted_keys m = sorted_keys m'"
proof -
  assume "same_map m m'"
  then have "mset (map fst m) = mset (map fst m')" by (simp add: same_map_def)
  then show ?thesis unfolding sorted_keys_def
    by (metis mset_sort properties_for_sort sorted_sort)
qed

lemma same_map_set: "same_map m m' \<Longrightarrow> set m = set m'"
  by (auto simp: same_map_def dest: mset_eq_setD)

lemma same_map_refl: "gm_wf m \<Longrightarrow> same_map m m"
  by (simp add: same_map_def)

lemma same_map_rev: "gm_wf m \<Longrightarrow> same_map m (rev m)"
  by (simp add: same_map_def gm_wf_def rev_map [symmetric])

lemma same_map_filter: "same_map m m' \<Longrightarrow> same_map (filter P m) (filter P m')"
  by (auto simp: same_map_def gm_wf_def distinct_map_filter)

lemma sort_mset_eq: "mset xs = mset ys \<Longrightarrow> sort xs = sort ys"
  by (metis mset_sort properties_for_sort sorted_sort)

section \<open>Go strings\<close>

definition HasPrefix :: "string \<Rightarrow> string \<Rightarrow> bool" where
  "HasPrefix s p = (take (length p) s = p)"

definition HasSuffix :: "string \<Rightarrow> string \<Rightarrow> bool" where
  "HasSuffix s p = (length p \<le> length s \<and> drop (length s - length p) s = p)"

text \<open>\<open>strings.Cut(s, sep)\<close> for a separator of one byte: before, after, found.\<close>

definition str_Cut :: "char \<Rightarrow> string \<Rightarrow> string \<times> string \<times> bool" where
  "str_Cut c s = (takeWhile (\<lambda>x. x \<noteq> c) s, drop 1 (dropWhile (\<lambda>x. x \<noteq> c) s), c \<in> set s)"

definition CutPrefix :: "string \<Rightarrow> string \<Rightarrow> string \<times> bool" where
  "CutPrefix s p = (if HasPrefix s p then (drop (length p) s, True) else (s, False))"

definition CutSuffix :: "string \<Rightarrow> string \<Rightarrow> string \<times> bool" where
  "CutSuffix s p = (if HasSuffix s p then (take (length s - length p) s, True) else (s, False))"

text \<open>\<open>strings.ReplaceAll\<close> of one byte by a string.\<close>

definition replace_byte :: "char \<Rightarrow> string \<Rightarrow> string \<Rightarrow> string" where
  "replace_byte c new s = concat (map (\<lambda>x. if x = c then new else [x]) s)"

text \<open>
  \<open>strings.TrimSpace\<close> on ASCII text: the six ASCII white space bytes are trimmed. (Go also
  trims the Unicode spaces outside ASCII.)
\<close>

definition ascii_space :: "char \<Rightarrow> bool" where
  "ascii_space c = (c \<in> {CHR 0x09, CHR 0x0A, CHR 0x0B, CHR 0x0C, CHR 0x0D, CHR '' ''})"

definition TrimSpace :: "string \<Rightarrow> string" where
  "TrimSpace s = rev (dropWhile ascii_space (rev (dropWhile ascii_space s)))"

fun str_Join :: "string list \<Rightarrow> string \<Rightarrow> string" where
  "str_Join [] sep = []"
| "str_Join [x] sep = x"
| "str_Join (x # y # xs) sep = x @ sep @ str_Join (y # xs) sep"

text \<open>\<open>strings.Split\<close> at one byte.\<close>

fun str_Split :: "char \<Rightarrow> string \<Rightarrow> string list" where
  "str_Split c [] = [[]]"
| "str_Split c (x # s) =
     (if x = c then [] # str_Split c s
      else (case str_Split c s of [] \<Rightarrow> [[x]] | p # ps \<Rightarrow> (x # p) # ps))"

text \<open>\<open>strings.Contains\<close>.\<close>

fun str_Contains :: "string \<Rightarrow> string \<Rightarrow> bool" where
  "str_Contains [] p = (p = [])"
| "str_Contains (c # s) p = (HasPrefix (c # s) p \<or> str_Contains s p)"

lemma str_Split_not_Nil [simp]: "str_Split c s \<noteq> []"
  by (induction s) (auto split: list.splits)

lemma str_Split_append: "c \<notin> set a \<Longrightarrow> str_Split c (a @ c # b) = a # str_Split c b"
  by (induction a) auto

lemma str_Split_absent: "c \<notin> set a \<Longrightarrow> str_Split c a = [a]"
  by (induction a) auto

lemma Split_absent_all: "p \<in> set (str_Split c s) \<Longrightarrow> c \<notin> set p"
  by (induction s arbitrary: p) (auto split: list.splits if_splits)

lemma str_Split_snoc:
  "c \<noteq> sep \<Longrightarrow> str_Split sep (s @ [c]) = butlast (str_Split sep s) @ [last (str_Split sep s) @ [c]]"
  by (induction s) (auto split: list.splits)

lemma str_Split_snoc_sep: "str_Split sep (s @ [sep]) = str_Split sep s @ [[]]"
  by (induction s) (auto split: list.splits)

lemma HasPrefix_append [simp]: "HasPrefix (p @ s) p"
  by (simp add: HasPrefix_def)

lemma HasPrefixE: "HasPrefix s p \<Longrightarrow> \<exists>t. s = p @ t"
  by (metis HasPrefix_def append_take_drop_id)

lemma HasPrefix_iff: "HasPrefix s p = (\<exists>t. s = p @ t)"
  by (auto dest: HasPrefixE)

lemma HasSuffix_iff: "HasSuffix s p = (\<exists>t. s = t @ p)"
proof
  assume h: "HasSuffix s p"
  have "s = take (length s - length p) s @ drop (length s - length p) s" by simp
  with h show "\<exists>t. s = t @ p" unfolding HasSuffix_def by metis
qed (auto simp: HasSuffix_def)

lemma CutPrefix_append [simp]: "CutPrefix (p @ s) p = (s, True)"
  by (simp add: CutPrefix_def)

lemma length_replace_byte_char [simp]: "length (replace_byte c [d] s) = length s"
  by (induction s) (auto simp: replace_byte_def)

lemma replace_byte_absent: "c \<notin> set s \<Longrightarrow> replace_byte c new s = s"
  by (induction s) (auto simp: replace_byte_def)

lemma set_replace_byte: "set (replace_byte c new s) \<subseteq> set s - {c} \<union> set new"
  by (auto simp: replace_byte_def split: if_splits)

lemma str_Cut_absent: "c \<notin> set s \<Longrightarrow> str_Cut c s = (s, [], False)"
proof -
  assume "c \<notin> set s"
  then have "takeWhile (\<lambda>x. x \<noteq> c) s = s" "dropWhile (\<lambda>x. x \<noteq> c) s = []"
    by auto
  with \<open>c \<notin> set s\<close> show ?thesis
    unfolding str_Cut_def by (metis drop_Nil)
qed

lemma str_Cut_append: "c \<notin> set a \<Longrightarrow> str_Cut c (a @ c # b) = (a, b, True)"
  by (auto simp: str_Cut_def takeWhile_append dropWhile_append)

section \<open>Finite relations\<close>

lemma acc_no_cycle: "x \<in> Wellfounded.acc r \<Longrightarrow> (x, x) \<notin> r\<^sup>+"
proof (induction rule: acc.induct)
  case (accI x)
  show ?case
  proof
    assume "(x, x) \<in> r\<^sup>+"
    then obtain y where y: "(x, y) \<in> r\<^sup>*" "(y, x) \<in> r" by (blast dest: tranclD2)
    then have "(y, y) \<in> r\<^sup>+" by (meson rtrancl_into_trancl2)
    with accI.IH [OF y(2)] show False by simp
  qed
qed

text \<open>In a finite relation, an element is outside the accessible part iff a cycle leads to it.\<close>

lemma not_acc_iff_cycle:
  assumes fin: "finite r"
  shows "x \<notin> Wellfounded.acc r \<longleftrightarrow> (\<exists>c. (c, c) \<in> r\<^sup>+ \<and> (c, x) \<in> r\<^sup>*)"
proof
  assume x: "x \<notin> Wellfounded.acc r"
  define s where "s = {(y, z). (y, z) \<in> r \<and> (z, x) \<in> r\<^sup>* \<and> y \<notin> Wellfounded.acc r}"
  have "s \<subseteq> r" by (auto simp: s_def)
  with fin have fins: "finite s" by (rule rev_finite_subset)
  have "\<not> wf s"
  proof
    assume wf: "wf s"
    have "z \<notin> Wellfounded.acc r \<longrightarrow> (z, x) \<in> r\<^sup>* \<longrightarrow> False" for z
      using wf
    proof (induction z)
      case (less z)
      show ?case
      proof (intro impI)
        assume z: "z \<notin> Wellfounded.acc r" and zx: "(z, x) \<in> r\<^sup>*"
        then obtain y where y: "(y, z) \<in> r" "y \<notin> Wellfounded.acc r" by (meson accI)
        with zx have "(y, z) \<in> s" "(y, x) \<in> r\<^sup>*" by (auto simp: s_def)
        with less y(2) show False by blast
      qed
    qed
    with x show False by blast
  qed
  with fins have "\<not> acyclic s" by (blast dest: finite_acyclic_wf)
  then obtain c where c: "(c, c) \<in> s\<^sup>+" by (auto simp: acyclic_def)
  then obtain d where "(c, d) \<in> s" by (blast dest: tranclD)
  then have "(c, x) \<in> r\<^sup>*" by (auto simp: s_def intro: converse_rtrancl_into_rtrancl)
  moreover have "(c, c) \<in> r\<^sup>+" using c \<open>s \<subseteq> r\<close> trancl_mono by blast
  ultimately show "\<exists>c. (c, c) \<in> r\<^sup>+ \<and> (c, x) \<in> r\<^sup>*" by blast
next
  assume "\<exists>c. (c, c) \<in> r\<^sup>+ \<and> (c, x) \<in> r\<^sup>*"
  then obtain c where c: "(c, c) \<in> r\<^sup>+" "(c, x) \<in> r\<^sup>*" by blast
  then show "x \<notin> Wellfounded.acc r"
    by (meson acc_downwards acc_no_cycle)
qed

section \<open>Decimal numbers\<close>

text \<open>\<open>strconv.Itoa\<close> of a natural number.\<close>

fun Itoa :: "nat \<Rightarrow> string" where
  "Itoa n = (if n < 10 then [char_of (48 + n)] else Itoa (n div 10) @ [char_of (48 + n mod 10)])"

declare Itoa.simps [simp del]

lemma Itoa_not_Nil [simp]: "Itoa n \<noteq> []"
  by (subst Itoa.simps) simp

section \<open>Order of first appearance\<close>

definition first_seen :: "'a list \<Rightarrow> 'a list" where
  "first_seen xs = rev (remdups (rev xs))"

lemma first_seen_snoc: "first_seen (xs @ [x]) = (if x \<in> set xs then first_seen xs else first_seen xs @ [x])"
  by (simp add: first_seen_def)

lemma set_first_seen [simp]: "set (first_seen xs) = set xs" "distinct (first_seen xs)"
  by (simp_all add: first_seen_def)

end
