(* ===== verification/Spec_Types.thy ===== *)
theory Spec_Types
  imports Prelude
begin

text \<open>
  The data model of \<open>internal/spec\<close>: the application spec (\<open>types.go\<close>, \<open>task.go\<close>), the
  platform file (\<open>platform.go\<close>) and the resolution result (\<open>resolved_spec.go\<close>), one record
  per Go struct, with the accessors the code defines on them.

  Go string enums stay strings, because the code handles values outside the enumeration. A
  pointer, and a slice or map whose nil the code distinguishes from empty, is an \<open>option\<close>.
  Kubernetes quantities are values of a type parameter \<open>'q\<close>; the library calls the code makes
  on them, and the other calls into \<open>k8s.io\<close> packages, are the fields of \<open>k8s_lib\<close>, an
  argument of the definitions that use them. Every definition that uses a law of such a call
  names it (\<open>quantity_laws\<close>, \<open>deep_equal_laws\<close>).
\<close>

section \<open>Values of third-party libraries\<close>

text \<open>An \<open>any\<close> decoded from YAML or JSON.\<close>

datatype jval =
    JNull
  | JBool bool
  | JNum int
  | JStr string
  | JArr "jval list"
  | JObj "(string \<times> jval) list"

text \<open>
  A struct of a Kubernetes API package as \<open>reflect\<close> sees it: its fields in order, each
  with its name and its value by kind.
\<close>

datatype rfield =
    RPointer "jval option"
  | RSlice "jval list"
  | ROther jval

type_synonym rstruct = "(string \<times> rfield) list"

record 'q k8s_lib =
  q_Cmp :: "'q \<Rightarrow> 'q \<Rightarrow> int"
  q_IsZero :: "'q \<Rightarrow> bool"
  q_Parse :: "string \<Rightarrow> 'q option"
  DeepEqual :: "jval \<Rightarrow> jval \<Rightarrow> bool"
  IsDNS1123Label :: "string \<Rightarrow> string list"
  IsDNS1123Subdomain :: "string \<Rightarrow> string list"

text \<open>The documented behaviour of \<open>resource.Quantity.Cmp\<close>: a three-way total preorder.\<close>

definition quantity_laws :: "'q k8s_lib \<Rightarrow> bool" where
  "quantity_laws L =
     ((\<forall>a b. q_Cmp L a b \<le> 0 \<longleftrightarrow> 0 \<le> q_Cmp L b a)
      \<and> (\<forall>a b c. q_Cmp L a b \<le> 0 \<longrightarrow> q_Cmp L b c \<le> 0 \<longrightarrow> q_Cmp L a c \<le> 0))"

text \<open>\<open>equality.Semantic.DeepEqual\<close> is an equivalence.\<close>

definition deep_equal_laws :: "'q k8s_lib \<Rightarrow> bool" where
  "deep_equal_laws L =
     ((\<forall>a. DeepEqual L a a)
      \<and> (\<forall>a b. DeepEqual L a b \<longrightarrow> DeepEqual L b a)
      \<and> (\<forall>a b c. DeepEqual L a b \<longrightarrow> DeepEqual L b c \<longrightarrow> DeepEqual L a c))"

section \<open>Enumerations\<close>

type_synonym ComponentRole = string
type_synonym ComponentKind = string
type_synonym MetricType = string
type_synonym ResourcePreset = string
type_synonym TaskOn = string
type_synonym TLSMode = string

definition ComponentRoleService :: ComponentRole where "ComponentRoleService = ''service''"
definition ComponentRoleWorker :: ComponentRole where "ComponentRoleWorker = ''worker''"
definition ComponentKindStateless :: ComponentKind where "ComponentKindStateless = ''stateless''"
definition ComponentKindStateful :: ComponentKind where "ComponentKindStateful = ''stateful''"
definition MetricTypeCPU :: MetricType where "MetricTypeCPU = ''cpu''"
definition MetricTypeMemory :: MetricType where "MetricTypeMemory = ''memory''"
definition ResourcePresetSmall :: ResourcePreset where "ResourcePresetSmall = ''small''"
definition TaskOnPreDeploy :: TaskOn where "TaskOnPreDeploy = ''preDeploy''"
definition TaskOnPostDeploy :: TaskOn where "TaskOnPostDeploy = ''postDeploy''"
definition TaskOnManual :: TaskOn where "TaskOnManual = ''manual''"
definition TLSModeSelfSigned :: TLSMode where "TLSModeSelfSigned = ''selfSigned''"
definition TLSModeSecretName :: TLSMode where "TLSModeSecretName = ''secretName''"
definition TLSModeCertManager :: TLSMode where "TLSModeCertManager = ''certManager''"

lemmas enum_defs [spec_defs] =
  ComponentRoleService_def ComponentRoleWorker_def ComponentKindStateless_def
  ComponentKindStateful_def MetricTypeCPU_def MetricTypeMemory_def ResourcePresetSmall_def
  TaskOnPreDeploy_def TaskOnPostDeploy_def TaskOnManual_def TLSModeSelfSigned_def
  TLSModeSecretName_def TLSModeCertManager_def

definition IsService :: "ComponentRole \<Rightarrow> bool" where
  "IsService r = (r = ComponentRoleService)"

definition IsWorker :: "ComponentRole \<Rightarrow> bool" where
  "IsWorker r = (r = ComponentRoleWorker)"

definition IsHook :: "TaskOn \<Rightarrow> bool" where
  "IsHook on = (on = TaskOnPreDeploy \<or> on = TaskOnPostDeploy)"

section \<open>The application spec\<close>

record 'q Resources =
  CPU :: "'q option"
  Memory :: "'q option"
  EphemeralStorage :: "'q option"

record Environment =
  e_EnvFile :: string
  e_ConfigFile :: string
  e_Variables :: "string gomap"

record Persistence =
  p_Size :: string
  p_MountPath :: string
  p_StorageClass :: string

record HealthReady =
  hr_Disabled :: bool
  hr_Path :: string

record HealthAlive =
  ha_Disabled :: bool
  ha_Path :: string
  ha_Exec :: "string list"
  ha_Interval :: string
  ha_RestartAfter :: string

record Health =
  h_Ready :: "HealthReady option"
  h_Alive :: "HealthAlive option"

record ComponentMetrics =
  m_Disabled :: bool
  m_Enabled :: "bool option"
  m_Port :: int
  m_Path :: string
  m_Interval :: string
  m_ScrapeTimeout :: string

record Metric =
  mt_Type :: MetricType
  mt_Target :: int

record Autoscaling =
  as_Enabled :: bool
  as_MinReplicas :: int
  as_MaxReplicas :: int
  as_Metrics :: "Metric list"

record Expose =
  x_Domain :: string
  x_Subdomain :: "string option"
  x_Apex :: bool
  x_disabled :: bool

record 'q Component =
  c_Role :: ComponentRole
  c_EnvFile :: string
  c_ConfigFile :: string
  c_Environments :: "string list"
  c_Kind :: ComponentKind
  c_Image :: string
  c_Command :: "string list"
  c_Args :: "string list"
  c_Port :: int
  c_Replicas :: "int option"
  c_Persistence :: "Persistence option"
  c_Autoscaling :: "Autoscaling option"
  c_Resources :: "'q Resources"
  c_ResourcePreset :: ResourcePreset
  c_Expose :: "Expose option"
  c_Profiles :: "string list option"
  c_Env :: "string gomap"
  c_Health :: "Health option"
  c_ShutdownTimeout :: string
  c_Metrics :: "ComponentMetrics option"

record Fanout =
  f_Count :: int
  f_Parallelism :: int

record 'q Task =
  t_From :: string
  t_Image :: string
  t_Command :: "string list"
  t_Args :: "string list"
  t_On :: TaskOn
  t_After :: "string list"
  t_Env :: "string gomap"
  t_EnvFile :: string
  t_ConfigFile :: string
  t_Environments :: "string list"
  t_Profiles :: "string list option"
  t_Resources :: "'q Resources"
  t_ResourcePreset :: ResourcePreset
  t_Fanout :: Fanout
  t_Timeout :: string
  t_BackoffLimit :: "int option"
  t_TTLSecondsAfterFinished :: "int option"

record 'q Spec =
  s_APIVersion :: string
  s_Project :: string
  s_Environments :: "Environment gomap"
  s_Components :: "'q Component gomap"
  s_Tasks :: "'q Task gomap"

section \<open>The platform file\<close>

record PVCRetentionPolicy =
  WhenDeleted :: string
  WhenScaled :: string

record 'q ProfileMaxResources =
  mr_CPU :: "'q option"
  mr_Memory :: "'q option"

record ProfileMetrics =
  pm_MonitorLabels :: "string gomap"
  pm_MonitorNamespace :: string
  pm_Interval :: string
  pm_ScrapeTimeout :: string
  pm_JobLabel :: string
  pm_HonorLabels :: "bool option"
  pm_Annotations :: "string gomap"
  pm_Relabelings :: "jval list"
  pm_MetricRelabelings :: "jval list"

record 'q PlatformProfile =
  pp_NodeSelector :: "string gomap"
  pp_Tolerations :: "jval list"
  pp_PodLabels :: "string gomap"
  pp_PodAnnotations :: "string gomap"
  pp_SecurityContext :: "rstruct option"
  pp_ContainerSecurityContext :: "rstruct option"
  pp_StorageClass :: string
  pp_PVCRetentionPolicy :: "PVCRetentionPolicy option"
  pp_AllowedDomains :: "string list option"
  pp_MaxResources :: "'q ProfileMaxResources option"
  pp_Metrics :: "ProfileMetrics option"

record PlatformTLS =
  tls_Mode :: TLSMode
  tls_Issuer :: string
  tls_SecretName :: string

record PlatformDomain =
  pd_BaseDomain :: string
  pd_Default :: bool
  pd_TLS :: "PlatformTLS option"

record PlatformStorageClass =
  sc_ClassName :: string

record PlatformEnvironment =
  pe_Context :: string
  pe_Domains :: "PlatformDomain gomap"
  pe_StorageClasses :: "PlatformStorageClass gomap option"
  pe_AllowStaticSubdomain :: bool

record 'q PlatformConfig =
  pc_APIVersion :: string
  pc_Profiles :: "'q PlatformProfile gomap option"
  pc_Environments :: "PlatformEnvironment gomap"

definition DefaultProfileName :: string where "DefaultProfileName = ''default''"

section \<open>Accessors\<close>

text \<open>\<open>quantity.go\<close>.\<close>

definition quantitySet :: "'q k8s_lib \<Rightarrow> 'q option \<Rightarrow> bool" where
  "quantitySet L q = (case q of None \<Rightarrow> False | Some v \<Rightarrow> \<not> q_IsZero L v)"

definition ResourcesSet :: "'q k8s_lib \<Rightarrow> 'q Resources \<Rightarrow> bool" where
  "ResourcesSet L r =
     (quantitySet L (CPU r) \<or> quantitySet L (Memory r) \<or> quantitySet L (EphemeralStorage r))"

definition ResourcesPresent :: "'q Resources \<Rightarrow> bool" where
  "ResourcesPresent r = (CPU r \<noteq> None \<or> Memory r \<noteq> None \<or> EphemeralStorage r \<noteq> None)"

definition ListensOnPort :: "'q Component \<Rightarrow> bool" where
  "ListensOnPort c = (IsService (c_Role c) \<and> c_Port c > 0)"

text \<open>\<open>ComponentMetrics.IsEnabled\<close>: the receiver may be nil.\<close>

definition IsEnabled :: "ComponentMetrics option \<Rightarrow> bool" where
  "IsEnabled m =
     (case m of
        None \<Rightarrow> False
      | Some m \<Rightarrow>
          if m_Disabled m then False
          else (case m_Enabled m of Some b \<Rightarrow> b | None \<Rightarrow> True))"

definition EnvironmentNames :: "'q Spec \<Rightarrow> string list" where
  "EnvironmentNames s = sorted_keys (s_Environments s)"

definition TaskNames :: "'q Spec \<Rightarrow> string list" where
  "TaskNames s = sorted_keys (s_Tasks s)"

definition no_resources :: "'q Resources" where
  "no_resources = \<lparr>CPU = None, Memory = None, EphemeralStorage = None\<rparr>"

lemma ResourcesSet_present: "ResourcesSet L r \<Longrightarrow> ResourcesPresent r"
  by (auto simp: ResourcesSet_def ResourcesPresent_def quantitySet_def split: option.splits)

lemma no_resources_unset [simp]: "\<not> ResourcesSet L no_resources" "\<not> ResourcesPresent no_resources"
  by (simp_all add: no_resources_def ResourcesSet_def ResourcesPresent_def quantitySet_def)

text \<open>The zero values of the structs the code builds with composite literals.\<close>

definition zero_Component :: "'q Component" where
  "zero_Component =
     \<lparr>c_Role = [], c_EnvFile = [], c_ConfigFile = [], c_Environments = [], c_Kind = [],
      c_Image = [], c_Command = [], c_Args = [], c_Port = 0, c_Replicas = None,
      c_Persistence = None, c_Autoscaling = None, c_Resources = no_resources,
      c_ResourcePreset = [], c_Expose = None, c_Profiles = None, c_Env = [], c_Health = None,
      c_ShutdownTimeout = [], c_Metrics = None\<rparr>"

definition zero_Task :: "'q Task" where
  "zero_Task =
     \<lparr>t_From = [], t_Image = [], t_Command = [], t_Args = [], t_On = [], t_After = [], t_Env = [],
      t_EnvFile = [], t_ConfigFile = [], t_Environments = [], t_Profiles = None,
      t_Resources = no_resources, t_ResourcePreset = [],
      t_Fanout = \<lparr>f_Count = 0, f_Parallelism = 0\<rparr>, t_Timeout = [], t_BackoffLimit = None,
      t_TTLSecondsAfterFinished = None\<rparr>"

definition zero_PlatformProfile :: "'q PlatformProfile" where
  "zero_PlatformProfile =
     \<lparr>pp_NodeSelector = [], pp_Tolerations = [], pp_PodLabels = [], pp_PodAnnotations = [],
      pp_SecurityContext = None, pp_ContainerSecurityContext = None, pp_StorageClass = [],
      pp_PVCRetentionPolicy = None, pp_AllowedDomains = None, pp_MaxResources = None,
      pp_Metrics = None\<rparr>"

definition zero_PlatformEnvironment :: PlatformEnvironment where
  "zero_PlatformEnvironment =
     \<lparr>pe_Context = [], pe_Domains = [], pe_StorageClasses = None, pe_AllowStaticSubdomain = False\<rparr>"

section \<open>The resolution result\<close>

record EnvIdentity =
  Original :: string
  MapKey :: string
  K8sSafe :: string

record 'q ResolvedComponent =
  rc_FQDN :: string
  rc_TLSMode :: TLSMode
  rc_TLSIssuer :: string
  rc_TLSSecretName :: string
  rc_TLSCertPEM :: string
  rc_TLSKeyPEM :: string
  rc_StorageClass :: string
  rc_Profiles :: "string list"
  rc_MergedProfile :: "'q PlatformProfile option"
  rc_DomainKey :: string

record 'q ResolvedTask =
  rt_Task :: "'q Task"
  rt_HookWeight :: int
  rt_Profiles :: "string list"
  rt_MergedProfile :: "'q PlatformProfile option"

text \<open>The resolution error codes of \<open>resolved_spec.go\<close>.\<close>

datatype ErrCode =
    PLATFORM_NOT_FOUND
  | PLATFORM_ENV_NOT_FOUND
  | DOMAIN_GAP
  | FQDN_COLLISION
  | INVALID_DNS
  | STATIC_WILDCARD_SUBDOMAIN
  | CONTEXT_MISMATCH
  | HOSTNAME_CHANGED
  | PROFILE_NOT_FOUND
  | PROFILE_DOMAIN_NOT_ALLOWED
  | PROFILE_STORAGE_CLASS_NOT_FOUND
  | COMPONENT_STORAGE_CLASS_NOT_FOUND
  | PROFILE_RESOURCE_EXCEEDED
  | PROFILE_OPT_OUT_BLOCKED
  | PROFILE_MONITOR_LABELS_MISSING

section \<open>A concrete library\<close>

text \<open>
  An instance of the library parameter with integer quantities, used where a theorem with a
  law of the library as hypothesis is applied to concrete data.
\<close>

definition int_lib :: "int k8s_lib" where
  "int_lib =
     \<lparr>q_Cmp = \<lambda>a b. a - b, q_IsZero = \<lambda>a. a = 0,
      q_Parse = \<lambda>s. map_of [(''500m'', 500), (''512Mi'', 512), (''50Mi'', 50), (''750m'', 750),
                             (''768Mi'', 768), (''2Gi'', 2048), (''1Gi'', 1024), (''10Gi'', 10240)] s,
      DeepEqual = (=), IsDNS1123Label = \<lambda>_. [], IsDNS1123Subdomain = \<lambda>_. []\<rparr>"

lemma int_lib_laws: "quantity_laws int_lib" "deep_equal_laws int_lib"
  by (auto simp: int_lib_def quantity_laws_def deep_equal_laws_def)

end
