(* ===== verification/Hook_Weights.thy ===== *)
theory Hook_Weights
  imports Spec_Types
begin

text \<open>
  \<open>internal/spec/task_after.go\<close>: Helm hook weights from the \<open>after\<close> relation, by Kahn's
  algorithm with a work queue, an in-degree table and a table of dependents. The loop is
  modelled as the code runs it; its correctness is stated against the \<open>after\<close> graph itself
  (\<open>after_rel\<close>): the weights exist exactly when the graph has no cycle, and then each is one
  more than the largest weight among the task's dependencies.
\<close>

section \<open>The algorithm\<close>

datatype hook_error = AfterCycle TaskOn "string list"

definition phase_names :: "'q Task gomap \<Rightarrow> TaskOn \<Rightarrow> string list" where
  "phase_names tasks on = sort (map fst (filter (\<lambda>(_, t). t_On t = on) tasks))"

text \<open>The \<open>after\<close> entries of a task that name a task of the same phase.\<close>

definition phase_after :: "'q Task gomap \<Rightarrow> string list \<Rightarrow> string \<Rightarrow> string list" where
  "phase_after tasks names n =
     (case gm_get tasks n of
        None \<Rightarrow> []
      | Some t \<Rightarrow> filter (\<lambda>dep. dep \<in> set names) (t_After t))"

text \<open>One \<open>after\<close> entry: \<open>dependents[dep] = append(...)\<close> and \<open>indegree[n]++\<close>.\<close>

definition add_edge ::
    "string \<Rightarrow> string \<Rightarrow> int gomap \<times> string list gomap \<Rightarrow> int gomap \<times> string list gomap" where
  "add_edge n dep = (\<lambda>(indegree, dependents).
     (gm_put n (gm_get_or 0 indegree n + 1) indegree,
      gm_put dep (gm_get_or [] dependents dep @ [n]) dependents))"

definition edge_tables ::
    "(string \<Rightarrow> string list) \<Rightarrow> string list \<Rightarrow> int gomap \<times> string list gomap" where
  "edge_tables after names =
     fold (\<lambda>n. fold (add_edge n) (after n)) names (map (\<lambda>n. (n, 0)) names, [])"

text \<open>The inner loop over \<open>dependents[n]\<close>: decrement, and collect who reaches zero.\<close>

fun release_children ::
    "string list \<Rightarrow> int gomap \<Rightarrow> string list \<Rightarrow> int gomap \<times> string list" where
  "release_children [] indegree next = (indegree, next)"
| "release_children (child # cs) indegree next =
     (let d = gm_get_or 0 indegree child - 1
      in release_children cs (gm_put child d indegree) (if d = 0 then next @ [child] else next))"

definition max_dep :: "int gomap \<Rightarrow> string list \<Rightarrow> int" where
  "max_dep weights deps =
     fold (\<lambda>dep m. case gm_get weights dep of
                     Some w \<Rightarrow> if w > m then w else m
                   | None \<Rightarrow> m) deps (- 1)"

definition positive_keys :: "int gomap \<Rightarrow> string set" where
  "positive_keys indegree = {k. gm_get_or 0 indegree k > 0}"

lemma finite_positive_keys [simp]: "finite (positive_keys m)"
proof (rule finite_subset)
  show "positive_keys m \<subseteq> fst ` set m"
    by (auto simp: positive_keys_def gm_get_or_def gm_get_def split: option.splits
        dest: map_of_SomeD intro: rev_image_eqI)
qed simp

lemma positive_keys_put:
  "positive_keys (gm_put k v m) = (if v > 0 then insert k (positive_keys m) else positive_keys m - {k})"
  by (auto simp: positive_keys_def split: if_splits)

lemma release_children_measure:
  "release_children cs ind nx = (ind', nx') \<Longrightarrow>
   card (positive_keys ind') + length nx' \<le> card (positive_keys ind) + length nx"
proof (induction cs ind nx rule: release_children.induct)
  case (2 child cs ind nx)
  define d where "d = gm_get_or 0 ind child - 1"
  let ?nx = "if d = 0 then nx @ [child] else nx"
  from "2.prems" have "release_children cs (gm_put child d ind) ?nx = (ind', nx')"
    by (simp add: d_def Let_def)
  then have "card (positive_keys ind') + length nx'
             \<le> card (positive_keys (gm_put child d ind)) + length ?nx"
    using "2.IH" d_def by simp
  also have "\<dots> \<le> card (positive_keys ind) + length nx"
  proof (cases "d \<ge> 0")
    case True
    then have c: "child \<in> positive_keys ind" by (simp add: d_def positive_keys_def)
    then have "Suc (card (positive_keys ind - {child})) = card (positive_keys ind)"
      by (rule card_Suc_Diff1 [OF finite_positive_keys])
    with c True show ?thesis by (auto simp: positive_keys_put insert_absorb)
  next
    case False
    then show ?thesis by (simp add: positive_keys_put card_Diff1_le)
  qed
  finally show ?case .
qed simp

text \<open>
  The work loop, with its state: in-degrees, weights, the queue \<open>ready\<close> and the count of
  processed tasks. It ends from any state: each turn takes one task off the queue, and a task
  is put on it only when its in-degree drops to zero.
\<close>

function (sequential) hook_loop ::
    "(string \<Rightarrow> string list) \<Rightarrow> string list gomap \<Rightarrow> int gomap \<Rightarrow> int gomap \<Rightarrow> string list \<Rightarrow> nat
     \<Rightarrow> int gomap \<times> int gomap \<times> nat" where
  "hook_loop after dependents indegree weights [] seen = (indegree, weights, seen)"
| "hook_loop after dependents indegree weights (n # ready) seen =
     (let (indegree', next) = release_children (gm_get_or [] dependents n) indegree []
      in hook_loop after dependents indegree' (gm_put n (max_dep weights (after n) + 1) weights)
           (ready @ sort next) (seen + 1))"
  by pat_completeness auto
termination
proof (relation "measure (\<lambda>(_, _, indegree, _, ready, _). card (positive_keys indegree) + length ready)",
    goal_cases)
  case (2 after dependents indegree weights n ready seen x indegree' "next")
  have "card (positive_keys indegree') + length next
        \<le> card (positive_keys indegree) + length ([] :: string list)"
    by (rule release_children_measure, rule sym) (use "2" in simp)
  then show ?case by simp
qed simp

definition hookWeightsForPhase ::
    "'q Task gomap \<Rightarrow> TaskOn \<Rightarrow> (hook_error, int gomap) result" where
  "hookWeightsForPhase tasks on =
     (let names = phase_names tasks on
      in if names = [] then Inr []
         else
           let after = phase_after tasks names;
               (indegree, dependents) = edge_tables after names;
               ready = sort (filter (\<lambda>n. gm_get_or 0 indegree n = 0) names);
               (indegree', weights, seen) = hook_loop after dependents indegree [] ready 0
           in if seen \<noteq> length names
              then Inl (AfterCycle on (filter (\<lambda>n. gm_get_or 0 indegree' n > 0) names))
              else Inr weights)"

definition AssignHookWeights :: "'q Task gomap \<Rightarrow> (hook_error, int gomap) result" where
  "AssignHookWeights tasks =
     bindE (hookWeightsForPhase tasks TaskOnPreDeploy) (\<lambda>pre.
     bindE (hookWeightsForPhase tasks TaskOnPostDeploy) (\<lambda>post.
       Inr (gm_copy (gm_copy [] pre) post)))"

section \<open>The edge tables\<close>

lemma add_edges:
  assumes "fold (add_edge n) deps (ind, dpd) = (ind', dpd')"
  shows "gm_get_or 0 ind' k = gm_get_or 0 ind k + (if k = n then int (length deps) else 0)"
    and "gm_get_or [] dpd' d = gm_get_or [] dpd d @ replicate (count_list deps d) n"
  using assms
proof (induction deps arbitrary: ind dpd)
  case (Cons dep deps)
  case 1
  with Cons.IH(1) show ?case by (simp add: add_edge_def)
next
  case (Cons dep deps)
  case 2
  with Cons.IH(2) show ?case by (auto simp: add_edge_def replicate_app_Cons_same)
qed simp_all

lemma edge_tables_indegree:
  assumes "fold (\<lambda>n. fold (add_edge n) (after n)) names (ind, dpd) = (ind', dpd')" and "distinct names"
  shows "gm_get_or 0 ind' k = gm_get_or 0 ind k + (if k \<in> set names then int (length (after k)) else 0)"
  using assms
proof (induction names arbitrary: ind dpd)
  case (Cons n names)
  obtain i j where step: "fold (add_edge n) (after n) (ind, dpd) = (i, j)" by fastforce
  have "gm_get_or 0 ind' k = gm_get_or 0 i k + (if k \<in> set names then int (length (after k)) else 0)"
    using Cons.prems step by (intro Cons.IH) auto
  with add_edges(1) [OF step] Cons.prems show ?case by auto
qed simp

lemma edge_tables_dependents:
  assumes "fold (\<lambda>n. fold (add_edge n) (after n)) names (ind, dpd) = (ind', dpd')"
  shows "gm_get_or [] dpd' d =
           gm_get_or [] dpd d @ concat (map (\<lambda>n. replicate (count_list (after n) d) n) names)"
  using assms
proof (induction names arbitrary: ind dpd)
  case (Cons n names)
  obtain i j where step: "fold (add_edge n) (after n) (ind, dpd) = (i, j)" by fastforce
  have "gm_get_or [] dpd' d =
      gm_get_or [] j d @ concat (map (\<lambda>n. replicate (count_list (after n) d) n) names)"
    using Cons.prems step by (intro Cons.IH) auto
  with add_edges(2) [OF step] show ?case by simp
qed simp

lemma count_list_concat: "count_list (concat xss) x = (\<Sum>xs \<leftarrow> xss. count_list xs x)"
  by (induction xss) auto

lemma count_list_replicate: "count_list (replicate k y) x = (if x = y then k else 0)"
  by (induction k) auto

lemma count_dependents:
  "distinct names \<Longrightarrow>
   count_list (concat (map (\<lambda>n. replicate (count_list (after n) d) n) names)) m =
     (if m \<in> set names then count_list (after m) d else 0)"
  by (induction names) (auto simp: count_list_replicate)

lemma edge_tables_spec:
  assumes "edge_tables after names = (ind, dpd)" and "distinct names"
  shows "n \<in> set names \<Longrightarrow> gm_get_or 0 ind n = int (length (after n))"
    and "count_list (gm_get_or [] dpd d) m = (if m \<in> set names then count_list (after m) d else 0)"
proof -
  have z: "gm_get_or 0 (map (\<lambda>n. (n, 0)) names) k = (0::int)" for k
    by (induction names) (auto simp: gm_get_or_def gm_get_Cons split: option.splits)
  note indegree = edge_tables_indegree [OF assms(1) [unfolded edge_tables_def] assms(2)]
    and dependents = edge_tables_dependents [OF assms(1) [unfolded edge_tables_def]]
  show "n \<in> set names \<Longrightarrow> gm_get_or 0 ind n = int (length (after n))"
    using indegree z by simp
  show "count_list (gm_get_or [] dpd d) m = (if m \<in> set names then count_list (after m) d else 0)"
    using dependents [of d] count_dependents [OF assms(2), of after d m] by (simp add: gm_get_or_def)
qed

section \<open>The loop invariant\<close>

lemma release_children_spec:
  assumes "release_children cs ind nx = (ind', nx')"
  shows "gm_get_or 0 ind' k = gm_get_or 0 ind k - int (count_list cs k)"
    and "set nx' = set nx \<union> {k. 1 \<le> gm_get_or 0 ind k \<and> gm_get_or 0 ind k \<le> int (count_list cs k)}"
    and "distinct nx \<Longrightarrow> (\<forall>k \<in> set nx. gm_get_or 0 ind k \<le> 0) \<Longrightarrow> distinct nx'"
  using assms
proof (induction cs ind nx rule: release_children.induct)
  case (2 child cs ind nx)
  note IH = "2.IH" [OF refl]
  {
    case 1
    with IH(1) show ?case by (auto simp: Let_def)
  next
    case 2
    let ?d = "gm_get_or 0 ind child - 1"
    from 2 IH(2) have "set nx' = set (if ?d = 0 then nx @ [child] else nx)
        \<union> {k. 1 \<le> gm_get_or 0 (gm_put child ?d ind) k
             \<and> gm_get_or 0 (gm_put child ?d ind) k \<le> int (count_list cs k)}"
      by (simp add: Let_def)
    then have mem: "k \<in> set nx' \<longleftrightarrow> k \<in> set nx \<or> (?d = 0 \<and> k = child)
        \<or> (1 \<le> (if k = child then ?d else gm_get_or 0 ind k)
           \<and> (if k = child then ?d else gm_get_or 0 ind k) \<le> int (count_list cs k))" for k
      by (cases "?d = 0") auto
    show ?case
    proof (rule set_eqI)
      fix k
      show "k \<in> set nx' \<longleftrightarrow> k \<in> set nx \<union> {k. 1 \<le> gm_get_or 0 ind k
          \<and> gm_get_or 0 ind k \<le> int (count_list (child # cs) k)}"
        using mem [of k] by (cases "k = child") auto
    qed
  next
    case 3
    let ?d = "gm_get_or 0 ind child - 1"
    have "\<forall>k \<in> set (if ?d = 0 then nx @ [child] else nx). gm_get_or 0 (gm_put child ?d ind) k \<le> 0"
      using 3(2) by (cases "?d = 0") auto
    moreover have "distinct (if ?d = 0 then nx @ [child] else nx)"
      using 3(1,2) by (cases "?d = 0") auto
    ultimately show ?case using 3(3) by (intro IH(3)) (simp_all add: Let_def)
  }
qed auto

text \<open>
  The specification side: \<open>after_edges\<close> is the dependency relation of the phase, as pairs
  (dependency, dependent).
\<close>

definition after_edges :: "(string \<Rightarrow> string list) \<Rightarrow> string list \<Rightarrow> (string \<times> string) set" where
  "after_edges after names = {(d, n). n \<in> set names \<and> d \<in> set (after n)}"

definition hook_inv ::
    "(string \<Rightarrow> string list) \<Rightarrow> string list \<Rightarrow> int gomap \<Rightarrow> int gomap \<Rightarrow> string list \<Rightarrow> nat \<Rightarrow> bool" where
  "hook_inv after names indegree weights ready seen =
     (let done = fst ` set weights in
        done \<subseteq> set names \<and> seen = card done
      \<and> distinct ready \<and> set ready \<subseteq> set names - done
      \<and> (\<forall>n \<in> set names. gm_get_or 0 indegree n = int (length (filter (\<lambda>d. d \<notin> done) (after n))))
      \<and> (\<forall>n \<in> set names. (n \<in> done \<union> set ready) = (gm_get_or 0 indegree n = 0))
      \<and> (\<forall>n \<in> done. set (after n) \<subseteq> done
            \<and> gm_get weights n = Some (max_dep weights (after n) + 1))
      \<and> done \<subseteq> Wellfounded.acc (after_edges after names))"

lemma length_filter_insert:
  "n \<notin> P \<Longrightarrow>
   length (filter (\<lambda>d. d \<notin> P) xs) = length (filter (\<lambda>d. d \<notin> insert n P) xs) + count_list xs n"
  by (induction xs) auto

lemma max_dep_cong:
  "(\<And>d. d \<in> set deps \<Longrightarrow> gm_get w d = gm_get w' d) \<Longrightarrow> max_dep w deps = max_dep w' deps"
  unfolding max_dep_def by (rule fold_cong) auto


text \<open>One turn of the loop keeps the invariant.\<close>

lemma hook_inv_step:
  assumes inv: "hook_inv after names ind w (n # ready) seen"
    and rel: "release_children children ind [] = (ind', next)"
    and children: "\<And>m. count_list children m = (if m \<in> set names then count_list (after m) n else 0)"
  shows "hook_inv after names ind' (gm_put n (max_dep w (after n) + 1) w) (ready @ sort next) (seen + 1)"
proof -
  let ?P = "fst ` set w" and ?w = "gm_put n (max_dep w (after n) + 1) w"
  let ?un = "\<lambda>P m. length (filter (\<lambda>d. d \<notin> P) (after m))"
  have P': "fst ` set ?w = insert n ?P" by (simp add: keys_put)
  from inv have sub: "?P \<subseteq> set names" and seen: "seen = card ?P"
    and dist: "distinct (n # ready)" and rdy: "set (n # ready) \<subseteq> set names - ?P"
    and deg: "\<And>m. m \<in> set names \<Longrightarrow> gm_get_or 0 ind m = int (?un ?P m)"
    and zero: "\<And>m. m \<in> set names \<Longrightarrow> (m \<in> ?P \<union> set (n # ready)) = (gm_get_or 0 ind m = 0)"
    and wts: "\<And>m. m \<in> ?P \<Longrightarrow> set (after m) \<subseteq> ?P \<and> gm_get w m = Some (max_dep w (after m) + 1)"
    and accP: "?P \<subseteq> Wellfounded.acc (after_edges after names)"
    unfolding hook_inv_def Let_def by blast+
  have nN: "n \<in> set names" and nP: "n \<notin> ?P" using rdy by auto
  have un: "?un ?P m = ?un (insert n ?P) m + count_list (after m) n" for m
    using nP by (rule length_filter_insert)
  have deg': "gm_get_or 0 ind' m = int (?un (insert n ?P) m)" if "m \<in> set names" for m
    using release_children_spec(1) [OF rel, of m] deg [OF that] un [of m] children [of m] that by simp
  have nxt: "(m \<in> set next) = (gm_get_or 0 ind m \<noteq> 0 \<and> gm_get_or 0 ind' m = 0)"
    if "m \<in> set names" for m
  proof -
    have "(m \<in> set next) = (1 \<le> gm_get_or 0 ind m \<and> gm_get_or 0 ind m \<le> int (count_list children m))"
      by (simp add: release_children_spec(2) [OF rel])
    with release_children_spec(1) [OF rel, of m] deg [OF that] deg' [OF that] show ?thesis
      by linarith
  qed
  have next_names: "set next \<subseteq> set names"
    using release_children_spec(2) [OF rel] children by (force split: if_splits)
  have ndist: "distinct next"
    using release_children_spec(3) [OF rel] by simp
  have zero': "(m \<in> insert n ?P \<union> set (ready @ sort next)) = (gm_get_or 0 ind' m = 0)"
    if m: "m \<in> set names" for m
  proof -
    have "gm_get_or 0 ind' m = 0" if "gm_get_or 0 ind m = 0"
      using that deg [OF m] deg' [OF m] un [of m] by linarith
    then show ?thesis using zero [OF m] nxt [OF m] by auto
  qed
  have ndep: "set (after n) \<subseteq> ?P"
    using zero [OF nN] deg [OF nN] by (auto simp: filter_empty_conv)
  have same: "gm_get ?w d = gm_get w d" if "d \<in> ?P" for d
    using that nP by auto
  have md: "max_dep ?w (after m) = max_dep w (after m)" if "set (after m) \<subseteq> ?P" for m
    using that same by (intro max_dep_cong) blast
  have wts': "set (after m) \<subseteq> insert n ?P \<and> gm_get ?w m = Some (max_dep ?w (after m) + 1)"
    if "m \<in> insert n ?P" for m
    using that wts ndep md same by (cases "m = n") auto
  have accn: "n \<in> Wellfounded.acc (after_edges after names)"
    by (rule accI) (use ndep accP in \<open>auto simp: after_edges_def\<close>)
  have fresh: "m \<notin> insert n ?P \<union> set ready" if "m \<in> set next" for m
    using zero [of m] nxt [of m] next_names that by auto
  have rdy': "set (ready @ sort next) \<subseteq> set names - insert n ?P" "distinct (ready @ sort next)"
    using rdy dist next_names ndist fresh by auto
  have seen': "seen + 1 = card (insert n ?P)"
    using seen nP by simp
  have "insert n ?P \<subseteq> set names" "insert n ?P \<subseteq> Wellfounded.acc (after_edges after names)"
    using sub nN accn accP by simp_all
  then show ?thesis
    unfolding hook_inv_def Let_def P' by (intro conjI ballI) (assumption | rule seen' rdy' | erule deg' zero' wts' [THEN conjunct1] wts' [THEN conjunct2])+
qed

lemma hook_loop_inv:
  assumes "hook_loop after dpd ind w ready seen = (ind', w', seen')"
    and "hook_inv after names ind w ready seen"
    and "\<And>d m. count_list (gm_get_or [] dpd d) m = (if m \<in> set names then count_list (after m) d else 0)"
  shows "hook_inv after names ind' w' [] seen'"
  using assms
proof (induction after dpd ind w ready seen rule: hook_loop.induct)
  case (2 after dpd ind w n ready seen)
  obtain i nx where rel: "release_children (gm_get_or [] dpd n) ind [] = (i, nx)" by fastforce
  have "hook_inv after names i (gm_put n (max_dep w (after n) + 1) w) (ready @ sort nx) (seen + 1)"
    by (rule hook_inv_step [OF "2.prems"(2) rel "2.prems"(3)])
  with "2.prems" rel show ?case
    by (intro "2.IH" [OF rel [symmetric] refl]) simp_all
qed simp

lemma hook_inv_init:
  assumes "edge_tables after names = (ind, dpd)" and "distinct names"
  shows "hook_inv after names ind [] (sort (filter (\<lambda>n. gm_get_or 0 ind n = 0) names)) 0"
  using edge_tables_spec(1) [OF assms] assms(2) by (auto simp: hook_inv_def)

text \<open>What the loop leaves: exactly the tasks that cannot reach a cycle have a weight.\<close>

lemma hook_inv_final:
  assumes inv: "hook_inv after names ind w [] seen"
    and closed: "\<And>n. n \<in> set names \<Longrightarrow> set (after n) \<subseteq> set names"
  shows "fst ` set w = set names \<inter> Wellfounded.acc (after_edges after names)"
proof
  show "fst ` set w \<subseteq> set names \<inter> Wellfounded.acc (after_edges after names)"
    using inv by (auto simp: hook_inv_def Let_def)
  have "n \<in> set names \<longrightarrow> n \<in> fst ` set w" if "n \<in> Wellfounded.acc (after_edges after names)" for n
    using that
  proof (induction rule: acc.induct)
    case (accI n)
    show ?case
    proof
      assume n: "n \<in> set names"
      then have "filter (\<lambda>d. d \<notin> fst ` set w) (after n) = []"
        using accI.IH closed [OF n] by (auto simp: after_edges_def filter_empty_conv)
      with inv n show "n \<in> fst ` set w" by (auto simp: hook_inv_def Let_def)
    qed
  qed
  then show "set names \<inter> Wellfounded.acc (after_edges after names) \<subseteq> fst ` set w" by blast
qed

section \<open>Correctness against the \<open>after\<close> graph\<close>

text \<open>
  The \<open>after\<close> graph of a phase, read off the tasks alone: \<open>(dep, n)\<close> when task \<open>n\<close> of the phase
  lists \<open>dep\<close>, which is a task of the same phase.
\<close>

definition after_rel :: "'q Task gomap \<Rightarrow> TaskOn \<Rightarrow> (string \<times> string) set" where
  "after_rel tasks on =
     {(dep, n). \<exists>t d. gm_get tasks n = Some t \<and> t_On t = on \<and> dep \<in> set (t_After t)
                    \<and> gm_get tasks dep = Some d \<and> t_On d = on}"

definition in_phase :: "'q Task gomap \<Rightarrow> TaskOn \<Rightarrow> string \<Rightarrow> bool" where
  "in_phase tasks on n = (\<exists>t. gm_get tasks n = Some t \<and> t_On t = on)"

text \<open>The weight a task must have, given the weights of the others.\<close>

definition is_hook_weight :: "(string \<times> string) set \<Rightarrow> (string \<Rightarrow> int) \<Rightarrow> string \<Rightarrow> bool" where
  "is_hook_weight r w n =
     (if {d. (d, n) \<in> r} = {} then w n = 0 else w n = Max (w ` {d. (d, n) \<in> r}) + 1)"

lemma set_phase_names:
  "gm_wf tasks \<Longrightarrow> set (phase_names tasks on) = {n. in_phase tasks on n}"
  by (force simp: phase_names_def in_phase_def gm_get_wf_iff)

lemma distinct_phase_names: "gm_wf tasks \<Longrightarrow> distinct (phase_names tasks on)"
  by (simp add: phase_names_def gm_wf_def distinct_map_filter)

lemma after_edges_phase:
  assumes "gm_wf tasks"
  shows "after_edges (phase_after tasks (phase_names tasks on)) (phase_names tasks on)
         = after_rel tasks on"
  using set_phase_names [OF assms, of on]
  by (auto simp: after_edges_def after_rel_def phase_after_def in_phase_def split: option.splits)

lemma phase_after_closed: "set (phase_after tasks names n) \<subseteq> set names"
  by (auto simp: phase_after_def split: option.splits)

lemma set_phase_after:
  "gm_wf tasks \<Longrightarrow> in_phase tasks on n \<Longrightarrow>
   set (phase_after tasks (phase_names tasks on) n) = {d. (d, n) \<in> after_rel tasks on}"
  by (auto simp: set_phase_names phase_after_def after_rel_def in_phase_def)

lemma finite_after_rel: "finite (after_rel tasks on)"
proof (rule finite_subset)
  show "after_rel tasks on \<subseteq> fst ` set tasks \<times> fst ` set tasks"
    by (auto simp: after_rel_def dest!: gm_get_SomeD intro: rev_image_eqI)
qed simp

text \<open>\<open>max_dep\<close> over known weights is the maximum, or \<open>-1\<close> when there is none.\<close>

lemma max_dep_fold:
  assumes "\<And>d. d \<in> set deps \<Longrightarrow> \<exists>v. gm_get w d = Some v"
  shows "fold (\<lambda>dep m. case gm_get w dep of Some v \<Rightarrow> if v > m then v else m | None \<Rightarrow> m) deps (i::int)
         = Max (insert i (gm_get_or 0 w ` set deps))"
  using assms
proof (induction deps arbitrary: i)
  case (Cons d deps)
  obtain v where v: "gm_get w d = Some v" using Cons.prems [of d] by auto
  then have gv: "gm_get_or 0 w d = v" by (simp add: gm_get_or_def)
  have "(if v > i then v else i) = max i v" by auto
  with v Cons.IH [of "max i v"] Cons.prems have
    "fold (\<lambda>dep m. case gm_get w dep of Some v \<Rightarrow> if v > m then v else m | None \<Rightarrow> m) (d # deps) i
     = Max (insert (max i v) (gm_get_or 0 w ` set deps))" by simp
  also have "\<dots> = Max (insert i (gm_get_or 0 w ` set (d # deps)))"
    by (cases "set deps = {}") (auto simp: gv Max_insert max.assoc)
  finally show ?case .
qed simp

lemma max_dep_Max:
  assumes "\<And>d. d \<in> set deps \<Longrightarrow> \<exists>v \<ge> 0. gm_get w d = Some v"
  shows "max_dep w deps = (if set deps = {} then - 1 else Max (gm_get_or 0 w ` set deps))"
proof (cases "set deps = {}")
  case False
  then obtain d where d: "d \<in> set deps" by (meson ex_in_conv)
  with assms have "0 \<le> gm_get_or 0 w d" by (force simp: gm_get_or_def)
  also have "\<dots> \<le> Max (gm_get_or 0 w ` set deps)" using d by (intro Max_ge) auto
  finally have "Max (gm_get_or 0 w ` set deps) \<ge> 0" .
  with False max_dep_fold [of deps w "- 1"] assms show ?thesis
    by (auto simp: max_dep_def Max_insert max_def)
qed (simp add: max_dep_def)

lemma max_dep_ge: "max_dep w deps \<ge> - 1"
proof -
  define f where "f = (\<lambda>dep m. case gm_get w dep of Some v \<Rightarrow> if v > m then v else m | None \<Rightarrow> (m::int))"
  have step: "i \<le> f d i" for d i by (auto simp: f_def split: option.splits)
  have "i \<le> fold f deps i" for i
  proof (induction deps arbitrary: i)
    case (Cons d deps)
    show ?case using order_trans [OF step Cons.IH] by simp
  qed simp
  then show ?thesis by (simp add: max_dep_def f_def)
qed

text \<open>What the loop ends with, in terms of the graph of the phase.\<close>

lemma hook_phase_run:
  fixes tasks :: "'q Task gomap" and on :: TaskOn
  defines "names \<equiv> phase_names tasks on" and "after \<equiv> phase_after tasks (phase_names tasks on)"
  assumes wf: "gm_wf tasks" and tables: "edge_tables after names = (ind, dpd)"
    and run: "hook_loop after dpd ind [] (sort (filter (\<lambda>n. gm_get_or 0 ind n = 0) names)) 0
              = (ind', w, seen)"
  shows "hook_inv after names ind' w [] seen"
    and "fst ` set w = {n. in_phase tasks on n \<and> n \<in> Wellfounded.acc (after_rel tasks on)}"
proof -
  have dist: "distinct names" using wf by (simp add: names_def distinct_phase_names)
  show inv: "hook_inv after names ind' w [] seen"
    by (rule hook_loop_inv [OF run hook_inv_init [OF tables dist] edge_tables_spec(2) [OF tables dist]])
  have "fst ` set w = set names \<inter> Wellfounded.acc (after_edges after names)"
    using inv by (rule hook_inv_final) (simp add: after_def names_def phase_after_closed)
  then show "fst ` set w = {n. in_phase tasks on n \<and> n \<in> Wellfounded.acc (after_rel tasks on)}"
    using after_edges_phase [OF wf, of on] set_phase_names [OF wf, of on]
    by (auto simp: after_def names_def)
qed

lemma hook_phase_cases:
  assumes wf: "gm_wf tasks"
  obtains ind w seen where
    "hook_inv (phase_after tasks (phase_names tasks on)) (phase_names tasks on) ind w [] seen"
    "fst ` set w = {n. in_phase tasks on n \<and> n \<in> Wellfounded.acc (after_rel tasks on)}"
    "hookWeightsForPhase tasks on =
       (if seen \<noteq> length (phase_names tasks on)
        then Inl (AfterCycle on (filter (\<lambda>n. gm_get_or 0 ind n > 0) (phase_names tasks on)))
        else Inr w)"
proof (cases "phase_names tasks on = []")
  case True
  then have "{n. in_phase tasks on n} = {}" using set_phase_names [OF wf, of on] by simp
  then show ?thesis using True
    by (intro that [of "[]" "[]" 0]) (auto simp: hook_inv_def hookWeightsForPhase_def)
next
  case False
  let ?names = "phase_names tasks on" and ?after = "phase_after tasks (phase_names tasks on)"
  obtain i dpd where tables: "edge_tables ?after ?names = (i, dpd)" by fastforce
  obtain ind w seen where run:
    "hook_loop ?after dpd i [] (sort (filter (\<lambda>n. gm_get_or 0 i n = 0) ?names)) 0 = (ind, w, seen)"
    by (metis prod_cases3)
  note facts = hook_phase_run [OF wf tables run]
  show ?thesis
    using facts False
    by (intro that [of ind w seen]) (simp_all add: hookWeightsForPhase_def Let_def tables run)
qed

lemma hook_inv_seen:
  assumes "hook_inv after names ind w [] seen" "distinct names"
  shows "seen = length names \<longleftrightarrow> fst ` set w = set names"
proof -
  from assms have "fst ` set w \<subseteq> set names" "seen = card (fst ` set w)" "length names = card (set names)"
    by (auto simp: hook_inv_def Let_def distinct_card)
  then show ?thesis by (metis List.finite_set card_subset_eq)
qed

text \<open>The weights of a phase exist exactly when its \<open>after\<close> graph has no cycle.\<close>

lemma hookWeightsForPhase_ok_iff:
  assumes wf: "gm_wf tasks"
  shows "is_ok (hookWeightsForPhase tasks on) \<longleftrightarrow> acyclic (after_rel tasks on)"
proof -
  obtain ind w seen where
    inv: "hook_inv (phase_after tasks (phase_names tasks on)) (phase_names tasks on) ind w [] seen"
    and dom: "fst ` set w = {n. in_phase tasks on n \<and> n \<in> Wellfounded.acc (after_rel tasks on)}"
    and res: "hookWeightsForPhase tasks on =
       (if seen \<noteq> length (phase_names tasks on)
        then Inl (AfterCycle on (filter (\<lambda>n. gm_get_or 0 ind n > 0) (phase_names tasks on)))
        else Inr w)"
    by (rule hook_phase_cases [OF wf])
  have "is_ok (hookWeightsForPhase tasks on)
        \<longleftrightarrow> (\<forall>n. in_phase tasks on n \<longrightarrow> n \<in> Wellfounded.acc (after_rel tasks on))"
    using hook_inv_seen [OF inv distinct_phase_names [OF wf]] dom set_phase_names [OF wf, of on]
    by (auto simp: res)
  also have "\<dots> \<longleftrightarrow> acyclic (after_rel tasks on)"
  proof
    assume all: "\<forall>n. in_phase tasks on n \<longrightarrow> n \<in> Wellfounded.acc (after_rel tasks on)"
    have "(n, n) \<in> (after_rel tasks on)\<^sup>+ \<Longrightarrow> in_phase tasks on n" for n
      by (auto simp: after_rel_def in_phase_def dest: tranclD)
    with all show "acyclic (after_rel tasks on)" by (auto simp: acyclic_def dest: acc_no_cycle)
  next
    assume "acyclic (after_rel tasks on)"
    then have "wf (after_rel tasks on)" by (rule finite_acyclic_wf [OF finite_after_rel])
    then show "\<forall>n. in_phase tasks on n \<longrightarrow> n \<in> Wellfounded.acc (after_rel tasks on)"
      by (simp add: wf_iff_acc)
  qed
  finally show ?thesis .
qed

text \<open>A successful phase: every task of the phase, and only those, with the weight the graph gives.\<close>

lemma hookWeightsForPhase_weights:
  assumes wf: "gm_wf tasks" and ok: "hookWeightsForPhase tasks on = Inr w"
  shows "gm_has w n \<longleftrightarrow> in_phase tasks on n"
    and "in_phase tasks on n \<Longrightarrow> gm_get_or 0 w n \<ge> 0"
    and "in_phase tasks on n \<Longrightarrow> is_hook_weight (after_rel tasks on) (gm_get_or 0 w) n"
proof -
  obtain ind w' seen where
    inv: "hook_inv (phase_after tasks (phase_names tasks on)) (phase_names tasks on) ind w' [] seen"
    and res: "hookWeightsForPhase tasks on =
       (if seen \<noteq> length (phase_names tasks on)
        then Inl (AfterCycle on (filter (\<lambda>n. gm_get_or 0 ind n > 0) (phase_names tasks on)))
        else Inr w')"
    by (rule hook_phase_cases [OF wf])
  from ok res have seen: "seen = length (phase_names tasks on)" and w: "w' = w"
    by (simp_all split: if_splits)
  have all: "fst ` set w = {n. in_phase tasks on n}"
    using hook_inv_seen [OF inv distinct_phase_names [OF wf]] seen set_phase_names [OF wf, of on] w
    by simp
  then show "gm_has w n \<longleftrightarrow> in_phase tasks on n" by (simp add: gm_has_keys)
  have get: "gm_get w m = Some (max_dep w (phase_after tasks (phase_names tasks on) m) + 1)"
    if "in_phase tasks on m" for m
    using inv that all by (simp add: hook_inv_def w Let_def)
  have nonneg: "gm_get_or 0 w m \<ge> 0" if "in_phase tasks on m" for m
    using get [OF that] max_dep_ge [of w "phase_after tasks (phase_names tasks on) m"]
    by (simp add: gm_get_or_def)
  then show "in_phase tasks on n \<Longrightarrow> gm_get_or 0 w n \<ge> 0" by simp
  show "is_hook_weight (after_rel tasks on) (gm_get_or 0 w) n" if n: "in_phase tasks on n"
  proof -
    let ?deps = "phase_after tasks (phase_names tasks on) n"
    have "\<exists>v \<ge> 0. gm_get w d = Some v" if "d \<in> set ?deps" for d
    proof -
      have "in_phase tasks on d"
        using that phase_after_closed set_phase_names [OF wf, of on] by blast
      then show ?thesis using get [of d] nonneg [of d] by (simp add: gm_get_or_def)
    qed
    then have "max_dep w ?deps = (if set ?deps = {} then - 1 else Max (gm_get_or 0 w ` set ?deps))"
      by (rule max_dep_Max)
    then show ?thesis
      using get [OF n] set_phase_after [OF wf n] by (auto simp: is_hook_weight_def gm_get_or_def)
  qed
qed

text \<open>A failed phase names exactly the tasks on a cycle and those waiting behind one, in order.\<close>

lemma hookWeightsForPhase_stuck:
  assumes wf: "gm_wf tasks" and err: "hookWeightsForPhase tasks on = Inl e"
  shows "\<exists>stuck. e = AfterCycle on stuck \<and> sorted stuck \<and> distinct stuck \<and> stuck \<noteq> [] \<and>
    set stuck = {n. in_phase tasks on n \<and>
      (\<exists>c. (c, c) \<in> (after_rel tasks on)\<^sup>+ \<and> (c, n) \<in> (after_rel tasks on)\<^sup>*)}"
proof -
  obtain ind w seen where
    inv: "hook_inv (phase_after tasks (phase_names tasks on)) (phase_names tasks on) ind w [] seen"
    and dom: "fst ` set w = {n. in_phase tasks on n \<and> n \<in> Wellfounded.acc (after_rel tasks on)}"
    and res: "hookWeightsForPhase tasks on =
       (if seen \<noteq> length (phase_names tasks on)
        then Inl (AfterCycle on (filter (\<lambda>n. gm_get_or 0 ind n > 0) (phase_names tasks on)))
        else Inr w)"
    by (rule hook_phase_cases [OF wf])
  let ?names = "phase_names tasks on"
  let ?stuck = "filter (\<lambda>n. gm_get_or 0 ind n > 0) ?names"
  from err res have e: "e = AfterCycle on ?stuck" and "seen \<noteq> length ?names"
    by (simp_all split: if_splits)
  then have miss: "fst ` set w \<noteq> set ?names"
    using hook_inv_seen [OF inv distinct_phase_names [OF wf]] by simp
  have "gm_get_or 0 ind n > 0 \<longleftrightarrow> n \<notin> fst ` set w" if "n \<in> set ?names" for n
  proof -
    from inv that have "gm_get_or 0 ind n \<ge> 0" "(n \<in> fst ` set w) = (gm_get_or 0 ind n = 0)"
      by (simp_all add: hook_inv_def Let_def)
    then show ?thesis by auto
  qed
  then have stuck: "set ?stuck = {n. in_phase tasks on n \<and> n \<notin> Wellfounded.acc (after_rel tasks on)}"
    using dom set_phase_names [OF wf, of on] by auto
  have "set ?stuck \<noteq> {}"
    using stuck dom miss set_phase_names [OF wf, of on] by auto
  then have "?stuck \<noteq> []" by (metis set_empty)
  moreover have "sorted ?stuck" "distinct ?stuck"
    using distinct_phase_names [OF wf, of on]
    by (auto simp: phase_names_def sorted_wrt_filter)
  ultimately show ?thesis
    using e stuck not_acc_iff_cycle [OF finite_after_rel, of _ tasks on]
    by (intro exI [of _ ?stuck]) simp
qed

section \<open>Both phases\<close>

lemma hook_loop_wf:
  "hook_loop after dpd ind w ready seen = (ind', w', seen') \<Longrightarrow> gm_wf w \<Longrightarrow> gm_wf w'"
  by (induction after dpd ind w ready seen rule: hook_loop.induct)
    (auto simp: Let_def split: prod.splits)

lemma hookWeightsForPhase_wf: "hookWeightsForPhase tasks on = Inr w \<Longrightarrow> gm_wf w"
  by (auto simp: hookWeightsForPhase_def Let_def dest: hook_loop_wf split: if_splits prod.splits)

lemma in_phase_unique: "in_phase tasks on n \<Longrightarrow> in_phase tasks on' n \<Longrightarrow> on = on'"
  by (auto simp: in_phase_def)

lemma AssignHookWeights_parts:
  assumes wf: "gm_wf tasks" and ok: "AssignHookWeights tasks = Inr w"
    and on: "IsHook on" and n: "in_phase tasks on n"
  obtains p where "hookWeightsForPhase tasks on = Inr p"
    and "\<And>m. in_phase tasks on m \<Longrightarrow> gm_get w m = gm_get p m"
proof -
  from ok obtain pre post where
    pre: "hookWeightsForPhase tasks TaskOnPreDeploy = Inr pre"
    and post: "hookWeightsForPhase tasks TaskOnPostDeploy = Inr post"
    and w: "w = gm_copy (gm_copy [] pre) post"
    by (auto simp: AssignHookWeights_def)
  have get: "gm_get w m = (case gm_get post m of None \<Rightarrow> gm_get pre m | Some v \<Rightarrow> Some v)" for m
    using hookWeightsForPhase_wf [OF pre] hookWeightsForPhase_wf [OF post]
    by (simp add: w gm_get_copy split: option.splits)
  have pre_dom: "gm_get pre m \<noteq> None \<longleftrightarrow> in_phase tasks TaskOnPreDeploy m" for m
    using hookWeightsForPhase_weights(1) [OF wf pre, of m] by (simp add: gm_has_def)
  have post_dom: "gm_get post m \<noteq> None \<longleftrightarrow> in_phase tasks TaskOnPostDeploy m" for m
    using hookWeightsForPhase_weights(1) [OF wf post, of m] by (simp add: gm_has_def)
  have neq: "TaskOnPreDeploy \<noteq> TaskOnPostDeploy" by (simp add: enum_defs)
  show ?thesis
  proof (cases "on = TaskOnPreDeploy")
    case True
    have "gm_get w m = gm_get pre m" if "in_phase tasks on m" for m
      using that True get [of m] post_dom [of m] in_phase_unique neq
      by (metis option.case_eq_if)
    with True pre show ?thesis by (intro that) auto
  next
    case False
    with on have o: "on = TaskOnPostDeploy" by (simp add: IsHook_def)
    have "gm_get w m = gm_get post m" if "in_phase tasks on m" for m
      using that o get [of m] post_dom [of m] by (auto split: option.splits)
    with o post show ?thesis by (intro that) auto
  qed
qed

lemma AssignHookWeights_has:
  assumes wf: "gm_wf tasks" and ok: "AssignHookWeights tasks = Inr w"
  shows "gm_has w n \<longleftrightarrow> (\<exists>on. IsHook on \<and> in_phase tasks on n)"
proof -
  from ok obtain pre post where
    pre: "hookWeightsForPhase tasks TaskOnPreDeploy = Inr pre"
    and post: "hookWeightsForPhase tasks TaskOnPostDeploy = Inr post"
    and w: "w = gm_copy (gm_copy [] pre) post"
    by (auto simp: AssignHookWeights_def)
  then have "gm_has w n \<longleftrightarrow> gm_has pre n \<or> gm_has post n"
    by (auto simp: gm_has_keys keys_copy)
  then show ?thesis
    using hookWeightsForPhase_weights(1) [OF wf pre] hookWeightsForPhase_weights(1) [OF wf post]
    by (auto simp: IsHook_def)
qed

lemma after_rel_in_phase: "(d, n) \<in> after_rel tasks on \<Longrightarrow> in_phase tasks on d \<and> in_phase tasks on n"
  by (auto simp: after_rel_def in_phase_def)

lemma AssignHookWeights_weight:
  assumes wf: "gm_wf tasks" and ok: "AssignHookWeights tasks = Inr w"
    and on: "IsHook on" and n: "in_phase tasks on n"
  shows "is_hook_weight (after_rel tasks on) (gm_get_or 0 w) n" and "gm_get_or 0 w n \<ge> 0"
proof -
  obtain p where p: "hookWeightsForPhase tasks on = Inr p"
    and same: "\<And>m. in_phase tasks on m \<Longrightarrow> gm_get w m = gm_get p m"
    using AssignHookWeights_parts [OF assms] by blast
  have same': "gm_get_or 0 w m = gm_get_or 0 p m" if "in_phase tasks on m" for m
    using same [OF that] by (simp add: gm_get_or_def)
  note spec = hookWeightsForPhase_weights(2,3) [OF wf p n]
  have img: "gm_get_or 0 w ` {d. (d, n) \<in> after_rel tasks on}
             = gm_get_or 0 p ` {d. (d, n) \<in> after_rel tasks on}"
    by (rule image_cong) (auto dest: after_rel_in_phase intro: same')
  show "is_hook_weight (after_rel tasks on) (gm_get_or 0 w) n"
    using spec(2) same' [OF n] img by (simp add: is_hook_weight_def)
  show "gm_get_or 0 w n \<ge> 0"
    using spec(1) same' [OF n] by simp
qed

lemma is_hook_weight_less:
  assumes "is_hook_weight r w n" "(d, n) \<in> r" "finite r"
  shows "w d < w n"
proof -
  have "{d. (d, n) \<in> r} \<subseteq> fst ` r" by (auto intro: rev_image_eqI)
  then have "finite {d. (d, n) \<in> r}" using \<open>finite r\<close> by (blast intro: finite_subset)
  then have "w d \<le> Max (w ` {d. (d, n) \<in> r})" using assms(2) by (intro Max_ge) auto
  with assms(1,2) show ?thesis by (auto simp: is_hook_weight_def split: if_splits)
qed

lemma AssignHookWeights_is_ok:
  "gm_wf tasks \<Longrightarrow>
   is_ok (AssignHookWeights tasks) \<longleftrightarrow> (\<forall>on. IsHook on \<longrightarrow> acyclic (after_rel tasks on))"
  using hookWeightsForPhase_ok_iff [of tasks TaskOnPreDeploy]
    hookWeightsForPhase_ok_iff [of tasks TaskOnPostDeploy]
  by (auto simp: AssignHookWeights_def is_ok_iff IsHook_def)

section \<open>The contract the deploy relies on\<close>

text \<open>
  What a client of the weights relies on: a weight for every hook task and no other, larger
  than the weight of each of its dependencies. Then every schedule that runs a phase by
  non-decreasing weight runs each task after its dependencies, whatever breaks the ties.
\<close>

locale hook_scheduler =
  fixes assign :: "'q Task gomap \<Rightarrow> (hook_error, int gomap) result"
  assumes assign_orders:
      "gm_wf tasks \<Longrightarrow> assign tasks = Inr w \<Longrightarrow> IsHook on \<Longrightarrow> (dep, n) \<in> after_rel tasks on
       \<Longrightarrow> gm_get_or 0 w dep < gm_get_or 0 w n"
    and assign_domain:
      "gm_wf tasks \<Longrightarrow> assign tasks = Inr w \<Longrightarrow>
       gm_has w n = (\<exists>on. IsHook on \<and> in_phase tasks on n)"
    and assign_total:
      "gm_wf tasks \<Longrightarrow> (\<And>on. IsHook on \<Longrightarrow> acyclic (after_rel tasks on)) \<Longrightarrow>
       \<exists>w. assign tasks = Inr w"
begin

lemma schedule_respects_after:
  assumes "gm_wf tasks" "assign tasks = Inr w" "IsHook on" "(dep, n) \<in> after_rel tasks on"
    and sorted: "sorted (map (gm_get_or 0 w) (before @ n # later))"
    and dep: "dep \<in> set (before @ n # later)"
  shows "dep \<in> set before"
proof -
  have less: "gm_get_or 0 w dep < gm_get_or 0 w n" by (rule assign_orders [OF assms(1-4)])
  have "\<forall>m \<in> set (n # later). gm_get_or 0 w n \<le> gm_get_or 0 w m"
    using sorted by (auto simp: sorted_append)
  with less dep show ?thesis by (auto dest: leD)
qed

lemma success_means_acyclic:
  assumes "gm_wf tasks" "assign tasks = Inr w" "IsHook on"
  shows "acyclic (after_rel tasks on)"
proof (rule acyclicI_order [where f = "\<lambda>n. - gm_get_or 0 w n"])
  fix d n
  assume "(d, n) \<in> after_rel tasks on"
  then show "- gm_get_or 0 w n < - gm_get_or 0 w d"
    using assign_orders [OF assms] by simp
qed

end

interpretation hs: hook_scheduler AssignHookWeights
proof
  fix tasks :: "'a Task gomap" and w on dep n
  assume "gm_wf tasks" "AssignHookWeights tasks = Inr w" "IsHook on" "(dep, n) \<in> after_rel tasks on"
  then show "gm_get_or 0 w dep < gm_get_or 0 w n"
    using AssignHookWeights_weight(1) after_rel_in_phase is_hook_weight_less finite_after_rel by metis
next
  fix tasks :: "'a Task gomap" and w n
  assume "gm_wf tasks" "AssignHookWeights tasks = Inr w"
  then show "gm_has w n = (\<exists>on. IsHook on \<and> in_phase tasks on n)"
    by (rule AssignHookWeights_has)
next
  fix tasks :: "'a Task gomap"
  assume "gm_wf tasks" "\<And>on. IsHook on \<Longrightarrow> acyclic (after_rel tasks on)"
  then show "\<exists>w. AssignHookWeights tasks = Inr w"
    using AssignHookWeights_is_ok [of tasks] by (auto simp: is_ok_iff)
qed

section \<open>Properties\<close>

text \<open>
  C20: assigning hook weights succeeds exactly when neither the preDeploy nor the postDeploy
  \<open>after\<close> graph has a cycle. The work loop always ends, so a spec gets its weights or an error.
\<close>

theorem assign_hook_weights_iff_acyclic:
  assumes "gm_wf tasks"
  shows "(\<exists>w. AssignHookWeights tasks = Inr w) \<longleftrightarrow>
         acyclic (after_rel tasks TaskOnPreDeploy) \<and> acyclic (after_rel tasks TaskOnPostDeploy)"
  using AssignHookWeights_is_ok [OF assms] by (auto simp: is_ok_iff IsHook_def)

text \<open>
  C34: the weights are the ones the \<open>after\<close> graph gives. Exactly the hook tasks get one; a task
  with no dependency in its phase gets 0, any other gets one more than the largest weight among
  its dependencies.
\<close>

theorem assign_hook_weights_exact:
  assumes "gm_wf tasks" and "AssignHookWeights tasks = Inr w"
  shows "(\<forall>n. gm_has w n \<longleftrightarrow> (\<exists>t. gm_get tasks n = Some t \<and> IsHook (t_On t))) \<and>
         (\<forall>n t. gm_get tasks n = Some t \<longrightarrow> IsHook (t_On t) \<longrightarrow>
            is_hook_weight (after_rel tasks (t_On t)) (gm_get_or 0 w) n)"
  using AssignHookWeights_has [OF assms] AssignHookWeights_weight(1) [OF assms]
  by (auto simp: in_phase_def)

text \<open>
  deploy order. Any run of a phase by non-decreasing hook weight, whatever it does with
  equal weights, runs a task only after every task it lists in \<open>after\<close>.
\<close>

theorem hook_order_respects_after:
  assumes "gm_wf tasks" and "AssignHookWeights tasks = Inr w" and "IsHook on"
    and "(dep, n) \<in> after_rel tasks on"
    and "sorted (map (gm_get_or 0 w) (before @ n # later))"
    and "dep \<in> set (before @ n # later)"
  shows "dep \<in> set before"
  using assms by (rule hs.schedule_respects_after)

text \<open>
  when a phase cannot be ordered, the error lists, sorted and without repetition, exactly
  the tasks on a cycle and the tasks waiting behind one.
\<close>

theorem hook_cycle_error_exact:
  assumes "gm_wf tasks" and "hookWeightsForPhase tasks on = Inl e"
  shows "\<exists>stuck. e = AfterCycle on stuck \<and> sorted stuck \<and> distinct stuck \<and> stuck \<noteq> [] \<and>
    set stuck = {n. (\<exists>t. gm_get tasks n = Some t \<and> t_On t = on) \<and>
      (\<exists>c. (c, c) \<in> (after_rel tasks on)\<^sup>+ \<and> (c, n) \<in> (after_rel tasks on)\<^sup>*)}"
  using hookWeightsForPhase_stuck [OF assms] by (simp add: in_phase_def)

text \<open>Example specs for the witnesses: a chain of two migrations, and a two-task cycle.\<close>

definition ex_chain :: "int Task gomap" where
  "ex_chain =
     [(''seed'', zero_Task\<lparr>t_On := TaskOnPreDeploy, t_After := [''migrate'']\<rparr>),
      (''smoke'', zero_Task\<lparr>t_On := TaskOnPostDeploy\<rparr>),
      (''migrate'', zero_Task\<lparr>t_On := TaskOnPreDeploy\<rparr>)]"

definition ex_cycle :: "int Task gomap" where
  "ex_cycle =
     [(''a'', zero_Task\<lparr>t_On := TaskOnPreDeploy, t_After := [''b'']\<rparr>),
      (''b'', zero_Task\<lparr>t_On := TaskOnPreDeploy, t_After := [''a'']\<rparr>),
      (''c'', zero_Task\<lparr>t_On := TaskOnPreDeploy, t_After := [''a'']\<rparr>),
      (''d'', zero_Task\<lparr>t_On := TaskOnPreDeploy\<rparr>)]"

lemma ex_chain_wf: "gm_wf ex_chain" and ex_cycle_wf: "gm_wf ex_cycle"
  by code_simp+

lemma ex_chain_weights:
  "AssignHookWeights ex_chain = Inr [(''migrate'', 0), (''seed'', 1), (''smoke'', 0)]"
  by code_simp

lemma ex_cycle_error:
  "hookWeightsForPhase ex_cycle TaskOnPreDeploy = Inl (AfterCycle TaskOnPreDeploy [''a'', ''b'', ''c''])"
  by code_simp

theorem assign_hook_weights_iff_acyclic_witness:
  "gm_wf ex_chain \<and> acyclic (after_rel ex_chain TaskOnPreDeploy)
   \<and> acyclic (after_rel ex_chain TaskOnPostDeploy)"
  using assign_hook_weights_iff_acyclic [OF ex_chain_wf] ex_chain_weights ex_chain_wf by blast

theorem assign_hook_weights_exact_witness:
  "\<exists>t. gm_get ex_chain ''seed'' = Some t \<and> IsHook (t_On t) \<and>
     is_hook_weight (after_rel ex_chain (t_On t))
       (gm_get_or 0 [(''migrate'', 0), (''seed'', 1), (''smoke'', 0)]) ''seed''"
proof -
  have "gm_has [(''migrate'', 0 :: int), (''seed'', 1), (''smoke'', 0)] ''seed''" by code_simp
  with assign_hook_weights_exact [OF ex_chain_wf ex_chain_weights] show ?thesis by blast
qed

theorem hook_order_respects_after_witness:
  "\<exists>before later. ''seed'' # later = drop (length before) [''migrate'', ''seed''] \<and> ''migrate'' \<in> set before"
proof (intro exI conjI)
  show "[''seed''] = drop (length [''migrate'']) [''migrate'', ''seed'']" by simp
  show "''migrate'' \<in> set [''migrate'']"
  proof (rule hook_order_respects_after [OF ex_chain_wf ex_chain_weights,
      where on = TaskOnPreDeploy and n = "''seed''" and later = "[]"])
    show "IsHook TaskOnPreDeploy" by code_simp
    show "(''migrate'', ''seed'') \<in> after_rel ex_chain TaskOnPreDeploy"
      by (simp add: after_rel_def ex_chain_def gm_get_def zero_Task_def enum_defs)
    show "sorted (map (gm_get_or (0 :: int) [(''migrate'', 0), (''seed'', 1), (''smoke'', 0)])
            ([''migrate''] @ [''seed'']))" by (simp add: gm_get_or_def gm_get_def)
  qed simp
qed

theorem hook_cycle_error_exact_witness:
  "set [''a'', ''b'', ''c''] = {n. (\<exists>t. gm_get ex_cycle n = Some t \<and> t_On t = TaskOnPreDeploy) \<and>
     (\<exists>c. (c, c) \<in> (after_rel ex_cycle TaskOnPreDeploy)\<^sup>+
        \<and> (c, n) \<in> (after_rel ex_cycle TaskOnPreDeploy)\<^sup>*)}"
  using hook_cycle_error_exact [OF ex_cycle_wf ex_cycle_error] by auto

text \<open>
  determinism. The result does not depend on the order in which the Go runtime iterates
  over the task map.
\<close>

theorem assign_hook_weights_deterministic:
  assumes "same_map tasks tasks'"
  shows "AssignHookWeights tasks = AssignHookWeights tasks'"
proof -
  have names: "phase_names tasks on = phase_names tasks' on" for on
    unfolding phase_names_def
    using assms by (intro sort_mset_eq) (simp add: same_map_def)
  have after: "phase_after tasks = phase_after tasks'"
    using same_map_get [OF assms] by (auto simp: phase_after_def fun_eq_iff)
  have "hookWeightsForPhase tasks on = hookWeightsForPhase tasks' on" for on
    unfolding hookWeightsForPhase_def names after by (rule refl)
  then show ?thesis by (simp add: AssignHookWeights_def)
qed

theorem assign_hook_weights_deterministic_witness:
  "same_map ex_chain (rev ex_chain) \<and> AssignHookWeights ex_chain = AssignHookWeights (rev ex_chain)"
proof -
  have "same_map ex_chain (rev ex_chain)"
    using ex_chain_wf by (rule same_map_rev)
  then show ?thesis using assign_hook_weights_deterministic [of ex_chain "rev ex_chain"] by simp
qed

end
