(* ===== verification/Sha256.thy ===== *)
theory Sha256
  imports Prelude "HOL-Library.Word"
begin

text \<open>
  SHA-256 (Go's \<open>crypto/sha256.Sum256\<close>) over 32-bit words, as FIPS 180-4 defines it: the
  environment identity and the cache keys use the digest's first bytes as a suffix. The
  additions wrap at 32 bits.
\<close>

unbundle bit_operations_syntax

type_synonym w32 = "32 word"

definition sha_K :: "w32 list" where
  "sha_K =
    [1116352408, 1899447441, 3049323471, 3921009573, 961987163, 1508970993, 2453635748, 2870763221,
     3624381080, 310598401, 607225278, 1426881987, 1925078388, 2162078206, 2614888103, 3248222580,
     3835390401, 4022224774, 264347078, 604807628, 770255983, 1249150122, 1555081692, 1996064986,
     2554220882, 2821834349, 2952996808, 3210313671, 3336571891, 3584528711, 113926993, 338241895,
     666307205, 773529912, 1294757372, 1396182291, 1695183700, 1986661051, 2177026350, 2456956037,
     2730485921, 2820302411, 3259730800, 3345764771, 3516065817, 3600352804, 4094571909, 275423344,
     430227734, 506948616, 659060556, 883997877, 958139571, 1322822218, 1537002063, 1747873779,
     1955562222, 2024104815, 2227730452, 2361852424, 2428436474, 2756734187, 3204031479, 3329325298]"

definition sha_H0 :: "w32 list" where
  "sha_H0 = [1779033703, 3144134277, 1013904242, 2773480762, 1359893119, 2600822924, 528734635, 1541459225]"

definition rotr :: "nat \<Rightarrow> w32 \<Rightarrow> w32" where
  "rotr n x = drop_bit n x OR push_bit (32 - n) x"

text \<open>Message schedule: words 16 to 63 from the block's sixteen words.\<close>

fun sha_extend :: "nat \<Rightarrow> w32 list \<Rightarrow> w32 list" where
  "sha_extend 0 ws = ws"
| "sha_extend (Suc n) ws =
     (let i = length ws;
          a = ws ! (i - 15);
          b = ws ! (i - 2);
          s0 = rotr 7 a XOR rotr 18 a XOR drop_bit 3 a;
          s1 = rotr 17 b XOR rotr 19 b XOR drop_bit 10 b
      in sha_extend n (ws @ [ws ! (i - 16) + s0 + ws ! (i - 7) + s1]))"

fun sha_round :: "w32 \<times> w32 \<Rightarrow> w32 list \<Rightarrow> w32 list" where
  "sha_round (k, w) [a, b, c, d, e, f, g, h] =
     (let s1 = rotr 6 e XOR rotr 11 e XOR rotr 25 e;
          ch = (e AND f) XOR (NOT e AND g);
          t1 = h + s1 + ch + k + w;
          s0 = rotr 2 a XOR rotr 13 a XOR rotr 22 a;
          maj = (a AND b) XOR (a AND c) XOR (b AND c);
          t2 = s0 + maj
      in [t1 + t2, a, b, c, d + t1, e, f, g])"
| "sha_round _ st = st"

definition sha_block :: "w32 list \<Rightarrow> w32 list \<Rightarrow> w32 list" where
  "sha_block hs ws = map2 (+) hs (fold sha_round (zip sha_K (sha_extend 48 ws)) hs)"

fun be_words :: "int list \<Rightarrow> w32 list" where
  "be_words (a # b # c # d # bs) = word_of_int (((a * 256 + b) * 256 + c) * 256 + d) # be_words bs"
| "be_words _ = []"

fun be_bytes :: "nat \<Rightarrow> int \<Rightarrow> int list" where
  "be_bytes 0 n = []"
| "be_bytes (Suc k) n = be_bytes k (n div 256) @ [n mod 256]"

text \<open>Padding: a one bit, zeros up to 56 bytes modulo 64, the bit length in 8 bytes.\<close>

definition sha_pad :: "int list \<Rightarrow> int list" where
  "sha_pad bs =
     bs @ [128] @ replicate ((119 - length bs mod 64) mod 64) 0 @ be_bytes 8 (8 * int (length bs))"

function sha_blocks :: "w32 list \<Rightarrow> w32 list \<Rightarrow> w32 list" where
  "sha_blocks hs ws = (if ws = [] then hs else sha_blocks (sha_block hs (take 16 ws)) (drop 16 ws))"
  by pat_completeness auto
termination by (relation "measure (\<lambda>(hs, ws). length ws)") auto

declare sha_blocks.simps [simp del]

definition Sum256 :: "string \<Rightarrow> int list" where
  "Sum256 s =
     concat (map (\<lambda>w. be_bytes 4 (uint w)) (sha_blocks sha_H0 (be_words (sha_pad (map of_char s)))))"

text \<open>\<open>fmt.Sprintf("%x", b)\<close> of a byte slice: two lower-case hexadecimal digits per byte.\<close>

definition hex_digit :: "int \<Rightarrow> char" where
  "hex_digit n = ''0123456789abcdef'' ! nat n"

definition hex_bytes :: "int list \<Rightarrow> string" where
  "hex_bytes bs = concat (map (\<lambda>b. [hex_digit (b div 16), hex_digit (b mod 16)]) bs)"

section \<open>The digest's length\<close>

lemma length_be_bytes [simp]: "length (be_bytes k n) = k"
  by (induction k arbitrary: n) auto

lemma length_sha_round: "length st = 8 \<Longrightarrow> length (sha_round kw st) = 8"
  by (induction kw st rule: sha_round.induct) (auto simp: Let_def)

lemma length_fold_rounds: "length st = 8 \<Longrightarrow> length (fold sha_round kws st) = 8"
  by (induction kws arbitrary: st) (auto simp: length_sha_round)

lemma length_sha_block: "length hs = 8 \<Longrightarrow> length (sha_block hs ws) = 8"
  by (simp add: sha_block_def length_fold_rounds)

lemma length_sha_blocks: "length hs = 8 \<Longrightarrow> length (sha_blocks hs ws) = 8"
proof (induction hs ws rule: sha_blocks.induct)
  case (1 hs ws)
  then show ?case by (subst sha_blocks.simps) (simp add: length_sha_block)
qed

lemma length_Sum256 [simp]: "length (Sum256 s) = 32"
proof -
  have "length (sha_blocks sha_H0 (be_words (sha_pad (map of_char s)))) = 8"
    by (rule length_sha_blocks) (simp add: sha_H0_def)
  then show ?thesis by (simp add: Sum256_def length_concat comp_def sum_list_triv)
qed

lemma length_sha_pad: "length (sha_pad bs) mod 64 = 0"
proof -
  define r where "r = length bs mod 64"
  define z where "z = (119 - r) mod 64"
  have r: "r < 64" by (simp add: r_def)
  have "(r + (1 + z + 8)) mod 64 = 0"
  proof (cases "r \<le> 55")
    case True
    then have "z = 55 - r" unfolding z_def by (intro mod_nat_eqI) auto
    with True show ?thesis by simp
  next
    case False
    with r have "z = 119 - r" by (simp add: z_def)
    with False r show ?thesis by simp
  qed
  moreover have "(length bs + (1 + z + 8)) mod 64 = (r + (1 + z + 8)) mod 64"
    unfolding r_def by (rule mod_add_left_eq [symmetric])
  moreover have "length (sha_pad bs) = length bs + (1 + z + 8)"
    by (simp add: sha_pad_def z_def r_def)
  ultimately show ?thesis by (simp only:)
qed

lemma be_bytes_lt: "b \<in> set (be_bytes k n) \<Longrightarrow> 0 \<le> b \<and> b < 256"
  by (induction k arbitrary: n) auto

lemma Sum256_bytes: "b \<in> set (Sum256 s) \<Longrightarrow> 0 \<le> b \<and> b < 256"
  by (auto simp: Sum256_def dest: be_bytes_lt)

lemma length_hex_bytes [simp]: "length (hex_bytes bs) = 2 * length bs"
  by (induction bs) (auto simp: hex_bytes_def)

definition is_hex_char :: "char \<Rightarrow> bool" where
  "is_hex_char c = (c \<in> set ''0123456789abcdef'')"

lemma hex_digit_ok: "0 \<le> n \<Longrightarrow> n < 16 \<Longrightarrow> is_hex_char (hex_digit n)"
  unfolding is_hex_char_def hex_digit_def by (rule nth_mem) simp

lemma hex_bytes_ok:
  assumes "\<And>b. b \<in> set bs \<Longrightarrow> 0 \<le> b \<and> b < 256" and "c \<in> set (hex_bytes bs)"
  shows "is_hex_char c"
proof -
  from assms(2) obtain b where b: "b \<in> set bs" "c = hex_digit (b div 16) \<or> c = hex_digit (b mod 16)"
    by (auto simp: hex_bytes_def)
  from assms(1) [OF b(1)] have "0 \<le> b div 16" "b div 16 < 16" "0 \<le> b mod 16" "b mod 16 < 16" by auto
  with b(2) show ?thesis by (auto intro: hex_digit_ok)
qed

end
