(* ===== verification/Env_Identity.thy ===== *)
theory Env_Identity
  imports Spec_Types Sha256
begin

text \<open>
  Environment names: \<open>internal/spec/env_identity.go\<close> (the canonical identity and the
  exact-then-prefix matcher) and the environment half of \<open>internal/spec/loader.go\<close> (the
  registry of deployable environments, the selection of the target environment, the env file
  lookup, the removal of disabled expose blocks and the scan for dynamic subdomains).

  \<open>env_matcher\<close> is the contract every lookup by environment name relies on.
\<close>

section \<open>Identity\<close>

definition k8sMaxLen :: nat where "k8sMaxLen = 53"

definition NormalizeEnv :: "string \<Rightarrow> EnvIdentity" where
  "NormalizeEnv name =
     (let mapKey = fst (str_Cut (CHR ''/'') name);
          k8sSafe = replace_byte (CHR ''/'') ''-'' name;
          k8sSafe =
            (if length k8sSafe > k8sMaxLen
             then take (k8sMaxLen - 5) k8sSafe @ ''-'' @ hex_bytes (take 2 (Sum256 name))
             else k8sSafe)
      in \<lparr>Original = name, MapKey = mapKey, K8sSafe = k8sSafe\<rparr>)"

definition matchEnvKey :: "string \<Rightarrow> string list \<Rightarrow> string option" where
  "matchEnvKey candidate mapKeys =
     (if candidate \<in> set mapKeys then Some candidate
      else
        (let (prefix, _, ok) = str_Cut (CHR ''/'') candidate in
         if ok \<and> prefix \<in> set mapKeys then Some prefix else None))"

section \<open>The registry and the target environment\<close>

datatype registry_source = ThePlatformFile | TheSpec

definition environmentRegistry ::
  "Environment gomap \<Rightarrow> 'q PlatformConfig option \<Rightarrow> string list \<times> registry_source" where
  "environmentRegistry environments platform =
     (case platform of
        Some p \<Rightarrow> (sorted_keys (pc_Environments p), ThePlatformFile)
      | None \<Rightarrow> (sorted_keys environments, TheSpec))"

definition DeclaredEnvironments ::
  "Environment gomap \<Rightarrow> 'q PlatformConfig option \<Rightarrow> string list" where
  "DeclaredEnvironments environments platform = fst (environmentRegistry environments platform)"

datatype env_error =
    MultipleEnvironments registry_source "string list"
  | EnvironmentNotFound string registry_source "string list"

definition zero_Environment :: Environment where
  "zero_Environment = \<lparr>e_EnvFile = [], e_ConfigFile = [], e_Variables = []\<rparr>"

text \<open>The end of \<open>ResolveEnvironment\<close>: the spec's entry is an optional override.\<close>

definition spec_override :: "Environment gomap \<Rightarrow> string \<Rightarrow> string \<times> Environment" where
  "spec_override environments name =
     (case matchEnvKey name (map fst environments) of
        Some matched \<Rightarrow> (matched, gm_get_or zero_Environment environments matched)
      | None \<Rightarrow> (name, zero_Environment))"

definition ResolveEnvironment ::
  "Environment gomap \<Rightarrow> 'q PlatformConfig option \<Rightarrow> string
     \<Rightarrow> (env_error, string \<times> Environment) result" where
  "ResolveEnvironment environments platform desired =
     (let (registry, source) = environmentRegistry environments platform in
      if desired = [] then
        (case registry of
           [] \<Rightarrow> Inr (''default'', zero_Environment)
         | [name] \<Rightarrow> Inr (spec_override environments name)
         | _ \<Rightarrow> Inl (MultipleEnvironments source registry))
      else if registry \<noteq> [] then
        (case matchEnvKey desired registry of
           None \<Rightarrow> Inl (EnvironmentNotFound desired source registry)
         | Some matched \<Rightarrow> Inr (spec_override environments matched))
      else Inr (spec_override environments desired))"

section \<open>Env files\<close>

definition sanitizeEnvName :: "string \<Rightarrow> string" where
  "sanitizeEnvName name =
     (let s = fst (CutSuffix name ''/*'');
          s = replace_byte (CHR ''/'') '''' s;
          s = replace_byte (CHR 0x5C) '''' s;
          s = replace_byte (CHR ''*'') '''' s
      in replace_byte (CHR ''?'') '''' s)"

datatype env_file_error = ExplicitEnvFileMissing string

definition env_file_candidates :: "string \<Rightarrow> string list" where
  "env_file_candidates envName =
     [''.env.'' @ sanitizeEnvName envName,
      ''.deployah/.env.'' @ sanitizeEnvName envName,
      ''.env'',
      ''.deployah/.env'']"

text \<open>
  The file system is the argument \<open>fileExists\<close>. The result is the path and whether it was
  set explicitly; an empty path means that no env file was found.
\<close>

definition resolveEnvFile ::
  "(string \<Rightarrow> bool) \<Rightarrow> Environment \<Rightarrow> string \<Rightarrow> (env_file_error, string \<times> bool) result" where
  "resolveEnvFile fileExists env envName =
     (if e_EnvFile env \<noteq> [] then
        (if fileExists (e_EnvFile env) then Inr (e_EnvFile env, True)
         else Inl (ExplicitEnvFileMissing (e_EnvFile env)))
      else
        (case find fileExists (env_file_candidates envName) of
           Some path \<Rightarrow> Inr (path, False)
         | None \<Rightarrow> Inr ([], False)))"

section \<open>Expose blocks\<close>

definition drop_disabled_expose :: "'q Component \<Rightarrow> 'q Component" where
  "drop_disabled_expose c =
     (case c_Expose c of
        Some x \<Rightarrow> if x_disabled x then c\<lparr>c_Expose := None\<rparr> else c
      | None \<Rightarrow> c)"

definition normalizeComponents :: "'q Spec \<Rightarrow> 'q Spec" where
  "normalizeComponents s = s\<lparr>s_Components := gm_map drop_disabled_expose (s_Components s)\<rparr>"

text \<open>\<open>varPattern\<close>: some position starts \<open>${\<close>, one or more bytes other than \<open>}\<close>, and \<open>}\<close>.\<close>

fun varPattern :: "string \<Rightarrow> bool" where
  "varPattern [] = False"
| "varPattern (c # s) =
     ((HasPrefix (c # s) ''${''
       \<and> (let body = drop 1 s in body \<noteq> [] \<and> hd body \<noteq> CHR ''}'' \<and> CHR ''}'' \<in> set body))
      \<or> varPattern s)"

definition PrescanSubstitutionReport :: "'q Spec \<Rightarrow> bool gomap" where
  "PrescanSubstitutionReport raw =
     fold (\<lambda>(name, comp) report.
             case c_Expose comp of
               Some x \<Rightarrow>
                 (case x_Subdomain x of
                    Some sub \<Rightarrow> if varPattern sub then gm_put name True report else report
                  | None \<Rightarrow> report)
             | None \<Rightarrow> report)
          (s_Components raw) []"

section \<open>The matcher's contract\<close>

text \<open>
  What the lookups by environment name rely on: a match is one of the keys, the exact key
  wins, and otherwise only the part before the first slash may match.
\<close>

locale env_matcher =
  fixes lookup :: "string \<Rightarrow> string list \<Rightarrow> string option"
  assumes lookup_mem: "lookup c ks = Some k \<Longrightarrow> k \<in> set ks"
    and lookup_exact: "c \<in> set ks \<Longrightarrow> lookup c ks = Some c"
    and lookup_prefix: "lookup c ks = Some k \<Longrightarrow> k = c \<or> (CHR ''/'' \<in> set c \<and> k = fst (str_Cut (CHR ''/'') c))"
    and lookup_complete:
      "CHR ''/'' \<in> set c \<Longrightarrow> fst (str_Cut (CHR ''/'') c) \<in> set ks \<Longrightarrow> lookup c ks \<noteq> None"
begin

lemma lookup_None_iff:
  "lookup c ks = None \<longleftrightarrow>
     c \<notin> set ks \<and> (CHR ''/'' \<in> set c \<longrightarrow> fst (str_Cut (CHR ''/'') c) \<notin> set ks)"
proof (cases "lookup c ks")
  case None
  with lookup_exact [of c ks] lookup_complete [of c ks] show ?thesis by auto
next
  case (Some k)
  with lookup_mem [OF Some] lookup_prefix [OF Some] show ?thesis by auto
qed

lemma lookup_idem: "lookup c ks = Some k \<Longrightarrow> lookup k ks = Some k"
  by (meson lookup_exact lookup_mem)

text \<open>Neither the order of the keys nor their multiplicity matters.\<close>

lemma lookup_set_cong: "set ks = set ks' \<Longrightarrow> lookup c ks = lookup c ks'"
proof -
  assume eq: "set ks = set ks'"
  show ?thesis
  proof (cases "lookup c ks")
    case None
    with eq show ?thesis by (metis lookup_None_iff)
  next
    case (Some k)
    then have "lookup c ks' \<noteq> None" using eq by (metis lookup_None_iff option.distinct(1))
    then obtain k' where k': "lookup c ks' = Some k'" by blast
    have "k = k'"
    proof (cases "c \<in> set ks")
      case True
      then show ?thesis using Some k' eq by (metis lookup_exact option.inject)
    next
      case False
      then have "k \<noteq> c" "k' \<noteq> c"
        using lookup_mem [OF Some] lookup_mem [OF k'] eq by auto
      then show ?thesis using lookup_prefix [OF Some] lookup_prefix [OF k'] by simp
    qed
    with Some k' show ?thesis by simp
  qed
qed

text \<open>Two lookups in nested registries: a match in the smaller one that the larger one
  overrides is possible only through an exact key.\<close>

lemma lookup_mono:
  assumes "set ks \<subseteq> set ks'" "lookup c ks = Some k"
  shows "lookup c ks' = Some k \<or> lookup c ks' = Some c"
proof -
  have "lookup c ks' \<noteq> None" using assms lookup_mem lookup_prefix by (metis lookup_None_iff subsetD)
  then obtain k' where k': "lookup c ks' = Some k'" by blast
  show ?thesis
  proof (cases "k = c")
    case True
    then show ?thesis using assms lookup_mem lookup_exact by blast
  next
    case False
    then show ?thesis using lookup_prefix [OF assms(2)] lookup_prefix [OF k'] k' by auto
  qed
qed

end

interpretation em: env_matcher matchEnvKey
proof
  fix c k :: string and ks :: "string list"
  show "matchEnvKey c ks = Some k \<Longrightarrow> k \<in> set ks"
    by (auto simp: matchEnvKey_def str_Cut_def split: if_splits)
  show "c \<in> set ks \<Longrightarrow> matchEnvKey c ks = Some c" by (simp add: matchEnvKey_def)
  show "matchEnvKey c ks = Some k \<Longrightarrow>
      k = c \<or> (CHR ''/'' \<in> set c \<and> k = fst (str_Cut (CHR ''/'') c))"
    by (auto simp: matchEnvKey_def str_Cut_def split: if_splits)
  show "CHR ''/'' \<in> set c \<Longrightarrow> fst (str_Cut (CHR ''/'') c) \<in> set ks \<Longrightarrow> matchEnvKey c ks \<noteq> None"
    by (auto simp: matchEnvKey_def str_Cut_def split: if_splits)
qed

section \<open>Properties of the identity\<close>

lemma NormalizeEnv_sel [simp]:
  "Original (NormalizeEnv n) = n"
  "MapKey (NormalizeEnv n) = takeWhile (\<lambda>x. x \<noteq> CHR ''/'') n"
  by (simp_all add: NormalizeEnv_def Let_def str_Cut_def)

lemma hex_no_slash: "is_hex_char c \<Longrightarrow> c \<noteq> CHR ''/''"
  by (auto simp: is_hex_char_def)

lemma hash_suffix_hex: "c \<in> set (hex_bytes (take 2 (Sum256 n))) \<Longrightarrow> is_hex_char c"
  using hex_bytes_ok [of "take 2 (Sum256 n)" c] Sum256_bytes by (meson in_set_takeD)

lemma length_hash_suffix: "length (hex_bytes (take 2 (Sum256 n))) = 4"
  by simp

text \<open>
  the Kubernetes-safe name is at most 53 bytes long and has no slash; it is the name with
  every slash replaced by a dash when that fits, and otherwise exactly 53 bytes: the first 48 of
  it, a dash and four hexadecimal digits of the SHA-256 digest of the original name.
\<close>

theorem k8s_safe_name:
  "length (K8sSafe (NormalizeEnv n)) \<le> 53 \<and> CHR ''/'' \<notin> set (K8sSafe (NormalizeEnv n))
   \<and> (if length n \<le> 53 then K8sSafe (NormalizeEnv n) = replace_byte (CHR ''/'') ''-'' n
      else \<exists>h. K8sSafe (NormalizeEnv n) = take 48 (replace_byte (CHR ''/'') ''-'' n) @ ''-'' @ h
             \<and> h = hex_bytes (take 2 (Sum256 n)) \<and> length h = 4 \<and> list_all is_hex_char h)"
proof -
  let ?h = "hex_bytes (take 2 (Sum256 n))"
  have r: "CHR ''/'' \<notin> set (replace_byte (CHR ''/'') ''-'' n)"
    using set_replace_byte [of "CHR ''/''" "''-''" n] by auto
  then have t: "CHR ''/'' \<notin> set (take 48 (replace_byte (CHR ''/'') ''-'' n))"
    by (meson in_set_takeD)
  have h: "list_all is_hex_char ?h" by (simp add: list_all_iff hash_suffix_hex)
  then have "CHR ''/'' \<notin> set ?h" using hex_no_slash by (auto simp: list_all_iff)
  with r t h show ?thesis
    using length_hash_suffix [of n] by (auto simp: NormalizeEnv_def Let_def k8sMaxLen_def)
qed

section \<open>Properties of the selection\<close>

lemma spec_override_cong:
  "same_map e e' \<Longrightarrow> spec_override e n = spec_override e' n"
proof -
  assume s: "same_map e e'"
  then have "set (map fst e) = set (map fst e')" by (simp add: same_map_set)
  then have "matchEnvKey n (map fst e) = matchEnvKey n (map fst e')" by (rule em.lookup_set_cong)
  moreover have "gm_get_or zero_Environment e = gm_get_or zero_Environment e'"
    using same_map_get [OF s] by (simp add: gm_get_or_def fun_eq_iff)
  ultimately show ?thesis by (simp add: spec_override_def split: option.split)
qed

lemma registry_cong:
  "same_map e e' \<Longrightarrow> environmentRegistry e p = environmentRegistry e' p"
  by (simp add: environmentRegistry_def same_map_sorted_keys split: option.split)

lemma registry_None [simp]: "environmentRegistry e None = (sorted_keys e, TheSpec)"
  by (simp add: environmentRegistry_def)

lemma registry_Some [simp]:
  "environmentRegistry e (Some p) = (sorted_keys (pc_Environments p), ThePlatformFile)"
  by (simp add: environmentRegistry_def)

text \<open>The name that \<open>ResolveEnvironment\<close> takes from the registry, before the spec's override.\<close>

definition selects :: "string list \<Rightarrow> string \<Rightarrow> string \<Rightarrow> bool" where
  "selects registry desired name =
     (if desired = [] then registry = [name]
      else if registry = [] then name = desired
      else matchEnvKey desired registry = Some name)"

lemma ResolveEnvironment_Inr_iff:
  "ResolveEnvironment e p d = Inr r \<longleftrightarrow>
     (d = [] \<and> DeclaredEnvironments e p = [] \<and> r = (''default'', zero_Environment))
     \<or> (\<exists>n. selects (DeclaredEnvironments e p) d n \<and> r = spec_override e n)"
proof -
  obtain reg src where er: "environmentRegistry e p = (reg, src)" by (cases "environmentRegistry e p")
  show ?thesis
    by (auto simp: ResolveEnvironment_def DeclaredEnvironments_def er selects_def
        split: list.splits option.splits)
qed

lemma ResolveEnvironment_value:
  "ResolveEnvironment e p d = Inr (n, v) \<Longrightarrow> gm_get e n = Some v \<or> v = zero_Environment"
proof -
  assume "ResolveEnvironment e p d = Inr (n, v)"
  then consider "v = zero_Environment" | m where "spec_override e m = (n, v)"
    unfolding ResolveEnvironment_Inr_iff by (metis prod.inject)
  then show ?thesis
  proof cases
    case 2
    then show ?thesis
      by (auto simp: spec_override_def gm_get_or_def split: option.splits)
  qed simp
qed

text \<open>
  the target environment. Selection succeeds exactly when no name is asked for and the
  registry has at most one entry, or the registry is empty, or the asked name matches the
  registry exactly or by its part before the first slash.
\<close>

theorem resolve_environment_ok_iff:
  "is_ok (ResolveEnvironment e p d) \<longleftrightarrow>
       (d = [] \<and> length (DeclaredEnvironments e p) \<le> 1)
     \<or> (d \<noteq> [] \<and> (DeclaredEnvironments e p = [] \<or> d \<in> set (DeclaredEnvironments e p)
          \<or> (CHR ''/'' \<in> set d \<and> MapKey (NormalizeEnv d) \<in> set (DeclaredEnvironments e p))))"
proof -
  let ?R = "DeclaredEnvironments e p"
  have ok: "is_ok (ResolveEnvironment e p d) \<longleftrightarrow> (d = [] \<and> ?R = []) \<or> (\<exists>n. selects ?R d n)"
    unfolding is_ok_iff ResolveEnvironment_Inr_iff by blast
  have "(\<exists>n. selects ?R d n) \<longleftrightarrow> (d = [] \<and> length ?R = 1)
      \<or> (d \<noteq> [] \<and> (?R = [] \<or> matchEnvKey d ?R \<noteq> None))"
    by (auto simp: selects_def length_Suc_conv)
  with ok show ?thesis
    unfolding em.lookup_None_iff by (cases ?R) (auto simp: str_Cut_def)
qed

text \<open>
  without a platform file, resolving an already resolved name gives the same environment
  again (no key of the spec being empty): the name a deploy prints can be fed back to it.
\<close>

theorem resolve_environment_idempotent:
  assumes keys: "\<not> gm_has e []"
    and ok: "ResolveEnvironment e (None :: 'q PlatformConfig option) d = Inr (n, v)"
  shows "ResolveEnvironment e (None :: 'q PlatformConfig option) n = Inr (n, v)"
proof -
  have R: "DeclaredEnvironments e (None :: 'q PlatformConfig option) = sorted_keys e"
    by (simp add: DeclaredEnvironments_def)
  show ?thesis
  proof (cases "e = []")
    case True
    with ok show ?thesis
      by (auto simp: ResolveEnvironment_def sorted_keys_def spec_override_def matchEnvKey_def
          str_Cut_def split: if_splits)
  next
    case False
    then have ne: "sorted_keys e \<noteq> []" by (metis image_is_empty set_empty set_sorted_keys)
    from ok R ne obtain m where m: "selects (sorted_keys e) d m" "spec_override e m = (n, v)"
      by (auto simp: ResolveEnvironment_Inr_iff)
    have "m \<in> set (sorted_keys e)"
      using m(1) ne em.lookup_mem [of d "sorted_keys e" m]
      by (auto simp: selects_def simp del: set_sorted_keys split: if_splits)
    then have mem: "m \<in> set (map fst e)" by simp
    then have "matchEnvKey m (map fst e) = Some m" by (rule em.lookup_exact)
    with m(2) have nm: "n = m" by (auto simp: spec_override_def)
    with mem keys have "n \<noteq> []" unfolding gm_has_keys by (metis list.set_map)
    moreover have "matchEnvKey n (sorted_keys e) = Some n"
      using mem nm by (intro em.lookup_exact) simp
    ultimately have "selects (sorted_keys e) n n" using ne by (simp add: selects_def)
    with m(2) nm R show ?thesis unfolding ResolveEnvironment_Inr_iff by metis
  qed
qed

theorem resolve_environment_idempotent_witness:
  "ResolveEnvironment [(''prod'', zero_Environment), (''review'', zero_Environment)]
     (None :: int PlatformConfig option) ''review'' = Inr (''review'', zero_Environment)"
proof -
  have "ResolveEnvironment [(''prod'', zero_Environment), (''review'', zero_Environment)]
      (None :: int PlatformConfig option) ''review/pr-7'' = Inr (''review'', zero_Environment)"
    by code_simp
  moreover have "\<not> gm_has [(''prod'', zero_Environment), (''review'', zero_Environment)] []"
    by code_simp
  ultimately show ?thesis by (intro resolve_environment_idempotent)
qed

text \<open>
  with a platform file the resolved name may be outside the registry. For the registry entry
  \<open>review/pr-1\<close> and a spec that has overrides for \<open>review\<close>, asking for \<open>review/pr-1\<close> returns
  \<open>review\<close>, which the platform file does not declare: asking again fails.
\<close>

theorem resolve_environment_leaves_registry:
  "\<exists>(e :: Environment gomap) (p :: int PlatformConfig) n v.
     ResolveEnvironment e (Some p) ''review/pr-1'' = Inr (n, v)
     \<and> n \<notin> set (DeclaredEnvironments e (Some p)) \<and> \<not> is_ok (ResolveEnvironment e (Some p) n)"
proof (intro exI conjI)
  let ?e = "[(''review'', zero_Environment)]"
  let ?p = "\<lparr>pc_APIVersion = [], pc_Profiles = None,
              pc_Environments = [(''review/pr-1'', zero_PlatformEnvironment)]\<rparr> :: int PlatformConfig"
  show "ResolveEnvironment ?e (Some ?p) ''review/pr-1'' = Inr (''review'', zero_Environment)"
    by code_simp
  show "''review'' \<notin> set (DeclaredEnvironments ?e (Some ?p))" by code_simp
  show "\<not> is_ok (ResolveEnvironment ?e (Some ?p) ''review'')" by code_simp
qed

section \<open>Properties of the env file lookup\<close>

lemma replace_byte_del: "c' \<in> set (replace_byte c [] s) \<Longrightarrow> c' \<in> set s \<and> c' \<noteq> c"
  by (auto simp: replace_byte_def split: if_splits)

lemma sanitizeEnvName_safe:
  "set (sanitizeEnvName n) \<inter> {CHR ''/'', CHR 0x5C, CHR ''*'', CHR ''?''} = {}"
  unfolding sanitizeEnvName_def Let_def by (auto dest!: replace_byte_del)

text \<open>
  an env file path that was not set explicitly never leaves the working directory: it is
  one of four names, in the working directory or in \<open>.deployah\<close>, whatever the environment is
  called, and a path with the environment's name wins over a general one. An explicit path is
  returned exactly when it exists and is an error otherwise.
\<close>

theorem resolve_env_file_confined:
  "case resolveEnvFile ex env n of
     Inl err \<Rightarrow> e_EnvFile env \<noteq> [] \<and> \<not> ex (e_EnvFile env) \<and> err = ExplicitEnvFileMissing (e_EnvFile env)
   | Inr (path, explicit) \<Rightarrow>
       if e_EnvFile env \<noteq> [] then explicit \<and> path = e_EnvFile env \<and> ex path
       else \<not> explicit \<and>
         (if path = [] then list_all (\<lambda>f. \<not> ex f) (env_file_candidates n)
          else ex path
            \<and> (\<exists>base. CHR ''/'' \<notin> set base \<and> HasPrefix base ''.env'' \<and> path \<in> {base, ''.deployah/'' @ base})
            \<and> (path \<in> {''.env'', ''.deployah/.env''}
               \<longleftrightarrow> \<not> ex (''.env.'' @ sanitizeEnvName n) \<and> \<not> ex (''.deployah/.env.'' @ sanitizeEnvName n)))"
proof (cases "e_EnvFile env \<noteq> []")
  case True
  then show ?thesis by (auto simp: resolveEnvFile_def)
next
  case False
  let ?A = "''.env.'' @ sanitizeEnvName n"
  have no: "CHR ''/'' \<notin> set ?A"
    using sanitizeEnvName_safe [of n] by auto
  have a: "\<exists>base. CHR ''/'' \<notin> set base \<and> HasPrefix base ''.env'' \<and> path \<in> {base, ''.deployah/'' @ base}"
    if "path \<in> {?A, ''.deployah/'' @ ?A}" for path
    using no that by (intro exI [of _ ?A]) (auto simp: HasPrefix_def)
  have b: "\<exists>base. CHR ''/'' \<notin> set base \<and> HasPrefix base ''.env'' \<and> path \<in> {base, ''.deployah/'' @ base}"
    if "path \<in> {''.env'', ''.deployah/.env''}" for path
    using that by (intro exI [of _ "''.env''"]) (auto simp: HasPrefix_def)
  show ?thesis
    using False a [of ?A] a [of "''.deployah/'' @ ?A"] b [of "''.env''"] b [of "''.deployah/.env''"]
    by (simp add: resolveEnvFile_def env_file_candidates_def)
qed

section \<open>Properties of the expose scan\<close>

text \<open>No component keeps a disabled expose block, and nothing else of the spec changes.\<close>

lemma drop_disabled_expose_active:
  "c_Expose (drop_disabled_expose c) = Some x \<Longrightarrow> \<not> x_disabled x"
  by (auto simp: drop_disabled_expose_def split: option.splits if_splits)

lemma normalizeComponents_idem: "normalizeComponents (normalizeComponents s) = normalizeComponents s"
proof -
  have "drop_disabled_expose (drop_disabled_expose c) = drop_disabled_expose c" for c :: "'a Component"
    by (auto simp: drop_disabled_expose_def split: option.splits)
  then show ?thesis by (simp add: normalizeComponents_def gm_map_compose)
qed

lemma normalizeComponents_active:
  "gm_get (s_Components (normalizeComponents s)) n = Some c \<Longrightarrow> c_Expose c = Some x \<Longrightarrow> \<not> x_disabled x"
  by (auto simp: normalizeComponents_def dest: drop_disabled_expose_active)

lemma varPattern_iff:
  "varPattern s \<longleftrightarrow> (\<exists>a v b. s = a @ ''${'' @ v @ ''}'' @ b \<and> v \<noteq> [] \<and> CHR ''}'' \<notin> set v)"
  (is "_ \<longleftrightarrow> (\<exists>a v b. ?P s a v b)")
proof (induction s)
  case Nil
  then show ?case by simp
next
  case (Cons c s)
  have here: "(HasPrefix (c # s) ''${'' \<and> (let body = drop 1 s in body \<noteq> [] \<and> hd body \<noteq> CHR ''}'' \<and> CHR ''}'' \<in> set body))
      \<longleftrightarrow> (\<exists>v b. ?P (c # s) [] v b)" (is "?H \<longleftrightarrow> ?E")
  proof
    assume H: ?H
    then obtain body where b: "c # s = ''${'' @ body" by (metis HasPrefixE)
    with H have "body \<noteq> []" "hd body \<noteq> CHR ''}''" "CHR ''}'' \<in> set body" by (auto simp: Let_def)
    moreover from this(3) obtain v w where "body = v @ CHR ''}'' # w" "CHR ''}'' \<notin> set v"
      by (meson split_list_first)
    ultimately have "?P (c # s) [] v w" using b by (cases v) auto
    then show ?E by blast
  next
    assume ?E
    then obtain v b where vb: "?P (c # s) [] v b" by blast
    then show ?H by (cases v) (auto simp: HasPrefix_def)
  qed
  have "(\<exists>a v b. ?P (c # s) a v b) \<longleftrightarrow> (\<exists>v b. ?P (c # s) [] v b) \<or> (\<exists>a v b. ?P s a v b)" (is "?L \<longleftrightarrow> ?R")
  proof
    assume ?L
    then obtain a v b where p: "?P (c # s) a v b" by blast
    show ?R
    proof (cases a)
      case Nil
      with p show ?thesis by blast
    next
      case (Cons d a')
      with p have "?P s a' v b" by auto
      then show ?thesis by blast
    qed
  next
    assume ?R
    then show ?L
    proof
      assume "\<exists>a v b. ?P s a v b"
      then obtain a v b where "?P s a v b" by blast
      then have "?P (c # s) (c # a) v b" by simp
      then show ?thesis by blast
    qed blast
  qed
  with here Cons show ?case by simp
qed

end
