(* ===== verification/Profiles.thy ===== *)
theory Profiles
  imports Spec_Types
begin

text \<open>
  Platform profiles (\<open>internal/spec/profile.go\<close>): which profiles apply to a component or
  task, their left-to-right merge, and the constraints the merged profile imposes; with the
  resource presets of \<open>constants.go\<close>.

  The two halves of the merge have two contracts. Selectors, labels, security contexts and
  scalars are overlays: the last profile that sets a key wins (locale \<open>last_wins\<close>). Domains
  and ceilings are constraints: the merged profile admits exactly what every profile admits
  (locale \<open>strictest_wins\<close>).
\<close>

section \<open>Resource presets\<close>

definition ResourcePresetNano :: ResourcePreset where "ResourcePresetNano = ''nano''"
definition ResourcePresetMicro :: ResourcePreset where "ResourcePresetMicro = ''micro''"
definition ResourcePresetMedium :: ResourcePreset where "ResourcePresetMedium = ''medium''"
definition ResourcePresetLarge :: ResourcePreset where "ResourcePresetLarge = ''large''"
definition ResourcePresetXLarge :: ResourcePreset where "ResourcePresetXLarge = ''xlarge''"
definition ResourcePreset2XLarge :: ResourcePreset where "ResourcePreset2XLarge = ''2xlarge''"

definition preset_resources :: "'q k8s_lib \<Rightarrow> string \<Rightarrow> string \<Rightarrow> string \<Rightarrow> 'q Resources" where
  "preset_resources L cpu mem eph =
     \<lparr>CPU = q_Parse L cpu, Memory = q_Parse L mem, EphemeralStorage = q_Parse L eph\<rparr>"

text \<open>Each preset with its requests and its limits.\<close>

definition ResourcePresetMappings :: "'q k8s_lib \<Rightarrow> ('q Resources \<times> 'q Resources) gomap" where
  "ResourcePresetMappings L =
     [(ResourcePresetNano,
        (preset_resources L ''100m'' ''128Mi'' ''50Mi'', preset_resources L ''150m'' ''192Mi'' ''2Gi'')),
      (ResourcePresetMicro,
        (preset_resources L ''250m'' ''256Mi'' ''50Mi'', preset_resources L ''375m'' ''384Mi'' ''2Gi'')),
      (ResourcePresetSmall,
        (preset_resources L ''500m'' ''512Mi'' ''50Mi'', preset_resources L ''750m'' ''768Mi'' ''2Gi'')),
      (ResourcePresetMedium,
        (preset_resources L ''500m'' ''1024Mi'' ''50Mi'', preset_resources L ''750m'' ''1536Mi'' ''2Gi'')),
      (ResourcePresetLarge,
        (preset_resources L ''1000m'' ''2048Mi'' ''50Mi'', preset_resources L ''1500m'' ''3072Mi'' ''2Gi'')),
      (ResourcePresetXLarge,
        (preset_resources L ''1000m'' ''3072Mi'' ''50Mi'', preset_resources L ''3000m'' ''6144Mi'' ''2Gi'')),
      (ResourcePreset2XLarge,
        (preset_resources L ''1000m'' ''3072Mi'' ''50Mi'', preset_resources L ''6000m'' ''12288Mi'' ''2Gi''))]"

section \<open>Resolution errors\<close>

type_synonym ProfileSubject = string

definition ProfileSubjectComponent :: ProfileSubject where "ProfileSubjectComponent = ''component''"
definition ProfileSubjectTask :: ProfileSubject where "ProfileSubjectTask = ''task''"

record 'q ProfileTarget =
  pt_Subject :: ProfileSubject
  pt_Name :: string
  pt_Resources :: "'q Resources"
  pt_ResourcePreset :: ResourcePreset
  pt_Metrics :: "ComponentMetrics option"

text \<open>The message of an error: which text it has, and the values the text interpolates.\<close>

datatype 'q res_msg =
    OptOutNotAllowed
  | NoProfilesSection
  | ProfileUndefined string "string list"
  | MonitorLabelsMissing ProfileSubject string
  | DomainNotAllowed ProfileSubject string string "string list"
  | NoStorageClasses ProfileSubject string string
  | StorageClassUndefined ProfileSubject string string "string list"
  | CPUExceeds ProfileSubject string 'q 'q
  | MemoryExceeds ProfileSubject string 'q 'q
  | PlatformEnvUnknown string "string list"
  | ProfilesWithoutPlatform ProfileSubject string
  | ExposeWithoutPlatform string
  | NoDefaultDomain string string "string list"
  | DomainUndefined string string string "string list"
  | InvalidApex string string "string list"
  | InvalidSubdomain string string bool "string list"
  | InvalidFQDN string string "string list"
  | PlatformFileMissing
  | ComponentNoStorageClasses string string bool
  | ComponentStorageClassUndefined string string bool "string list"

datatype 'q ResolutionError = ResolutionError (Code: ErrCode) (Message: "'q res_msg")

section \<open>Which profiles apply\<close>

definition ResolveProfileNames ::
  "string list option \<Rightarrow> 'q PlatformProfile gomap option \<Rightarrow> ('q ResolutionError, string list) result" where
  "ResolveProfileNames componentProfiles platformProfiles =
     (let hasDefault = (case platformProfiles of None \<Rightarrow> False | Some m \<Rightarrow> gm_has m DefaultProfileName) in
      case componentProfiles of
        None \<Rightarrow> Inr (if hasDefault then [DefaultProfileName] else [])
      | Some [] \<Rightarrow>
          (if hasDefault then Inl (ResolutionError PROFILE_OPT_OUT_BLOCKED OptOutNotAllowed) else Inr [])
      | Some names \<Rightarrow>
          (if platformProfiles = None then Inl (ResolutionError PROFILE_NOT_FOUND NoProfilesSection)
           else Inr ((if hasDefault then [DefaultProfileName] else [])
                     @ filter (\<lambda>n. n \<noteq> DefaultProfileName) names)))"

section \<open>Merging\<close>

definition mergeStringMap :: "string gomap \<Rightarrow> string gomap \<Rightarrow> string gomap" where
  "mergeStringMap b overlay = (if overlay = [] then b else gm_copy b overlay)"

text \<open>
  \<open>overlayExplicitFields\<close>: field by field through reflection, on two structs of the same
  type. Only pointers and slices are overlaid.
\<close>

fun rkind :: "rfield \<Rightarrow> nat" where
  "rkind (RPointer _) = 0"
| "rkind (RSlice _) = 1"
| "rkind (ROther _) = 2"

definition rtype :: "rstruct \<Rightarrow> (string \<times> nat) list" where
  "rtype s = map (\<lambda>(n, f). (n, rkind f)) s"

fun overlay_field :: "rfield \<Rightarrow> rfield \<Rightarrow> rfield" where
  "overlay_field df (RPointer (Some v)) = RPointer (Some v)"
| "overlay_field df (RSlice (x # xs)) = RSlice (x # xs)"
| "overlay_field df sf = df"

definition overlayExplicitFields :: "rstruct \<Rightarrow> rstruct \<Rightarrow> rstruct" where
  "overlayExplicitFields dst src =
     (if rtype src \<noteq> rtype dst then dst
      else map2 (\<lambda>(n, df) (_, sf). (n, overlay_field df sf)) dst src)"

definition mergeSecurityContext :: "rstruct option \<Rightarrow> rstruct option \<Rightarrow> rstruct option" where
  "mergeSecurityContext b overlay =
     (case overlay of
        None \<Rightarrow> b
      | Some s \<Rightarrow> (case b of None \<Rightarrow> Some s | Some d \<Rightarrow> Some (overlayExplicitFields d s)))"

definition containsToleration :: "'q k8s_lib \<Rightarrow> jval list \<Rightarrow> jval \<Rightarrow> bool" where
  "containsToleration L xs t = list_ex (\<lambda>existing. DeepEqual L existing t) xs"

definition mergeTolerations :: "'q k8s_lib \<Rightarrow> jval list \<Rightarrow> jval list \<Rightarrow> jval list" where
  "mergeTolerations L b overlay =
     fold (\<lambda>t out. if containsToleration L out t then out else out @ [t]) overlay b"

text \<open>A scalar: the last non-empty value wins.\<close>

definition overlay_string :: "string \<Rightarrow> string \<Rightarrow> string" where
  "overlay_string b overlay = (if overlay \<noteq> [] then overlay else b)"

definition mergePVCRetentionPolicy ::
  "PVCRetentionPolicy option \<Rightarrow> PVCRetentionPolicy option \<Rightarrow> PVCRetentionPolicy option" where
  "mergePVCRetentionPolicy b overlay =
     (case overlay of
        None \<Rightarrow> b
      | Some ov \<Rightarrow>
          let out = (case b of None \<Rightarrow> \<lparr>WhenDeleted = [], WhenScaled = []\<rparr> | Some b \<Rightarrow> b)
          in Some \<lparr>WhenDeleted = overlay_string (WhenDeleted out) (WhenDeleted ov),
                   WhenScaled = overlay_string (WhenScaled out) (WhenScaled ov)\<rparr>)"

definition intersectStrings :: "string list \<Rightarrow> string list \<Rightarrow> string list" where
  "intersectStrings a b = filter (\<lambda>s. s \<in> set b) a"

definition minQuantity :: "'q k8s_lib \<Rightarrow> 'q option \<Rightarrow> 'q option \<Rightarrow> 'q option" where
  "minQuantity L a b =
     (if \<not> quantitySet L a then b
      else if \<not> quantitySet L b then a
      else if q_Cmp L (the a) (the b) \<le> 0 then a
      else b)"

definition mergeMaxResources ::
  "'q k8s_lib \<Rightarrow> 'q ProfileMaxResources option \<Rightarrow> 'q ProfileMaxResources option
     \<Rightarrow> 'q ProfileMaxResources option" where
  "mergeMaxResources L b overlay =
     (case overlay of
        None \<Rightarrow> b
      | Some ov \<Rightarrow>
          (case b of
             None \<Rightarrow> Some \<lparr>mr_CPU = mr_CPU ov, mr_Memory = mr_Memory ov\<rparr>
           | Some bs \<Rightarrow>
               let out = \<lparr>mr_CPU = minQuantity L (mr_CPU bs) (mr_CPU ov),
                          mr_Memory = minQuantity L (mr_Memory bs) (mr_Memory ov)\<rparr>
               in if \<not> quantitySet L (mr_CPU out) \<and> \<not> quantitySet L (mr_Memory out) then None
                  else Some out))"

definition zero_ProfileMetrics :: ProfileMetrics where
  "zero_ProfileMetrics =
     \<lparr>pm_MonitorLabels = [], pm_MonitorNamespace = [], pm_Interval = [], pm_ScrapeTimeout = [],
      pm_JobLabel = [], pm_HonorLabels = None, pm_Annotations = [], pm_Relabelings = [],
      pm_MetricRelabelings = []\<rparr>"

definition mergeProfileMetrics ::
  "ProfileMetrics option \<Rightarrow> ProfileMetrics option \<Rightarrow> ProfileMetrics option" where
  "mergeProfileMetrics b overlay =
     (case overlay of
        None \<Rightarrow> b
      | Some ov \<Rightarrow>
          let out = (case b of None \<Rightarrow> zero_ProfileMetrics | Some b \<Rightarrow> b)
          in Some
            \<lparr>pm_MonitorLabels = mergeStringMap (pm_MonitorLabels out) (pm_MonitorLabels ov),
             pm_MonitorNamespace = overlay_string (pm_MonitorNamespace out) (pm_MonitorNamespace ov),
             pm_Interval = overlay_string (pm_Interval out) (pm_Interval ov),
             pm_ScrapeTimeout = overlay_string (pm_ScrapeTimeout out) (pm_ScrapeTimeout ov),
             pm_JobLabel = overlay_string (pm_JobLabel out) (pm_JobLabel ov),
             pm_HonorLabels = (if pm_HonorLabels ov \<noteq> None then pm_HonorLabels ov else pm_HonorLabels out),
             pm_Annotations = mergeStringMap (pm_Annotations out) (pm_Annotations ov),
             pm_Relabelings = pm_Relabelings out @ pm_Relabelings ov,
             pm_MetricRelabelings = pm_MetricRelabelings out @ pm_MetricRelabelings ov\<rparr>)"

text \<open>
  One iteration of \<open>MergeProfiles\<close>' loop. The flag \<open>allowedDomainsSet\<close> is the second
  component of the loop's state.
\<close>

definition merge_step ::
  "'q k8s_lib \<Rightarrow> 'q PlatformProfile \<times> bool \<Rightarrow> 'q PlatformProfile \<Rightarrow> 'q PlatformProfile \<times> bool" where
  "merge_step L st p =
     (let (merged, allowedDomainsSet) = st;
          (domains, set') =
            (case pp_AllowedDomains p of
               None \<Rightarrow> (pp_AllowedDomains merged, allowedDomainsSet)
             | Some ds \<Rightarrow>
                 if \<not> allowedDomainsSet then (Some ds, True)
                 else (Some (intersectStrings
                              (case pp_AllowedDomains merged of None \<Rightarrow> [] | Some a \<Rightarrow> a) ds),
                       True))
      in (\<lparr>pp_NodeSelector = mergeStringMap (pp_NodeSelector merged) (pp_NodeSelector p),
           pp_Tolerations = mergeTolerations L (pp_Tolerations merged) (pp_Tolerations p),
           pp_PodLabels = mergeStringMap (pp_PodLabels merged) (pp_PodLabels p),
           pp_PodAnnotations = mergeStringMap (pp_PodAnnotations merged) (pp_PodAnnotations p),
           pp_SecurityContext = mergeSecurityContext (pp_SecurityContext merged) (pp_SecurityContext p),
           pp_ContainerSecurityContext =
             mergeSecurityContext (pp_ContainerSecurityContext merged) (pp_ContainerSecurityContext p),
           pp_StorageClass = overlay_string (pp_StorageClass merged) (pp_StorageClass p),
           pp_PVCRetentionPolicy =
             mergePVCRetentionPolicy (pp_PVCRetentionPolicy merged) (pp_PVCRetentionPolicy p),
           pp_AllowedDomains = domains,
           pp_MaxResources = mergeMaxResources L (pp_MaxResources merged) (pp_MaxResources p),
           pp_Metrics = mergeProfileMetrics (pp_Metrics merged) (pp_Metrics p)\<rparr>,
          set'))"

fun merge_loop ::
  "'q k8s_lib \<Rightarrow> 'q PlatformProfile gomap \<Rightarrow> 'q PlatformProfile \<times> bool \<Rightarrow> string list
     \<Rightarrow> ('q ResolutionError, 'q PlatformProfile) result" where
  "merge_loop L profiles st [] = Inr (fst st)"
| "merge_loop L profiles st (name # names) =
     (case gm_get profiles name of
        None \<Rightarrow> Inl (ResolutionError PROFILE_NOT_FOUND (ProfileUndefined name (sorted_keys profiles)))
      | Some p \<Rightarrow> merge_loop L profiles (merge_step L st p) names)"

definition MergeProfiles ::
  "'q k8s_lib \<Rightarrow> string list \<Rightarrow> 'q PlatformProfile gomap option
     \<Rightarrow> ('q ResolutionError, 'q PlatformProfile) result" where
  "MergeProfiles L names profiles =
     (if names = [] then Inr zero_PlatformProfile
      else merge_loop L (case profiles of None \<Rightarrow> [] | Some m \<Rightarrow> m) (zero_PlatformProfile, False) names)"

section \<open>Constraints\<close>

definition componentProfileTarget :: "string \<Rightarrow> 'q Component \<Rightarrow> 'q ProfileTarget" where
  "componentProfileTarget name c =
     \<lparr>pt_Subject = ProfileSubjectComponent, pt_Name = name, pt_Resources = c_Resources c,
      pt_ResourcePreset = c_ResourcePreset c, pt_Metrics = c_Metrics c\<rparr>"

definition taskProfileTarget :: "string \<Rightarrow> 'q Task \<Rightarrow> 'q ProfileTarget" where
  "taskProfileTarget name t =
     \<lparr>pt_Subject = ProfileSubjectTask, pt_Name = name, pt_Resources = t_Resources t,
      pt_ResourcePreset = t_ResourcePreset t, pt_Metrics = None\<rparr>"

definition newMonitorLabelsError :: "ProfileSubject \<Rightarrow> string \<Rightarrow> 'q ResolutionError" where
  "newMonitorLabelsError subject name =
     ResolutionError PROFILE_MONITOR_LABELS_MISSING (MonitorLabelsMissing subject name)"

definition effectiveResourceRequests :: "'q k8s_lib \<Rightarrow> 'q ProfileTarget \<Rightarrow> 'q Resources" where
  "effectiveResourceRequests L target =
     (if ResourcesSet L (pt_Resources target) then pt_Resources target
      else
        (let preset = (if pt_ResourcePreset target = [] then ResourcePresetSmall
                       else pt_ResourcePreset target)
         in case gm_get (ResourcePresetMappings L) preset of
              None \<Rightarrow> no_resources
            | Some (requests, limits) \<Rightarrow> requests))"

definition exceeds :: "'q k8s_lib \<Rightarrow> 'q option \<Rightarrow> 'q option \<Rightarrow> bool" where
  "exceeds L req ceiling =
     (quantitySet L ceiling \<and> quantitySet L req \<and> q_Cmp L (the req) (the ceiling) > 0)"

definition checkResourceCeiling ::
  "'q k8s_lib \<Rightarrow> 'q ProfileTarget \<Rightarrow> 'q ProfileMaxResources \<Rightarrow> 'q ResolutionError check" where
  "checkResourceCeiling L target mx =
     (let req = effectiveResourceRequests L target in
      if exceeds L (CPU req) (mr_CPU mx) then
        Some (ResolutionError PROFILE_RESOURCE_EXCEEDED
                (CPUExceeds (pt_Subject target) (pt_Name target) (the (CPU req)) (the (mr_CPU mx))))
      else if exceeds L (Memory req) (mr_Memory mx) then
        Some (ResolutionError PROFILE_RESOURCE_EXCEEDED
                (MemoryExceeds (pt_Subject target) (pt_Name target) (the (Memory req)) (the (mr_Memory mx))))
      else None)"

text \<open>The four checks of \<open>ValidateProfile\<close>, in the order the code makes them.\<close>

definition check_domain ::
  "'q ProfileTarget \<Rightarrow> 'q PlatformProfile \<Rightarrow> string \<Rightarrow> 'q ResolutionError check" where
  "check_domain target merged domainKey =
     (case pp_AllowedDomains merged of
        None \<Rightarrow> None
      | Some allowed \<Rightarrow>
          fail_if (domainKey \<noteq> [] \<and> domainKey \<notin> set allowed)
            (ResolutionError PROFILE_DOMAIN_NOT_ALLOWED
               (DomainNotAllowed (pt_Subject target) (pt_Name target) domainKey allowed)))"

definition check_storage_class ::
  "'q ProfileTarget \<Rightarrow> 'q PlatformProfile \<Rightarrow> PlatformEnvironment option \<Rightarrow> 'q ResolutionError check" where
  "check_storage_class target merged platformEnv =
     (if pp_StorageClass merged = [] then None
      else
        (case Option.bind platformEnv pe_StorageClasses of
           None \<Rightarrow>
             Some (ResolutionError PROFILE_STORAGE_CLASS_NOT_FOUND
                     (NoStorageClasses (pt_Subject target) (pt_Name target) (pp_StorageClass merged)))
         | Some classes \<Rightarrow>
             fail_if (\<not> gm_has classes (pp_StorageClass merged))
               (ResolutionError PROFILE_STORAGE_CLASS_NOT_FOUND
                  (StorageClassUndefined (pt_Subject target) (pt_Name target) (pp_StorageClass merged)
                     (sorted_keys classes)))))"

definition check_ceiling ::
  "'q k8s_lib \<Rightarrow> 'q ProfileTarget \<Rightarrow> 'q PlatformProfile \<Rightarrow> 'q ResolutionError check" where
  "check_ceiling L target merged =
     (case pp_MaxResources merged of None \<Rightarrow> None | Some mx \<Rightarrow> checkResourceCeiling L target mx)"

definition check_monitor_labels ::
  "'q ProfileTarget \<Rightarrow> 'q PlatformProfile \<Rightarrow> 'q ResolutionError check" where
  "check_monitor_labels target merged =
     fail_if (IsEnabled (pt_Metrics target)
              \<and> (case pp_Metrics merged of None \<Rightarrow> True | Some m \<Rightarrow> pm_MonitorLabels m = []))
       (newMonitorLabelsError (pt_Subject target) (pt_Name target))"

definition ValidateProfile ::
  "'q k8s_lib \<Rightarrow> 'q ProfileTarget \<Rightarrow> 'q PlatformProfile \<Rightarrow> PlatformEnvironment option \<Rightarrow> string
     \<Rightarrow> 'q ResolutionError check" where
  "ValidateProfile L target merged platformEnv domainKey =
     first_error
       [check_domain target merged domainKey,
        check_storage_class target merged platformEnv,
        check_ceiling L target merged,
        check_monitor_labels target merged]"

section \<open>Overlays: the last setting wins\<close>

text \<open>The last element of a list for which \<open>f\<close> has a value, and that value.\<close>

definition last_setting :: "('a \<Rightarrow> 'v option) \<Rightarrow> 'a list \<Rightarrow> 'v option \<Rightarrow> 'v option" where
  "last_setting f xs z = fold (\<lambda>x acc. case f x of None \<Rightarrow> acc | Some v \<Rightarrow> Some v) xs z"

lemma last_setting_Nil [simp]: "last_setting f [] z = z"
  by (simp add: last_setting_def)

lemma last_setting_Cons [simp]:
  "last_setting f (x # xs) z = last_setting f xs (case f x of None \<Rightarrow> z | Some v \<Rightarrow> Some v)"
  by (simp add: last_setting_def)

lemma last_setting_append: "last_setting f (xs @ ys) z = last_setting f ys (last_setting f xs z)"
  by (simp add: last_setting_def)

lemma last_setting_unset: "(\<And>x. x \<in> set xs \<Longrightarrow> f x = None) \<Longrightarrow> last_setting f xs z = z"
  by (induction xs arbitrary: z) auto

lemma last_setting_wins:
  "f x = Some v \<Longrightarrow> (\<And>y. y \<in> set ys \<Longrightarrow> f y = None) \<Longrightarrow> last_setting f (xs @ x # ys) z = Some v"
  by (simp add: last_setting_append last_setting_unset)

lemma last_setting_map: "last_setting f (map g xs) z = last_setting (\<lambda>x. f (g x)) xs z"
  by (induction xs arbitrary: z) auto

locale last_wins =
  fixes merge :: "'a \<Rightarrow> 'a \<Rightarrow> 'a"
    and view :: "'a \<Rightarrow> 'k \<Rightarrow> 'v option"
    and inv :: "'a \<Rightarrow> bool"
  assumes inv_merge: "inv x \<Longrightarrow> inv y \<Longrightarrow> inv (merge x y)"
    and view_merge: "inv x \<Longrightarrow> inv y \<Longrightarrow>
      view (merge x y) k = (case view y k of None \<Rightarrow> view x k | Some v \<Rightarrow> Some v)"
begin

lemma inv_fold: "inv z \<Longrightarrow> (\<And>x. x \<in> set xs \<Longrightarrow> inv x) \<Longrightarrow> inv (foldl merge z xs)"
  by (induction xs arbitrary: z) (auto intro: inv_merge)

theorem view_fold:
  "inv z \<Longrightarrow> (\<And>x. x \<in> set xs \<Longrightarrow> inv x) \<Longrightarrow>
   view (foldl merge z xs) k = last_setting (\<lambda>x. view x k) xs (view z k)"
proof (induction xs arbitrary: z)
  case (Cons x xs)
  then have "inv z" "inv x" "inv (merge z x)" by (auto intro: inv_merge)
  with Cons show ?case by (simp add: view_merge)
qed simp

text \<open>Regrouping a merge: profiles may be merged in any bracketing.\<close>

lemma view_assoc:
  "inv x \<Longrightarrow> inv y \<Longrightarrow> inv z \<Longrightarrow> view (merge (merge x y) z) k = view (merge x (merge y z)) k"
  by (simp add: view_merge inv_merge split: option.split)

end

lemma get_mergeStringMap:
  "gm_wf y \<Longrightarrow> gm_get (mergeStringMap x y) k = (case gm_get y k of None \<Rightarrow> gm_get x k | Some v \<Rightarrow> Some v)"
  by (simp add: mergeStringMap_def gm_get_copy)

interpretation smap: last_wins mergeStringMap gm_get gm_wf
  by unfold_locales (simp_all add: get_mergeStringMap, simp add: mergeStringMap_def)

definition string_view :: "string \<Rightarrow> unit \<Rightarrow> string option" where
  "string_view s u = (if s = [] then None else Some s)"

interpretation scalar: last_wins overlay_string string_view "\<lambda>_. True"
  by unfold_locales (simp_all add: overlay_string_def string_view_def)

text \<open>The explicitly set fields of a struct: non-nil pointers and non-empty slices.\<close>

fun explicit_field :: "rfield \<Rightarrow> rfield option" where
  "explicit_field (RPointer (Some v)) = Some (RPointer (Some v))"
| "explicit_field (RSlice (x # xs)) = Some (RSlice (x # xs))"
| "explicit_field _ = None"

definition struct_view :: "rstruct option \<Rightarrow> string \<Rightarrow> rfield option" where
  "struct_view s n = (case s of None \<Rightarrow> None | Some fs \<Rightarrow> Option.bind (map_of fs n) explicit_field)"

definition has_rtype :: "(string \<times> nat) list \<Rightarrow> rstruct option \<Rightarrow> bool" where
  "has_rtype T s = (case s of None \<Rightarrow> True | Some fs \<Rightarrow> rtype fs = T)"

lemma rkind_overlay: "rkind d = rkind s \<Longrightarrow> rkind (overlay_field d s) = rkind d"
  by (cases "(d, s)" rule: overlay_field.cases) auto

lemma explicit_overlay:
  "explicit_field (overlay_field d s) =
     (case explicit_field s of None \<Rightarrow> explicit_field d | Some v \<Rightarrow> Some v)"
  by (cases "(d, s)" rule: overlay_field.cases) auto

lemma rtype_Cons: "rtype ((n, f) # s) = (n, rkind f) # rtype s"
  by (simp add: rtype_def)

lemma overlay_map2:
  "rtype src = rtype dst \<Longrightarrow>
     rtype (map2 (\<lambda>(n, df) (_, sf). (n, overlay_field df sf)) dst src) = rtype dst
     \<and> Option.bind (map_of (map2 (\<lambda>(n, df) (_, sf). (n, overlay_field df sf)) dst src) n) explicit_field
       = (case Option.bind (map_of src n) explicit_field of
            None \<Rightarrow> Option.bind (map_of dst n) explicit_field | Some v \<Rightarrow> Some v)"
proof (induction dst arbitrary: src)
  case Nil
  then show ?case by (simp add: rtype_def)
next
  case (Cons d dst)
  then obtain s src' where src: "src = s # src'" by (cases src) (auto simp: rtype_def)
  obtain dn df sn sf where ds: "d = (dn, df)" "s = (sn, sf)" by (cases d, cases s)
  from Cons.prems have eq: "sn = dn" "rkind df = rkind sf" "rtype src' = rtype dst"
    by (simp_all add: src ds rtype_Cons)
  show ?case
    using Cons.IH [OF eq(3)] eq(1) rkind_overlay [OF eq(2)]
    by (simp add: src ds rtype_Cons explicit_overlay split: option.split)
qed

interpretation struct: last_wins mergeSecurityContext struct_view "has_rtype T" for T
proof
  fix x y :: "rstruct option"
  assume inv: "has_rtype T x" "has_rtype T y"
  show "has_rtype T (mergeSecurityContext x y)"
    using inv overlay_map2 [of "the y" "the x"]
    by (auto simp: has_rtype_def mergeSecurityContext_def overlayExplicitFields_def split: option.splits)
  fix n
  show "struct_view (mergeSecurityContext x y) n =
      (case struct_view y n of None \<Rightarrow> struct_view x n | Some v \<Rightarrow> Some v)"
  proof (cases x)
    case None
    then show ?thesis
      by (auto simp: struct_view_def mergeSecurityContext_def split: option.splits)
  next
    case (Some d)
    show ?thesis
    proof (cases y)
      case None
      then show ?thesis by (simp add: struct_view_def mergeSecurityContext_def)
    next
      case y: (Some s)
      with Some inv have "rtype s = rtype d" by (simp add: has_rtype_def)
      with overlay_map2 [of s d n] show ?thesis
        by (simp add: Some y struct_view_def mergeSecurityContext_def overlayExplicitFields_def
            split: option.split)
    qed
  qed
qed

text \<open>The retention policy: a field that is not set in the overlay keeps its value.\<close>

definition retention_view :: "PVCRetentionPolicy option \<Rightarrow> bool \<Rightarrow> string option" where
  "retention_view p deleted =
     (case p of None \<Rightarrow> None
      | Some p \<Rightarrow> string_view (if deleted then WhenDeleted p else WhenScaled p) ())"

interpretation retention: last_wins mergePVCRetentionPolicy retention_view "\<lambda>_. True"
  by unfold_locales
    (auto simp: mergePVCRetentionPolicy_def retention_view_def string_view_def overlay_string_def
      Let_def split: option.splits)

text \<open>The monitor labels, the part of the metrics block the constraints look at.\<close>

definition monitor_view :: "ProfileMetrics option \<Rightarrow> string \<Rightarrow> string option" where
  "monitor_view m k = (case m of None \<Rightarrow> None | Some m \<Rightarrow> gm_get (pm_MonitorLabels m) k)"

definition monitor_wf :: "ProfileMetrics option \<Rightarrow> bool" where
  "monitor_wf m = (case m of None \<Rightarrow> True | Some m \<Rightarrow> gm_wf (pm_MonitorLabels m))"

interpretation monitor: last_wins mergeProfileMetrics monitor_view monitor_wf
proof
  fix x y :: "ProfileMetrics option"
  assume inv: "monitor_wf x" "monitor_wf y"
  show "monitor_wf (mergeProfileMetrics x y)"
    using inv by (auto simp: monitor_wf_def mergeProfileMetrics_def zero_ProfileMetrics_def Let_def
        intro: smap.inv_merge split: option.splits)
  show "monitor_view (mergeProfileMetrics x y) k =
      (case monitor_view y k of None \<Rightarrow> monitor_view x k | Some v \<Rightarrow> Some v)" for k
    using inv by (auto simp: monitor_wf_def monitor_view_def mergeProfileMetrics_def
        zero_ProfileMetrics_def Let_def smap.view_merge split: option.splits)
qed

section \<open>Constraints: the strictest wins\<close>

locale strictest_wins =
  fixes laws :: bool
    and merge :: "'a \<Rightarrow> 'a \<Rightarrow> 'a"
    and admits :: "'a \<Rightarrow> 'r \<Rightarrow> bool"
  assumes admits_merge: "laws \<Longrightarrow> admits (merge x y) r \<longleftrightarrow> admits x r \<and> admits y r"
begin

theorem admits_fold:
  "laws \<Longrightarrow> admits (foldl merge z xs) r \<longleftrightarrow> admits z r \<and> (\<forall>x \<in> set xs. admits x r)"
  by (induction xs arbitrary: z) (auto simp: admits_merge)

lemma admits_antimono:
  "laws \<Longrightarrow> set xs \<subseteq> set ys \<Longrightarrow> admits (foldl merge z ys) r \<Longrightarrow> admits (foldl merge z xs) r"
  by (auto simp: admits_fold)

end

definition ceiling_admits :: "'q k8s_lib \<Rightarrow> 'q ProfileMaxResources option \<Rightarrow> 'q Resources \<Rightarrow> bool" where
  "ceiling_admits L mx req =
     (case mx of None \<Rightarrow> True
      | Some m \<Rightarrow> \<not> exceeds L (CPU req) (mr_CPU m) \<and> \<not> exceeds L (Memory req) (mr_Memory m))"

lemma exceeds_min:
  assumes laws: "quantity_laws L"
  shows "exceeds L r (minQuantity L a b) \<longleftrightarrow> exceeds L r a \<or> exceeds L r b"
proof -
  have sym: "q_Cmp L x y \<le> 0 \<longleftrightarrow> 0 \<le> q_Cmp L y x" for x y
    using laws by (simp add: quantity_laws_def)
  have trans: "q_Cmp L x y \<le> 0 \<Longrightarrow> q_Cmp L y z \<le> 0 \<Longrightarrow> q_Cmp L x z \<le> 0" for x y z
    using laws unfolding quantity_laws_def by blast
  show ?thesis
  proof (cases "quantitySet L a \<and> quantitySet L b")
    case False
    then show ?thesis by (auto simp: exceeds_def minQuantity_def)
  next
    case True
    show ?thesis
    proof (cases "q_Cmp L (the a) (the b) \<le> 0")
      case le: True
      have "exceeds L r b \<Longrightarrow> exceeds L r a"
        using True trans [OF _ le, of "the r"] by (auto simp: exceeds_def not_le [symmetric])
      with True le show ?thesis by (auto simp: minQuantity_def)
    next
      case gt: False
      then have le: "q_Cmp L (the b) (the a) \<le> 0" using sym [of "the b" "the a"] by simp
      have "exceeds L r a \<Longrightarrow> exceeds L r b"
        using True trans [OF _ le, of "the r"] by (auto simp: exceeds_def not_le [symmetric])
      with True gt show ?thesis by (auto simp: minQuantity_def)
    qed
  qed
qed

lemma exceeds_unset: "\<not> quantitySet L c \<Longrightarrow> \<not> exceeds L r c"
  by (simp add: exceeds_def)

interpretation ceiling: strictest_wins "quantity_laws L" "mergeMaxResources L" "ceiling_admits L" for L
proof
  fix x y :: "'a ProfileMaxResources option" and r :: "'a Resources"
  assume laws: "quantity_laws L"
  show "ceiling_admits L (mergeMaxResources L x y) r \<longleftrightarrow> ceiling_admits L x r \<and> ceiling_admits L y r"
  proof (cases "x = None \<or> y = None")
    case True
    then show ?thesis
      by (auto simp: ceiling_admits_def mergeMaxResources_def split: option.splits)
  next
    case False
    then obtain a b where ab: "x = Some a" "y = Some b" by auto
    have unset: "\<not> exceeds L (CPU r) c" "\<not> exceeds L (Memory r) c" if "\<not> quantitySet L c" for c
      using that by (simp_all add: exceeds_unset)
    show ?thesis
      using unset [of "minQuantity L (mr_CPU a) (mr_CPU b)"]
        unset [of "minQuantity L (mr_Memory a) (mr_Memory b)"]
      by (auto simp: ab ceiling_admits_def mergeMaxResources_def Let_def exceeds_min [OF laws])
  qed
qed

definition mergeAllowedDomains :: "string list option \<Rightarrow> string list option \<Rightarrow> string list option" where
  "mergeAllowedDomains b overlay =
     (case overlay of
        None \<Rightarrow> b
      | Some ds \<Rightarrow> (case b of None \<Rightarrow> Some ds | Some a \<Rightarrow> Some (intersectStrings a ds)))"

definition domains_admit :: "string list option \<Rightarrow> string \<Rightarrow> bool" where
  "domains_admit ds d = (case ds of None \<Rightarrow> True | Some ds \<Rightarrow> d \<in> set ds)"

interpretation domains: strictest_wins True mergeAllowedDomains domains_admit
  by unfold_locales (auto simp: mergeAllowedDomains_def domains_admit_def intersectStrings_def split: option.splits)

section \<open>The merge as a fold\<close>

text \<open>The profiles that a list of names selects.\<close>

definition named_profiles :: "'q PlatformProfile gomap option \<Rightarrow> string list \<Rightarrow> 'q PlatformProfile list \<Rightarrow> bool" where
  "named_profiles profiles names ps =
     list_all2 (\<lambda>n p. gm_get (case profiles of None \<Rightarrow> [] | Some m \<Rightarrow> m) n = Some p) names ps"

lemma merge_loop_ok_iff:
  "merge_loop L pm st names = Inr m \<longleftrightarrow>
     (\<exists>ps. list_all2 (\<lambda>n p. gm_get pm n = Some p) names ps \<and> m = fst (foldl (merge_step L) st ps))"
proof (induction names arbitrary: st)
  case (Cons n names)
  show ?case
  proof (cases "gm_get pm n")
    case (Some p)
    then show ?thesis by (auto simp: Cons list_all2_Cons1)
  qed (simp add: list_all2_Cons1)
qed auto

lemma MergeProfiles_ok_iff:
  "MergeProfiles L names profiles = Inr m \<longleftrightarrow>
     (\<exists>ps. named_profiles profiles names ps
           \<and> m = fst (foldl (merge_step L) (zero_PlatformProfile, False) ps))"
  by (auto simp: MergeProfiles_def named_profiles_def merge_loop_ok_iff)

lemma merge_step_fields:
  "pp_NodeSelector (fst (merge_step L st p)) = mergeStringMap (pp_NodeSelector (fst st)) (pp_NodeSelector p)"
  "pp_Tolerations (fst (merge_step L st p)) = mergeTolerations L (pp_Tolerations (fst st)) (pp_Tolerations p)"
  "pp_PodLabels (fst (merge_step L st p)) = mergeStringMap (pp_PodLabels (fst st)) (pp_PodLabels p)"
  "pp_PodAnnotations (fst (merge_step L st p)) = mergeStringMap (pp_PodAnnotations (fst st)) (pp_PodAnnotations p)"
  "pp_SecurityContext (fst (merge_step L st p)) =
     mergeSecurityContext (pp_SecurityContext (fst st)) (pp_SecurityContext p)"
  "pp_ContainerSecurityContext (fst (merge_step L st p)) =
     mergeSecurityContext (pp_ContainerSecurityContext (fst st)) (pp_ContainerSecurityContext p)"
  "pp_StorageClass (fst (merge_step L st p)) = overlay_string (pp_StorageClass (fst st)) (pp_StorageClass p)"
  "pp_PVCRetentionPolicy (fst (merge_step L st p)) =
     mergePVCRetentionPolicy (pp_PVCRetentionPolicy (fst st)) (pp_PVCRetentionPolicy p)"
  "pp_MaxResources (fst (merge_step L st p)) = mergeMaxResources L (pp_MaxResources (fst st)) (pp_MaxResources p)"
  "pp_Metrics (fst (merge_step L st p)) = mergeProfileMetrics (pp_Metrics (fst st)) (pp_Metrics p)"
  by (simp_all add: merge_step_def Let_def split_def)

text \<open>A field that each step merges on its own is merged over the whole list.\<close>

lemma foldl_field:
  assumes "\<And>st p. sel (fst (step st p)) = mrg (sel (fst st)) (sel p)"
  shows "sel (fst (foldl step st ps)) = foldl mrg (sel (fst st)) (map sel ps)"
  by (induction ps arbitrary: st) (simp_all add: assms)

lemma merged_field:
  "pp_NodeSelector (fst (foldl (merge_step L) st ps)) =
     foldl mergeStringMap (pp_NodeSelector (fst st)) (map pp_NodeSelector ps)"
  "pp_Tolerations (fst (foldl (merge_step L) st ps)) =
     foldl (mergeTolerations L) (pp_Tolerations (fst st)) (map pp_Tolerations ps)"
  "pp_PodLabels (fst (foldl (merge_step L) st ps)) =
     foldl mergeStringMap (pp_PodLabels (fst st)) (map pp_PodLabels ps)"
  "pp_PodAnnotations (fst (foldl (merge_step L) st ps)) =
     foldl mergeStringMap (pp_PodAnnotations (fst st)) (map pp_PodAnnotations ps)"
  "pp_SecurityContext (fst (foldl (merge_step L) st ps)) =
     foldl mergeSecurityContext (pp_SecurityContext (fst st)) (map pp_SecurityContext ps)"
  "pp_ContainerSecurityContext (fst (foldl (merge_step L) st ps)) =
     foldl mergeSecurityContext (pp_ContainerSecurityContext (fst st)) (map pp_ContainerSecurityContext ps)"
  "pp_StorageClass (fst (foldl (merge_step L) st ps)) =
     foldl overlay_string (pp_StorageClass (fst st)) (map pp_StorageClass ps)"
  "pp_PVCRetentionPolicy (fst (foldl (merge_step L) st ps)) =
     foldl mergePVCRetentionPolicy (pp_PVCRetentionPolicy (fst st)) (map pp_PVCRetentionPolicy ps)"
  "pp_MaxResources (fst (foldl (merge_step L) st ps)) =
     foldl (mergeMaxResources L) (pp_MaxResources (fst st)) (map pp_MaxResources ps)"
  "pp_Metrics (fst (foldl (merge_step L) st ps)) =
     foldl mergeProfileMetrics (pp_Metrics (fst st)) (map pp_Metrics ps)"
  by (rule foldl_field, rule merge_step_fields)+

lemma merge_step_domains:
  "snd st = (pp_AllowedDomains (fst st) \<noteq> None) \<Longrightarrow>
     snd (merge_step L st p) = (pp_AllowedDomains (fst (merge_step L st p)) \<noteq> None)
     \<and> pp_AllowedDomains (fst (merge_step L st p))
         = mergeAllowedDomains (pp_AllowedDomains (fst st)) (pp_AllowedDomains p)"
  by (auto simp: merge_step_def mergeAllowedDomains_def Let_def split_def split: option.splits)

lemma merged_domains:
  "snd st = (pp_AllowedDomains (fst st) \<noteq> None) \<Longrightarrow>
     pp_AllowedDomains (fst (foldl (merge_step L) st ps))
       = foldl mergeAllowedDomains (pp_AllowedDomains (fst st)) (map pp_AllowedDomains ps)"
  by (induction ps arbitrary: st) (simp_all add: merge_step_domains)

lemma zero_PlatformProfile_sel [simp]:
  "pp_NodeSelector zero_PlatformProfile = []" "pp_Tolerations zero_PlatformProfile = []"
  "pp_PodLabels zero_PlatformProfile = []" "pp_PodAnnotations zero_PlatformProfile = []"
  "pp_SecurityContext zero_PlatformProfile = None" "pp_ContainerSecurityContext zero_PlatformProfile = None"
  "pp_StorageClass zero_PlatformProfile = []" "pp_PVCRetentionPolicy zero_PlatformProfile = None"
  "pp_AllowedDomains zero_PlatformProfile = None" "pp_MaxResources zero_PlatformProfile = None"
  "pp_Metrics zero_PlatformProfile = None"
  by (simp_all add: zero_PlatformProfile_def)

lemma named_profiles_set:
  "named_profiles profiles names ps \<Longrightarrow>
     (\<forall>p \<in> set ps. Q p) \<longleftrightarrow> (\<forall>n \<in> set names. \<exists>p. gm_get (case profiles of None \<Rightarrow> [] | Some m \<Rightarrow> m) n = Some p \<and> Q p)"
  unfolding named_profiles_def by (induction names ps rule: list_all2_induct) auto

lemma named_profiles_unique:
  "named_profiles profiles names ps \<Longrightarrow> named_profiles profiles names ps' \<Longrightarrow> ps' = ps"
  unfolding named_profiles_def by (auto simp: list_all2_conv_all_nth intro!: nth_equalityI)

section \<open>Properties of the merge\<close>

lemma check_ceiling_None:
  "check_ceiling L target p = None \<longleftrightarrow> ceiling_admits L (pp_MaxResources p) (effectiveResourceRequests L target)"
  by (auto simp: check_ceiling_def ceiling_admits_def checkResourceCeiling_def Let_def split: option.splits)

lemma check_domain_None:
  "check_domain target p d = None \<longleftrightarrow> d = [] \<or> domains_admit (pp_AllowedDomains p) d"
  by (auto simp: check_domain_def domains_admit_def split: option.splits)

text \<open>A profile of the platform file by name.\<close>

abbreviation profile_named :: "'q PlatformProfile gomap option \<Rightarrow> string \<Rightarrow> 'q PlatformProfile option" where
  "profile_named profiles n \<equiv> gm_get (case profiles of None \<Rightarrow> [] | Some m \<Rightarrow> m) n"

lemma merged_ceiling_iff:
  assumes "quantity_laws L" and "MergeProfiles L names profiles = Inr m"
  shows "check_ceiling L target m = None \<longleftrightarrow>
           (\<forall>n \<in> set names. \<exists>p. profile_named profiles n = Some p \<and> check_ceiling L target p = None)"
proof -
  from assms(2) obtain ps where ps: "named_profiles profiles names ps"
    and m: "m = fst (foldl (merge_step L) (zero_PlatformProfile, False) ps)"
    by (auto simp: MergeProfiles_ok_iff)
  have "ceiling_admits L (pp_MaxResources m) r \<longleftrightarrow> (\<forall>p \<in> set ps. ceiling_admits L (pp_MaxResources p) r)" for r
    unfolding m merged_field
    using ceiling.admits_fold [OF assms(1), of None "map pp_MaxResources ps" r]
    by (simp add: ceiling_admits_def)
  then show ?thesis by (simp add: check_ceiling_None named_profiles_set [OF ps])
qed

lemma merged_domain_iff:
  assumes "MergeProfiles L names profiles = Inr m"
  shows "check_domain target m d = None \<longleftrightarrow>
           (\<forall>n \<in> set names. \<exists>p. profile_named profiles n = Some p \<and> check_domain target p d = None)"
proof -
  from assms obtain ps where ps: "named_profiles profiles names ps"
    and m: "m = fst (foldl (merge_step L) (zero_PlatformProfile, False) ps)"
    by (auto simp: MergeProfiles_ok_iff)
  have "domains_admit (pp_AllowedDomains m) d \<longleftrightarrow> (\<forall>p \<in> set ps. domains_admit (pp_AllowedDomains p) d)"
    unfolding m
    using domains.admits_fold [of None "map pp_AllowedDomains ps" d]
    by (simp add: merged_domains domains_admit_def)
  then have "check_domain target m d = None \<longleftrightarrow> (\<forall>p \<in> set ps. check_domain target p d = None)"
    by (auto simp: check_domain_None)
  then show ?thesis by (simp add: named_profiles_set [OF ps])
qed

text \<open>
  C28: constraints compose. A component or task passes the domain and the ceiling check of the
  merged profile exactly when it passes those of every profile in the list: a profile later in
  the list can never loosen what an earlier one forbids.
\<close>

theorem merged_profile_strictest:
  assumes "quantity_laws L" and "MergeProfiles L names profiles = Inr m"
  shows "check_ceiling L target m = None \<and> check_domain target m d = None \<longleftrightarrow>
           (\<forall>n \<in> set names. \<exists>p. profile_named profiles n = Some p
              \<and> check_ceiling L target p = None \<and> check_domain target p d = None)"
  unfolding merged_ceiling_iff [OF assms] merged_domain_iff [OF assms(2)]
  by (metis option.inject)

text \<open>
  overlays. In the merged profile each node selector, pod label and pod annotation has
  the value of the last profile in the list that sets the key; each explicitly set field of the
  security contexts (a pointer, also one to \<open>false\<close>, or a non-empty slice) and the storage class
  come from the last profile that sets them.
\<close>

theorem merged_profile_last_wins:
  assumes "MergeProfiles L names profiles = Inr m" and "named_profiles profiles names ps"
    and wf: "\<forall>p \<in> set ps. gm_wf (pp_NodeSelector p) \<and> gm_wf (pp_PodLabels p) \<and> gm_wf (pp_PodAnnotations p)
               \<and> has_rtype T (pp_SecurityContext p) \<and> has_rtype U (pp_ContainerSecurityContext p)"
  shows "gm_get (pp_NodeSelector m) k = last_setting (\<lambda>p. gm_get (pp_NodeSelector p) k) ps None
    \<and> gm_get (pp_PodLabels m) k = last_setting (\<lambda>p. gm_get (pp_PodLabels p) k) ps None
    \<and> gm_get (pp_PodAnnotations m) k = last_setting (\<lambda>p. gm_get (pp_PodAnnotations p) k) ps None
    \<and> struct_view (pp_SecurityContext m) k = last_setting (\<lambda>p. struct_view (pp_SecurityContext p) k) ps None
    \<and> struct_view (pp_ContainerSecurityContext m) k
        = last_setting (\<lambda>p. struct_view (pp_ContainerSecurityContext p) k) ps None
    \<and> string_view (pp_StorageClass m) () = last_setting (\<lambda>p. string_view (pp_StorageClass p) ()) ps None"
proof -
  from assms(1) obtain ps' where ps': "named_profiles profiles names ps'"
    and m': "m = fst (foldl (merge_step L) (zero_PlatformProfile, False) ps')"
    by (auto simp: MergeProfiles_ok_iff)
  have "ps' = ps" using assms(2) ps' by (rule named_profiles_unique)
  with m' have m: "m = fst (foldl (merge_step L) (zero_PlatformProfile, False) ps)" by simp
  have maps: "gm_get (pp_NodeSelector m) k = last_setting (\<lambda>p. gm_get (pp_NodeSelector p) k) ps None"
    "gm_get (pp_PodLabels m) k = last_setting (\<lambda>p. gm_get (pp_PodLabels p) k) ps None"
    "gm_get (pp_PodAnnotations m) k = last_setting (\<lambda>p. gm_get (pp_PodAnnotations p) k) ps None"
    unfolding m merged_field using wf
    by (subst smap.view_fold; auto simp: last_setting_map)+
  have sec: "struct_view (pp_SecurityContext m) k = last_setting (\<lambda>p. struct_view (pp_SecurityContext p) k) ps None"
    unfolding m merged_field using wf
    by (subst struct.view_fold [of T]; auto simp: last_setting_map has_rtype_def struct_view_def)
  have csec: "struct_view (pp_ContainerSecurityContext m) k
      = last_setting (\<lambda>p. struct_view (pp_ContainerSecurityContext p) k) ps None"
    unfolding m merged_field using wf
    by (subst struct.view_fold [of U]; auto simp: last_setting_map has_rtype_def struct_view_def)
  have "string_view (pp_StorageClass m) () = last_setting (\<lambda>p. string_view (pp_StorageClass p) ()) ps None"
    unfolding m merged_field
    by (subst scalar.view_fold; auto simp: last_setting_map string_view_def)
  with maps sec csec show ?thesis by blast
qed

lemma ResolveProfileNames_default:
  assumes "ResolveProfileNames cp (Some pps) = Inr names" and "gm_has pps DefaultProfileName"
  shows "\<exists>rest. names = DefaultProfileName # rest \<and> DefaultProfileName \<notin> set rest"
  using assms by (auto simp: ResolveProfileNames_def split: option.splits list.splits if_splits)

text \<open>
  the default profile cannot be escaped. Whatever profiles a component lists, if the
  platform file has a \<open>default\<close> profile, the resolution and the merge succeed and the merged
  profile's checks pass, then the default profile was merged first, once, and the component is
  within the default profile's ceiling and its allowed domains.
\<close>

theorem default_profile_inescapable:
  assumes "quantity_laws L"
    and "ResolveProfileNames cp (Some pps) = Inr names"
    and "MergeProfiles L names (Some pps) = Inr m"
    and "ValidateProfile L target m platformEnv d = None"
    and default: "gm_get pps DefaultProfileName = Some p"
  shows "hd names = DefaultProfileName \<and> DefaultProfileName \<notin> set (tl names)
         \<and> check_ceiling L target p = None \<and> check_domain target p d = None"
proof -
  from default have "gm_has pps DefaultProfileName" by (simp add: gm_has_def)
  from ResolveProfileNames_default [OF assms(2) this] obtain rest
    where names: "names = DefaultProfileName # rest" "DefaultProfileName \<notin> set rest" by blast
  from assms(4) have "check_ceiling L target m = None" "check_domain target m d = None"
    by (auto simp: ValidateProfile_def first_error_None)
  with merged_ceiling_iff [OF assms(1,3)] merged_domain_iff [OF assms(3)] names default
  show ?thesis by auto
qed

text \<open>
  the merge fails exactly on an undefined profile name, with the first one that is not
  defined and the sorted list of the defined ones.
\<close>

theorem merge_profiles_error_exact:
  "case MergeProfiles L names profiles of
     Inr m \<Rightarrow> list_all (\<lambda>n. profile_named profiles n \<noteq> None) names
   | Inl e \<Rightarrow> \<exists>ns n ns'. names = ns @ n # ns' \<and> list_all (\<lambda>n. profile_named profiles n \<noteq> None) ns
       \<and> profile_named profiles n = None
       \<and> e = ResolutionError PROFILE_NOT_FOUND
               (ProfileUndefined n (sorted_keys (case profiles of None \<Rightarrow> [] | Some m \<Rightarrow> m)))"
proof -
  have loop: "case merge_loop L pm st names of
     Inr m \<Rightarrow> list_all (\<lambda>n. gm_get pm n \<noteq> None) names
   | Inl e \<Rightarrow> \<exists>ns n ns'. names = ns @ n # ns' \<and> list_all (\<lambda>n. gm_get pm n \<noteq> None) ns \<and> gm_get pm n = None
       \<and> e = ResolutionError PROFILE_NOT_FOUND (ProfileUndefined n (sorted_keys pm))" for pm st
  proof (induction names arbitrary: st)
    case (Cons x names)
    show ?case
    proof (cases "gm_get pm x")
      case None
      then show ?thesis by simp (rule exI [of _ "[]"], simp)
    next
      case (Some p)
      then have ok: "list_all (\<lambda>n. gm_get pm n \<noteq> None) [x]" by simp
      show ?thesis
      proof (cases "merge_loop L pm (merge_step L st p) names")
        case (Inl e)
        with Cons [of "merge_step L st p"] obtain ns n ns' where
          "names = ns @ n # ns'" "list_all (\<lambda>n. gm_get pm n \<noteq> None) ns" "gm_get pm n = None"
          "e = ResolutionError PROFILE_NOT_FOUND (ProfileUndefined n (sorted_keys pm))" by auto
        with Inl Some ok show ?thesis
          by simp (rule exI [of _ "x # ns"], simp)
      next
        case (Inr m)
        with Cons [of "merge_step L st p"] Some show ?thesis by simp
      qed
    qed
  qed simp
  show ?thesis
    by (cases "names = []") (simp_all add: MergeProfiles_def loop)
qed

section \<open>Tolerations\<close>

lemma mergeTolerations_spec:
  assumes laws: "deep_equal_laws L"
  shows "sorted_wrt (\<lambda>a b. \<not> DeepEqual L a b) b \<Longrightarrow>
     sorted_wrt (\<lambda>a b. \<not> DeepEqual L a b) (mergeTolerations L b ov)
     \<and> set b \<subseteq> set (mergeTolerations L b ov) \<and> set (mergeTolerations L b ov) \<subseteq> set b \<union> set ov
     \<and> (\<forall>t \<in> set ov. \<exists>u \<in> set (mergeTolerations L b ov). DeepEqual L u t)"
proof (induction ov arbitrary: b)
  case Nil
  then show ?case by (simp add: mergeTolerations_def)
next
  case (Cons t ov)
  define b' where "b' = (if containsToleration L b t then b else b @ [t])"
  have step: "mergeTolerations L b (t # ov) = mergeTolerations L b' ov"
    by (simp add: mergeTolerations_def b'_def)
  have "sorted_wrt (\<lambda>a b. \<not> DeepEqual L a b) b'"
    using Cons.prems by (auto simp: b'_def sorted_wrt_append containsToleration_def list_ex_iff)
  note IH = Cons.IH [OF this]
  have "DeepEqual L t t" using laws unfolding deep_equal_laws_def by blast
  then have t: "\<exists>u \<in> set b'. DeepEqual L u t"
    by (auto simp: b'_def containsToleration_def list_ex_iff)
  have b': "set b \<subseteq> set b'" "set b' \<subseteq> insert t (set b)" by (auto simp: b'_def)
  show ?case unfolding step
  proof (intro conjI)
    show "set b \<subseteq> set (mergeTolerations L b' ov)" using IH b' by (meson subset_trans)
    show "set (mergeTolerations L b' ov) \<subseteq> set b \<union> set (t # ov)" using IH b' by fastforce
    show "\<forall>t \<in> set (t # ov). \<exists>u \<in> set (mergeTolerations L b' ov). DeepEqual L u t"
      using IH t by (metis set_ConsD subsetD)
  qed (use IH in blast)
qed

text \<open>
  tolerations. The merged list has a toleration semantically equal to each toleration of
  each profile, none that no profile has, and no two that are semantically equal.
\<close>

theorem merged_tolerations:
  assumes laws: "deep_equal_laws L" and ok: "MergeProfiles L names profiles = Inr m"
    and ps: "named_profiles profiles names ps"
  shows "sorted_wrt (\<lambda>a b. \<not> DeepEqual L a b) (pp_Tolerations m)
    \<and> set (pp_Tolerations m) \<subseteq> (\<Union>p \<in> set ps. set (pp_Tolerations p))
    \<and> (\<forall>p \<in> set ps. \<forall>t \<in> set (pp_Tolerations p). \<exists>u \<in> set (pp_Tolerations m). DeepEqual L u t)"
proof -
  have fold: "foldl (mergeTolerations L) z ts = mergeTolerations L z (concat ts)" for z ts
    by (induction ts arbitrary: z) (simp_all add: mergeTolerations_def)
  from ok obtain ps' where ps': "named_profiles profiles names ps'"
    and m: "m = fst (foldl (merge_step L) (zero_PlatformProfile, False) ps')"
    by (auto simp: MergeProfiles_ok_iff)
  have "ps' = ps" using ps ps' by (rule named_profiles_unique)
  with m have "pp_Tolerations m = foldl (mergeTolerations L) [] (map pp_Tolerations ps)"
    by (simp add: merged_field)
  then have "pp_Tolerations m = mergeTolerations L [] (concat (map pp_Tolerations ps))"
    by (simp add: fold)
  with mergeTolerations_spec [OF laws, of "[]" "concat (map pp_Tolerations ps)"] show ?thesis by simp
qed

section \<open>Examples\<close>

definition ex_default :: "int PlatformProfile" where
  "ex_default = zero_PlatformProfile
     \<lparr>pp_NodeSelector := [(''pool'', ''general''), (''arch'', ''arm64'')],
      pp_Tolerations := [JStr ''spot''],
      pp_SecurityContext := Some [(''RunAsNonRoot'', RPointer (Some (JBool True))), (''FSGroup'', RPointer None)],
      pp_AllowedDomains := Some [''public'', ''internal''],
      pp_MaxResources := Some \<lparr>mr_CPU = Some 1000, mr_Memory = None\<rparr>\<rparr>"

definition ex_gpu :: "int PlatformProfile" where
  "ex_gpu = zero_PlatformProfile
     \<lparr>pp_NodeSelector := [(''pool'', ''gpu'')],
      pp_Tolerations := [JStr ''spot'', JStr ''gpu''],
      pp_SecurityContext := Some [(''RunAsNonRoot'', RPointer (Some (JBool False))), (''FSGroup'', RPointer None)],
      pp_StorageClass := ''fast'',
      pp_AllowedDomains := Some [''internal''],
      pp_MaxResources := Some \<lparr>mr_CPU = Some 2000, mr_Memory = Some 4096\<rparr>\<rparr>"

definition ex_profiles :: "int PlatformProfile gomap" where
  "ex_profiles = [(''gpu'', ex_gpu), (''default'', ex_default)]"

definition ex_merged :: "int PlatformProfile" where
  "ex_merged = zero_PlatformProfile
     \<lparr>pp_NodeSelector := [(''pool'', ''gpu''), (''arch'', ''arm64'')],
      pp_Tolerations := [JStr ''spot'', JStr ''gpu''],
      pp_SecurityContext := Some [(''RunAsNonRoot'', RPointer (Some (JBool False))), (''FSGroup'', RPointer None)],
      pp_StorageClass := ''fast'',
      pp_AllowedDomains := Some [''internal''],
      pp_MaxResources := Some \<lparr>mr_CPU = Some 1000, mr_Memory = Some 4096\<rparr>\<rparr>"

definition ex_target :: "int ProfileTarget" where
  "ex_target =
     \<lparr>pt_Subject = ProfileSubjectComponent, pt_Name = ''train'',
      pt_Resources = \<lparr>CPU = Some 800, Memory = Some 2048, EphemeralStorage = None\<rparr>,
      pt_ResourcePreset = [], pt_Metrics = None\<rparr>"

lemma ex_names: "ResolveProfileNames (Some [''gpu'']) (Some ex_profiles) = Inr [''default'', ''gpu'']"
  by code_simp

lemma ex_merge: "MergeProfiles int_lib [''default'', ''gpu''] (Some ex_profiles) = Inr ex_merged"
  by code_simp

lemma ex_named: "named_profiles (Some ex_profiles) [''default'', ''gpu''] [ex_default, ex_gpu]"
  by (simp add: named_profiles_def ex_profiles_def gm_get_Cons)

theorem merged_profile_strictest_witness:
  "(\<exists>p. profile_named (Some ex_profiles) ''default'' = Some p
     \<and> check_ceiling int_lib ex_target p = None \<and> check_domain ex_target p ''internal'' = None)
   \<and> (\<exists>p. profile_named (Some ex_profiles) ''gpu'' = Some p
     \<and> check_ceiling int_lib ex_target p = None \<and> check_domain ex_target p ''internal'' = None)"
proof -
  have "check_ceiling int_lib ex_target ex_merged = None" by code_simp
  moreover have "check_domain ex_target ex_merged ''internal'' = None" by code_simp
  ultimately have "\<forall>n \<in> set [''default'', ''gpu'']. \<exists>p. profile_named (Some ex_profiles) n = Some p
     \<and> check_ceiling int_lib ex_target p = None \<and> check_domain ex_target p ''internal'' = None"
    using merged_profile_strictest [OF int_lib_laws(1) ex_merge, of ex_target "''internal''"] by blast
  then show ?thesis by simp
qed

theorem merged_profile_last_wins_witness:
  "gm_get (pp_NodeSelector ex_merged) ''pool'' = Some ''gpu''"
proof -
  have "\<forall>p \<in> set [ex_default, ex_gpu]. gm_wf (pp_NodeSelector p) \<and> gm_wf (pp_PodLabels p)
      \<and> gm_wf (pp_PodAnnotations p)
      \<and> has_rtype [(''RunAsNonRoot'', 0), (''FSGroup'', 0)] (pp_SecurityContext p)
      \<and> has_rtype [] (pp_ContainerSecurityContext p)"
    by (simp add: ex_default_def ex_gpu_def zero_PlatformProfile_def gm_wf_def has_rtype_def rtype_def)
  from merged_profile_last_wins [OF ex_merge ex_named this, of "''pool''"]
  have "gm_get (pp_NodeSelector ex_merged) ''pool''
      = last_setting (\<lambda>p. gm_get (pp_NodeSelector p) ''pool'') [ex_default, ex_gpu] None" by blast
  then show ?thesis by (simp add: ex_default_def ex_gpu_def gm_get_Cons)
qed

theorem default_profile_inescapable_witness:
  "check_ceiling int_lib ex_target ex_default = None \<and> check_domain ex_target ex_default ''internal'' = None"
proof -
  have v: "ValidateProfile int_lib ex_target ex_merged
      (Some (zero_PlatformEnvironment\<lparr>pe_StorageClasses := Some [(''fast'', \<lparr>sc_ClassName = ''nvme''\<rparr>)]\<rparr>))
      ''internal'' = None" by code_simp
  have d: "gm_get ex_profiles DefaultProfileName = Some ex_default"
    by (simp add: ex_profiles_def gm_get_Cons DefaultProfileName_def)
  from default_profile_inescapable [OF int_lib_laws(1) ex_names ex_merge v d] show ?thesis by blast
qed

theorem merged_tolerations_witness:
  "set (pp_Tolerations ex_merged) \<subseteq> (\<Union>p \<in> set [ex_default, ex_gpu]. set (pp_Tolerations p))"
  using merged_tolerations [OF int_lib_laws(2) ex_merge ex_named] by blast

end
