(* ===== verification/Duration.thy ===== *)
theory Duration
  imports Prelude
begin

text \<open>
  Durations: \<open>time.ParseDuration\<close> of the Go standard library, with its 64-bit overflow checks
  and its floating-point fractions, and \<open>ParseDuration\<close> of \<open>internal/spec/duration.go\<close>, which
  converts a duration string into whole seconds.

  Integers are \<open>int\<close> with the wrap-around of \<open>uint64\<close> and \<open>int64\<close> written out where the code
  can reach it; a float64 is the rational it denotes, and \<open>float64_div\<close> and \<open>float64_mul\<close> round
  the exact result to 53 significant bits, ties to even.
\<close>

section \<open>Machine arithmetic\<close>

definition to_int64 :: "int \<Rightarrow> int" where
  "to_int64 x = (x + 2 ^ 63) mod 2 ^ 64 - 2 ^ 63"

definition to_uint64 :: "int \<Rightarrow> int" where
  "to_uint64 x = x mod 2 ^ 64"

lemma to_int64_id: "- (2 ^ 63) \<le> x \<Longrightarrow> x < 2 ^ 63 \<Longrightarrow> to_int64 x = x"
  by (simp add: to_int64_def)

lemma to_uint64_id: "0 \<le> x \<Longrightarrow> x < 2 ^ 64 \<Longrightarrow> to_uint64 x = x"
  by (simp add: to_uint64_def)

text \<open>The number of bits of a positive integer.\<close>

function bit_length :: "int \<Rightarrow> nat" where
  "bit_length n = (if n \<le> 0 then 0 else Suc (bit_length (n div 2)))"
  by pat_completeness auto
termination by (relation "measure nat") auto

declare bit_length.simps [simp del]

definition round_half_even :: "int \<Rightarrow> int \<Rightarrow> int" where
  "round_half_even p q =
     (let m = p div q; r = p mod q in
      if 2 * r < q then m else if 2 * r > q then m + 1 else if even m then m else m + 1)"

text \<open>A positive rational \<open>p / q\<close> rounded to 53 bits, again as a pair.\<close>

definition float64 :: "int \<times> int \<Rightarrow> int \<times> int" where
  "float64 = (\<lambda>(p, q).
     if p \<le> 0 then (0, 1)
     else
       (let scale = \<lambda>e. if e \<ge> (0 :: int) then (p, q * 2 ^ nat e) else (p * 2 ^ nat (- e), q);
            e0 = int (bit_length p) - int (bit_length q) - 53;
            (a, b) = scale e0;
            e = (if a < 2 ^ 53 * b then e0 else e0 + 1);
            (a, b) = scale e;
            m = round_half_even a b
        in if e \<ge> 0 then (m * 2 ^ nat e, 1) else (m, 2 ^ nat (- e))))"

definition float64_div :: "int \<times> int \<Rightarrow> int \<times> int \<Rightarrow> int \<times> int" where
  "float64_div x y = float64 (fst x * snd y, snd x * fst y)"

definition float64_mul :: "int \<times> int \<Rightarrow> int \<times> int \<Rightarrow> int \<times> int" where
  "float64_mul x y = float64 (fst x * fst y, snd x * snd y)"

section \<open>time.ParseDuration\<close>

definition is_digit :: "char \<Rightarrow> bool" where
  "is_digit c = (48 \<le> (of_char c :: int) \<and> (of_char c :: int) \<le> 57)"

definition digit_val :: "char \<Rightarrow> int" where
  "digit_val c = of_char c - 48"

text \<open>\<open>None\<close> is the overflow error.\<close>

fun leadingInt :: "string \<Rightarrow> int \<Rightarrow> (int \<times> string) option" where
  "leadingInt [] x = Some (x, [])"
| "leadingInt (c # s) x =
     (if \<not> is_digit c then Some (x, c # s)
      else if x > 2 ^ 63 div 10 then None
      else
        (let x' = x * 10 + digit_val c in
         if x' > 2 ^ 63 then None else leadingInt s x'))"

fun leadingFraction :: "string \<Rightarrow> int \<Rightarrow> int \<Rightarrow> bool \<Rightarrow> int \<times> int \<times> string" where
  "leadingFraction [] x scale overflow = (x, scale, [])"
| "leadingFraction (c # s) x scale overflow =
     (if \<not> is_digit c then (x, scale, c # s)
      else if overflow then leadingFraction s x scale True
      else if x > (2 ^ 63 - 1) div 10 then leadingFraction s x scale True
      else
        (let y = x * 10 + digit_val c in
         if y > 2 ^ 63 then leadingFraction s x scale True
         else leadingFraction s y (scale * 10) False))"

datatype dur_error = DurInvalid | DurMissingUnit | DurUnknownUnit string

definition unitMap :: "int gomap" where
  "unitMap =
     [(''ns'', 1), (''us'', 1000), ([CHR 0xC2, CHR 0xB5, CHR ''s''], 1000),
      ([CHR 0xCE, CHR 0xBC, CHR ''s''], 1000), (''ms'', 1000000), (''s'', 1000000000),
      (''m'', 60000000000), (''h'', 3600000000000)]"

definition unit_char :: "char \<Rightarrow> bool" where
  "unit_char c = (c \<noteq> CHR ''.'' \<and> \<not> is_digit c)"

text \<open>The value of one term after its number and unit are read.\<close>

definition term_value :: "int \<Rightarrow> int \<Rightarrow> int \<Rightarrow> int \<Rightarrow> (dur_error, int) result" where
  "term_value v f scale unit =
     (if v > 2 ^ 63 div unit then Inl DurInvalid
      else if f > 0 then
        (let (a, b) = float64_mul (float64 (f, 1)) (float64_div (unit, 1) (scale, 1));
             v' = v * unit + a div b
         in if v' > 2 ^ 63 then Inl DurInvalid else Inr v')
      else Inr (v * unit))"

text \<open>One iteration of the loop: a number with an optional fraction, and a unit.\<close>

definition dur_term :: "string \<Rightarrow> (dur_error, int \<times> string) result" where
  "dur_term s =
     (if s = [] \<or> \<not> (hd s = CHR ''.'' \<or> is_digit (hd s)) then Inl DurInvalid
      else
        (case leadingInt s 0 of
           None \<Rightarrow> Inl DurInvalid
         | Some (v, s1) \<Rightarrow>
             (let pre = (length s \<noteq> length s1);
                  (f, scale, s2, post) =
                    (if s1 \<noteq> [] \<and> hd s1 = CHR ''.'' then
                       (let (f, scale, s2) = leadingFraction (tl s1) 0 1 False
                        in (f, scale, s2, length (tl s1) \<noteq> length s2))
                     else (0, 1, s1, False));
                  u = takeWhile unit_char s2
              in if \<not> pre \<and> \<not> post then Inl DurInvalid
                 else if u = [] then Inl DurMissingUnit
                 else
                   (case gm_get unitMap u of
                      None \<Rightarrow> Inl (DurUnknownUnit u)
                    | Some unit \<Rightarrow>
                        (case term_value v f scale unit of
                           Inl e \<Rightarrow> Inl e
                         | Inr n \<Rightarrow> Inr (n, dropWhile unit_char s2))))))"

lemma length_leadingInt: "leadingInt s x = Some (v, s') \<Longrightarrow> length s' \<le> length s"
  by (induction s x rule: leadingInt.induct) (auto simp: Let_def split: if_splits)

lemma length_leadingFraction: "leadingFraction s x sc ov = (f, sc', s') \<Longrightarrow> length s' \<le> length s"
proof (induction s arbitrary: x sc ov)
  case (Cons c s)
  then have "s' = c # s \<or> length s' \<le> length s" by (simp add: Let_def split: if_splits)
  then show ?case by auto
qed simp

lemma length_drop_unit: "takeWhile unit_char s \<noteq> [] \<Longrightarrow> length (dropWhile unit_char s) < length s"
  by (metis length_append length_greater_0_conv less_add_same_cancel2 takeWhile_dropWhile_id)

lemma dur_term_shorter: "dur_term s = Inr (v, s') \<Longrightarrow> length s' < length s"
proof -
  assume ok: "dur_term s = Inr (v, s')"
  then obtain w s1 where li: "leadingInt s 0 = Some (w, s1)"
    by (auto simp: dur_term_def split: if_splits option.splits)
  have le1: "length s1 \<le> length s" by (rule length_leadingInt [OF li])
  from ok li consider "takeWhile unit_char s1 \<noteq> []" "s' = dropWhile unit_char s1"
    | f sc s2 where "s1 \<noteq> []" "leadingFraction (tl s1) 0 1 False = (f, sc, s2)"
        "takeWhile unit_char s2 \<noteq> []" "s' = dropWhile unit_char s2"
    by (auto simp: dur_term_def Let_def split: if_splits option.splits sum.splits prod.splits)
  then show ?thesis
  proof cases
    case 1
    with length_drop_unit [OF 1(1)] le1 show ?thesis by simp
  next
    case 2
    with length_leadingFraction [OF 2(2)] length_drop_unit [OF 2(3)] le1 show ?thesis
      by (cases s1) auto
  qed
qed

function dur_loop :: "string \<Rightarrow> int \<Rightarrow> (dur_error, int) result" where
  "dur_loop s d =
     (if s = [] then Inr d
      else
        (case dur_term s of
           Inl e \<Rightarrow> Inl e
         | Inr (v, s') \<Rightarrow>
             (if to_uint64 (d + v) > 2 ^ 63 then Inl DurInvalid
              else dur_loop s' (to_uint64 (d + v)))))"
  by pat_completeness auto
termination by (relation "measure (\<lambda>(s, d). length s)") (auto intro: dur_term_shorter)

declare dur_loop.simps [simp del]

text \<open>The result is a number of nanoseconds.\<close>

definition time_ParseDuration :: "string \<Rightarrow> (dur_error, int) result" where
  "time_ParseDuration s =
     (let (neg, s') =
        (if s \<noteq> [] \<and> (hd s = CHR ''-'' \<or> hd s = CHR ''+'') then (hd s = CHR ''-'', tl s) else (False, s))
      in if s' = ''0'' then Inr 0
         else if s' = [] then Inl DurInvalid
         else
           (case dur_loop s' 0 of
              Inl e \<Rightarrow> Inl e
            | Inr d \<Rightarrow>
                if neg then Inr (to_int64 (- to_int64 d))
                else if d > 2 ^ 63 - 1 then Inl DurInvalid
                else Inr d))"

section \<open>Whole seconds\<close>

text \<open>
  \<open>int(d.Seconds())\<close> for a positive duration: \<open>Seconds\<close> adds the whole seconds and the
  fraction as float64, so the sum is rounded up to the next second when the fraction is within
  half a unit in the last place of it.
\<close>

definition seconds_round_up :: "int \<Rightarrow> int \<Rightarrow> bool" where
  "seconds_round_up sec nsec =
     (sec > 0 \<and> (10 ^ 9 - nsec) * 2 ^ (54 - bit_length sec) \<le> 10 ^ 9)"

definition int_Seconds :: "int \<Rightarrow> int" where
  "int_Seconds d =
     (let sec = d div 10 ^ 9; nsec = d mod 10 ^ 9 in
      if seconds_round_up sec nsec then sec + 1 else sec)"

datatype duration_error = InvalidDuration string dur_error | DurationNotPositive string

definition ParseDuration :: "string \<Rightarrow> (duration_error, int) result" where
  "ParseDuration s =
     (case time_ParseDuration s of
        Inl e \<Rightarrow> Inl (InvalidDuration s e)
      | Inr d \<Rightarrow> if d \<le> 0 then Inl (DurationNotPositive s) else Inr (int_Seconds d))"

section \<open>Reading decimal numbers\<close>

definition dec_val :: "string \<Rightarrow> int \<Rightarrow> int" where
  "dec_val ds x = fold (\<lambda>c x. x * 10 + digit_val c) ds x"

lemma dec_val_simps [simp]:
  "dec_val [] x = x" "dec_val (c # ds) x = dec_val ds (x * 10 + digit_val c)"
  "dec_val (ds @ es) x = dec_val es (dec_val ds x)"
  by (simp_all add: dec_val_def)

lemma digit_val_nonneg: "is_digit c \<Longrightarrow> 0 \<le> digit_val c"
  by (simp add: is_digit_def digit_val_def)

lemma dec_val_mono: "list_all is_digit ds \<Longrightarrow> 0 \<le> x \<Longrightarrow> x \<le> dec_val ds x"
proof (induction ds arbitrary: x)
  case (Cons c ds)
  then have "0 \<le> digit_val c" by (simp add: digit_val_nonneg)
  with Cons.prems have "x \<le> x * 10 + digit_val c" "0 \<le> x * 10 + digit_val c" by simp_all
  with Cons.IH [of "x * 10 + digit_val c"] Cons.prems show ?case by simp
qed simp

lemma leadingInt_stop: "r = [] \<or> \<not> is_digit (hd r) \<Longrightarrow> leadingInt r x = Some (x, r)"
  by (cases r) auto

lemma leadingInt_digits:
  assumes "list_all is_digit ds" "r = [] \<or> \<not> is_digit (hd r)" "0 \<le> x" "x \<le> 2 ^ 63"
  shows "leadingInt (ds @ r) x = (if dec_val ds x \<le> 2 ^ 63 then Some (dec_val ds x, r) else None)"
  using assms
proof (induction ds arbitrary: x)
  case Nil
  then show ?case by (simp add: leadingInt_stop)
next
  case (Cons c ds)
  let ?x = "x * 10 + digit_val c"
  have d: "0 \<le> digit_val c" "list_all is_digit ds" "is_digit c"
    using Cons.prems by (simp_all add: digit_val_nonneg)
  then have mono: "?x \<le> dec_val ds ?x" using Cons.prems by (intro dec_val_mono) simp_all
  show ?case
  proof (cases "x > 2 ^ 63 div 10")
    case True
    then have "?x > 2 ^ 63" using d(1) by simp
    with mono True d show ?thesis by simp
  next
    case False
    show ?thesis
    proof (cases "?x > 2 ^ 63")
      case True
      with mono False d show ?thesis by (simp add: Let_def)
    next
      case le: False
      with Cons.IH [of ?x] Cons.prems d False show ?thesis by (simp add: Let_def)
    qed
  qed
qed

lemma digit_char:
  assumes "n < 10"
  shows "is_digit (char_of (48 + n))" and "digit_val (char_of (48 + n)) = int n"
proof -
  have "(of_char (char_of (48 + n)) :: nat) = 48 + n" using assms by simp
  then have "(of_char (char_of (48 + n)) :: int) = 48 + int n"
    by (metis of_nat_add of_nat_numeral of_nat_of_char)
  with assms show "is_digit (char_of (48 + n))" "digit_val (char_of (48 + n)) = int n"
    by (simp_all add: is_digit_def digit_val_def)
qed

lemma Itoa_digits: "list_all is_digit (Itoa n)" and dec_val_Itoa: "dec_val (Itoa n) 0 = int n"
proof (induction n rule: Itoa.induct)
  case (1 n)
  {
    case 1
    then show ?case using "1.IH"(1) by (subst Itoa.simps) (auto simp: digit_char)
  next
    case 2
    have "int (n div 10) * 10 + int (n mod 10) = int n" by presburger
    then show ?case using "1.IH"(2) by (subst Itoa.simps) (auto simp: digit_char)
  }
qed

lemma hd_Itoa_digit: "is_digit (hd (Itoa n @ r))"
  using Itoa_digits [of n] by (cases "Itoa n") auto

section \<open>Properties\<close>

lemma dur_term_int:
  assumes u: "list_all unit_char u" "u \<noteq> []" "gm_get unitMap u = Some unit" and n: "int n \<le> 2 ^ 63"
  shows "dur_term (Itoa n @ u) = (case term_value (int n) 0 1 unit of Inl e \<Rightarrow> Inl e | Inr v \<Rightarrow> Inr (v, []))"
proof -
  from u have hd: "hd u \<noteq> CHR ''.''" "\<not> is_digit (hd u)" by (cases u; simp add: unit_char_def)+
  have li: "leadingInt (Itoa n @ u) 0 = Some (int n, u)"
    using leadingInt_digits [of "Itoa n" u 0] Itoa_digits [of n] dec_val_Itoa [of n] hd n by simp
  have tw: "takeWhile unit_char u = u"
    using u by (auto simp: takeWhile_eq_all_conv list_all_iff)
  have dw: "dropWhile unit_char u = []"
    using u by (auto simp: dropWhile_eq_Nil_conv list_all_iff)
  show ?thesis
    using hd_Itoa_digit [of n u] hd u(2,3)
    by (simp add: dur_term_def Let_def li tw dw split: sum.split)
qed

lemma unit_chars: "c \<in> {CHR ''s'', CHR ''m'', CHR ''h''} \<Longrightarrow> unit_char c"
  by (auto simp: unit_char_def is_digit_def)

text \<open>The length of a unit in seconds, for the three units the schema admits.\<close>

definition unit_seconds :: "char \<Rightarrow> int" where
  "unit_seconds c = (if c = CHR ''s'' then 1 else if c = CHR ''m'' then 60 else 3600)"

lemma unitMap_shm:
  "c \<in> {CHR ''s'', CHR ''m'', CHR ''h''} \<Longrightarrow> gm_get unitMap [c] = Some (unit_seconds c * 10 ^ 9)"
  by (auto simp: unitMap_def gm_get_Cons unit_seconds_def)

lemma bit_length_le: "0 \<le> n \<Longrightarrow> n < 2 ^ k \<Longrightarrow> bit_length n \<le> k"
proof (induction n arbitrary: k rule: bit_length.induct)
  case (1 n)
  show ?case
  proof (cases "n \<le> 0")
    case True
    then show ?thesis by (simp add: bit_length.simps)
  next
    case False
    then obtain j where k: "k = Suc j" using "1.prems" by (cases k) auto
    then have "n div 2 < 2 ^ j" using "1.prems" by simp
    with "1.IH" [OF False, of j] False k show ?thesis by (subst bit_length.simps) simp
  qed
qed

lemma no_round_up:
  assumes "0 \<le> sec" "sec < 2 ^ 24" "nsec < 10 ^ 9"
  shows "\<not> seconds_round_up sec nsec"
proof -
  have "bit_length sec \<le> 24" using assms by (intro bit_length_le)
  then have "(2 :: int) ^ 30 \<le> 2 ^ (54 - bit_length sec)" by (intro power_increasing) auto
  moreover have "1 \<le> 10 ^ 9 - nsec" using assms by simp
  ultimately have "1 * 2 ^ 30 \<le> (10 ^ 9 - nsec) * 2 ^ (54 - bit_length sec)"
    by (intro mult_mono) auto
  then show ?thesis by (simp add: seconds_round_up_def)
qed

lemma no_round_up_whole:
  assumes "0 \<le> sec" "sec < 2 ^ 34"
  shows "\<not> seconds_round_up sec 0"
proof -
  have "bit_length sec \<le> 34" using assms by (intro bit_length_le)
  then have "(2 :: int) ^ 20 \<le> 2 ^ (54 - bit_length sec)" by (intro power_increasing) auto
  then show ?thesis by (simp add: seconds_round_up_def)
qed

lemma time_ParseDuration_unsigned:
  "s \<noteq> [] \<Longrightarrow> hd s \<noteq> CHR ''-'' \<Longrightarrow> hd s \<noteq> CHR ''+'' \<Longrightarrow> s \<noteq> ''0'' \<Longrightarrow>
   time_ParseDuration s =
     (case dur_loop s 0 of Inl e \<Rightarrow> Inl e
      | Inr d \<Rightarrow> if d > 2 ^ 63 - 1 then Inl DurInvalid else Inr d)"
  by (simp add: time_ParseDuration_def split: sum.split)

lemma time_ParseDuration_unit:
  assumes c: "c \<in> {CHR ''s'', CHR ''m'', CHR ''h''}"
  shows "time_ParseDuration (Itoa n @ [c]) =
           (if int n * unit_seconds c * 10 ^ 9 < 2 ^ 63 then Inr (int n * unit_seconds c * 10 ^ 9)
            else Inl DurInvalid)"
proof -
  let ?s = "Itoa n @ [c]" and ?U = "unit_seconds c * 10 ^ 9"
  have U: "?U \<in> {10 ^ 9, 60 * 10 ^ 9, 3600 * 10 ^ 9}" using c by (auto simp: unit_seconds_def)
  have uc: "list_all unit_char [c]" using c by (simp add: unit_chars)
  have sign: "hd ?s \<noteq> CHR ''-''" "hd ?s \<noteq> CHR ''+''"
    using hd_Itoa_digit [of n "[c]"] by (auto simp: is_digit_def)
  have ne: "?s \<noteq> []" "?s \<noteq> ''0''" by (auto simp: append_eq_Cons_conv)
  have loop: "dur_loop ?s 0 = (if int n * ?U \<le> 2 ^ 63 then Inr (int n * ?U) else Inl DurInvalid)"
  proof (cases "int n \<le> 2 ^ 63")
    case True
    have bound: "int n > 2 ^ 63 div ?U \<longleftrightarrow> int n * ?U > 2 ^ 63"
      using U by auto
    show ?thesis
    proof (cases "int n * ?U \<le> 2 ^ 63")
      case le: True
      then have "term_value (int n) 0 1 ?U = Inr (int n * ?U)" using bound by (simp add: term_value_def)
      then have "dur_term ?s = Inr (int n * ?U, [])"
        using dur_term_int [OF uc _ unitMap_shm [OF c] True] by simp
      moreover have "to_uint64 (int n * ?U) = int n * ?U"
        using le U by (intro to_uint64_id) auto
      ultimately show ?thesis using le ne by (subst dur_loop.simps) (simp add: dur_loop.simps)
    next
      case gt: False
      then have "term_value (int n) 0 1 ?U = Inl DurInvalid" using bound by (simp add: term_value_def)
      then have "dur_term ?s = Inl DurInvalid"
        using dur_term_int [OF uc _ unitMap_shm [OF c] True] by simp
      then show ?thesis using gt ne by (subst dur_loop.simps) simp
    qed
  next
    case False
    have "leadingInt ?s 0 = None"
      using leadingInt_digits [of "Itoa n" "[c]" 0] Itoa_digits [of n] dec_val_Itoa [of n] uc False
      by (simp add: unit_char_def)
    then have "dur_term ?s = Inl DurInvalid"
      using hd_Itoa_digit [of n "[c]"] by (simp add: dur_term_def)
    moreover have "\<not> int n * ?U \<le> 2 ^ 63" using False U by auto
    ultimately show ?thesis using ne by (subst dur_loop.simps) simp
  qed
  have "int n * ?U \<noteq> 2 ^ 63"
  proof
    assume "int n * ?U = 2 ^ 63"
    then have "(int n * unit_seconds c * 10 ^ 9) mod 10 ^ 9 = (2 ^ 63 :: int) mod 10 ^ 9"
      by (simp only: mult.assoc)
    then show False by simp
  qed
  then have "(int n * ?U \<le> 2 ^ 63) = (int n * unit_seconds c * 10 ^ 9 < 2 ^ 63)"
    unfolding mult.assoc by linarith
  with loop have loop': "dur_loop ?s 0 =
      (if int n * unit_seconds c * 10 ^ 9 < 2 ^ 63 then Inr (int n * unit_seconds c * 10 ^ 9) else Inl DurInvalid)"
    unfolding mult.assoc by metis
  define v where "v = int n * unit_seconds c * 10 ^ 9"
  show ?thesis
    unfolding time_ParseDuration_unsigned [OF ne(1) sign ne(2)] loop' v_def [symmetric]
    by (cases "v < 2 ^ 63") simp_all
qed

lemma int_Seconds_whole: "0 \<le> n \<Longrightarrow> n < 2 ^ 34 \<Longrightarrow> int_Seconds (n * 10 ^ 9) = n"
  using no_round_up_whole [of n] by (simp add: int_Seconds_def Let_def)

text \<open>
  C37: reading back what is written. A decimal number followed by \<open>s\<close>, \<open>m\<close> or \<open>h\<close> parses to
  that many seconds, minutes or hours; zero is rejected, and a value whose nanoseconds do not
  fit in 63 bits is an error.
\<close>

theorem parse_duration_roundtrip:
  assumes c: "c \<in> {CHR ''s'', CHR ''m'', CHR ''h''}"
  shows "ParseDuration (Itoa n @ [c]) =
           (if n = 0 then Inl (DurationNotPositive (Itoa n @ [c]))
            else if int n * unit_seconds c * 10 ^ 9 < 2 ^ 63 then Inr (int n * unit_seconds c)
            else Inl (InvalidDuration (Itoa n @ [c]) DurInvalid))"
proof (cases "int n * unit_seconds c * 10 ^ 9 < 2 ^ 63")
  case True
  have pos: "unit_seconds c > 0" by (simp add: unit_seconds_def)
  define x where "x = int n * unit_seconds c"
  have "0 \<le> x" using pos by (simp add: x_def)
  moreover have "x < 2 ^ 34" using True unfolding x_def [symmetric] by simp
  ultimately have "x < 2 ^ 34" "0 \<le> x" by simp_all
  then have "int_Seconds (int n * unit_seconds c * 10 ^ 9) = int n * unit_seconds c"
    unfolding x_def by (intro int_Seconds_whole)
  with True pos show ?thesis
    by (auto simp: ParseDuration_def time_ParseDuration_unit [OF c] zero_less_mult_iff mult_le_0_iff)
next
  case False
  then have "n \<noteq> 0" by (cases "n = 0") simp_all
  with False show ?thesis by (simp add: ParseDuration_def time_ParseDuration_unit [OF c])
qed

theorem parse_duration_roundtrip_witness:
  "ParseDuration (Itoa 90 @ ''m'') = Inr 5400"
  using parse_duration_roundtrip [of "CHR ''m''" 90] by (simp add: unit_seconds_def)

lemma to_int64_range: "- (2 ^ 63) \<le> to_int64 x \<and> to_int64 x < 2 ^ 63"
proof -
  have "0 \<le> (x + 2 ^ 63) mod 2 ^ 64" "(x + 2 ^ 63) mod 2 ^ 64 < (2 ^ 64 :: int)" by simp_all
  then show ?thesis unfolding to_int64_def by simp
qed

lemma time_ParseDuration_range: "time_ParseDuration s = Inr d \<Longrightarrow> d < 2 ^ 63"
  using to_int64_range
  by (auto simp: time_ParseDuration_def Let_def split: if_splits sum.splits)

lemma bit_length_max: "bit_length 9223372036 = 34"
  by code_simp

lemma int_Seconds_bound:
  assumes "0 < d" "d < 2 ^ 63"
  shows "0 \<le> int_Seconds d" and "int_Seconds d * 10 ^ 9 < 2 ^ 63"
proof -
  define sec nsec where "sec = d div 10 ^ 9" and "nsec = d mod 10 ^ 9"
  have d: "d = sec * 10 ^ 9 + nsec" "0 \<le> nsec" "nsec < 10 ^ 9" "0 \<le> sec"
    using assms by (simp_all add: sec_def nsec_def)
  then have le: "sec \<le> 9223372036" using assms by simp
  have v: "int_Seconds d = (if seconds_round_up sec nsec then sec + 1 else sec)"
    by (simp add: int_Seconds_def sec_def nsec_def Let_def)
  have "\<not> seconds_round_up sec nsec" if "sec = 9223372036"
  proof -
    have "nsec \<le> 854775807" using d assms that by simp
    then show ?thesis by (simp add: seconds_round_up_def that bit_length_max)
  qed
  then have "sec + 1 \<le> 9223372036" if "seconds_round_up sec nsec" using that le by (cases "sec = 9223372036") auto
  then have "int_Seconds d \<le> 9223372036" using v le by auto
  then show "int_Seconds d * 10 ^ 9 < 2 ^ 63" by simp
  show "0 \<le> int_Seconds d" using v d(4) by simp
qed

text \<open>
  bounds. Seconds that parse are the whole seconds of a positive duration (exactly so
  below \<open>2 ^ 24\<close> seconds, about 194 days, where the floating-point sum cannot round up), and
  converting them back to nanoseconds, as the timeout checks do, never overflows 64 bits.
\<close>

theorem parse_duration_bounds:
  assumes "ParseDuration s = Inr n"
  shows "\<exists>d. time_ParseDuration s = Inr d \<and> 0 < d \<and> d < 2 ^ 63
           \<and> 0 \<le> n \<and> to_int64 (n * 10 ^ 9) = n * 10 ^ 9
           \<and> (d < 2 ^ 24 * 10 ^ 9 \<longrightarrow> n = d div 10 ^ 9)"
proof -
  from assms obtain d where d: "time_ParseDuration s = Inr d" "0 < d" "n = int_Seconds d"
    by (auto simp: ParseDuration_def split: sum.splits if_splits)
  have b: "d < 2 ^ 63" by (rule time_ParseDuration_range [OF d(1)])
  have "0 \<le> n" "n * 10 ^ 9 < 2 ^ 63" using int_Seconds_bound [OF d(2) b] d(3) by simp_all
  moreover from this have "to_int64 (n * 10 ^ 9) = n * 10 ^ 9" by (intro to_int64_id) auto
  moreover have "n = d div 10 ^ 9" if "d < 2 ^ 24 * 10 ^ 9"
  proof -
    have "\<not> seconds_round_up (d div 10 ^ 9) (d mod 10 ^ 9)"
      using that d(2) by (intro no_round_up) auto
    then show ?thesis using d(3) by (simp add: int_Seconds_def Let_def)
  qed
  ultimately show ?thesis using d b by blast
qed

theorem parse_duration_bounds_witness:
  "\<exists>d. time_ParseDuration ''1.5h'' = Inr d \<and> 5400 = d div 10 ^ 9 \<or> d \<ge> 2 ^ 24 * 10 ^ 9"
proof -
  have "ParseDuration ''1.5h'' = Inr 5400" by code_simp
  from parse_duration_bounds [OF this] show ?thesis by (meson not_le)
qed

text \<open>
  a positive duration below one second is accepted and becomes zero seconds, although
  the function's contract says that zero is rejected.
\<close>

theorem parse_duration_subsecond:
  "ParseDuration ''500ms'' = Inr 0"
  by code_simp

end
