(* ===== verification/Validation.thy ===== *)
theory Validation
  imports Spec_Types Duration
begin

text \<open>
  Validation of the application spec: the component checks and the API version check of
  \<open>internal/spec/validate.go\<close>, and the field validators of \<open>field_validation.go\<close> (names, ports,
  host names, the project name sanitizer).

  An error is a value of \<open>verr\<close> with what its text interpolates. The regular expressions of the
  embedded JSON schema that the field validators compile are recognisers over the string. Schema
  validation itself is third-party code and is not modelled.
\<close>

section \<open>Field validators\<close>

definition in_range :: "char \<Rightarrow> char \<Rightarrow> char \<Rightarrow> bool" where
  "in_range lo hi c = ((of_char lo :: int) \<le> of_char c \<and> (of_char c :: int) \<le> of_char hi)"

definition lower_alnum :: "char \<Rightarrow> bool" where
  "lower_alnum c = (in_range (CHR ''a'') (CHR ''z'') c \<or> in_range (CHR ''0'') (CHR ''9'') c)"

definition upper_alnum :: "char \<Rightarrow> bool" where
  "upper_alnum c = (in_range (CHR ''A'') (CHR ''Z'') c \<or> in_range (CHR ''0'') (CHR ''9'') c)"

definition is_alpha :: "char \<Rightarrow> bool" where
  "is_alpha c = (in_range (CHR ''a'') (CHR ''z'') c \<or> in_range (CHR ''A'') (CHR ''Z'') c)"

text \<open>The pattern \<open>^X+(?:sepX+)*$\<close>: non-empty groups of \<open>X\<close> between single separators.\<close>

definition groups_pattern :: "(char \<Rightarrow> bool) \<Rightarrow> char \<Rightarrow> string \<Rightarrow> bool" where
  "groups_pattern X sep s = list_all (\<lambda>g. g \<noteq> [] \<and> list_all X g) (str_Split sep s)"

definition name_pattern :: "string \<Rightarrow> bool" where
  "name_pattern = groups_pattern lower_alnum (CHR ''-'')"

definition envVarNamePattern :: "string \<Rightarrow> bool" where
  "envVarNamePattern = groups_pattern upper_alnum (CHR ''_'')"

datatype verr =
    NameEmpty
  | NameInvalid string
  | NameTooShort string
  | WildcardSuffix string
  | PortEmpty | PortNotNumber string | PortOutOfRange int
  | HostEmpty | HostInvalid string
  | APIVersionMissing | APIVersionNotString | APIVersionUnsupported string
  | ResourcesAndPreset | ResourcesEmpty
  | MinAboveMax | UnsupportedMetric MetricType
  | WorkerPort | WorkerExpose | WorkerReady | WorkerAlivePath
  | ReadyPathSlash | AlivePathAndExec | AlivePathSlash | AliveExecEmpty nat
  | AliveInterval duration_error | AliveIntervalNotPositive
  | AliveRestart duration_error | AliveRestartNotPositive | RestartBelowInterval string string
  | MetricsPathSlash | MetricsInterval duration_error | MetricsTimeout duration_error
  | MetricsPortRequired | MetricsPortRange
  | ShutdownTimeoutInvalid duration_error | ShutdownTimeoutNotPositive
  | PersistenceSizeRequired | PersistenceMountPathRequired
  | StatelessPersistenceReplicas | StatelessPersistenceAutoscaling
  | ReplicasBelowOne | ReplicasAndAutoscaling
  | ProfileNameEmpty nat | ApexAndSubdomain | EnvFilterEntry string verr

definition ValidateProjectName :: "string \<Rightarrow> verr check" where
  "ValidateProjectName name =
     (if name = [] then Some NameEmpty else if \<not> name_pattern name then Some (NameInvalid name) else None)"

definition ValidateComponentName :: "string \<Rightarrow> verr check" where
  "ValidateComponentName name =
     (if name = [] then Some NameEmpty else if \<not> name_pattern name then Some (NameInvalid name) else None)"

definition EnvFileSuffix :: string where "EnvFileSuffix = ''/*''"

definition errWildcardEnvSuffix :: "string \<Rightarrow> verr check" where
  "errWildcardEnvSuffix name =
     (let (base, cut) = CutSuffix name EnvFileSuffix in if \<not> cut then None else Some (WildcardSuffix base))"

definition ValidateEnvName :: "string \<Rightarrow> verr check" where
  "ValidateEnvName name =
     (if name = [] then Some NameEmpty
      else
        (case errWildcardEnvSuffix name of
           Some e \<Rightarrow> Some (EnvFilterEntry name e)
         | None \<Rightarrow>
             if length name < 2 then Some (NameTooShort name)
             else if \<not> name_pattern name then Some (NameInvalid name) else None))"

definition ValidateEnvVarName :: "string \<Rightarrow> verr check" where
  "ValidateEnvVarName name =
     (if name = [] then Some NameEmpty
      else if \<not> envVarNamePattern name then Some (NameInvalid name) else None)"

text \<open>\<open>strconv.Atoi\<close>: an optional sign, one or more digits, and a value that fits in an int64.\<close>

definition Atoi :: "string \<Rightarrow> int option" where
  "Atoi s =
     (let (neg, ds) = (if s \<noteq> [] \<and> (hd s = CHR ''-'' \<or> hd s = CHR ''+'')
                       then (hd s = CHR ''-'', tl s) else (False, s));
          v = dec_val ds 0
      in if ds = [] \<or> \<not> list_all is_digit ds then None
         else if neg then (if v \<le> 2 ^ 63 then Some (- v) else None)
         else (if v < 2 ^ 63 then Some v else None))"

definition ValidatePort :: "string \<Rightarrow> verr check" where
  "ValidatePort portStr =
     (if portStr = [] then Some PortEmpty
      else
        (case Atoi portStr of
           None \<Rightarrow> Some (PortNotNumber portStr)
         | Some port \<Rightarrow> if port < 1 \<or> port > 65535 then Some (PortOutOfRange port) else None))"

text \<open>The pattern \<open>^(\*\.)?([a-zA-Z0-9-]+\.)+[a-zA-Z]{2,}$\<close>.\<close>

definition host_pattern :: "string \<Rightarrow> bool" where
  "host_pattern h =
     (let labels = str_Split (CHR ''.'') h;
          labels = (if hd labels = ''*'' then tl labels else labels)
      in length labels \<ge> 2
         \<and> list_all (\<lambda>l. l \<noteq> [] \<and> list_all (\<lambda>c. is_alpha c \<or> is_digit c \<or> c = CHR ''-'') l) (butlast labels)
         \<and> length (last labels) \<ge> 2 \<and> list_all is_alpha (last labels))"

definition ValidateHostname :: "string \<Rightarrow> verr check" where
  "ValidateHostname h =
     (if h = [] then Some HostEmpty else if \<not> host_pattern h then Some (HostInvalid h) else None)"

text \<open>
  \<open>SanitizeProjectName\<close> ranges over runes, so its argument is a list of code points.
  \<open>strings.ToLower\<close> maps the ASCII capitals, the Kelvin sign and the dotted capital I into
  ASCII; every other rune outside ASCII stays outside, where the code treats all runes alike.
\<close>

definition rune_ToLower :: "nat \<Rightarrow> nat" where
  "rune_ToLower r =
     (if 65 \<le> r \<and> r \<le> 90 then r + 32 else if r = 0x212A then 107 else if r = 0x130 then 105 else r)"

fun sanitize_loop :: "nat list \<Rightarrow> bool \<Rightarrow> string \<Rightarrow> string" where
  "sanitize_loop [] needDash b = b"
| "sanitize_loop (r # rs) needDash b =
     (if (97 \<le> r \<and> r \<le> 122) \<or> (48 \<le> r \<and> r \<le> 57)
      then sanitize_loop rs False ((if needDash \<and> b \<noteq> [] then b @ ''-'' else b) @ [char_of r])
      else sanitize_loop rs True b)"

definition SanitizeProjectName :: "nat list \<Rightarrow> string" where
  "SanitizeProjectName rs = sanitize_loop (map rune_ToLower rs) False []"

section \<open>Navigation of the schema\<close>

datatype pattern_error = KeyNotFound string | PatternNotString | NotAMap string | EmptyPath

fun extractPattern :: "jval gomap \<Rightarrow> string list \<Rightarrow> (pattern_error, string) result" where
  "extractPattern current [] = Inl EmptyPath"
| "extractPattern current (key # path) =
     (case gm_get current key of
        None \<Rightarrow> Inl (KeyNotFound key)
      | Some value \<Rightarrow>
          if path = [] then (case value of JStr p \<Rightarrow> Inr p | _ \<Rightarrow> Inl PatternNotString)
          else (case value of JObj next_map \<Rightarrow> extractPattern next_map path | _ \<Rightarrow> Inl (NotAMap key)))"

section \<open>The API version\<close>

definition CurrentManifestVersion :: string where "CurrentManifestVersion = ''v1-alpha.5''"

definition SupportedManifestVersions :: "string list" where
  "SupportedManifestVersions = [CurrentManifestVersion]"

definition ValidateAPIVersion :: "jval gomap \<Rightarrow> (verr, string) result" where
  "ValidateAPIVersion specObj =
     (case gm_get specObj ''apiVersion'' of
        None \<Rightarrow> Inl APIVersionMissing
      | Some (JStr v) \<Rightarrow>
          if v = [] then Inl APIVersionNotString
          else if v \<notin> set SupportedManifestVersions then Inl (APIVersionUnsupported v)
          else Inr v
      | Some _ \<Rightarrow> Inl APIVersionNotString)"

section \<open>Component checks\<close>

definition validateResources :: "'q k8s_lib \<Rightarrow> 'q Resources \<Rightarrow> ResourcePreset \<Rightarrow> verr check" where
  "validateResources L resources preset =
     (if ResourcesSet L resources \<and> preset \<noteq> [] then Some ResourcesAndPreset
      else if \<not> ResourcesSet L resources \<and> ResourcesPresent resources then Some ResourcesEmpty
      else None)"

definition ValidateComponentResources :: "'q k8s_lib \<Rightarrow> 'q Component \<Rightarrow> verr check" where
  "ValidateComponentResources L c = validateResources L (c_Resources c) (c_ResourcePreset c)"

definition autoscaling_on :: "'q Component \<Rightarrow> bool" where
  "autoscaling_on c = (case c_Autoscaling c of None \<Rightarrow> False | Some a \<Rightarrow> as_Enabled a)"

definition ValidateComponentAutoscaling :: "'q Component \<Rightarrow> verr check" where
  "ValidateComponentAutoscaling c =
     (case c_Autoscaling c of
        None \<Rightarrow> None
      | Some a \<Rightarrow>
          if \<not> as_Enabled a then None
          else if as_MinReplicas a > as_MaxReplicas a then Some MinAboveMax
          else
            (case find (\<lambda>m. mt_Type m \<notin> {MetricTypeCPU, MetricTypeMemory}) (as_Metrics a) of
               Some m \<Rightarrow> Some (UnsupportedMetric (mt_Type m))
             | None \<Rightarrow> None))"

definition ValidateComponentWorker :: "'q Component \<Rightarrow> verr check" where
  "ValidateComponentWorker c =
     (if \<not> IsWorker (c_Role c) then None
      else if c_Port c > 0 then Some WorkerPort
      else if c_Expose c \<noteq> None then Some WorkerExpose
      else
        (case c_Health c of
           None \<Rightarrow> None
         | Some h \<Rightarrow>
             if (case h_Ready h of None \<Rightarrow> False | Some r \<Rightarrow> \<not> hr_Disabled r) then Some WorkerReady
             else if (case h_Alive h of None \<Rightarrow> False | Some a \<Rightarrow> \<not> ha_Disabled a \<and> ha_Path a \<noteq> [])
             then Some WorkerAlivePath
             else None))"

definition path_ok :: "string \<Rightarrow> bool" where
  "path_ok p = (p = [] \<or> hd p = CHR ''/'')"

definition DefaultLivenessInterval :: string where "DefaultLivenessInterval = ''10s''"

definition first_blank :: "string list \<Rightarrow> nat option" where
  "first_blank xs = find (\<lambda>i. TrimSpace (xs ! i) = []) [0 ..< length xs]"

text \<open>A duration that must be positive when it is set.\<close>

definition positive_duration ::
  "string \<Rightarrow> (duration_error \<Rightarrow> verr) \<Rightarrow> verr \<Rightarrow> verr check" where
  "positive_duration s bad not_positive =
     (if s = [] then None
      else (case ParseDuration s of
              Inl e \<Rightarrow> Some (bad e)
            | Inr n \<Rightarrow> if n \<le> 0 then Some not_positive else None))"

text \<open>\<open>restartAfter\<close> against the interval, once \<open>restartAfter\<close> itself is known to be positive.\<close>

definition check_restart :: "HealthAlive \<Rightarrow> verr check" where
  "check_restart alive =
     (if ha_RestartAfter alive = [] then None
      else
        (let intervalStr = (if ha_Interval alive = [] then DefaultLivenessInterval else ha_Interval alive) in
         case (ParseDuration (ha_RestartAfter alive), ParseDuration intervalStr) of
           (Inr restartSec, Inl e) \<Rightarrow> Some (AliveInterval e)
         | (Inr restartSec, Inr intervalSec) \<Rightarrow>
             if restartSec < intervalSec then Some (RestartBelowInterval (ha_RestartAfter alive) intervalStr)
             else None
         | (Inl e, _) \<Rightarrow> Some (AliveRestart e)))"

definition check_alive :: "HealthAlive \<Rightarrow> verr check" where
  "check_alive alive =
     first_error
       [fail_if (ha_Path alive \<noteq> [] \<and> ha_Exec alive \<noteq> []) AlivePathAndExec,
        fail_if (\<not> path_ok (ha_Path alive)) AlivePathSlash,
        map_option AliveExecEmpty (first_blank (ha_Exec alive)),
        positive_duration (ha_Interval alive) AliveInterval AliveIntervalNotPositive,
        positive_duration (ha_RestartAfter alive) AliveRestart AliveRestartNotPositive,
        check_restart alive]"

definition ValidateComponentHealth :: "'q Component \<Rightarrow> verr check" where
  "ValidateComponentHealth c =
     (case c_Health c of
        None \<Rightarrow> None
      | Some h \<Rightarrow>
          first_error
            [(case h_Ready h of None \<Rightarrow> None
              | Some r \<Rightarrow> fail_if (\<not> hr_Disabled r \<and> \<not> path_ok (hr_Path r)) ReadyPathSlash),
             (case h_Alive h of None \<Rightarrow> None
              | Some a \<Rightarrow> if ha_Disabled a then None else check_alive a)])"

definition valid_duration :: "string \<Rightarrow> (duration_error \<Rightarrow> verr) \<Rightarrow> verr check" where
  "valid_duration s bad =
     (if s = [] then None else (case ParseDuration s of Inl e \<Rightarrow> Some (bad e) | Inr _ \<Rightarrow> None))"

definition ValidateComponentMetrics :: "'q Component \<Rightarrow> verr check" where
  "ValidateComponentMetrics c =
     (case c_Metrics c of
        None \<Rightarrow> None
      | Some m \<Rightarrow>
          if \<not> IsEnabled (Some m) then None
          else
            first_error
              [fail_if (\<not> path_ok (m_Path m)) MetricsPathSlash,
               valid_duration (m_Interval m) MetricsInterval,
               valid_duration (m_ScrapeTimeout m) MetricsTimeout,
               fail_if (IsWorker (c_Role c) \<and> m_Port m \<le> 0) MetricsPortRequired,
               fail_if (m_Port m \<noteq> 0 \<and> (m_Port m < 1 \<or> m_Port m > 65535)) MetricsPortRange])"

definition ValidateComponentShutdownTimeout :: "'q Component \<Rightarrow> verr check" where
  "ValidateComponentShutdownTimeout c =
     positive_duration (c_ShutdownTimeout c) ShutdownTimeoutInvalid ShutdownTimeoutNotPositive"

definition ValidateComponentPersistence :: "'q Component \<Rightarrow> verr check" where
  "ValidateComponentPersistence c =
     (let kind = (if c_Kind c = [] then ComponentKindStateless else c_Kind c) in
      case c_Persistence c of
        None \<Rightarrow> None
      | Some p \<Rightarrow>
          if TrimSpace (p_Size p) = [] then Some PersistenceSizeRequired
          else if TrimSpace (p_MountPath p) = [] then Some PersistenceMountPathRequired
          else if kind = ComponentKindStateless then
            (if (case c_Replicas c of None \<Rightarrow> False | Some n \<Rightarrow> n > 1) then Some StatelessPersistenceReplicas
             else if autoscaling_on c then Some StatelessPersistenceAutoscaling
             else None)
          else None)"

definition ValidateComponentReplicas :: "'q Component \<Rightarrow> verr check" where
  "ValidateComponentReplicas c =
     (case c_Replicas c of
        None \<Rightarrow> None
      | Some n \<Rightarrow>
          if n < 1 then Some ReplicasBelowOne
          else if autoscaling_on c then Some ReplicasAndAutoscaling
          else None)"

definition ValidateComponentProfiles :: "string list option \<Rightarrow> verr check" where
  "ValidateComponentProfiles profiles =
     map_option ProfileNameEmpty (first_blank (case profiles of None \<Rightarrow> [] | Some ps \<Rightarrow> ps))"

definition ValidateComponentExpose :: "'q Component \<Rightarrow> verr check" where
  "ValidateComponentExpose c =
     (case c_Expose c of
        None \<Rightarrow> None
      | Some x \<Rightarrow> fail_if (x_Apex x \<and> x_Subdomain x \<noteq> None) ApexAndSubdomain)"

fun ValidateComponentEnvironmentFilter :: "string list \<Rightarrow> verr check" where
  "ValidateComponentEnvironmentFilter [] = None"
| "ValidateComponentEnvironmentFilter (entry # entries) =
     (case errWildcardEnvSuffix entry of
        Some e \<Rightarrow> Some (EnvFilterEntry entry e)
      | None \<Rightarrow> ValidateComponentEnvironmentFilter entries)"

text \<open>The errors of one component, in the order of the checks.\<close>

definition component_checks :: "'q k8s_lib \<Rightarrow> 'q Component \<Rightarrow> verr check list" where
  "component_checks L c =
     [ValidateComponentResources L c,
      ValidateComponentAutoscaling c,
      ValidateComponentPersistence c,
      ValidateComponentReplicas c,
      ValidateComponentWorker c,
      ValidateComponentHealth c,
      ValidateComponentMetrics c,
      ValidateComponentShutdownTimeout c,
      ValidateComponentExpose c,
      ValidateComponentEnvironmentFilter (c_Environments c),
      ValidateComponentProfiles (c_Profiles c)]"

text \<open>All errors, per component in iteration order; the spec is valid iff there is none.\<close>

definition ValidateSpecComponents :: "'q k8s_lib \<Rightarrow> 'q Spec \<Rightarrow> (string \<times> verr) list" where
  "ValidateSpecComponents L s =
     concat (map (\<lambda>(name, c). map (Pair name) (List.map_filter (\<lambda>e. e) (component_checks L c)))
                 (s_Components s))"

section \<open>Properties of the field validators\<close>

lemma list_all_butlast_last: "xs \<noteq> [] \<Longrightarrow> list_all P xs \<longleftrightarrow> list_all P (butlast xs) \<and> P (last xs)"
  by (induction xs) auto

lemma groups_pattern_extend:
  assumes "groups_pattern X sep s" "X c" "c \<noteq> sep"
  shows "groups_pattern X sep (s @ [c])"
  using assms
  by (simp add: groups_pattern_def str_Split_snoc list_all_butlast_last [of "str_Split sep s"])

lemma groups_pattern_new_group:
  assumes "groups_pattern X sep s" "X c" "c \<noteq> sep"
  shows "groups_pattern X sep ((s @ [sep]) @ [c])"
proof -
  have "str_Split sep ((s @ [sep]) @ [c]) = str_Split sep s @ [[c]]"
    unfolding str_Split_snoc [OF assms(3)] str_Split_snoc_sep by simp
  with assms show ?thesis by (simp add: groups_pattern_def)
qed

lemma groups_pattern_first: "X c \<Longrightarrow> c \<noteq> sep \<Longrightarrow> groups_pattern X sep [c]"
  by (simp add: groups_pattern_def)

lemma rune_char:
  assumes "(97 \<le> r \<and> r \<le> 122) \<or> (48 \<le> r \<and> r \<le> (57 :: nat))"
  shows "lower_alnum (char_of r)" "char_of r \<noteq> CHR ''-''"
proof -
  have "(of_char (char_of r) :: nat) = r" using assms by auto
  then have i: "(of_char (char_of r) :: int) = int r" by (metis of_nat_of_char)
  then show "lower_alnum (char_of r)" using assms by (auto simp: lower_alnum_def in_range_def)
  show "char_of r \<noteq> CHR ''-''"
  proof
    assume "char_of r = CHR ''-''"
    with i have "int r = of_char (CHR ''-'')" by simp
    with assms show False by auto
  qed
qed

lemma sanitize_loop_pattern:
  "b = [] \<or> name_pattern b \<Longrightarrow> sanitize_loop rs d b = [] \<or> name_pattern (sanitize_loop rs d b)"
proof (induction rs d b rule: sanitize_loop.induct)
  case (2 r rs d b)
  show ?case
  proof (cases "(97 \<le> r \<and> r \<le> 122) \<or> (48 \<le> r \<and> r \<le> 57)")
    case True
    note c = rune_char [OF True]
    have "name_pattern ((if d \<and> b \<noteq> [] then b @ ''-'' else b) @ [char_of r])"
      using "2.prems" c groups_pattern_new_group [of lower_alnum "CHR ''-''" b "char_of r"]
        groups_pattern_extend [of lower_alnum "CHR ''-''" b "char_of r"]
        groups_pattern_first [of lower_alnum "char_of r" "CHR ''-''"]
      unfolding name_pattern_def by auto
    with "2.IH"(1) [OF True] True show ?thesis by auto
  next
    case False
    with "2.IH"(2) [OF False "2.prems"] show ?thesis by auto
  qed
qed auto

text \<open>
  the sanitized project name is accepted. Whatever text the working directory's name
  is, the sanitizer returns an empty string or a name the project name validator accepts.
\<close>

theorem sanitize_project_name_valid:
  "SanitizeProjectName rs = [] \<or> ValidateProjectName (SanitizeProjectName rs) = None"
  using sanitize_loop_pattern [of "[]" "map rune_ToLower rs" False]
  by (auto simp: SanitizeProjectName_def ValidateProjectName_def)

lemma Itoa_sign: "hd (Itoa n) \<noteq> CHR ''-''" "hd (Itoa n) \<noteq> CHR ''+''"
  using hd_Itoa_digit [of n "[]"] by (auto simp: is_digit_def)

lemma Atoi_Itoa: "int n < 2 ^ 63 \<Longrightarrow> Atoi (Itoa n) = Some (int n)"
  using Itoa_digits [of n] by (simp add: Atoi_def Itoa_sign dec_val_Itoa)

text \<open>
  ports. A decimal number is accepted as a port exactly when it is between 1 and 65535.
\<close>

theorem validate_port_iff:
  "ValidatePort (Itoa n) = None \<longleftrightarrow> 1 \<le> n \<and> n \<le> 65535"
proof (cases "int n < 2 ^ 63")
  case True
  then show ?thesis by (auto simp: ValidatePort_def Atoi_Itoa)
next
  case False
  then have "Atoi (Itoa n) = None" by (simp add: Atoi_def Itoa_sign dec_val_Itoa Let_def)
  with False show ?thesis by (simp add: ValidatePort_def)
qed

section \<open>Properties of the component checks\<close>

lemma ValidateSpecComponents_Nil:
  "ValidateSpecComponents L s = [] \<longleftrightarrow>
     (\<forall>(name, c) \<in> set (s_Components s). \<forall>e \<in> set (component_checks L c). e = None)"
  by (auto simp: ValidateSpecComponents_def List.map_filter_def filter_empty_conv)

lemma valid_component:
  assumes "ValidateSpecComponents L s = []" "gm_get (s_Components s) name = Some c"
    "e \<in> set (component_checks L c)"
  shows "e = None"
  using assms gm_get_SomeD [OF assms(2)] by (fastforce simp: ValidateSpecComponents_Nil)

text \<open>
  what a validated component satisfies. In a spec without validation errors a component
  with a replica count has at least one replica and no autoscaling; a stateless component with a
  volume has at most one replica and no autoscaling; resources and a preset are never both given;
  an autoscaled component's replica range is not empty; a worker has neither port nor expose
  block; apex and subdomain are never both set.
\<close>

theorem validated_component_invariant:
  assumes v: "ValidateSpecComponents L s = []" and c: "gm_get (s_Components s) name = Some c"
  shows "(\<forall>n. c_Replicas c = Some n \<longrightarrow> 1 \<le> n \<and> \<not> autoscaling_on c)
    \<and> (c_Persistence c \<noteq> None \<longrightarrow> c_Kind c \<in> {[], ComponentKindStateless} \<longrightarrow>
         c_Replicas c \<in> {None, Some 1} \<and> \<not> autoscaling_on c)
    \<and> \<not> (ResourcesSet L (c_Resources c) \<and> c_ResourcePreset c \<noteq> [])
    \<and> (\<forall>a. c_Autoscaling c = Some a \<longrightarrow> as_Enabled a \<longrightarrow> as_MinReplicas a \<le> as_MaxReplicas a)
    \<and> (IsWorker (c_Role c) \<longrightarrow> c_Port c \<le> 0 \<and> c_Expose c = None)
    \<and> (\<forall>x. c_Expose c = Some x \<longrightarrow> \<not> (x_Apex x \<and> x_Subdomain x \<noteq> None))"
proof -
  note ok = valid_component [OF v c]
  have rep: "ValidateComponentReplicas c = None" and per: "ValidateComponentPersistence c = None"
    and res: "ValidateComponentResources L c = None" and auto: "ValidateComponentAutoscaling c = None"
    and wrk: "ValidateComponentWorker c = None" and exp: "ValidateComponentExpose c = None"
    by (rule ok, simp add: component_checks_def)+
  have r: "\<forall>n. c_Replicas c = Some n \<longrightarrow> 1 \<le> n \<and> \<not> autoscaling_on c"
    using rep by (auto simp: ValidateComponentReplicas_def split: option.splits if_splits)
  moreover have "c_Persistence c \<noteq> None \<longrightarrow> c_Kind c \<in> {[], ComponentKindStateless} \<longrightarrow>
      c_Replicas c \<in> {None, Some 1} \<and> \<not> autoscaling_on c"
    using per r by (cases "c_Replicas c")
      (fastforce simp: ValidateComponentPersistence_def Let_def split: option.splits if_splits)+
  moreover have "\<not> (ResourcesSet L (c_Resources c) \<and> c_ResourcePreset c \<noteq> [])"
    using res by (auto simp: ValidateComponentResources_def validateResources_def split: if_splits)
  moreover have "\<forall>a. c_Autoscaling c = Some a \<longrightarrow> as_Enabled a \<longrightarrow> as_MinReplicas a \<le> as_MaxReplicas a"
    using auto by (auto simp: ValidateComponentAutoscaling_def split: if_splits)
  moreover have "IsWorker (c_Role c) \<longrightarrow> c_Port c \<le> 0 \<and> c_Expose c = None"
    using wrk by (auto simp: ValidateComponentWorker_def split: if_splits)
  moreover have "\<forall>x. c_Expose c = Some x \<longrightarrow> \<not> (x_Apex x \<and> x_Subdomain x \<noteq> None)"
    using exp by (auto simp: ValidateComponentExpose_def)
  ultimately show ?thesis by blast
qed

definition ex_spec :: "int Spec" where
  "ex_spec =
     \<lparr>s_APIVersion = CurrentManifestVersion, s_Project = ''shop'', s_Environments = [],
      s_Components =
        [(''api'', zero_Component\<lparr>c_Role := ComponentRoleService, c_Port := 8080, c_Image := ''api:1'',
            c_Replicas := Some 1, c_Persistence := Some \<lparr>p_Size = ''1Gi'', p_MountPath = ''/data'', p_StorageClass = []\<rparr>,
            c_Health := Some \<lparr>h_Ready = None,
              h_Alive = Some \<lparr>ha_Disabled = False, ha_Path = ''/live'', ha_Exec = [], ha_Interval = ''10s'',
                              ha_RestartAfter = ''1m''\<rparr>\<rparr>\<rparr>),
         (''queue'', zero_Component\<lparr>c_Role := ComponentRoleWorker, c_Image := ''queue:1''\<rparr>)],
      s_Tasks = []\<rparr>"

lemma ex_spec_valid: "ValidateSpecComponents int_lib ex_spec = []"
  by code_simp

theorem validated_component_invariant_witness:
  "\<exists>c. gm_get (s_Components ex_spec) ''api'' = Some c \<and> \<not> autoscaling_on c"
proof -
  obtain c where c: "gm_get (s_Components ex_spec) ''api'' = Some c" and n: "c_Replicas c = Some 1"
    by (simp add: ex_spec_def gm_get_Cons)
  from validated_component_invariant [OF ex_spec_valid c] n c show ?thesis by blast
qed

text \<open>
  liveness probes. When the health check validates, the alive check is on and both durations
  are given, the probe interval is at least one second and the restart window is at least one
  interval: the number of failed probes before a restart is at least one.
\<close>

theorem validated_liveness_window:
  assumes "ValidateComponentHealth c = None" "c_Health c = Some h" "h_Alive h = Some a"
    "\<not> ha_Disabled a" "ha_RestartAfter a \<noteq> []"
  shows "\<exists>i r. ParseDuration (if ha_Interval a = [] then DefaultLivenessInterval else ha_Interval a) = Inr i
           \<and> ParseDuration (ha_RestartAfter a) = Inr r \<and> 1 \<le> i \<and> i \<le> r"
proof -
  have checks: "check_alive a = None"
    using assms by (auto simp: ValidateComponentHealth_def first_error_None)
  then have iv: "positive_duration (ha_Interval a) AliveInterval AliveIntervalNotPositive = None"
    and rs: "check_restart a = None"
    by (simp_all add: check_alive_def first_error_None)
  have d: "ParseDuration DefaultLivenessInterval = Inr 10" by code_simp
  show ?thesis
    using iv rs assms(5) d
    by (cases "ha_Interval a = []")
      (auto simp: positive_duration_def check_restart_def Let_def split: sum.splits if_splits)
qed

theorem validated_liveness_window_witness:
  "\<exists>i r. ParseDuration ''10s'' = Inr i \<and> ParseDuration ''1m'' = Inr r \<and> 1 \<le> i \<and> i \<le> r"
proof -
  let ?a = "\<lparr>ha_Disabled = False, ha_Path = ''/live'', ha_Exec = [], ha_Interval = ''10s'', ha_RestartAfter = ''1m''\<rparr>"
  let ?h = "\<lparr>h_Ready = None, h_Alive = Some ?a\<rparr>"
  let ?c = "zero_Component\<lparr>c_Health := Some ?h\<rparr> :: int Component"
  have "ValidateComponentHealth ?c = None" by code_simp
  from validated_liveness_window [OF this, of ?h ?a] show ?thesis by simp
qed

end
