(* ===== verification/Tasks.thy ===== *)
theory Tasks
  imports Hook_Weights Env_Identity Profiles Validation
begin

text \<open>
  Tasks: \<open>internal/spec/task.go\<close> (the fan-out forms, inheritance from the parent component,
  the tasks of an environment), \<open>task_job.go\<close> (the Job fields, with their int32 and int64
  widths) and \<open>task_validate.go\<close> (validation of tasks, of the \<open>after\<close> graph and of timeouts).
\<close>

section \<open>Fan-out\<close>

definition DefaultFanoutCount :: int where "DefaultFanoutCount = 1"
definition DefaultFanoutParallelism :: int where "DefaultFanoutParallelism = 1"
definition MaxFanoutParallelism :: int where "MaxFanoutParallelism = 100000"
definition DefaultBackoffLimit :: int where "DefaultBackoffLimit = 3"

definition EffectiveCount :: "Fanout \<Rightarrow> int" where
  "EffectiveCount f = (if f_Count f \<le> 0 then DefaultFanoutCount else f_Count f)"

definition EffectiveParallelism :: "Fanout \<Rightarrow> int" where
  "EffectiveParallelism f = (if f_Parallelism f \<le> 0 then DefaultFanoutParallelism else f_Parallelism f)"

datatype fanout_error = FanoutCountBelowOne | FanoutNotObject

text \<open>\<open>encoding/json\<close> matches the keys of a struct regardless of ASCII case, in document order.\<close>

definition ascii_lower :: "string \<Rightarrow> string" where
  "ascii_lower = map (\<lambda>c. if in_range (CHR ''A'') (CHR ''Z'') c then char_of (of_char c + (32 :: nat)) else c)"

definition json_int :: "jval \<Rightarrow> int \<Rightarrow> int option" where
  "json_int v old =
     (case v of JNum n \<Rightarrow> if - (2 ^ 63) \<le> n \<and> n < 2 ^ 63 then Some n else None
      | JNull \<Rightarrow> Some old
      | _ \<Rightarrow> None)"

fun fanout_fields :: "(string \<times> jval) list \<Rightarrow> Fanout \<Rightarrow> Fanout option" where
  "fanout_fields [] f = Some f"
| "fanout_fields ((k, v) # kvs) f =
     (if ascii_lower k = ''count'' then
        Option.bind (json_int v (f_Count f)) (\<lambda>n. fanout_fields kvs (f\<lparr>f_Count := n\<rparr>))
      else if ascii_lower k = ''parallelism'' then
        Option.bind (json_int v (f_Parallelism f)) (\<lambda>n. fanout_fields kvs (f\<lparr>f_Parallelism := n\<rparr>))
      else fanout_fields kvs f)"

definition zero_Fanout :: Fanout where "zero_Fanout = \<lparr>f_Count = 0, f_Parallelism = 0\<rparr>"

definition Fanout_UnmarshalJSON :: "jval \<Rightarrow> (fanout_error, Fanout) result" where
  "Fanout_UnmarshalJSON v =
     (if v = JNull then Inr zero_Fanout
      else
        (case json_int v 0 of
           Some n \<Rightarrow>
             if n < 1 then Inl FanoutCountBelowOne
             else Inr \<lparr>f_Count = n, f_Parallelism = DefaultFanoutParallelism\<rparr>
         | None \<Rightarrow>
             (case v of
                JObj kvs \<Rightarrow>
                  (case fanout_fields kvs zero_Fanout of None \<Rightarrow> Inl FanoutNotObject | Some f \<Rightarrow> Inr f)
              | _ \<Rightarrow> Inl FanoutNotObject)))"

definition Fanout_MarshalJSON :: "Fanout \<Rightarrow> jval" where
  "Fanout_MarshalJSON f =
     (if f_Parallelism f \<le> 1 then JNum (f_Count f)
      else JObj ((if f_Count f \<noteq> 0 then [(''count'', JNum (f_Count f))] else [])
                 @ [(''parallelism'', JNum (f_Parallelism f))]))"

section \<open>Inheritance\<close>

definition EffectiveImage :: "'q Task \<Rightarrow> 'q Component option \<Rightarrow> string" where
  "EffectiveImage t parent =
     (if t_Image t \<noteq> [] then t_Image t else (case parent of Some p \<Rightarrow> c_Image p | None \<Rightarrow> []))"

definition UsesParentImage :: "'q Task \<Rightarrow> bool" where
  "UsesParentImage t = (t_Image t = [] \<and> t_From t \<noteq> [])"

definition or_else :: "'a list \<Rightarrow> 'a list \<Rightarrow> 'a list" where
  "or_else xs ys = (if xs = [] then ys else xs)"

definition merge_env :: "string gomap \<Rightarrow> string gomap \<Rightarrow> string gomap" where
  "merge_env parent own =
     (if parent \<noteq> [] \<or> own \<noteq> [] then gm_copy (gm_copy [] parent) own else own)"

definition inherits_resources :: "'q k8s_lib \<Rightarrow> 'q Task \<Rightarrow> bool" where
  "inherits_resources L t = (t_ResourcePreset t = [] \<and> \<not> ResourcesSet L (t_Resources t))"

definition MergeFrom :: "'q k8s_lib \<Rightarrow> 'q Task \<Rightarrow> 'q Component option \<Rightarrow> 'q Task" where
  "MergeFrom L t parent =
     (case parent of
        None \<Rightarrow> t
      | Some p \<Rightarrow>
          t\<lparr>t_Image := or_else (t_Image t) (c_Image p),
            t_EnvFile := or_else (t_EnvFile t) (c_EnvFile p),
            t_ConfigFile := or_else (t_ConfigFile t) (c_ConfigFile p),
            t_Environments := or_else (t_Environments t) (c_Environments p),
            t_Profiles := (case t_Profiles t of Some (x # xs) \<Rightarrow> t_Profiles t | _ \<Rightarrow> c_Profiles p),
            t_ResourcePreset := (if inherits_resources L t then c_ResourcePreset p else t_ResourcePreset t),
            t_Resources := (if inherits_resources L t \<and> ResourcesSet L (c_Resources p)
                            then c_Resources p else t_Resources t),
            t_Env := merge_env (c_Env p) (t_Env t)\<rparr>)"

definition HelmHookEvents :: "'q Task \<Rightarrow> string" where
  "HelmHookEvents t =
     (if t_On t = TaskOnPreDeploy then ''pre-install,pre-upgrade''
      else if t_On t = TaskOnPostDeploy then ''post-install,post-upgrade''
      else [])"

definition componentRef :: "'q Spec \<Rightarrow> string \<Rightarrow> 'q Component option" where
  "componentRef s name = (if name = [] then None else gm_get (s_Components s) name)"

definition MergedTask :: "'q k8s_lib \<Rightarrow> 'q Spec \<Rightarrow> string \<Rightarrow> 'q Task option" where
  "MergedTask L s name =
     (case gm_get (s_Tasks s) name of
        None \<Rightarrow> None
      | Some t \<Rightarrow> Some (MergeFrom L t (componentRef s (t_From t))))"

definition activeInEnvironment :: "'q Task \<Rightarrow> string \<Rightarrow> bool" where
  "activeInEnvironment t env = (t_Environments t = [] \<or> matchEnvKey env (t_Environments t) \<noteq> None)"

definition tasksInEnvironment :: "'q k8s_lib \<Rightarrow> 'q Spec \<Rightarrow> string \<Rightarrow> 'q Task gomap" where
  "tasksInEnvironment L s env =
     fold (\<lambda>name out.
             case MergedTask L s name of
               None \<Rightarrow> out
             | Some t \<Rightarrow> if activeInEnvironment t env then gm_put name t out else out)
          (TaskNames s) []"

text \<open>\<open>resolved\<close> is the \<open>Tasks\<close> map of the resolved spec, when there is one.\<close>

definition EffectiveTasks ::
  "'q k8s_lib \<Rightarrow> 'q Spec option \<Rightarrow> string \<Rightarrow> 'q ResolvedTask gomap option
     \<Rightarrow> (hook_error, 'q ResolvedTask gomap) result" where
  "EffectiveTasks L manifest environment resolved =
     (case resolved of
        Some tasks \<Rightarrow> Inr (gm_copy [] tasks)
      | None \<Rightarrow>
          (case manifest of
             None \<Rightarrow> Inr []
           | Some s \<Rightarrow>
               (case AssignHookWeights (s_Tasks s) of
                  Inl e \<Rightarrow> Inl e
                | Inr weights \<Rightarrow>
                    Inr (fold (\<lambda>(name, t). gm_put name
                                 \<lparr>rt_Task = t, rt_HookWeight = gm_get_or 0 weights name,
                                  rt_Profiles = [], rt_MergedProfile = None\<rparr>)
                              (tasksInEnvironment L s environment) []))))"

section \<open>Job fields\<close>

record 'q TaskJobSpec =
  Completions :: "32 word"
  Parallelism :: "32 word"
  BackoffLimit :: "32 word"
  ActiveDeadlineSeconds :: "64 word option"
  TTLSecondsAfterFinished :: "32 word option"
  j_Image :: string
  j_Command :: "string list"
  j_Args :: "string list"
  j_Env :: "string gomap"
  j_Resources :: "'q Resources"

datatype terr =
    OutsideInt32 string int
  | ParallelismAboveMax
  | TimeoutInvalid duration_error
  | FromOrImageRequired
  | FromUnknown string
  | ScheduleUnsupported
  | OnRequired
  | OnInvalid string
  | AfterOnManual
  | AfterEmptyName
  | AfterSelf
  | CommandRequired
  | CountBelowOne
  | ParallelismBelowOne
  | ParallelismAboveCount
  | TaskFieldInvalid verr
  | TaskNameInvalid verr
  | NameCollides
  | AfterUnknown string
  | AfterOtherPhase string TaskOn
  | AfterNotCovered string
  | AfterGraph hook_error
  | SessionTimeoutNotPositive
  | TimeoutAboveLimit string int bool

definition toInt32 :: "string \<Rightarrow> int \<Rightarrow> (terr, 32 word) result" where
  "toInt32 name n = (if n < 0 \<or> n > 2 ^ 31 - 1 then Inl (OutsideInt32 name n) else Inr (word_of_int n))"

text \<open>The optional fields, after the counts were converted.\<close>

definition job_ttl :: "'q Task \<Rightarrow> (terr, 32 word option) result" where
  "job_ttl t =
     (case t_TTLSecondsAfterFinished t of
        None \<Rightarrow> Inr None
      | Some n \<Rightarrow> bindE (toInt32 ''ttlSecondsAfterFinished'' n) (\<lambda>w. Inr (Some w)))"

definition job_deadline :: "'q Task \<Rightarrow> (terr, 64 word option) result" where
  "job_deadline t =
     (if t_Timeout t = [] then Inr None
      else (case ParseDuration (t_Timeout t) of
              Inl e \<Rightarrow> Inl (TimeoutInvalid e)
            | Inr sec \<Rightarrow> Inr (Some (word_of_int sec))))"

definition NewTaskJobSpec :: "'q Task \<Rightarrow> int \<Rightarrow> int \<Rightarrow> (terr, 'q TaskJobSpec) result" where
  "NewTaskJobSpec t count0 parallelism0 =
     (let cnt = (if count0 < 1 then EffectiveCount (t_Fanout t) else count0);
          par = (if parallelism0 < 1 then EffectiveParallelism (t_Fanout t) else parallelism0)
      in if par > MaxFanoutParallelism then Inl ParallelismAboveMax
         else
           (let par = (if par > cnt then cnt else par);
                backoff = (case t_BackoffLimit t of None \<Rightarrow> DefaultBackoffLimit | Some n \<Rightarrow> n)
            in bindE (toInt32 ''fanout.count'' cnt) (\<lambda>completions32.
               bindE (toInt32 ''backoffLimit'' backoff) (\<lambda>backoff32.
               bindE (job_ttl t) (\<lambda>ttl.
               bindE (job_deadline t) (\<lambda>deadline.
                 Inr \<lparr>Completions = completions32, Parallelism = word_of_int par, BackoffLimit = backoff32,
                      ActiveDeadlineSeconds = deadline, TTLSecondsAfterFinished = ttl, j_Image = t_Image t,
                      j_Command = t_Command t, j_Args = t_Args t, j_Env = t_Env t,
                      j_Resources = t_Resources t\<rparr>))))))"

section \<open>Validation\<close>

definition scheduleOnToken :: string where "scheduleOnToken = ''schedule''"

definition when_err :: "bool \<Rightarrow> 'e \<Rightarrow> 'e list" where
  "when_err b e = (if b then [e] else [])"

definition opt_err :: "('e \<Rightarrow> 'f) \<Rightarrow> 'e option \<Rightarrow> 'f list" where
  "opt_err f e = (case e of None \<Rightarrow> [] | Some x \<Rightarrow> [f x])"

definition result_err :: "('e, 'a) result \<Rightarrow> 'e list" where
  "result_err r = (case r of Inl e \<Rightarrow> [e] | Inr _ \<Rightarrow> [])"

definition on_errors :: "TaskOn \<Rightarrow> terr list" where
  "on_errors on =
     (if on \<in> {TaskOnPreDeploy, TaskOnPostDeploy, TaskOnManual} then []
      else if on = scheduleOnToken then [ScheduleUnsupported]
      else if on = [] then [OnRequired]
      else [OnInvalid on])"

definition after_errors :: "string \<Rightarrow> string list \<Rightarrow> terr list" where
  "after_errors name deps =
     concat (map (\<lambda>dep. if TrimSpace dep = [] then [AfterEmptyName] else when_err (dep = name) AfterSelf) deps)"

definition fanout_errors :: "int \<Rightarrow> int \<Rightarrow> terr list" where
  "fanout_errors cnt par =
     (if cnt < 1 then [CountBelowOne] else result_err (toInt32 ''fanout.count'' cnt))
     @ (if par < 1 then [ParallelismBelowOne] else when_err (par > MaxFanoutParallelism) ParallelismAboveMax)
     @ when_err (par > cnt) ParallelismAboveCount"

definition validateTask :: "'q k8s_lib \<Rightarrow> string \<Rightarrow> 'q Task \<Rightarrow> 'q Spec \<Rightarrow> terr list" where
  "validateTask L name t s =
     when_err (t_From t = [] \<and> t_Image t = []) FromOrImageRequired
     @ when_err (t_From t \<noteq> [] \<and> \<not> gm_has (s_Components s) (t_From t)) (FromUnknown (t_From t))
     @ on_errors (t_On t)
     @ when_err (t_After t \<noteq> [] \<and> t_On t = TaskOnManual) AfterOnManual
     @ after_errors name (t_After t)
     @ when_err (UsesParentImage t \<and> t_Command t = []) CommandRequired
     @ fanout_errors (EffectiveCount (t_Fanout t)) (EffectiveParallelism (t_Fanout t))
     @ (case t_BackoffLimit t of None \<Rightarrow> [] | Some n \<Rightarrow> result_err (toInt32 ''backoffLimit'' n))
     @ (case t_TTLSecondsAfterFinished t of None \<Rightarrow> []
        | Some n \<Rightarrow> result_err (toInt32 ''ttlSecondsAfterFinished'' n))
     @ opt_err TaskFieldInvalid (validateResources L (t_Resources t) (t_ResourcePreset t))
     @ opt_err TaskFieldInvalid (ValidateComponentEnvironmentFilter (t_Environments t))
     @ opt_err TaskFieldInvalid (ValidateComponentProfiles (t_Profiles t))
     @ (if t_Timeout t = [] then []
        else (case ParseDuration (t_Timeout t) of Inl e \<Rightarrow> [TimeoutInvalid e] | Inr _ \<Rightarrow> []))"

definition afterCoversDependentEnvs :: "'q Task \<Rightarrow> 'q Task \<Rightarrow> bool" where
  "afterCoversDependentEnvs dependent dep =
     (if t_Environments dep = [] then True
      else if t_Environments dependent = [] then False
      else list_all (\<lambda>env. matchEnvKey env (t_Environments dep) \<noteq> None) (t_Environments dependent))"

definition merged_or_zero :: "'q k8s_lib \<Rightarrow> 'q Spec \<Rightarrow> string \<Rightarrow> 'q Task" where
  "merged_or_zero L s name = (case MergedTask L s name of None \<Rightarrow> zero_Task | Some t \<Rightarrow> t)"

definition after_entry_errors :: "'q k8s_lib \<Rightarrow> 'q Spec \<Rightarrow> string \<Rightarrow> 'q Task \<Rightarrow> string \<Rightarrow> terr list" where
  "after_entry_errors L s name t dep =
     (case gm_get (s_Tasks s) dep of
        None \<Rightarrow> [AfterUnknown dep]
      | Some other \<Rightarrow>
          if t_On other \<noteq> t_On t then [AfterOtherPhase dep (t_On t)]
          else when_err (\<not> afterCoversDependentEnvs (merged_or_zero L s name) (merged_or_zero L s dep))
                 (AfterNotCovered dep))"

definition validateTaskAfterGraph :: "'q k8s_lib \<Rightarrow> 'q Spec \<Rightarrow> (string \<times> terr) list" where
  "validateTaskAfterGraph L s =
     concat (map (\<lambda>name.
        case gm_get (s_Tasks s) name of
          None \<Rightarrow> []
        | Some t \<Rightarrow>
            if \<not> IsHook (t_On t) then []
            else map (Pair name) (concat (map (after_entry_errors L s name t) (t_After t))))
        (sorted_keys (s_Tasks s)))
     @ map (Pair []) (map AfterGraph (result_err (AssignHookWeights (s_Tasks s))))"

definition ValidateSpecTasks :: "'q k8s_lib \<Rightarrow> 'q Spec \<Rightarrow> (string \<times> terr) list" where
  "ValidateSpecTasks L s =
     (if s_Tasks s = [] then []
      else
        concat (map (\<lambda>name.
          case gm_get (s_Tasks s) name of
            None \<Rightarrow> []
          | Some t \<Rightarrow>
              map (Pair name)
                (opt_err TaskNameInvalid (ValidateComponentName name)
                 @ when_err (gm_has (s_Components s) name) NameCollides
                 @ validateTask L name t s))
          (TaskNames s))
        @ validateTaskAfterGraph L s)"

section \<open>Timeouts against the session limit\<close>

definition DefaultHookTaskTimeout :: string where "DefaultHookTaskTimeout = ''5m''"

text \<open>The limit is in nanoseconds; \<open>hint\<close> tells whether the error names the flags.\<close>

definition taskTimeoutAgainstLimit :: "string \<Rightarrow> 'q Task \<Rightarrow> int \<Rightarrow> bool \<Rightarrow> terr check" where
  "taskTimeoutAgainstLimit name t limit hint =
     (if t_Timeout t = [] \<and> \<not> IsHook (t_On t) then None
      else
        (let timeout = (if t_Timeout t = [] then DefaultHookTaskTimeout else t_Timeout t) in
         case ParseDuration timeout of
           Inl e \<Rightarrow> Some (TimeoutInvalid e)
         | Inr sec \<Rightarrow>
             if to_int64 (sec * 10 ^ 9) \<ge> limit then Some (TimeoutAboveLimit timeout limit hint) else None))"

definition CheckTaskTimeout :: "string \<Rightarrow> 'q Task \<Rightarrow> int \<Rightarrow> terr check" where
  "CheckTaskTimeout name t limit =
     (if limit \<le> 0 then Some SessionTimeoutNotPositive else taskTimeoutAgainstLimit name t limit True)"

definition CheckHookTaskTimeouts :: "'q Task gomap \<Rightarrow> int \<Rightarrow> (string \<times> terr) list" where
  "CheckHookTaskTimeouts tasks limit =
     (if limit \<le> 0 then [([], SessionTimeoutNotPositive)]
      else
        concat (map (\<lambda>name.
          case gm_get tasks name of
            None \<Rightarrow> []
          | Some t \<Rightarrow>
              if \<not> IsHook (t_On t) then []
              else opt_err (Pair name) (taskTimeoutAgainstLimit name t limit False))
          (sorted_keys tasks)))"

section \<open>The after relation across environments\<close>

lemma prefix_no_slash: "CHR ''/'' \<notin> set (fst (str_Cut (CHR ''/'') s))"
  by (auto simp: str_Cut_def dest: set_takeWhileD)

lemma fresh_environment: "\<exists>env. matchEnvKey env ks = None"
proof -
  define n where "n = Suc (Max (insert 0 (length ` set ks)))"
  have "replicate n (CHR ''a'') \<notin> set ks"
  proof
    assume "replicate n (CHR ''a'') \<in> set ks"
    then have "n \<le> Max (insert 0 (length ` set ks))"
      by (intro Max_ge) (auto intro: rev_image_eqI)
    then show False by (simp add: n_def)
  qed
  then show ?thesis by (intro exI [of _ "replicate n (CHR ''a'')"]) (simp add: em.lookup_None_iff)
qed

lemma covers_iff:
  "afterCoversDependentEnvs dependent dep \<longleftrightarrow>
     (\<forall>env. activeInEnvironment dependent env \<longrightarrow> activeInEnvironment dep env)"
proof (cases "t_Environments dep = [] \<or> t_Environments dependent = []")
  case True
  then show ?thesis
    using fresh_environment [of "t_Environments dep"]
    by (auto simp: afterCoversDependentEnvs_def activeInEnvironment_def)
next
  case False
  let ?D = "t_Environments dependent" and ?E = "t_Environments dep"
  have "activeInEnvironment dep env"
    if all: "\<forall>e \<in> set ?D. matchEnvKey e ?E \<noteq> None" and act: "activeInEnvironment dependent env" for env
  proof -
    from act False obtain k where k: "matchEnvKey env ?D = Some k" by (auto simp: activeInEnvironment_def)
    then have mem: "matchEnvKey k ?E \<noteq> None" using all em.lookup_mem by blast
    show ?thesis
    proof (cases "k = env")
      case True
      with mem show ?thesis by (simp add: activeInEnvironment_def)
    next
      case False
      with em.lookup_prefix [OF k] have p: "CHR ''/'' \<in> set env" "k = fst (str_Cut (CHR ''/'') env)" by auto
      then have "CHR ''/'' \<notin> set k" using prefix_no_slash by simp
      with mem have "k \<in> set ?E" by (metis em.lookup_None_iff)
      with p em.lookup_complete show ?thesis by (simp add: activeInEnvironment_def)
    qed
  qed
  moreover have "activeInEnvironment dependent e" if "e \<in> set ?D" for e
    using that em.lookup_exact by (simp add: activeInEnvironment_def)
  ultimately show ?thesis
    using False by (auto simp: afterCoversDependentEnvs_def list_all_iff activeInEnvironment_def)
qed

lemma covers_sound:
  "afterCoversDependentEnvs dependent dep \<Longrightarrow> activeInEnvironment dependent env \<Longrightarrow> activeInEnvironment dep env"
  by (simp add: covers_iff)

text \<open>
  the coverage check is exact. \<open>afterCoversDependentEnvs\<close> accepts a dependency iff in every
  environment, wildcard instances included, where the dependent task runs, the dependency runs
  as well.
\<close>

theorem after_covers_iff:
  "afterCoversDependentEnvs dependent dep \<longleftrightarrow>
     (\<forall>env. activeInEnvironment dependent env \<longrightarrow> activeInEnvironment dep env)"
  by (rule covers_iff)

section \<open>Validated tasks\<close>

lemma TaskNames_set [simp]: "set (TaskNames s) = fst ` set (s_Tasks s)"
  by (simp add: TaskNames_def)

lemma gm_get_tasksInEnvironment:
  "gm_get (tasksInEnvironment L s env) n =
     (case MergedTask L s n of None \<Rightarrow> None | Some t \<Rightarrow> if activeInEnvironment t env then Some t else None)"
proof -
  define f where "f n = (case MergedTask L s n of None \<Rightarrow> None
      | Some t \<Rightarrow> if activeInEnvironment t env then Some t else None)" for n
  have step: "(case MergedTask L s k of None \<Rightarrow> out
      | Some t \<Rightarrow> if activeInEnvironment t env then gm_put k t out else out)
      = (case f k of None \<Rightarrow> out | Some v \<Rightarrow> gm_put k v out)" for k out
    by (simp add: f_def split: option.splits)
  have "n \<in> set (TaskNames s)" if "f n \<noteq> None"
    using that gm_get_None_keys [of "s_Tasks s" n]
    by (auto simp: f_def MergedTask_def split: option.splits)
  then show ?thesis
    unfolding tasksInEnvironment_def step gm_get_fold_put f_def [symmetric] by (cases "f n") auto
qed

lemma gm_wf_tasksInEnvironment: "gm_wf (tasksInEnvironment L s env)"
proof -
  have step: "(case MergedTask L s k of None \<Rightarrow> out
      | Some t \<Rightarrow> if activeInEnvironment t env then gm_put k t out else out)
      = (case (case MergedTask L s k of None \<Rightarrow> None
               | Some t \<Rightarrow> if activeInEnvironment t env then Some t else None)
         of None \<Rightarrow> out | Some v \<Rightarrow> gm_put k v out)" for k out
    by (simp split: option.splits)
  show ?thesis unfolding tasksInEnvironment_def step by (rule gm_wf_fold_put) simp
qed

lemma ValidateSpecTasks_graph:
  assumes "ValidateSpecTasks L s = []" "s_Tasks s \<noteq> []"
  shows "validateTaskAfterGraph L s = []"
  using assms by (simp add: ValidateSpecTasks_def)

lemma ValidateSpecTasks_task:
  assumes v: "ValidateSpecTasks L s = []" and t: "gm_get (s_Tasks s) n = Some t"
  shows "validateTask L n t s = []" "\<not> gm_has (s_Components s) n" "ValidateComponentName n = None"
proof -
  have ne: "s_Tasks s \<noteq> []" and mem: "n \<in> set (TaskNames s)"
    using t gm_get_SomeD [OF t] by (auto intro: rev_image_eqI)
  have "opt_err TaskNameInvalid (ValidateComponentName n) @ when_err (gm_has (s_Components s) n) NameCollides
      @ validateTask L n t s = []"
    using v ne mem t by (auto simp: ValidateSpecTasks_def dest!: bspec [of _ _ n])
  then show "validateTask L n t s = []" "\<not> gm_has (s_Components s) n" "ValidateComponentName n = None"
    by (auto simp: when_err_def opt_err_def split: if_splits option.splits)
qed

lemma AssignHookWeights_validated:
  "ValidateSpecTasks L s = [] \<Longrightarrow> \<exists>w. AssignHookWeights (s_Tasks s) = Inr w"
proof (cases "s_Tasks s = []")
  case True
  then show ?thesis using hs.assign_total [of "s_Tasks s"] by (simp add: after_rel_def acyclic_def)
next
  case False
  assume "ValidateSpecTasks L s = []"
  with False have "validateTaskAfterGraph L s = []" by (simp add: ValidateSpecTasks_graph)
  then show ?thesis
    by (cases "AssignHookWeights (s_Tasks s)") (auto simp: validateTaskAfterGraph_def result_err_def)
qed

lemma validated_after_entry:
  assumes v: "ValidateSpecTasks L s = []" and t: "gm_get (s_Tasks s) n = Some t"
    and hook: "IsHook (t_On t)" and dep: "dep \<in> set (t_After t)"
  shows "after_entry_errors L s n t dep = []"
proof -
  have ne: "s_Tasks s \<noteq> []" and mem: "n \<in> set (sorted_keys (s_Tasks s))"
    using t gm_get_SomeD [OF t] by (auto intro: rev_image_eqI)
  from ValidateSpecTasks_graph [OF v ne] mem t hook dep show ?thesis
    by (auto simp: validateTaskAfterGraph_def dest!: bspec [of _ _ n])
qed

lemma EffectiveTasks_get:
  assumes "EffectiveTasks L (Some s) env None = Inr out" "AssignHookWeights (s_Tasks s) = Inr w"
  shows "gm_get out n = (case gm_get (tasksInEnvironment L s env) n of None \<Rightarrow> None
     | Some t \<Rightarrow> Some \<lparr>rt_Task = t, rt_HookWeight = gm_get_or 0 w n, rt_Profiles = [], rt_MergedProfile = None\<rparr>)"
proof -
  have "out = fold (\<lambda>(name, t). gm_put name \<lparr>rt_Task = t, rt_HookWeight = gm_get_or 0 w name,
      rt_Profiles = [], rt_MergedProfile = None\<rparr>) (tasksInEnvironment L s env) []"
    using assms by (simp add: EffectiveTasks_def)
  then show ?thesis
    using gm_get_fold_map [OF gm_wf_tasksInEnvironment [of L s env], where d = "[]" and k = n and
        g = "\<lambda>name t. \<lparr>rt_Task = t, rt_HookWeight = gm_get_or 0 w name, rt_Profiles = [], rt_MergedProfile = None\<rparr>"]
    by (simp split: option.split)
qed

text \<open>
  C22: a validated spec is runnable in every environment. The tasks of an environment can be
  computed, and each hook task that runs there finds every task of its \<open>after\<close> list there too,
  in the same phase and with a smaller hook weight.
\<close>

theorem validated_tasks_runnable:
  assumes wf: "gm_wf (s_Tasks s)" and v: "ValidateSpecTasks L s = []"
  shows "\<exists>out. EffectiveTasks L (Some s) env None = Inr out \<and>
    (\<forall>n rt. gm_get out n = Some rt \<longrightarrow> IsHook (t_On (rt_Task rt)) \<longrightarrow>
       (\<forall>dep \<in> set (t_After (rt_Task rt)).
          \<exists>rd. gm_get out dep = Some rd \<and> t_On (rt_Task rd) = t_On (rt_Task rt)
               \<and> rt_HookWeight rd < rt_HookWeight rt))"
proof -
  from AssignHookWeights_validated [OF v] obtain w where w: "AssignHookWeights (s_Tasks s) = Inr w" by blast
  then obtain out where out: "EffectiveTasks L (Some s) env None = Inr out" by (simp add: EffectiveTasks_def)
  note get = EffectiveTasks_get [OF out w]
  have merged: "t_After (MergeFrom L t p) = t_After t" "t_On (MergeFrom L t p) = t_On t" for t :: "'a Task" and p
    by (simp_all add: MergeFrom_def split: option.split)
  have "\<exists>rd. gm_get out dep = Some rd \<and> t_On (rt_Task rd) = t_On (rt_Task rt) \<and> rt_HookWeight rd < rt_HookWeight rt"
    if rt: "gm_get out n = Some rt" and hook: "IsHook (t_On (rt_Task rt))" and dep: "dep \<in> set (t_After (rt_Task rt))"
    for n rt dep
  proof -
    from rt get [of n] obtain t where t: "gm_get (s_Tasks s) n = Some t"
      and mt: "rt_Task rt = MergeFrom L t (componentRef s (t_From t))"
      and act: "activeInEnvironment (rt_Task rt) env" and wn: "rt_HookWeight rt = gm_get_or 0 w n"
      by (auto simp: gm_get_tasksInEnvironment MergedTask_def split: option.splits if_splits)
    have h: "IsHook (t_On t)" "dep \<in> set (t_After t)" using hook dep by (simp_all add: mt merged)
    from validated_after_entry [OF v t h] obtain d where d: "gm_get (s_Tasks s) dep = Some d"
      and on: "t_On d = t_On t" and cov: "afterCoversDependentEnvs (merged_or_zero L s n) (merged_or_zero L s dep)"
      by (auto simp: after_entry_errors_def when_err_def split: option.splits if_splits)
    have md: "MergedTask L s dep = Some (MergeFrom L d (componentRef s (t_From d)))"
      and mn: "MergedTask L s n = Some (rt_Task rt)"
      using d t mt by (simp_all add: MergedTask_def)
    have "activeInEnvironment (MergeFrom L d (componentRef s (t_From d))) env"
      using cov act md mn unfolding merged_or_zero_def by (simp add: covers_sound)
    then have "gm_get out dep = Some \<lparr>rt_Task = MergeFrom L d (componentRef s (t_From d)),
        rt_HookWeight = gm_get_or 0 w dep, rt_Profiles = [], rt_MergedProfile = None\<rparr>"
      using get [of dep] md by (simp add: gm_get_tasksInEnvironment)
    moreover have "(dep, n) \<in> after_rel (s_Tasks s) (t_On t)"
      using t d h on by (auto simp: after_rel_def)
    then have "gm_get_or 0 w dep < gm_get_or 0 w n" by (rule hs.assign_orders [OF wf w h(1)])
    ultimately show ?thesis using wn mt on by (auto simp: merged)
  qed
  with out show ?thesis by blast
qed

section \<open>Job fields\<close>

lemma sint_int32: "0 \<le> n \<Longrightarrow> n \<le> 2 ^ 31 - 1 \<Longrightarrow> sint (word_of_int n :: 32 word) = n"
  by transfer (simp add: signed_take_bit_int_eq_self)

lemma sint_int64: "0 \<le> n \<Longrightarrow> n < 2 ^ 63 \<Longrightarrow> sint (word_of_int n :: 64 word) = n"
  by transfer (simp add: signed_take_bit_int_eq_self)

lemma toInt32_Inr [simp]:
  "toInt32 name n = Inr w \<longleftrightarrow> 0 \<le> n \<and> n \<le> 2 ^ 31 - 1 \<and> w = word_of_int n"
  by (auto simp: toInt32_def)

lemma toInt32_sint: "toInt32 name n = Inr w \<Longrightarrow> sint w = n \<and> 0 \<le> n"
  by (auto intro: sint_int32)

lemma EffectiveCount_pos: "1 \<le> EffectiveCount f" and EffectiveParallelism_pos: "1 \<le> EffectiveParallelism f"
  by (simp_all add: EffectiveCount_def EffectiveParallelism_def DefaultFanoutCount_def DefaultFanoutParallelism_def)

lemma ParseDuration_int64: "ParseDuration s = Inr n \<Longrightarrow> 0 \<le> n \<and> n < 2 ^ 63"
proof -
  assume "ParseDuration s = Inr n"
  then obtain d where d: "time_ParseDuration s = Inr d" "0 < d" "n = int_Seconds d"
    by (auto simp: ParseDuration_def split: sum.splits if_splits)
  from int_Seconds_bound [OF d(2) time_ParseDuration_range [OF d(1)]] d(3) show ?thesis by simp
qed

text \<open>
  C36: the Job fields. When a Job is built, the 32-bit and 64-bit fields hold the requested
  values without truncation: the requested or declared number of completions, at least one copy
  in parallel and never more than completions or the maximum, the back-off limit, and the
  timeout in seconds.
\<close>

theorem job_spec_bounds:
  assumes "NewTaskJobSpec t cnt par = Inr j"
  shows "sint (Completions j) = (if cnt < 1 then EffectiveCount (t_Fanout t) else cnt)
    \<and> 1 \<le> sint (Parallelism j) \<and> sint (Parallelism j) \<le> sint (Completions j)
    \<and> sint (Parallelism j) \<le> MaxFanoutParallelism
    \<and> sint (Parallelism j)
        = min (if par < 1 then EffectiveParallelism (t_Fanout t) else par) (sint (Completions j))
    \<and> sint (BackoffLimit j) = (case t_BackoffLimit t of None \<Rightarrow> 3 | Some n \<Rightarrow> n) \<and> 0 \<le> sint (BackoffLimit j)
    \<and> map_option sint (TTLSecondsAfterFinished j) = t_TTLSecondsAfterFinished t
    \<and> (if t_Timeout t = [] then ActiveDeadlineSeconds j = None
       else \<exists>w. ActiveDeadlineSeconds j = Some w \<and> ParseDuration (t_Timeout t) = Inr (sint w))"
proof -
  let ?c = "if cnt < 1 then EffectiveCount (t_Fanout t) else cnt"
  let ?p0 = "if par < 1 then EffectiveParallelism (t_Fanout t) else par"
  let ?p = "if ?p0 > ?c then ?c else ?p0"
  let ?b = "case t_BackoffLimit t of None \<Rightarrow> DefaultBackoffLimit | Some n \<Rightarrow> n"
  from assms obtain c b ttl dl where max: "?p0 \<le> MaxFanoutParallelism"
    and c: "toInt32 ''fanout.count'' ?c = Inr c" and b: "toInt32 ''backoffLimit'' ?b = Inr b"
    and ttl: "job_ttl t = Inr ttl" and dl: "job_deadline t = Inr dl"
    and j: "Completions j = c" "Parallelism j = word_of_int ?p" "BackoffLimit j = b"
      "TTLSecondsAfterFinished j = ttl" "ActiveDeadlineSeconds j = dl"
    unfolding NewTaskJobSpec_def Let_def
    by (auto simp del: toInt32_Inr split: if_splits)
  have c1: "1 \<le> ?c" and p1: "1 \<le> ?p0" using EffectiveCount_pos EffectiveParallelism_pos by auto
  have sc: "sint (Completions j) = ?c" using toInt32_sint [OF c] j by simp
  have "sint (word_of_int ?p :: 32 word) = ?p"
    using max c1 p1 by (intro sint_int32) (auto simp: MaxFanoutParallelism_def)
  then have sp: "sint (Parallelism j) = ?p" using j by simp
  have sb: "sint (BackoffLimit j) = ?b" "0 \<le> ?b" using toInt32_sint [OF b] j by simp_all
  have "map_option sint (TTLSecondsAfterFinished j) = t_TTLSecondsAfterFinished t"
    unfolding j(4) using ttl by (auto simp: job_ttl_def sint_int32 split: option.splits)
  moreover have "if t_Timeout t = [] then ActiveDeadlineSeconds j = None
       else \<exists>w. ActiveDeadlineSeconds j = Some w \<and> ParseDuration (t_Timeout t) = Inr (sint w)"
    unfolding j(5) using dl ParseDuration_int64 [of "t_Timeout t"]
    by (auto simp: job_deadline_def sint_int64 split: if_splits sum.splits)
  ultimately show ?thesis
    using sc sp sb c1 p1 max by (simp add: DefaultBackoffLimit_def split: option.split)
qed

text \<open>
  a task that passed validation always yields a Job, with the declared fan-out as it is: the
  clamping and the conversion errors of the Job builder are unreachable for validated specs.
\<close>

theorem validated_task_has_job:
  assumes "validateTask L name t s = []"
  shows "\<exists>j. NewTaskJobSpec t 0 0 = Inr j \<and> sint (Completions j) = EffectiveCount (t_Fanout t)
           \<and> sint (Parallelism j) = EffectiveParallelism (t_Fanout t)"
proof -
  let ?c = "EffectiveCount (t_Fanout t)" and ?p = "EffectiveParallelism (t_Fanout t)"
  have fan: "fanout_errors ?c ?p = []"
    and b: "(case t_BackoffLimit t of None \<Rightarrow> [] | Some n \<Rightarrow> result_err (toInt32 ''backoffLimit'' n)) = []"
    and ttl: "(case t_TTLSecondsAfterFinished t of None \<Rightarrow> []
      | Some n \<Rightarrow> result_err (toInt32 ''ttlSecondsAfterFinished'' n)) = []"
    and dl: "(if t_Timeout t = [] then []
      else (case ParseDuration (t_Timeout t) of Inl e \<Rightarrow> [TimeoutInvalid e] | Inr _ \<Rightarrow> [])) = []"
    using assms by (simp_all add: validateTask_def)
  have c1: "1 \<le> ?c" and p1: "1 \<le> ?p" using EffectiveCount_pos EffectiveParallelism_pos by auto
  from fan c1 p1 have bounds: "?c \<le> 2 ^ 31 - 1" "?p \<le> MaxFanoutParallelism" "?p \<le> ?c"
    by (auto simp: fanout_errors_def result_err_def when_err_def toInt32_def split: if_splits)
  have "\<exists>x. toInt32 ''backoffLimit'' (case t_BackoffLimit t of None \<Rightarrow> DefaultBackoffLimit | Some n \<Rightarrow> n) = Inr x"
    using b by (auto simp: toInt32_def result_err_def DefaultBackoffLimit_def split: option.splits if_splits)
  moreover have "\<exists>x. job_ttl t = Inr x"
    using ttl by (auto simp: job_ttl_def toInt32_def result_err_def split: option.splits if_splits)
  moreover have "\<exists>x. job_deadline t = Inr x"
    using dl by (auto simp: job_deadline_def split: sum.splits if_splits)
  moreover have "toInt32 ''fanout.count'' ?c = Inr (word_of_int ?c)" using bounds c1 by simp
  ultimately obtain j where j: "NewTaskJobSpec t 0 0 = Inr j" "Completions j = word_of_int ?c"
    "Parallelism j = word_of_int ?p"
    using bounds by (auto simp: NewTaskJobSpec_def simp del: toInt32_Inr)
  have "sint (Completions j) = ?c" "sint (Parallelism j) = ?p"
    unfolding j using bounds c1 p1 by (auto intro!: sint_int32)
  with j(1) show ?thesis by blast
qed

section \<open>Fan-out round trip\<close>

text \<open>A fan-out whose numbers are 64-bit integers, as the Go struct's are.\<close>

definition fanout_int64 :: "Fanout \<Rightarrow> bool" where
  "fanout_int64 f = (- (2 ^ 63) \<le> f_Count f \<and> f_Count f < 2 ^ 63
                     \<and> - (2 ^ 63) \<le> f_Parallelism f \<and> f_Parallelism f < 2 ^ 63)"

lemma lower_keys: "ascii_lower ''count'' = ''count''" "ascii_lower ''parallelism'' = ''parallelism''"
  by (simp_all add: ascii_lower_def in_range_def)

text \<open>
  writing a fan-out and reading it back gives the same effective count and parallelism,
  exactly when the count is positive or the parallelism is above one. Otherwise (a count that was
  left out next to a parallelism of at most one) the written number is zero or negative and
  reading it fails.
\<close>

theorem fanout_roundtrip:
  assumes "fanout_int64 f"
  shows "if f_Count f \<ge> 1 \<or> f_Parallelism f > 1
         then \<exists>f'. Fanout_UnmarshalJSON (Fanout_MarshalJSON f) = Inr f'
                \<and> EffectiveCount f' = EffectiveCount f \<and> EffectiveParallelism f' = EffectiveParallelism f
         else Fanout_UnmarshalJSON (Fanout_MarshalJSON f) = Inl FanoutCountBelowOne"
proof (cases "f_Parallelism f > 1")
  case True
  have keys: "''count'' \<noteq> ''parallelism''" by simp
  have "Fanout_UnmarshalJSON (Fanout_MarshalJSON f) = Inr f"
    using True assms
    by (cases f) (simp add: Fanout_MarshalJSON_def Fanout_UnmarshalJSON_def json_int_def fanout_int64_def
        lower_keys zero_Fanout_def)
  with True show ?thesis by simp
next
  case False
  with assms show ?thesis
    by (auto simp: Fanout_MarshalJSON_def Fanout_UnmarshalJSON_def json_int_def fanout_int64_def
        EffectiveCount_def EffectiveParallelism_def DefaultFanoutParallelism_def)
qed

section \<open>Timeouts\<close>

lemma ParseDuration_nanos: "ParseDuration s = Inr n \<Longrightarrow> to_int64 (n * 10 ^ 9) = n * 10 ^ 9"
proof -
  assume "ParseDuration s = Inr n"
  then obtain d where d: "time_ParseDuration s = Inr d" "0 < d" "n = int_Seconds d"
    by (auto simp: ParseDuration_def split: sum.splits if_splits)
  from int_Seconds_bound [OF d(2) time_ParseDuration_range [OF d(1)]] d(3) show ?thesis
    by (intro to_int64_id) auto
qed

text \<open>
  session timeouts. The deploy-time check passes exactly when the session limit is positive
  and every hook task has a valid timeout (five minutes when it sets none) strictly below it; no
  64-bit overflow can let a longer timeout pass.
\<close>

theorem hook_timeouts_within_limit:
  assumes "gm_wf tasks"
  shows "CheckHookTaskTimeouts tasks limit = [] \<longleftrightarrow> 0 < limit \<and>
    (\<forall>n t. gm_get tasks n = Some t \<longrightarrow> IsHook (t_On t) \<longrightarrow>
       (\<exists>sec. ParseDuration (if t_Timeout t = [] then ''5m'' else t_Timeout t) = Inr sec \<and> sec * 10 ^ 9 < limit))"
proof -
  have one: "taskTimeoutAgainstLimit n t limit h = None \<longleftrightarrow>
      (\<exists>sec. ParseDuration (if t_Timeout t = [] then ''5m'' else t_Timeout t) = Inr sec \<and> sec * 10 ^ 9 < limit)"
    if "IsHook (t_On t)" for n h and t :: "'a Task"
    using that ParseDuration_nanos
    by (auto simp: taskTimeoutAgainstLimit_def Let_def DefaultHookTaskTimeout_def not_le
        split: sum.splits if_splits)
  have mem: "n \<in> set (sorted_keys tasks) \<longleftrightarrow> (\<exists>t. gm_get tasks n = Some t)" for n
    using gm_get_None_keys [of tasks n] by auto
  show ?thesis
  proof (cases "limit \<le> 0")
    case True
    then show ?thesis by (simp add: CheckHookTaskTimeouts_def)
  next
    case False
    have "CheckHookTaskTimeouts tasks limit = [] \<longleftrightarrow>
        (\<forall>n t. gm_get tasks n = Some t \<longrightarrow> IsHook (t_On t) \<longrightarrow> taskTimeoutAgainstLimit n t limit False = None)"
      using False mem
      by (fastforce simp: CheckHookTaskTimeouts_def opt_err_def split: option.splits if_splits)
    with False one show ?thesis by (simp add: not_le)
  qed
qed

section \<open>Examples\<close>

definition ex_migrate :: "int Task" where
  "ex_migrate = zero_Task\<lparr>t_From := ''api'', t_Command := [''migrate''], t_On := TaskOnPreDeploy,
     t_Fanout := \<lparr>f_Count = 4, f_Parallelism = 2\<rparr>, t_Timeout := ''2m'', t_TTLSecondsAfterFinished := Some 600\<rparr>"

definition ex_seed :: "int Task" where
  "ex_seed = zero_Task\<lparr>t_From := ''api'', t_Command := [''seed''], t_On := TaskOnPreDeploy,
     t_After := [''migrate''], t_Environments := [''review'', ''staging'']\<rparr>"

definition ex_tasks :: "int Task gomap" where
  "ex_tasks = [(''seed'', ex_seed), (''migrate'', ex_migrate)]"

definition ex_task_spec :: "int Spec" where
  "ex_task_spec = ex_spec\<lparr>s_Tasks := ex_tasks\<rparr>"

lemma ex_task_spec_valid: "ValidateSpecTasks int_lib ex_task_spec = []"
  by code_simp

lemma ex_tasks_wf: "gm_wf ex_tasks" "gm_wf (s_Tasks ex_task_spec)"
  by (simp_all add: ex_task_spec_def ex_tasks_def gm_wf_def)

theorem validated_tasks_runnable_witness:
  "\<exists>out. EffectiveTasks int_lib (Some ex_task_spec) ''review/pr-9'' None = Inr out \<and>
     (\<exists>rs rm. gm_get out ''seed'' = Some rs \<and> gm_get out ''migrate'' = Some rm \<and> rt_HookWeight rm < rt_HookWeight rs)"
proof -
  from validated_tasks_runnable [OF ex_tasks_wf(2) ex_task_spec_valid, of "''review/pr-9''"]
  obtain out where out: "EffectiveTasks int_lib (Some ex_task_spec) ''review/pr-9'' None = Inr out"
    and deps: "\<forall>n rt. gm_get out n = Some rt \<longrightarrow> IsHook (t_On (rt_Task rt)) \<longrightarrow>
       (\<forall>dep \<in> set (t_After (rt_Task rt)).
          \<exists>rd. gm_get out dep = Some rd \<and> t_On (rt_Task rd) = t_On (rt_Task rt)
               \<and> rt_HookWeight rd < rt_HookWeight rt)" by blast
  have "case EffectiveTasks int_lib (Some ex_task_spec) ''review/pr-9'' None of Inl _ \<Rightarrow> False
      | Inr out \<Rightarrow> (case gm_get out ''seed'' of None \<Rightarrow> False
                   | Some rt \<Rightarrow> IsHook (t_On (rt_Task rt)) \<and> ''migrate'' \<in> set (t_After (rt_Task rt)))"
    by code_simp
  then obtain rs where rs: "gm_get out ''seed'' = Some rs" "IsHook (t_On (rt_Task rs))"
    "''migrate'' \<in> set (t_After (rt_Task rs))" by (auto simp: out split: option.splits)
  with deps obtain rm where "gm_get out ''migrate'' = Some rm" "rt_HookWeight rm < rt_HookWeight rs" by blast
  with out rs show ?thesis by blast
qed

theorem job_spec_bounds_witness:
  "\<exists>j. NewTaskJobSpec ex_migrate 1 0 = Inr j \<and> sint (Completions j) = 1 \<and> sint (Parallelism j) \<le> 1"
proof -
  have "is_ok (NewTaskJobSpec ex_migrate 1 0)" by code_simp
  then obtain j where j: "NewTaskJobSpec ex_migrate 1 0 = Inr j" by (auto simp: is_ok_iff)
  from job_spec_bounds [OF j] j show ?thesis by auto
qed

theorem validated_task_has_job_witness:
  "\<exists>j. NewTaskJobSpec ex_migrate 0 0 = Inr j \<and> sint (Completions j) = 4 \<and> sint (Parallelism j) = 2"
proof -
  have "validateTask int_lib ''migrate'' ex_migrate ex_task_spec = []" by code_simp
  from validated_task_has_job [OF this] show ?thesis
    by (simp add: ex_migrate_def EffectiveCount_def EffectiveParallelism_def)
qed

theorem fanout_roundtrip_witness:
  "Fanout_UnmarshalJSON (Fanout_MarshalJSON \<lparr>f_Count = 0, f_Parallelism = 1\<rparr>) = Inl FanoutCountBelowOne"
  using fanout_roundtrip [of "\<lparr>f_Count = 0, f_Parallelism = 1\<rparr>"] by (simp add: fanout_int64_def)

theorem hook_timeouts_within_limit_witness:
  "CheckHookTaskTimeouts ex_tasks (600 * 10 ^ 9) = []
   \<and> (\<exists>sec. ParseDuration ''2m'' = Inr sec \<and> sec * 10 ^ 9 < 600 * 10 ^ 9)"
proof -
  have ok: "CheckHookTaskTimeouts ex_tasks (600 * 10 ^ 9) = []" by code_simp
  have m: "gm_get ex_tasks ''migrate'' = Some ex_migrate" "IsHook (t_On ex_migrate)" "t_Timeout ex_migrate = ''2m''"
    by (simp_all add: ex_tasks_def gm_get_Cons ex_migrate_def IsHook_def)
  from hook_timeouts_within_limit [OF ex_tasks_wf(1), of "600 * 10 ^ 9"] ok m show ?thesis by fastforce
qed

theorem after_covers_iff_witness:
  "\<not> afterCoversDependentEnvs (zero_Task\<lparr>t_Environments := [''review'']\<rparr>)
      (zero_Task\<lparr>t_Environments := [''review/pr-1'']\<rparr>)"
proof -
  have "activeInEnvironment (zero_Task\<lparr>t_Environments := [''review'']\<rparr>) ''review/pr-2''" by code_simp
  moreover have "\<not> activeInEnvironment (zero_Task\<lparr>t_Environments := [''review/pr-1'']\<rparr>) ''review/pr-2''" by code_simp
  ultimately show ?thesis
    using after_covers_iff [of "zero_Task\<lparr>t_Environments := [''review'']\<rparr>" "zero_Task\<lparr>t_Environments := [''review/pr-1'']\<rparr>"] by blast
qed

end
