(* ===== verification/Platform.thy ===== *)
theory Platform
  imports Spec_Types
begin

text \<open>
  The platform file (\<open>internal/spec/platform_loader.go\<close> and \<open>LocalPlatformEnvironment\<close> of
  \<open>platform.go\<close>): the internal-consistency check that runs after schema validation, and the
  helpers that create or extend the file. Reading, schema validation and YAML encoding are
  third-party code: the outcome of \<open>LoadPlatform\<close> on the existing file is an argument, and a
  write is the configuration that would be encoded.
\<close>

section \<open>Consistency\<close>

definition SupportedPlatformVersions :: "string list" where
  "SupportedPlatformVersions = [''platform/v1-alpha.3'']"

definition CurrentPlatformVersion :: string where
  "CurrentPlatformVersion = ''platform/v1-alpha.3''"

definition IsSupportedPlatformVersion :: "string \<Rightarrow> bool" where
  "IsSupportedPlatformVersion v = (v \<in> set SupportedPlatformVersions)"

datatype platform_error =
    BaseDomainEmpty string string
  | TLSSecretNameRequired string string
  | TLSIssuerRequired string string
  | TLSModeUnsupported string string TLSMode
  | SeveralDefaults string "string list"
  | AllowedDomainUndefined string string "string list"
  | ProfileStorageClassUndefined string string "string list"

definition validatePlatformTLS :: "PlatformTLS \<Rightarrow> string \<Rightarrow> string \<Rightarrow> platform_error check" where
  "validatePlatformTLS tls envKey domainKey =
     (if tls_Mode tls = TLSModeSelfSigned then None
      else if tls_Mode tls = TLSModeSecretName then
        fail_if (tls_SecretName tls = []) (TLSSecretNameRequired envKey domainKey)
      else if tls_Mode tls = TLSModeCertManager then
        fail_if (tls_Issuer tls = []) (TLSIssuerRequired envKey domainKey)
      else Some (TLSModeUnsupported envKey domainKey (tls_Mode tls)))"

text \<open>The loop over the domains of one environment, with the default domains seen so far.\<close>

fun check_domains ::
  "string \<Rightarrow> PlatformDomain gomap \<Rightarrow> string list \<Rightarrow> (platform_error, string list) result" where
  "check_domains envKey [] defaults = Inr defaults"
| "check_domains envKey ((domainKey, domain) # ds) defaults =
     (let defaults' = (if pd_Default domain then defaults @ [domainKey] else defaults) in
      if pd_BaseDomain domain = [] then Inl (BaseDomainEmpty envKey domainKey)
      else
        (case (case pd_TLS domain of None \<Rightarrow> None | Some tls \<Rightarrow> validatePlatformTLS tls envKey domainKey) of
           Some e \<Rightarrow> Inl e
         | None \<Rightarrow> check_domains envKey ds defaults'))"

fun check_environments :: "PlatformEnvironment gomap \<Rightarrow> platform_error check" where
  "check_environments [] = None"
| "check_environments ((envKey, env) # envs) =
     (case check_domains envKey (pe_Domains env) [] of
        Inl e \<Rightarrow> Some e
      | Inr defaults \<Rightarrow>
          if length defaults > 1 then Some (SeveralDefaults envKey (sort defaults))
          else check_environments envs)"

text \<open>The keys of all domains and of all storage classes of a platform file.\<close>

definition all_domains :: "PlatformEnvironment gomap \<Rightarrow> string list" where
  "all_domains envs = remdups (concat (map (\<lambda>(_, env). map fst (pe_Domains env)) envs))"

definition all_storage_classes :: "PlatformEnvironment gomap \<Rightarrow> string list" where
  "all_storage_classes envs =
     remdups (concat (map (\<lambda>(_, env). case pe_StorageClasses env of None \<Rightarrow> [] | Some m \<Rightarrow> map fst m) envs))"

fun check_profiles ::
  "string list \<Rightarrow> string list \<Rightarrow> 'q PlatformProfile gomap \<Rightarrow> platform_error check" where
  "check_profiles doms classes [] = None"
| "check_profiles doms classes ((name, p) # ps) =
     (case find (\<lambda>d. d \<notin> set doms) (case pp_AllowedDomains p of None \<Rightarrow> [] | Some ds \<Rightarrow> ds) of
        Some d \<Rightarrow> Some (AllowedDomainUndefined name d (sort doms))
      | None \<Rightarrow>
          if pp_StorageClass p \<noteq> [] \<and> pp_StorageClass p \<notin> set classes
          then Some (ProfileStorageClassUndefined name (pp_StorageClass p) (sort classes))
          else check_profiles doms classes ps)"

definition validatePlatformConsistency :: "'q PlatformConfig \<Rightarrow> platform_error check" where
  "validatePlatformConsistency p =
     (case check_environments (pc_Environments p) of
        Some e \<Rightarrow> Some e
      | None \<Rightarrow>
          check_profiles (all_domains (pc_Environments p)) (all_storage_classes (pc_Environments p))
            (case pc_Profiles p of None \<Rightarrow> [] | Some m \<Rightarrow> m))"

section \<open>Creating and extending the file\<close>

definition LocalPlatformEnvironment :: "string \<Rightarrow> PlatformEnvironment" where
  "LocalPlatformEnvironment ingressIP =
     zero_PlatformEnvironment
       \<lparr>pe_Context := ''kind-deployah'',
        pe_Domains :=
          [(''public'',
            \<lparr>pd_BaseDomain = ingressIP @ ''.nip.io'', pd_Default = False,
             pd_TLS = Some \<lparr>tls_Mode = TLSModeSelfSigned, tls_Issuer = [], tls_SecretName = []\<rparr>\<rparr>)]\<rparr>"

definition new_environment :: "string \<Rightarrow> string \<Rightarrow> PlatformEnvironment" where
  "new_environment ingressIP name =
     (if name = ''local'' then LocalPlatformEnvironment ingressIP else zero_PlatformEnvironment)"

definition newPlatformEnvironments :: "string \<Rightarrow> string list \<Rightarrow> 'q PlatformConfig" where
  "newPlatformEnvironments ingressIP envNames =
     \<lparr>pc_APIVersion = CurrentPlatformVersion, pc_Profiles = None,
      pc_Environments = fold (\<lambda>name. gm_put name (new_environment ingressIP name)) envNames []\<rparr>"

datatype file_status = FileMissing | FilePresent | FileStatError

datatype 'e ensure_error = EnsureStat | EnsureLoad 'e

text \<open>The outcome: created, the added names, and the configuration written, if any.\<close>

type_synonym 'q ensure_outcome = "bool \<times> string list \<times> 'q PlatformConfig option"

definition add_missing ::
  "string \<Rightarrow> string \<Rightarrow> string list \<times> PlatformEnvironment gomap \<Rightarrow> string list \<times> PlatformEnvironment gomap" where
  "add_missing ingressIP name = (\<lambda>(added, envs).
     if gm_has envs name then (added, envs)
     else (added @ [name], gm_put name (new_environment ingressIP name) envs))"

definition ScaffoldPlatformFile ::
  "file_status \<Rightarrow> string \<Rightarrow> string list \<Rightarrow> ('e ensure_error, bool \<times> 'q PlatformConfig option) result" where
  "ScaffoldPlatformFile status ingressIP envNames =
     (case status of
        FilePresent \<Rightarrow> Inr (False, None)
      | FileStatError \<Rightarrow> Inl EnsureStat
      | FileMissing \<Rightarrow>
          if envNames = [] then Inr (False, None)
          else Inr (True, Some (newPlatformEnvironments ingressIP envNames)))"

definition EnsurePlatformEnvironments ::
  "file_status \<Rightarrow> ('e, 'q PlatformConfig) result \<Rightarrow> string \<Rightarrow> string list
     \<Rightarrow> ('e ensure_error, 'q ensure_outcome) result" where
  "EnsurePlatformEnvironments status load ingressIP envNames =
     (if envNames = [] then Inr (False, [], None)
      else
        (case status of
           FileMissing \<Rightarrow> Inr (True, [], Some (newPlatformEnvironments ingressIP envNames))
         | FileStatError \<Rightarrow> Inl EnsureStat
         | FilePresent \<Rightarrow>
             (case load of
                Inl e \<Rightarrow> Inl (EnsureLoad e)
              | Inr platform \<Rightarrow>
                  (let (added, envs) = fold (add_missing ingressIP) envNames ([], pc_Environments platform)
                   in if added = [] then Inr (False, [], None)
                      else Inr (False, added, Some (platform\<lparr>pc_Environments := envs\<rparr>))))))"

definition MissingPlatformEnvironments :: "'q PlatformConfig option \<Rightarrow> string list \<Rightarrow> string list" where
  "MissingPlatformEnvironments platform envNames =
     sort (filter (\<lambda>name. case platform of None \<Rightarrow> True | Some p \<Rightarrow> \<not> gm_has (pc_Environments p) name) envNames)"

section \<open>What a consistent platform file satisfies\<close>

definition tls_ok :: "PlatformTLS \<Rightarrow> bool" where
  "tls_ok tls =
     (tls_Mode tls = TLSModeSelfSigned
      \<or> tls_Mode tls = TLSModeSecretName \<and> tls_SecretName tls \<noteq> []
      \<or> tls_Mode tls = TLSModeCertManager \<and> tls_Issuer tls \<noteq> [])"

definition domain_ok :: "PlatformDomain \<Rightarrow> bool" where
  "domain_ok d = (pd_BaseDomain d \<noteq> [] \<and> (case pd_TLS d of None \<Rightarrow> True | Some tls \<Rightarrow> tls_ok tls))"

definition environment_ok :: "PlatformEnvironment \<Rightarrow> bool" where
  "environment_ok env =
     ((\<forall>(k, d) \<in> set (pe_Domains env). domain_ok d)
      \<and> length (filter (\<lambda>(k, d). pd_Default d) (pe_Domains env)) \<le> 1)"

definition profile_refs_ok :: "PlatformEnvironment gomap \<Rightarrow> 'q PlatformProfile \<Rightarrow> bool" where
  "profile_refs_ok envs p =
     ((\<forall>ds. pp_AllowedDomains p = Some ds \<longrightarrow>
         (\<forall>d \<in> set ds. \<exists>(k, env) \<in> set envs. d \<in> fst ` set (pe_Domains env)))
      \<and> (pp_StorageClass p \<noteq> [] \<longrightarrow>
         (\<exists>(k, env) \<in> set envs. \<exists>m. pe_StorageClasses env = Some m \<and> pp_StorageClass p \<in> fst ` set m)))"

lemma validatePlatformTLS_None: "validatePlatformTLS tls e d = None \<longleftrightarrow> tls_ok tls"
  by (auto simp: validatePlatformTLS_def tls_ok_def enum_defs)

lemma check_domains_Inr:
  "check_domains e ds acc = Inr r \<longleftrightarrow>
     (\<forall>(k, d) \<in> set ds. domain_ok d) \<and> r = acc @ map fst (filter (\<lambda>(k, d). pd_Default d) ds)"
proof (induction e ds acc rule: check_domains.induct)
  case (2 e k d ds acc)
  show ?case
  proof (cases "domain_ok d")
    case True
    then have ok: "pd_BaseDomain d \<noteq> []"
      "(case pd_TLS d of None \<Rightarrow> None | Some tls \<Rightarrow> validatePlatformTLS tls e k) = None"
      by (auto simp: domain_ok_def validatePlatformTLS_None split: option.splits)
    show ?thesis using 2 [OF refl ok] True ok by (auto simp: Let_def)
  next
    case False
    then have "pd_BaseDomain d = [] \<or>
        (\<exists>err. (case pd_TLS d of None \<Rightarrow> None | Some tls \<Rightarrow> validatePlatformTLS tls e k) = Some err)"
      using validatePlatformTLS_None [of _ e k] by (auto simp: domain_ok_def split: option.splits)
    then have "\<nexists>r. check_domains e ((k, d) # ds) acc = Inr r" by (auto simp: Let_def)
    with False show ?thesis by simp
  qed
qed auto

lemma check_environments_None: "check_environments envs = None \<longleftrightarrow> (\<forall>(k, env) \<in> set envs. environment_ok env)"
proof (induction envs rule: check_environments.induct)
  case (2 k env envs)
  show ?case
  proof (cases "check_domains k (pe_Domains env) []")
    case (Inl e)
    then have "\<not> (\<forall>(k, d) \<in> set (pe_Domains env). domain_ok d)"
      by (metis check_domains_Inr sum.distinct(1))
    with Inl show ?thesis by (simp add: environment_ok_def)
  next
    case (Inr r)
    then have r: "\<forall>(k, d) \<in> set (pe_Domains env). domain_ok d"
      "length r = length (filter (\<lambda>(k, d). pd_Default d) (pe_Domains env))"
      by (simp_all add: check_domains_Inr)
    with Inr 2 [of r] show ?thesis by (auto simp: environment_ok_def)
  qed
qed simp

lemma set_all_domains: "d \<in> set (all_domains envs) \<longleftrightarrow> (\<exists>(k, env) \<in> set envs. d \<in> fst ` set (pe_Domains env))"
  by (auto simp: all_domains_def split_def)

lemma set_all_storage_classes:
  "c \<in> set (all_storage_classes envs) \<longleftrightarrow>
     (\<exists>(k, env) \<in> set envs. \<exists>m. pe_StorageClasses env = Some m \<and> c \<in> fst ` set m)"
  by (force simp: all_storage_classes_def split_def split: option.splits)

lemma check_profiles_None:
  "check_profiles (all_domains envs) (all_storage_classes envs) ps = None \<longleftrightarrow>
     (\<forall>(k, p) \<in> set ps. profile_refs_ok envs p)"
proof (induction ps)
  case (Cons kp ps)
  obtain k p where kp: "kp = (k, p)" by (cases kp)
  have dom: "(find (\<lambda>d. d \<notin> set (all_domains envs)) (case pp_AllowedDomains p of None \<Rightarrow> [] | Some ds \<Rightarrow> ds) = None)
      \<longleftrightarrow> (\<forall>ds. pp_AllowedDomains p = Some ds \<longrightarrow>
            (\<forall>d \<in> set ds. \<exists>(k, env) \<in> set envs. d \<in> fst ` set (pe_Domains env)))"
    by (cases "pp_AllowedDomains p") (auto simp: find_None_iff set_all_domains)
  have refs: "profile_refs_ok envs p \<longleftrightarrow>
      find (\<lambda>d. d \<notin> set (all_domains envs)) (case pp_AllowedDomains p of None \<Rightarrow> [] | Some ds \<Rightarrow> ds) = None
      \<and> \<not> (pp_StorageClass p \<noteq> [] \<and> pp_StorageClass p \<notin> set (all_storage_classes envs))"
    unfolding profile_refs_ok_def dom set_all_storage_classes by blast
  show ?case
    using Cons by (auto simp: kp refs split: option.splits)
qed simp

text \<open>
  the consistency check accepts a platform file exactly when every domain has a base
  domain and a TLS block with the field its mode needs, no environment has two default domains,
  and every domain and storage class a profile names exists in some environment. The outcome
  does not depend on the iteration order of the maps.
\<close>

theorem platform_consistency_iff:
  "validatePlatformConsistency p = None \<longleftrightarrow>
     (\<forall>(k, env) \<in> set (pc_Environments p). environment_ok env)
     \<and> (\<forall>m. pc_Profiles p = Some m \<longrightarrow> (\<forall>(k, prof) \<in> set m. profile_refs_ok (pc_Environments p) prof))"
proof (cases "check_environments (pc_Environments p)")
  case None
  then show ?thesis
    using check_environments_None [of "pc_Environments p"]
      check_profiles_None [of "pc_Environments p" "case pc_Profiles p of None \<Rightarrow> [] | Some m \<Rightarrow> m"]
    by (cases "pc_Profiles p") (simp_all add: validatePlatformConsistency_def)
next
  case (Some e)
  then have "\<not> (\<forall>(k, env) \<in> set (pc_Environments p). environment_ok env)"
    using check_environments_None [of "pc_Environments p"] by auto
  with Some show ?thesis by (simp add: validatePlatformConsistency_def)
qed

section \<open>Extending the file\<close>

lemma add_missing_step:
  "add_missing ip n (added, envs) =
     (if gm_has envs n then (added, envs) else (added @ [n], gm_put n (new_environment ip n) envs))"
  by (simp add: add_missing_def)

lemma fold_add_missing:
  assumes "fold (add_missing ip) names (added0, envs0) = (added, envs)"
  shows "gm_get envs k = (case gm_get envs0 k of Some v \<Rightarrow> Some v
           | None \<Rightarrow> if k \<in> set names then Some (new_environment ip k) else None)
         \<and> (\<exists>new. added = added0 @ new \<and> distinct new \<and> set new = {n \<in> set names. gm_get envs0 n = None})"
  using assms
proof (induction names arbitrary: added0 envs0)
  case (Cons n names)
  show ?case
  proof (cases "gm_get envs0 n")
    case None
    then have "fold (add_missing ip) names (added0 @ [n], gm_put n (new_environment ip n) envs0) = (added, envs)"
      using Cons.prems add_missing_step [of ip n added0 envs0] by (simp add: gm_has_def)
    from Cons.IH [OF this] obtain new where
      get: "gm_get envs k = (case gm_get (gm_put n (new_environment ip n) envs0) k of Some v \<Rightarrow> Some v
           | None \<Rightarrow> if k \<in> set names then Some (new_environment ip k) else None)"
      and new: "added = (added0 @ [n]) @ new" "distinct new"
        "set new = {m \<in> set names. gm_get (gm_put n (new_environment ip n) envs0) m = None}"
      by blast
    have "added = added0 @ (n # new) \<and> distinct (n # new) \<and> set (n # new) = {m \<in> set (n # names). gm_get envs0 m = None}"
      using new None by (auto split: if_splits)
    then show ?thesis using get None by (auto split: option.splits if_splits)
  next
    case (Some v)
    then have "fold (add_missing ip) names (added0, envs0) = (added, envs)"
      using Cons.prems add_missing_step [of ip n added0 envs0] by (simp add: gm_has_def)
    from Cons.IH [OF this] Some show ?thesis by (auto split: option.splits if_splits)
  qed
qed (auto split: option.splits)

text \<open>
  extending an existing platform file keeps every environment it has, adds each requested
  environment it lacks exactly once (the local one as a Kind environment, any other empty), and
  changes nothing else; when nothing is missing the file is not written.
\<close>

theorem ensure_platform_preserves:
  assumes "EnsurePlatformEnvironments FilePresent (Inr p) ip names = Inr (created, added, written)"
  shows "\<not> created \<and> distinct added \<and> set added = {n \<in> set names. \<not> gm_has (pc_Environments p) n}
    \<and> (case written of
         None \<Rightarrow> added = []
       | Some p' \<Rightarrow> added \<noteq> [] \<and> pc_Profiles p' = pc_Profiles p \<and> pc_APIVersion p' = pc_APIVersion p
           \<and> (\<forall>k. gm_get (pc_Environments p') k =
                (case gm_get (pc_Environments p) k of
                   Some v \<Rightarrow> Some v
                 | None \<Rightarrow> if k \<in> set names then Some (new_environment ip k) else None)))"
proof (cases "names = []")
  case True
  with assms show ?thesis by (auto simp: EnsurePlatformEnvironments_def)
next
  case False
  obtain ad envs where f: "fold (add_missing ip) names ([], pc_Environments p) = (ad, envs)" by fastforce
  from assms False f have out: "\<not> created" "added = ad"
    "written = (if ad = [] then None else Some (p\<lparr>pc_Environments := envs\<rparr>))"
    by (auto simp: EnsurePlatformEnvironments_def split: if_splits)
  from fold_add_missing [OF f] have "distinct ad" "set ad = {n \<in> set names. gm_get (pc_Environments p) n = None}"
    by auto
  with out show ?thesis
    using fold_add_missing [OF f] by (auto simp: gm_has_def)
qed

lemma new_environment_ok: "environment_ok (new_environment ip n)"
  by (auto simp: new_environment_def LocalPlatformEnvironment_def zero_PlatformEnvironment_def
      environment_ok_def domain_ok_def tls_ok_def)

text \<open>
  a freshly created platform file passes its own consistency check and declares exactly the
  requested environments.
\<close>

theorem new_platform_consistent:
  "validatePlatformConsistency (newPlatformEnvironments ip names :: 'q PlatformConfig) = None
   \<and> MissingPlatformEnvironments (Some (newPlatformEnvironments ip names :: 'q PlatformConfig)) names = []
   \<and> sorted_keys (pc_Environments (newPlatformEnvironments ip names :: 'q PlatformConfig)) = sort (remdups names)"
proof -
  let ?put = "\<lambda>name. gm_put name (new_environment ip name)"
  have ok: "\<forall>(k, env) \<in> set acc. environment_ok env \<Longrightarrow>
      \<forall>(k, env) \<in> set (fold ?put ns acc). environment_ok env" for ns acc
  proof (induction ns arbitrary: acc)
    case (Cons n ns)
    have "\<forall>(k, env) \<in> set (gm_put n (new_environment ip n) acc). environment_ok env"
      using Cons.prems new_environment_ok set_gm_put [of n "new_environment ip n" acc] by fastforce
    with Cons.IH show ?case by simp
  qed simp
  have keys: "fst ` set (fold ?put ns acc) = fst ` set acc \<union> set ns" for ns acc
    by (induction ns arbitrary: acc) (auto simp: keys_put)
  have wf: "gm_wf acc \<Longrightarrow> gm_wf (fold ?put ns acc)" for ns acc
    by (induction ns arbitrary: acc) auto
  let ?p = "newPlatformEnvironments ip names :: 'q PlatformConfig"
  have env: "pc_Environments ?p = fold ?put names []" and prof: "pc_Profiles ?p = None"
    by (simp_all add: newPlatformEnvironments_def)
  have "check_environments (pc_Environments ?p) = None"
    unfolding check_environments_None env using ok [of "[]" names] by simp
  then have "validatePlatformConsistency ?p = None"
    by (simp add: validatePlatformConsistency_def prof)
  moreover have "MissingPlatformEnvironments (Some ?p) names = []"
    using keys [of names "[]"]
    by (auto simp: MissingPlatformEnvironments_def gm_has_keys env filter_empty_conv)
  moreover have "sorted_keys (pc_Environments ?p) = sort (remdups names)"
    using keys [of names "[]"] wf [of "[]" names] unfolding env
    by (intro sorted_distinct_set_unique) (simp_all add: distinct_sorted_keys)
  ultimately show ?thesis by blast
qed

text \<open>An existing file with a hand-written production environment.\<close>

definition ex_platform :: "int PlatformConfig" where
  "ex_platform =
     \<lparr>pc_APIVersion = CurrentPlatformVersion, pc_Profiles = None,
      pc_Environments =
        [(''production'', zero_PlatformEnvironment
           \<lparr>pe_Context := ''prod'',
            pe_Domains := [(''public'', \<lparr>pd_BaseDomain = ''example.com'', pd_Default = True, pd_TLS = None\<rparr>),
                           (''internal'', \<lparr>pd_BaseDomain = ''corp.example.com'', pd_Default = False, pd_TLS = None\<rparr>)]\<rparr>)]\<rparr>"

theorem ensure_platform_preserves_witness:
  "\<exists>created added written.
     EnsurePlatformEnvironments FilePresent (Inr ex_platform :: (unit, _) result) ''127.0.0.1'' [''local'', ''production'']
       = Inr (created, added, written) \<and> set added = {''local''}"
proof -
  have "is_ok (EnsurePlatformEnvironments FilePresent (Inr ex_platform :: (unit, _) result) ''127.0.0.1''
      [''local'', ''production''])" by code_simp
  then obtain created added written where
    r: "EnsurePlatformEnvironments FilePresent (Inr ex_platform :: (unit, _) result) ''127.0.0.1'' [''local'', ''production'']
       = Inr (created, added, written)"
    unfolding is_ok_iff by (metis prod_cases3)
  have "{n \<in> set [''local'', ''production'']. \<not> gm_has (pc_Environments ex_platform) n} = {''local''}"
    by (auto simp: ex_platform_def gm_has_def gm_get_Cons)
  with ensure_platform_preserves [OF r] r show ?thesis by blast
qed

text \<open>The same file with a profile that allows a domain no environment has.\<close>

theorem platform_consistency_iff_witness:
  "validatePlatformConsistency
     (ex_platform\<lparr>pc_Profiles := Some [(''default'', zero_PlatformProfile\<lparr>pp_AllowedDomains := Some [''edge'']\<rparr>)]\<rparr>) \<noteq> None"
proof -
  let ?prof = "zero_PlatformProfile\<lparr>pp_AllowedDomains := Some [''edge'']\<rparr> :: int PlatformProfile"
  have "\<not> profile_refs_ok (pc_Environments ex_platform) ?prof"
    by (simp add: profile_refs_ok_def ex_platform_def)
  then show ?thesis
    using platform_consistency_iff [of "ex_platform\<lparr>pc_Profiles := Some [(''default'', ?prof)]\<rparr>"] by auto
qed

end
