(* ===== verification/Resolve.thy ===== *)
theory Resolve
  imports Tasks Platform
begin

text \<open>
  Resolution of an application spec against the platform file for one environment
  (\<open>internal/spec/resolve.go\<close>, with the result types of \<open>resolved_spec.go\<close>): host names,
  TLS, storage classes, merged profiles and tasks, and the report of where each value came from.

  Warnings, provenance notes and error texts are values with what the texts interpolate; lists
  the texts print through \<open>joinStrings\<close> are sorted, as it sorts them.
\<close>

section \<open>Results\<close>

datatype provenance =
    PlatformContext string
  | PlatformProfilesMerged
  | ApexHost string string bool
  | SubdomainHost "string option" string string bool
  | TLSField string string string
  | StorageClassFrom bool string string
  | SpecTaskOn string

record ResolvedField =
  fld_Component :: string
  fld_Path :: string
  fld_Value :: string
  fld_Source :: provenance

datatype warning =
    StaticWildcardSubdomain string string string
  | SpecEnvironmentUnknown string "string list"
  | ComponentFilterUnknown string string "string list"
  | TaskFilterUnknown string string "string list"
  | DomainMissingIn string string string
  | NoDefaultDomainIn string string "string list"

datatype 'q resolve_error =
    Plain "'q ResolutionError"
  | InComponent string "'q ResolutionError"
  | InTask string "'q ResolutionError"
  | FQDNCollision string string string
  | HookCycle hook_error

record 'q ResolutionReport =
  rep_Env :: EnvIdentity
  rep_Fields :: "ResolvedField list"
  rep_Warnings :: "warning list"
  rep_ErrorCode :: "ErrCode option"
  rep_ErrorMessage :: "'q resolve_error option"

record 'q ResolvedSpec =
  rs_Spec :: "'q Spec"
  rs_Env :: EnvIdentity
  rs_KubeContext :: string
  rs_Components :: "'q ResolvedComponent gomap"
  rs_Tasks :: "'q ResolvedTask gomap"
  rs_Warnings :: "warning list"

definition zero_ResolvedComponent :: "'q ResolvedComponent" where
  "zero_ResolvedComponent =
     \<lparr>rc_FQDN = [], rc_TLSMode = [], rc_TLSIssuer = [], rc_TLSSecretName = [], rc_TLSCertPEM = [],
      rc_TLSKeyPEM = [], rc_StorageClass = [], rc_Profiles = [], rc_MergedProfile = None, rc_DomainKey = []\<rparr>"

text \<open>The code a report gets for the error of a component.\<close>

fun error_code :: "'q resolve_error \<Rightarrow> ErrCode" where
  "error_code (Plain e) = Code e"
| "error_code (InComponent _ e) = Code e"
| "error_code (InTask _ e) = Code e"
| "error_code (FQDNCollision _ _ _) = FQDN_COLLISION"
| "error_code (HookCycle _) = DOMAIN_GAP"

section \<open>Domains\<close>

text \<open>The error is the list of the environment's domain keys: none, or several.\<close>

definition defaultDomainKey :: "PlatformEnvironment \<Rightarrow> (string list, string) result" where
  "defaultDomainKey pe =
     (let ks = sorted_keys (pe_Domains pe) in
      case ks of
        [k] \<Rightarrow> Inr k
      | [] \<Rightarrow> Inl []
      | _ \<Rightarrow>
          (case find (\<lambda>(k, d). pd_Default d) (pe_Domains pe) of
             Some (k, d) \<Rightarrow> Inr k
           | None \<Rightarrow> Inl ks))"

definition unknownEnvironmentNameWarnings :: "'q Spec \<Rightarrow> string list \<Rightarrow> warning list" where
  "unknownEnvironmentNameWarnings s registry =
     (let unknown = \<lambda>name. matchEnvKey name registry = None; available = sort registry in
      map (\<lambda>n. SpecEnvironmentUnknown n available) (filter unknown (EnvironmentNames s))
      @ concat (map (\<lambda>c. map (\<lambda>e. ComponentFilterUnknown c e available)
                  (filter unknown (case gm_get (s_Components s) c of None \<Rightarrow> [] | Some x \<Rightarrow> c_Environments x)))
                (sorted_keys (s_Components s)))
      @ concat (map (\<lambda>t. map (\<lambda>e. TaskFilterUnknown t e available)
                  (filter unknown (case gm_get (s_Tasks s) t of None \<Rightarrow> [] | Some x \<Rightarrow> t_Environments x)))
                (TaskNames s)))"

section \<open>One component\<close>

text \<open>The profiles of a component: their names and their merge, when there are any.\<close>

definition resolve_component_profiles ::
  "'q k8s_lib \<Rightarrow> string \<Rightarrow> 'q Component \<Rightarrow> 'q PlatformConfig option
     \<Rightarrow> ('q resolve_error, string list \<times> 'q PlatformProfile option) result" where
  "resolve_component_profiles L name c platform =
     (let platformProfiles = Option.bind platform pc_Profiles in
      if c_Profiles c \<noteq> None \<and> platform = None then
        Inl (Plain (ResolutionError PLATFORM_NOT_FOUND (ProfilesWithoutPlatform ProfileSubjectComponent name)))
      else
        (case ResolveProfileNames (c_Profiles c) platformProfiles of
           Inl e \<Rightarrow> Inl (InComponent name e)
         | Inr names \<Rightarrow>
             if names = [] then Inr ([], None)
             else
               (case MergeProfiles L names platformProfiles of
                  Inl e \<Rightarrow> Inl (Plain e)
                | Inr merged \<Rightarrow> Inr (names, Some merged))))"

definition validateMergedProfile ::
  "'q k8s_lib \<Rightarrow> string \<Rightarrow> 'q Component \<Rightarrow> 'q PlatformProfile option \<Rightarrow> PlatformEnvironment option \<Rightarrow> string
     \<Rightarrow> 'q ResolutionError check" where
  "validateMergedProfile L name c merged platformEnv domainKey =
     (case merged of
        Some m \<Rightarrow> ValidateProfile L (componentProfileTarget name c) m platformEnv domainKey
      | None \<Rightarrow> fail_if (IsEnabled (c_Metrics c)) (newMonitorLabelsError ProfileSubjectComponent name))"

text \<open>The logical key of the storage class and whether the component itself names it.\<close>

definition storage_class_key :: "'q Component \<Rightarrow> 'q PlatformProfile option \<Rightarrow> string \<times> bool" where
  "storage_class_key c merged =
     (case c_Persistence c of
        Some p \<Rightarrow>
          if p_StorageClass p \<noteq> [] then (p_StorageClass p, True)
          else (case merged of Some m \<Rightarrow> (pp_StorageClass m, False) | None \<Rightarrow> ([], False))
      | None \<Rightarrow> (case merged of Some m \<Rightarrow> (pp_StorageClass m, False) | None \<Rightarrow> ([], False)))"

definition applyResolvedStorageClass ::
  "'q ResolvedComponent \<Rightarrow> ResolvedField list \<Rightarrow> string \<Rightarrow> 'q Component \<Rightarrow> EnvIdentity
     \<Rightarrow> PlatformEnvironment option \<Rightarrow> ('q ResolutionError, 'q ResolvedComponent \<times> ResolvedField list) result" where
  "applyResolvedStorageClass rc flds name c env platformEnv =
     (let (key, own) = storage_class_key c (rc_MergedProfile rc) in
      if key = [] then Inr (rc, flds)
      else
        (case Option.bind platformEnv pe_StorageClasses of
           None \<Rightarrow> Inl (ResolutionError COMPONENT_STORAGE_CLASS_NOT_FOUND (ComponentNoStorageClasses name key own))
         | Some classes \<Rightarrow>
             (case gm_get classes key of
                None \<Rightarrow>
                  Inl (ResolutionError COMPONENT_STORAGE_CLASS_NOT_FOUND
                         (ComponentStorageClassUndefined name key own (sorted_keys classes)))
              | Some sc \<Rightarrow>
                  Inr (rc\<lparr>rc_StorageClass := sc_ClassName sc\<rparr>,
                       flds @ [\<lparr>fld_Component = name, fld_Path = ''storageClass'', fld_Value = sc_ClassName sc,
                                  fld_Source = StorageClassFrom own key (Original env)\<rparr>]))))"

text \<open>The domain of an exposed component: its key, its entry, and whether it was defaulted.\<close>

definition resolve_domain ::
  "string \<Rightarrow> Expose \<Rightarrow> PlatformEnvironment \<Rightarrow> EnvIdentity
     \<Rightarrow> ('q ResolutionError, string \<times> PlatformDomain \<times> bool) result" where
  "resolve_domain name x pe env =
     bindE (if x_Domain x = [] then
              (case defaultDomainKey pe of
                 Inl ks \<Rightarrow> Inl (ResolutionError DOMAIN_GAP (NoDefaultDomain name (Original env) ks))
               | Inr k \<Rightarrow> Inr (k, True))
            else Inr (x_Domain x, False))
       (\<lambda>(key, defaulted).
          case gm_get (pe_Domains pe) key of
            None \<Rightarrow>
              Inl (ResolutionError DOMAIN_GAP
                     (DomainUndefined name key (Original env) (sorted_keys (pe_Domains pe))))
          | Some d \<Rightarrow> Inr (key, d, defaulted))"

text \<open>The host name, with its provenance and the wildcard warning.\<close>

definition resolve_host ::
  "'q k8s_lib \<Rightarrow> string \<Rightarrow> Expose \<Rightarrow> string \<Rightarrow> PlatformDomain \<Rightarrow> bool \<Rightarrow> EnvIdentity \<Rightarrow> bool gomap
     \<Rightarrow> 'q PlatformConfig \<Rightarrow> ('q ResolutionError, string \<times> ResolvedField list \<times> warning list) result" where
  "resolve_host L name x key domain defaulted env dynamic platform =
     (let field = \<lambda>fqdn src. \<lparr>fld_Component = name, fld_Path = ''expose.host'', fld_Value = fqdn, fld_Source = src\<rparr> in
      if x_Apex x then
        (let fqdn = pd_BaseDomain domain; errs = IsDNS1123Subdomain L fqdn in
         if errs \<noteq> [] then Inl (ResolutionError INVALID_DNS (InvalidApex name fqdn errs))
         else Inr (fqdn, [field fqdn (ApexHost (Original env) key defaulted)], []))
      else
        (let subdomain = (case x_Subdomain x of None \<Rightarrow> name | Some s \<Rightarrow> s);
             isDynamic = gm_get_or False dynamic name;
             errs = IsDNS1123Label L subdomain;
             fqdn = subdomain @ ''.'' @ pd_BaseDomain domain;
             errs2 = IsDNS1123Subdomain L fqdn
         in if \<not> isDynamic \<and> errs \<noteq> [] then
              Inl (ResolutionError INVALID_DNS (InvalidSubdomain name subdomain (x_Subdomain x = None) errs))
            else if \<not> isDynamic \<and> errs2 \<noteq> [] then
              Inl (ResolutionError INVALID_DNS (InvalidFQDN name fqdn errs2))
            else
              (let allowStatic =
                     (case matchEnvKey (Original env) (map fst (pc_Environments platform)) of
                        None \<Rightarrow> False
                      | Some k \<Rightarrow>
                          pe_AllowStaticSubdomain (gm_get_or zero_PlatformEnvironment (pc_Environments platform) k))
               in Inr (fqdn, [field fqdn (SubdomainHost (x_Subdomain x) (Original env) key defaulted)],
                       (if MapKey env \<noteq> Original env \<and> \<not> isDynamic \<and> \<not> allowStatic
                        then [StaticWildcardSubdomain name subdomain (Original env)] else [])))))"

definition resolve_tls ::
  "string \<Rightarrow> string \<Rightarrow> PlatformDomain \<Rightarrow> EnvIdentity \<Rightarrow> 'q ResolvedComponent
     \<Rightarrow> 'q ResolvedComponent \<times> ResolvedField list" where
  "resolve_tls name key domain env rc =
     (case pd_TLS domain of
        None \<Rightarrow> (rc, [])
      | Some tls \<Rightarrow>
          (let field = \<lambda>f v. \<lparr>fld_Component = name, fld_Path = ''expose.tls.'' @ f, fld_Value = v,
                              fld_Source = TLSField (Original env) key f\<rparr>;
               rc = rc\<lparr>rc_TLSMode := tls_Mode tls\<rparr>
           in if tls_Mode tls = TLSModeCertManager then
                (rc\<lparr>rc_TLSIssuer := tls_Issuer tls\<rparr>, [field ''mode'' (tls_Mode tls), field ''issuer'' (tls_Issuer tls)])
              else if tls_Mode tls = TLSModeSecretName then
                (rc\<lparr>rc_TLSSecretName := tls_SecretName tls\<rparr>,
                 [field ''mode'' (tls_Mode tls), field ''secretName'' (tls_SecretName tls)])
              else (rc, [field ''mode'' (tls_Mode tls)])))"

text \<open>The profile constraints and the storage class, which every path through a component ends with.\<close>

definition finish_component ::
  "'q k8s_lib \<Rightarrow> string \<Rightarrow> 'q Component \<Rightarrow> PlatformEnvironment option \<Rightarrow> EnvIdentity \<Rightarrow> string
     \<Rightarrow> 'q ResolvedComponent \<Rightarrow> ResolvedField list \<Rightarrow> warning list
     \<Rightarrow> ('q resolve_error, 'q ResolvedComponent \<times> ResolvedField list \<times> warning list) result" where
  "finish_component L name c platformEnv env domainKey rc flds warnings =
     (case validateMergedProfile L name c (rc_MergedProfile rc) platformEnv domainKey of
        Some e \<Rightarrow> Inl (Plain e)
      | None \<Rightarrow>
          (case applyResolvedStorageClass rc flds name c env platformEnv of
             Inl e \<Rightarrow> Inl (Plain e)
           | Inr (rc', flds') \<Rightarrow> Inr (rc', flds', warnings)))"

definition resolveComponent ::
  "'q k8s_lib \<Rightarrow> string \<Rightarrow> 'q Component \<Rightarrow> PlatformEnvironment option \<Rightarrow> EnvIdentity \<Rightarrow> bool gomap
     \<Rightarrow> 'q PlatformConfig option
     \<Rightarrow> ('q resolve_error, 'q ResolvedComponent \<times> ResolvedField list \<times> warning list) result" where
  "resolveComponent L name c platformEnv env dynamic platform =
     bindE (resolve_component_profiles L name c platform) (\<lambda>(names, merged).
       let rc = zero_ResolvedComponent\<lparr>rc_Profiles := names, rc_MergedProfile := merged\<rparr>;
           flds = (if names = [] then []
                     else [\<lparr>fld_Component = name, fld_Path = ''profiles'', fld_Value = str_Join names '', '',
                            fld_Source = PlatformProfilesMerged\<rparr>])
       in case c_Expose c of
            None \<Rightarrow> finish_component L name c platformEnv env [] rc flds []
          | Some x \<Rightarrow>
              (case (platform, platformEnv) of
                 (Some p, Some pe) \<Rightarrow>
                   (case resolve_domain name x pe env of
                      Inl e \<Rightarrow> Inl (Plain e)
                    | Inr (key, domain, defaulted) \<Rightarrow>
                        (case resolve_host L name x key domain defaulted env dynamic p of
                           Inl e \<Rightarrow> Inl (Plain e)
                         | Inr (fqdn, hostFields, warnings) \<Rightarrow>
                             (let (rc', tlsFields) =
                                    resolve_tls name key domain env (rc\<lparr>rc_DomainKey := key, rc_FQDN := fqdn\<rparr>)
                              in finish_component L name c platformEnv env key rc'
                                   (flds @ hostFields @ tlsFields) warnings)))
               | _ \<Rightarrow> Inl (Plain (ResolutionError PLATFORM_NOT_FOUND (ExposeWithoutPlatform name)))))"

section \<open>All components\<close>

definition component_active :: "'q Component \<Rightarrow> string \<Rightarrow> bool" where
  "component_active c env = (c_Environments c = [] \<or> matchEnvKey env (c_Environments c) \<noteq> None)"

record 'q resolve_state =
  st_Components :: "'q ResolvedComponent gomap"
  st_Fields :: "ResolvedField list"
  st_Warnings :: "warning list"
  st_Owners :: "string gomap"

text \<open>
  One iteration of the loop over the sorted component names. An error keeps the fields and
  warnings gathered so far, because the report has them; a collision is found after those of the
  component itself were added.
\<close>

definition resolve_one ::
  "'q k8s_lib \<Rightarrow> 'q Spec \<Rightarrow> 'q PlatformConfig option \<Rightarrow> PlatformEnvironment option \<Rightarrow> EnvIdentity
     \<Rightarrow> bool gomap \<Rightarrow> string \<Rightarrow> 'q resolve_state
     \<Rightarrow> ('q resolve_state \<times> 'q resolve_error, 'q resolve_state) result" where
  "resolve_one L s platform platformEnv env dynamic name st =
     (case gm_get (s_Components s) name of
        None \<Rightarrow> Inr st
      | Some c \<Rightarrow>
          if \<not> component_active c (Original env) then Inr st
          else
            (case resolveComponent L name c platformEnv env dynamic platform of
               Inl e \<Rightarrow> Inl (st, e)
             | Inr (rc, fs, ws) \<Rightarrow>
                 (let st = st\<lparr>st_Warnings := st_Warnings st @ ws, st_Fields := st_Fields st @ fs\<rparr> in
                  if rc_FQDN rc = [] then Inr (st\<lparr>st_Components := gm_put name rc (st_Components st)\<rparr>)
                  else
                    (case gm_get (st_Owners st) (rc_FQDN rc) of
                       Some existing \<Rightarrow> Inl (st, FQDNCollision existing name (rc_FQDN rc))
                     | None \<Rightarrow>
                         Inr (st\<lparr>st_Owners := gm_put (rc_FQDN rc) name (st_Owners st),
                                 st_Components := gm_put name rc (st_Components st)\<rparr>)))))"

fun resolve_components ::
  "'q k8s_lib \<Rightarrow> 'q Spec \<Rightarrow> 'q PlatformConfig option \<Rightarrow> PlatformEnvironment option \<Rightarrow> EnvIdentity
     \<Rightarrow> bool gomap \<Rightarrow> string list \<Rightarrow> 'q resolve_state
     \<Rightarrow> ('q resolve_state \<times> 'q resolve_error, 'q resolve_state) result" where
  "resolve_components L s platform platformEnv env dynamic [] st = Inr st"
| "resolve_components L s platform platformEnv env dynamic (name # names) st =
     (case resolve_one L s platform platformEnv env dynamic name st of
        Inl e \<Rightarrow> Inl e
      | Inr st' \<Rightarrow> resolve_components L s platform platformEnv env dynamic names st')"

section \<open>Tasks\<close>

type_synonym 'q task_state = "'q ResolvedTask gomap \<times> ResolvedField list"

definition resolve_task ::
  "'q k8s_lib \<Rightarrow> 'q Spec \<Rightarrow> EnvIdentity \<Rightarrow> 'q PlatformConfig option \<Rightarrow> PlatformEnvironment option
     \<Rightarrow> int gomap \<Rightarrow> string \<Rightarrow> 'q task_state \<Rightarrow> ('q resolve_error, 'q task_state) result" where
  "resolve_task L s env platform platformEnv weights name st =
     (case MergedTask L s name of
        None \<Rightarrow> Inr st
      | Some t \<Rightarrow>
          if \<not> activeInEnvironment t (Original env) then Inr st
          else if (case t_Profiles t of Some (x # xs) \<Rightarrow> True | _ \<Rightarrow> False) \<and> platform = None then
            Inl (Plain (ResolutionError PLATFORM_NOT_FOUND (ProfilesWithoutPlatform ProfileSubjectTask name)))
          else
            (let profiles = Option.bind platform pc_Profiles;
                 onField = \<lparr>fld_Component = name, fld_Path = ''on'', fld_Value = t_On t, fld_Source = SpecTaskOn name\<rparr>
             in case ResolveProfileNames (t_Profiles t) profiles of
                  Inl e \<Rightarrow> Inl (InTask name e)
                | Inr names \<Rightarrow>
                    (let rt = \<lparr>rt_Task = t, rt_HookWeight = gm_get_or 0 weights name, rt_Profiles = names,
                               rt_MergedProfile = None\<rparr>
                     in if names = [] then Inr (gm_put name rt (fst st), snd st @ [onField])
                        else
                          (case MergeProfiles L names profiles of
                             Inl e \<Rightarrow> Inl (InTask name e)
                           | Inr merged \<Rightarrow>
                               (case ValidateProfile L (taskProfileTarget name t) merged platformEnv [] of
                                  Some e \<Rightarrow> Inl (Plain e)
                                | None \<Rightarrow>
                                    Inr (gm_put name (rt\<lparr>rt_MergedProfile := Some merged\<rparr>) (fst st),
                                         snd st @ [\<lparr>fld_Component = name, fld_Path = ''profiles'',
                                                    fld_Value = str_Join names '', '',
                                                    fld_Source = PlatformProfilesMerged\<rparr>, onField]))))))"

fun resolve_task_loop ::
  "'q k8s_lib \<Rightarrow> 'q Spec \<Rightarrow> EnvIdentity \<Rightarrow> 'q PlatformConfig option \<Rightarrow> PlatformEnvironment option
     \<Rightarrow> int gomap \<Rightarrow> string list \<Rightarrow> 'q task_state \<Rightarrow> ('q task_state \<times> 'q resolve_error, 'q task_state) result" where
  "resolve_task_loop L s env platform platformEnv weights [] st = Inr st"
| "resolve_task_loop L s env platform platformEnv weights (name # names) st =
     (case resolve_task L s env platform platformEnv weights name st of
        Inl e \<Rightarrow> Inl (st, e)
      | Inr st' \<Rightarrow> resolve_task_loop L s env platform platformEnv weights names st')"

text \<open>The resolved tasks and the provenance gathered; an error keeps the provenance.\<close>

definition resolveTasks ::
  "'q k8s_lib \<Rightarrow> 'q Spec \<Rightarrow> EnvIdentity \<Rightarrow> 'q PlatformConfig option \<Rightarrow> PlatformEnvironment option
     \<Rightarrow> ResolvedField list \<Rightarrow> ('q task_state \<times> 'q resolve_error, 'q task_state) result" where
  "resolveTasks L s env platform platformEnv flds =
     (case AssignHookWeights (s_Tasks s) of
        Inl e \<Rightarrow> Inl (([], flds), HookCycle e)
      | Inr weights \<Rightarrow> resolve_task_loop L s env platform platformEnv weights (TaskNames s) ([], flds))"

section \<open>Resolve\<close>

text \<open>
  The environment of the platform file: \<open>Inl\<close> when a platform file exists and does not
  declare the environment, otherwise its key and entry, if any.
\<close>

definition platform_environment ::
  "'q PlatformConfig option \<Rightarrow> EnvIdentity
     \<Rightarrow> ('q ResolutionError, (string \<times> PlatformEnvironment) option) result" where
  "platform_environment platform env =
     (case platform of
        None \<Rightarrow> Inr None
      | Some p \<Rightarrow>
          (let ks = map fst (pc_Environments p) in
           case matchEnvKey (Original env) ks of
             Some k \<Rightarrow> Inr (Some (k, gm_get_or zero_PlatformEnvironment (pc_Environments p) k))
           | None \<Rightarrow>
               if Original env \<noteq> [] then
                 Inl (ResolutionError PLATFORM_ENV_NOT_FOUND (PlatformEnvUnknown (Original env) (sort ks)))
               else Inr None))"

type_synonym 'q resolve_result =
  "('q ResolutionReport \<times> 'q resolve_error, 'q ResolvedSpec \<times> 'q ResolutionReport) result"

definition initial_state ::
  "'q Spec \<Rightarrow> 'q PlatformConfig option \<Rightarrow> (string \<times> PlatformEnvironment) option \<Rightarrow> 'q resolve_state" where
  "initial_state s platform keyed =
     \<lparr>st_Components = [],
      st_Fields = (case keyed of None \<Rightarrow> []
                   | Some (k, pe) \<Rightarrow> [\<lparr>fld_Component = [], fld_Path = ''context'', fld_Value = pe_Context pe,
                                      fld_Source = PlatformContext k\<rparr>]),
      st_Warnings = (case platform of None \<Rightarrow> []
                     | Some p \<Rightarrow> unknownEnvironmentNameWarnings s (map fst (pc_Environments p))),
      st_Owners = []\<rparr>"

definition Resolve ::
  "'q k8s_lib \<Rightarrow> 'q Spec \<Rightarrow> 'q PlatformConfig option \<Rightarrow> EnvIdentity \<Rightarrow> bool gomap \<Rightarrow> 'q resolve_result" where
  "Resolve L s platform env dynamic =
     (let report = \<lambda>fs ws code msg.
            \<lparr>rep_Env = env, rep_Fields = fs, rep_Warnings = ws, rep_ErrorCode = code, rep_ErrorMessage = msg\<rparr>
      in case platform_environment platform env of
           Inl e \<Rightarrow> Inl (report [] [] (Some (Code e)) (Some (Plain e)), Plain e)
         | Inr keyed \<Rightarrow>
             (let platformEnv = map_option snd keyed;
                  context = (case keyed of None \<Rightarrow> [] | Some (k, pe) \<Rightarrow> pe_Context pe)
              in case resolve_components L s platform platformEnv env dynamic (sorted_keys (s_Components s))
                        (initial_state s platform keyed) of
                   Inl (st, e) \<Rightarrow> Inl (report (st_Fields st) (st_Warnings st) (Some (error_code e)) (Some e), e)
                 | Inr st \<Rightarrow>
                     (case resolveTasks L s env platform platformEnv (st_Fields st) of
                        Inl ((ts, fs), e) \<Rightarrow> Inl (report fs (st_Warnings st) None None, e)
                      | Inr (ts, fs) \<Rightarrow>
                          Inr (\<lparr>rs_Spec = s, rs_Env = env, rs_KubeContext = context,
                                rs_Components = st_Components st, rs_Tasks = ts, rs_Warnings = st_Warnings st\<rparr>,
                               report fs (st_Warnings st) None None))))"

definition ResolveForDisplay ::
  "'q k8s_lib \<Rightarrow> 'q Spec \<Rightarrow> 'q PlatformConfig option \<Rightarrow> EnvIdentity \<Rightarrow> bool gomap \<Rightarrow> 'q resolve_result" where
  "ResolveForDisplay L s platform env dynamic =
     (case platform of
        None \<Rightarrow>
          Inr (\<lparr>rs_Spec = s, rs_Env = env, rs_KubeContext = [], rs_Components = [], rs_Tasks = [], rs_Warnings = []\<rparr>,
               \<lparr>rep_Env = env, rep_Fields = [], rep_Warnings = [], rep_ErrorCode = Some PLATFORM_NOT_FOUND,
                rep_ErrorMessage = Some (Plain (ResolutionError PLATFORM_NOT_FOUND PlatformFileMissing))\<rparr>)
      | Some p \<Rightarrow> Resolve L s platform env dynamic)"

definition PlatformEnvContext :: "'q PlatformConfig option \<Rightarrow> string \<Rightarrow> string" where
  "PlatformEnvContext platform envName =
     (case platform of
        None \<Rightarrow> []
      | Some p \<Rightarrow>
          (case matchEnvKey envName (map fst (pc_Environments p)) of
             None \<Rightarrow> []
           | Some k \<Rightarrow> pe_Context (gm_get_or zero_PlatformEnvironment (pc_Environments p) k)))"

section \<open>References without an environment\<close>

datatype problem =
    NoProfilesSectionFor ProfileSubject string
  | UnknownProfile ProfileSubject string string "string list"
  | UnknownDomain string string "string list"

definition profile_problems ::
  "ProfileSubject \<Rightarrow> string \<Rightarrow> string list option \<Rightarrow> 'q PlatformProfile gomap option \<Rightarrow> problem list" where
  "profile_problems subject name wanted profiles =
     (case wanted of
        None \<Rightarrow> []
      | Some ns \<Rightarrow>
          if ns = [] then []
          else
            (case profiles of
               None \<Rightarrow> [NoProfilesSectionFor subject name]
             | Some m \<Rightarrow>
                 map (\<lambda>n. UnknownProfile subject name n (sorted_keys m)) (filter (\<lambda>n. \<not> gm_has m n) ns)))"

definition domain_warnings :: "string \<Rightarrow> 'q Component \<Rightarrow> string \<Rightarrow> PlatformEnvironment gomap \<Rightarrow> warning list" where
  "domain_warnings name c domain envs =
     concat (map (\<lambda>envKey.
        if c_Environments c \<noteq> [] \<and> matchEnvKey envKey (c_Environments c) = None then []
        else
          (let pe = gm_get_or zero_PlatformEnvironment envs envKey in
           if domain \<noteq> [] then
             (if gm_has (pe_Domains pe) domain then [] else [DomainMissingIn name domain envKey])
           else
             (case defaultDomainKey pe of Inl ks \<Rightarrow> [NoDefaultDomainIn name envKey ks] | Inr _ \<Rightarrow> [])))
        (sorted_keys envs))"

definition expose_check ::
  "string \<Rightarrow> 'q Component \<Rightarrow> PlatformEnvironment gomap \<Rightarrow> problem list \<times> warning list" where
  "expose_check name c envs =
     (case c_Expose c of
        None \<Rightarrow> ([], [])
      | Some x \<Rightarrow>
          if str_Contains (x_Domain x) ''${'' then ([], [])
          else if x_Domain x \<noteq> [] \<and> x_Domain x \<notin> set (all_domains envs) then
            ([UnknownDomain name (x_Domain x) (sort (all_domains envs))], [])
          else ([], domain_warnings name c (x_Domain x) envs))"

definition CrossCheckPlatformReferences ::
  "'q Spec option \<Rightarrow> 'q PlatformConfig option \<Rightarrow> problem list \<times> warning list" where
  "CrossCheckPlatformReferences appSpec platform =
     (case (appSpec, platform) of
        (Some s, Some p) \<Rightarrow>
          (let envs = pc_Environments p;
               comps = map (\<lambda>n. (n, gm_get_or zero_Component (s_Components s) n)) (sorted_keys (s_Components s))
           in (concat (map (\<lambda>(n, c). profile_problems ProfileSubjectComponent n (c_Profiles c) (pc_Profiles p)
                                     @ fst (expose_check n c envs)) comps)
               @ concat (map (\<lambda>n. profile_problems ProfileSubjectTask n
                                     (t_Profiles (gm_get_or zero_Task (s_Tasks s) n)) (pc_Profiles p)) (TaskNames s)),
               unknownEnvironmentNameWarnings s (sorted_keys envs)
               @ concat (map (\<lambda>(n, c). snd (expose_check n c envs)) comps)))
      | _ \<Rightarrow> ([], []))"

section \<open>Facts about one component\<close>

lemma applyResolvedStorageClass_ok:
  assumes "applyResolvedStorageClass rc fs name c env pe = Inr (rc', fs')"
  shows "\<exists>sc. rc' = rc\<lparr>rc_StorageClass := sc\<rparr>
    \<and> (let (key, own) = storage_class_key c (rc_MergedProfile rc) in
       if key = [] then rc' = rc
       else \<exists>classes x. Option.bind pe pe_StorageClasses = Some classes \<and> gm_get classes key = Some x
              \<and> sc = sc_ClassName x)"
  using assms
  by (auto simp: applyResolvedStorageClass_def Let_def split: prod.splits if_splits option.splits
      intro: exI [of _ "rc_StorageClass rc"])

lemma finish_component_ok:
  assumes "finish_component L name c pe env d rc fs ws = Inr (rc', fs', ws')"
  shows "validateMergedProfile L name c (rc_MergedProfile rc) pe d = None \<and> ws' = ws
    \<and> (\<exists>sc. rc' = rc\<lparr>rc_StorageClass := sc\<rparr>)"
  using assms applyResolvedStorageClass_ok [of rc fs name c env pe rc' fs']
  by (auto simp: finish_component_def split: option.splits sum.splits)

lemma resolve_tls_keeps:
  "rc_FQDN (fst (resolve_tls name key d env rc)) = rc_FQDN rc"
  "rc_DomainKey (fst (resolve_tls name key d env rc)) = rc_DomainKey rc"
  "rc_Profiles (fst (resolve_tls name key d env rc)) = rc_Profiles rc"
  "rc_MergedProfile (fst (resolve_tls name key d env rc)) = rc_MergedProfile rc"
  by (simp_all add: resolve_tls_def Let_def split: option.split)

text \<open>What the host name of an exposed component is, and when it was checked as a DNS name.\<close>

definition host_of :: "'q k8s_lib \<Rightarrow> string \<Rightarrow> Expose \<Rightarrow> PlatformDomain \<Rightarrow> bool gomap \<Rightarrow> string \<Rightarrow> bool" where
  "host_of L name x d dynamic fqdn =
     (if x_Apex x then fqdn = pd_BaseDomain d \<and> IsDNS1123Subdomain L fqdn = []
      else fqdn = (case x_Subdomain x of None \<Rightarrow> name | Some s \<Rightarrow> s) @ ''.'' @ pd_BaseDomain d
           \<and> (gm_get_or False dynamic name \<or> IsDNS1123Subdomain L fqdn = []))"

lemma resolve_host_ok:
  "resolve_host L name x key d df env dynamic p = Inr (fqdn, fs, ws) \<Longrightarrow> host_of L name x d dynamic fqdn"
  by (auto simp: resolve_host_def host_of_def Let_def split: if_splits)

lemma resolve_domain_ok:
  "resolve_domain name x pe env = Inr (key, d, df) \<Longrightarrow> gm_get (pe_Domains pe) key = Some d \<and> (x_Domain x \<noteq> [] \<longrightarrow> key = x_Domain x)"
  by (auto simp: resolve_domain_def split: if_splits sum.splits option.splits)

lemma resolve_component_profiles_ok:
  assumes "resolve_component_profiles L name c platform = Inr (names, merged)"
  shows "ResolveProfileNames (c_Profiles c) (Option.bind platform pc_Profiles) = Inr names"
    and "if names = [] then merged = None
         else \<exists>m. merged = Some m \<and> MergeProfiles L names (Option.bind platform pc_Profiles) = Inr m"
  using assms by (auto simp: resolve_component_profiles_def Let_def split: if_splits sum.splits)

text \<open>The shape of a resolved component.\<close>

definition component_shape ::
  "'q k8s_lib \<Rightarrow> string \<Rightarrow> 'q Component \<Rightarrow> PlatformEnvironment option \<Rightarrow> bool gomap \<Rightarrow> 'q ResolvedComponent \<Rightarrow> bool" where
  "component_shape L name c platformEnv dynamic rc =
     (case c_Expose c of
        None \<Rightarrow> rc_FQDN rc = [] \<and> rc_DomainKey rc = []
      | Some x \<Rightarrow>
          \<exists>pe d. platformEnv = Some pe \<and> gm_get (pe_Domains pe) (rc_DomainKey rc) = Some d
                 \<and> (x_Domain x \<noteq> [] \<longrightarrow> rc_DomainKey rc = x_Domain x) \<and> host_of L name x d dynamic (rc_FQDN rc))"

lemma resolveComponent_ok:
  fixes L :: "'q k8s_lib"
  assumes "resolveComponent L name c platformEnv env dynamic platform = Inr (rc, fs, ws)"
  shows "component_shape L name c platformEnv dynamic rc"
    and "validateMergedProfile L name c (rc_MergedProfile rc) platformEnv (rc_DomainKey rc) = None"
    and "resolve_component_profiles L name c platform = Inr (rc_Profiles rc, rc_MergedProfile rc)"
proof -
  from assms obtain names merged where prof: "resolve_component_profiles L name c platform = Inr (names, merged)"
    by (auto simp: resolveComponent_def)
  define rc0 where "rc0 = zero_ResolvedComponent\<lparr>rc_Profiles := names, rc_MergedProfile := merged\<rparr>"
  define fs0 where "fs0 = (if names = [] then []
     else [\<lparr>fld_Component = name, fld_Path = ''profiles'', fld_Value = str_Join names '', '',
            fld_Source = PlatformProfilesMerged\<rparr>])"
  have "component_shape L name c platformEnv dynamic rc
      \<and> validateMergedProfile L name c (rc_MergedProfile rc) platformEnv (rc_DomainKey rc) = None
      \<and> rc_Profiles rc = names \<and> rc_MergedProfile rc = merged"
  proof (cases "c_Expose c")
    case None
    then have fin: "finish_component L name c platformEnv env [] rc0 fs0 [] = Inr (rc, fs, ws)"
      using assms prof by (simp add: resolveComponent_def rc0_def fs0_def Let_def)
    from finish_component_ok [OF fin] None show ?thesis
      by (auto simp: component_shape_def rc0_def zero_ResolvedComponent_def)
  next
    case (Some x)
    from assms prof Some obtain p pe where p: "platform = Some p" and pe: "platformEnv = Some pe"
      by (auto simp: resolveComponent_def Let_def split: option.splits)
    from assms prof Some p pe obtain key d df where
      dom: "(resolve_domain name x pe env :: ('q ResolutionError, _) result) = Inr (key, d, df)"
      by (auto simp: resolveComponent_def Let_def split: sum.splits)
    from assms prof Some p pe dom obtain fqdn hf hw where
      host: "resolve_host L name x key d df env dynamic p = Inr (fqdn, hf, hw)"
      by (auto simp: resolveComponent_def Let_def split: sum.splits)
    define rc1 where "rc1 = fst (resolve_tls name key d env (rc0\<lparr>rc_DomainKey := key, rc_FQDN := fqdn\<rparr>))"
    have "\<exists>fs1. finish_component L name c platformEnv env key rc1 fs1 hw = Inr (rc, fs, ws)"
      using assms prof Some p pe dom host
      by (auto simp: resolveComponent_def rc1_def rc0_def Let_def split_def)
    then obtain fs1 where fin: "finish_component L name c platformEnv env key rc1 fs1 hw = Inr (rc, fs, ws)" by blast
    have rc1: "rc_FQDN rc1 = fqdn" "rc_DomainKey rc1 = key" "rc_Profiles rc1 = names" "rc_MergedProfile rc1 = merged"
      by (simp_all add: rc1_def resolve_tls_keeps rc0_def)
    from finish_component_ok [OF fin] rc1 resolve_domain_ok [OF dom] resolve_host_ok [OF host] Some pe show ?thesis
      by (auto simp: component_shape_def)
  qed
  with prof show "component_shape L name c platformEnv dynamic rc"
    "validateMergedProfile L name c (rc_MergedProfile rc) platformEnv (rc_DomainKey rc) = None"
    "resolve_component_profiles L name c platform = Inr (rc_Profiles rc, rc_MergedProfile rc)" by blast+
qed

section \<open>Facts about the loop\<close>

text \<open>
  The invariant of the loop after the names in \<open>done\<close>: the resolved components are the active
  ones among them, each with its own result, and the owner table has exactly their host names.
\<close>

definition loop_inv ::
  "'q k8s_lib \<Rightarrow> 'q Spec \<Rightarrow> 'q PlatformConfig option \<Rightarrow> PlatformEnvironment option \<Rightarrow> EnvIdentity
     \<Rightarrow> bool gomap \<Rightarrow> string set \<Rightarrow> 'q resolve_state \<Rightarrow> bool" where
  "loop_inv L s platform platformEnv env dynamic done_names st =
     ((\<forall>n rc. gm_get (st_Components st) n = Some rc \<longleftrightarrow>
         (n \<in> done_names \<and> (\<exists>c fs ws. gm_get (s_Components s) n = Some c \<and> component_active c (Original env)
            \<and> resolveComponent L n c platformEnv env dynamic platform = Inr (rc, fs, ws))))
      \<and> (\<forall>h n. gm_get (st_Owners st) h = Some n \<longleftrightarrow>
         h \<noteq> [] \<and> (\<exists>rc. gm_get (st_Components st) n = Some rc \<and> rc_FQDN rc = h))
      \<and> gm_wf (st_Components st))"

lemma resolve_one_inv:
  assumes inv: "loop_inv L s platform pe env dynamic D st" and new: "name \<notin> D"
    and ok: "resolve_one L s platform pe env dynamic name st = Inr st'"
  shows "loop_inv L s platform pe env dynamic (insert name D) st'"
proof (cases "\<exists>c. gm_get (s_Components s) name = Some c \<and> component_active c (Original env)")
  case False
  then have "st' = st" using ok by (auto simp: resolve_one_def split: option.splits)
  moreover have "(n \<in> insert name D \<and> (\<exists>c fs ws. gm_get (s_Components s) n = Some c \<and> component_active c (Original env) \<and> P c fs ws))
      \<longleftrightarrow> (n \<in> D \<and> (\<exists>c fs ws. gm_get (s_Components s) n = Some c \<and> component_active c (Original env) \<and> P c fs ws))"
    for n and P :: "'a Component \<Rightarrow> ResolvedField list \<Rightarrow> warning list \<Rightarrow> bool"
    using False by (cases "n = name") auto
  ultimately show ?thesis using inv unfolding loop_inv_def by simp
next
  case True
  then obtain c where c: "gm_get (s_Components s) name = Some c" "component_active c (Original env)" by blast
  from ok c obtain rc fs ws where r: "resolveComponent L name c pe env dynamic platform = Inr (rc, fs, ws)"
    by (auto simp: resolve_one_def split: sum.splits)
  have comps: "st_Components st' = gm_put name rc (st_Components st)"
    and owners: "if rc_FQDN rc = [] then st_Owners st' = st_Owners st
                 else gm_get (st_Owners st) (rc_FQDN rc) = None
                      \<and> st_Owners st' = gm_put (rc_FQDN rc) name (st_Owners st)"
    using ok c r by (auto simp: resolve_one_def Let_def split: if_splits option.splits)
  let ?res = "\<lambda>n rc'. \<exists>c fs ws. gm_get (s_Components s) n = Some c \<and> component_active c (Original env)
        \<and> resolveComponent L n c pe env dynamic platform = Inr (rc', fs, ws)"
  have oldA: "gm_get (st_Components st) n = Some rc' \<longleftrightarrow> n \<in> D \<and> ?res n rc'" for n rc'
    using inv unfolding loop_inv_def by (elim conjE) (erule allE, erule allE, assumption)
  have fresh: "gm_get (st_Components st) name = None"
    using oldA [of name] new by (cases "gm_get (st_Components st) name") auto
  have "?res name rc' \<longleftrightarrow> rc = rc'" for rc' using c r by auto
  then have A: "gm_get (st_Components st') n = Some rc' \<longleftrightarrow> n \<in> insert name D \<and> ?res n rc'" for n rc'
    using oldA [of n rc'] unfolding comps by (cases "n = name") simp_all
  have B: "gm_get (st_Owners st') h = Some n \<longleftrightarrow>
      h \<noteq> [] \<and> (\<exists>rc. gm_get (st_Components st') n = Some rc \<and> rc_FQDN rc = h)" for h n
  proof -
    have old: "gm_get (st_Owners st) h = Some m \<longleftrightarrow>
        h \<noteq> [] \<and> (\<exists>rc. gm_get (st_Components st) m = Some rc \<and> rc_FQDN rc = h)" for h m
      using inv unfolding loop_inv_def by (elim conjE) (erule allE, erule allE, assumption)
    have none: "\<nexists>m. gm_get (st_Owners st) (rc_FQDN rc) = Some m" if "rc_FQDN rc \<noteq> []"
      using owners that by simp
    have get: "gm_get (st_Components st') n = (if n = name then Some rc else gm_get (st_Components st) n)"
      by (simp add: comps)
    have own: "gm_get (st_Owners st') h =
        (if rc_FQDN rc \<noteq> [] \<and> h = rc_FQDN rc then Some name else gm_get (st_Owners st) h)"
      using owners by (simp split: if_splits)
    have "gm_get (st_Owners st) h \<noteq> Some name" using old [of h name] fresh by simp
    then show ?thesis
      unfolding get own using old [of h n] none by (cases "n = name") auto
  qed
  have "gm_wf (st_Components st')" using inv unfolding comps loop_inv_def by simp
  with A B show ?thesis unfolding loop_inv_def by simp
qed

lemma resolve_components_inv:
  assumes "loop_inv L s platform pe env dynamic D st" "distinct names" "set names \<inter> D = {}"
    "resolve_components L s platform pe env dynamic names st = Inr st'"
  shows "loop_inv L s platform pe env dynamic (D \<union> set names) st'"
  using assms
proof (induction names arbitrary: D st)
  case (Cons n names)
  from Cons.prems(4) obtain st1 where one: "resolve_one L s platform pe env dynamic n st = Inr st1"
    and rest: "resolve_components L s platform pe env dynamic names st1 = Inr st'"
    by (auto split: sum.splits)
  have "loop_inv L s platform pe env dynamic (insert n D) st1"
    using resolve_one_inv [OF Cons.prems(1) _ one] Cons.prems by auto
  from Cons.IH [OF this _ _ rest] Cons.prems show ?case by (simp add: insert_commute Un_insert_left)
qed simp

section \<open>Properties\<close>

lemma Resolve_ok:
  assumes "Resolve L s platform env dynamic = Inr (r, rep)"
  shows "\<exists>keyed st fs. platform_environment platform env = Inr keyed
    \<and> resolve_components L s platform (map_option snd keyed) env dynamic (sorted_keys (s_Components s))
        (initial_state s platform keyed) = Inr st
    \<and> rs_Components r = st_Components st
    \<and> resolveTasks L s env platform (map_option snd keyed) (st_Fields st) = Inr (rs_Tasks r, fs)
    \<and> rs_KubeContext r = (case keyed of None \<Rightarrow> [] | Some (k, pe) \<Rightarrow> pe_Context pe)"
  using assms by (auto simp: Resolve_def Let_def split: sum.splits prod.splits)

lemma loop_inv_init: "loop_inv L s p pe env dy {} (initial_state s p keyed)"
  by (simp add: loop_inv_def initial_state_def)

lemma loop_inv_components:
  "loop_inv L s platform pe env dy D st \<Longrightarrow> gm_get (st_Components st) n = Some rc \<longleftrightarrow>
     n \<in> D \<and> (\<exists>c fs ws. gm_get (s_Components s) n = Some c \<and> component_active c (Original env)
        \<and> resolveComponent L n c pe env dy platform = Inr (rc, fs, ws))"
  unfolding loop_inv_def by (elim conjE) (erule allE, erule allE, assumption)

lemma loop_inv_owners:
  "loop_inv L s platform pe env dy D st \<Longrightarrow> gm_get (st_Owners st) h = Some n \<longleftrightarrow>
     h \<noteq> [] \<and> (\<exists>rc. gm_get (st_Components st) n = Some rc \<and> rc_FQDN rc = h)"
  unfolding loop_inv_def by (elim conjE) (erule allE, erule allE, assumption)

lemma Resolve_loop_inv:
  assumes wf: "gm_wf (s_Components s)" and ok: "Resolve L s platform env dynamic = Inr (r, rep)"
  shows "\<exists>keyed st. platform_environment platform env = Inr keyed \<and> rs_Components r = st_Components st
    \<and> loop_inv L s platform (map_option snd keyed) env dynamic (fst ` set (s_Components s)) st"
proof -
  from Resolve_ok [OF ok] obtain keyed st where k: "platform_environment platform env = Inr keyed"
    and run: "resolve_components L s platform (map_option snd keyed) env dynamic (sorted_keys (s_Components s))
        (initial_state s platform keyed) = Inr st"
    and r: "rs_Components r = st_Components st" by blast
  have "loop_inv L s platform (map_option snd keyed) env dynamic ({} \<union> set (sorted_keys (s_Components s))) st"
    by (rule resolve_components_inv [OF loop_inv_init distinct_sorted_keys [OF wf] _ run]) simp
  with k r show ?thesis by (intro exI [of _ keyed] exI [of _ st]) simp
qed

text \<open>
  C24: no two components of a resolved spec share a host name.
\<close>

theorem resolved_hosts_unique:
  assumes wf: "gm_wf (s_Components s)" and ok: "Resolve L s platform env dynamic = Inr (r, rep)"
    and a: "gm_get (rs_Components r) a = Some ra" and b: "gm_get (rs_Components r) b = Some rb"
    and neq: "a \<noteq> b" and host: "rc_FQDN ra \<noteq> []"
  shows "rc_FQDN ra \<noteq> rc_FQDN rb"
proof
  assume same: "rc_FQDN ra = rc_FQDN rb"
  from Resolve_loop_inv [OF wf ok] obtain keyed st where "platform_environment platform env = Inr keyed"
    and st: "rs_Components r = st_Components st"
    and inv: "loop_inv L s platform (map_option snd keyed) env dynamic (fst ` set (s_Components s)) st" by blast
  note own = loop_inv_owners [OF inv]
  have "gm_get (st_Owners st) (rc_FQDN ra) = Some a"
    by (rule own [THEN iffD2]) (use a host in \<open>simp add: st\<close>)
  moreover have "gm_get (st_Owners st) (rc_FQDN ra) = Some b"
    by (rule own [THEN iffD2]) (use b host same in \<open>simp add: st\<close>)
  ultimately show False using neq by simp
qed

text \<open>
  C35: a resolved spec has an entry for exactly the components that are active in the
  environment, and each entry is what resolving that component alone gives.
\<close>

theorem resolved_components_exact:
  assumes wf: "gm_wf (s_Components s)" and ok: "Resolve L s platform env dynamic = Inr (r, rep)"
  shows "\<exists>keyed. platform_environment platform env = Inr keyed \<and>
    (\<forall>n rc. gm_get (rs_Components r) n = Some rc \<longleftrightarrow>
       (\<exists>c fs ws. gm_get (s_Components s) n = Some c \<and> component_active c (Original env)
          \<and> resolveComponent L n c (map_option snd keyed) env dynamic platform = Inr (rc, fs, ws)))"
proof -
  from Resolve_loop_inv [OF wf ok] obtain keyed st where k: "platform_environment platform env = Inr keyed"
    and st: "rs_Components r = st_Components st"
    and inv: "loop_inv L s platform (map_option snd keyed) env dynamic (fst ` set (s_Components s)) st" by blast
  have mem: "n \<in> fst ` set (s_Components s)" if "gm_get (s_Components s) n = Some c" for n c
    using gm_get_None_keys [of "s_Components s" n] that by auto
  show ?thesis
    unfolding st loop_inv_components [OF inv] using k mem by (intro exI [of _ keyed]) auto
qed

lemma resolved_component_parts:
  assumes "gm_wf (s_Components s)" "Resolve L s platform env dynamic = Inr (r, rep)"
    "gm_get (rs_Components r) n = Some rc"
  shows "\<exists>keyed c fs ws. platform_environment platform env = Inr keyed \<and> gm_get (s_Components s) n = Some c
    \<and> resolveComponent L n c (map_option snd keyed) env dynamic platform = Inr (rc, fs, ws)"
proof -
  from Resolve_loop_inv [OF assms(1,2)] obtain keyed st where k: "platform_environment platform env = Inr keyed"
    and st: "rs_Components r = st_Components st"
    and inv: "loop_inv L s platform (map_option snd keyed) env dynamic (fst ` set (s_Components s)) st" by blast
  from assms(3) k show ?thesis unfolding st loop_inv_components [OF inv] by (intro exI [of _ keyed]) blast
qed

lemma validateMergedProfile_checks:
  assumes "validateMergedProfile L name c (Some m) pe d = None"
  shows "check_ceiling L (componentProfileTarget name c) m = None" "check_domain (componentProfileTarget name c) m d = None"
  using assms by (auto simp: validateMergedProfile_def ValidateProfile_def first_error_None)

text \<open>
  C9: platform policy holds for every resolved component. Each profile applied to it admits its
  resource requests and its domain, and when the platform file has a default profile, that
  profile is among them.
\<close>

theorem resolved_component_in_policy:
  assumes laws: "quantity_laws L" and wf: "gm_wf (s_Components s)"
    and ok: "Resolve L s (Some p) env dynamic = Inr (r, rep)"
    and rc: "gm_get (rs_Components r) n = Some rc"
  shows "\<exists>c. gm_get (s_Components s) n = Some c \<and>
    (\<forall>q \<in> set (rc_Profiles rc). \<exists>prof. profile_named (pc_Profiles p) q = Some prof
       \<and> check_ceiling L (componentProfileTarget n c) prof = None
       \<and> check_domain (componentProfileTarget n c) prof (rc_DomainKey rc) = None)
    \<and> ((\<exists>m. pc_Profiles p = Some m \<and> gm_has m DefaultProfileName) \<longrightarrow> DefaultProfileName \<in> set (rc_Profiles rc))"
proof -
  from resolved_component_parts [OF wf ok rc] obtain keyed c fs ws where
    "platform_environment (Some p) env = Inr keyed" and c: "gm_get (s_Components s) n = Some c"
    and res: "resolveComponent L n c (map_option snd keyed) env dynamic (Some p) = Inr (rc, fs, ws)" by blast
  note parts = resolveComponent_ok [OF res]
  note prof = resolve_component_profiles_ok [OF parts(3)]
  have names: "ResolveProfileNames (c_Profiles c) (pc_Profiles p) = Inr (rc_Profiles rc)" using prof(1) by simp
  have "\<exists>prof. profile_named (pc_Profiles p) q = Some prof \<and> check_ceiling L (componentProfileTarget n c) prof = None
       \<and> check_domain (componentProfileTarget n c) prof (rc_DomainKey rc) = None"
    if "q \<in> set (rc_Profiles rc)" for q
  proof -
    from that prof(2) obtain m where m: "rc_MergedProfile rc = Some m"
      "MergeProfiles L (rc_Profiles rc) (pc_Profiles p) = Inr m"
      by (auto split: if_splits)
    note checks = validateMergedProfile_checks [OF parts(2) [unfolded m(1)]]
    with merged_ceiling_iff [OF laws m(2)] merged_domain_iff [OF m(2)] that show ?thesis
      by (metis option.inject)
  qed
  moreover have "DefaultProfileName \<in> set (rc_Profiles rc)"
    if "pc_Profiles p = Some m" "gm_has m DefaultProfileName" for m
    using ResolveProfileNames_default [of "c_Profiles c" m "rc_Profiles rc"] names that by auto
  ultimately show ?thesis using c by blast
qed

text \<open>
  host names. A resolved component without an expose block has no host name; one with it has
  a domain that the environment defines (the one it names, if it names one) and the host name is
  that domain's base domain for an apex, and otherwise the subdomain, or the component's name,
  in front of it. Unless the subdomain was filled in by variable substitution, the host name
  passed the DNS check.
\<close>

theorem resolved_component_shape:
  assumes "gm_wf (s_Components s)" "Resolve L s platform env dynamic = Inr (r, rep)"
    "gm_get (rs_Components r) n = Some rc"
  shows "\<exists>c keyed. gm_get (s_Components s) n = Some c \<and> platform_environment platform env = Inr keyed
    \<and> component_shape L n c (map_option snd keyed) dynamic rc"
proof -
  from resolved_component_parts [OF assms] obtain keyed c fs ws where
    k: "platform_environment platform env = Inr keyed" and c: "gm_get (s_Components s) n = Some c"
    and res: "resolveComponent L n c (map_option snd keyed) env dynamic platform = Inr (rc, fs, ws)" by blast
  from resolveComponent_ok(1) [OF res] k c show ?thesis by blast
qed

lemma mset_eq_short: "mset xs = mset ys \<Longrightarrow> length xs \<le> 1 \<Longrightarrow> xs = ys"
  using mset_eq_length [of xs ys] mset_eq_setD [of xs ys]
  by (cases xs; cases ys) auto

lemma find_hd_filter: "find P xs = (case filter P xs of [] \<Rightarrow> None | x # _ \<Rightarrow> Some x)"
  by (induction xs) auto

lemma at_most_one_default:
  assumes "environment_ok pe" "same_map (pe_Domains pe) ds"
  shows "find (\<lambda>(k, d). pd_Default d) (pe_Domains pe) = find (\<lambda>(k, d). pd_Default d) ds"
proof -
  have "mset (filter (\<lambda>(k, d). pd_Default d) (pe_Domains pe)) = mset (filter (\<lambda>(k, d). pd_Default d) ds)"
    using assms(2) by (simp add: same_map_def)
  then have "filter (\<lambda>(k, d). pd_Default d) (pe_Domains pe) = filter (\<lambda>(k, d). pd_Default d) ds"
    by (rule mset_eq_short) (use assms(1) in \<open>simp add: environment_ok_def\<close>)
  then show ?thesis unfolding find_hd_filter by simp
qed

text \<open>
  the default domain does not depend on the iteration order of the domain map, because a
  platform file that passed its consistency check has at most one default domain per environment.
\<close>

theorem default_domain_deterministic:
  assumes "environment_ok pe" and "same_map (pe_Domains pe) ds"
  shows "defaultDomainKey pe = defaultDomainKey (pe\<lparr>pe_Domains := ds\<rparr>)"
proof -
  have sel: "pe_Domains (pe\<lparr>pe_Domains := ds\<rparr>) = ds" by simp
  have ks: "sorted_keys (pe_Domains pe) = sorted_keys ds" by (rule same_map_sorted_keys [OF assms(2)])
  show ?thesis
    unfolding defaultDomainKey_def Let_def ks at_most_one_default [OF assms] sel by (rule refl)
qed

text \<open>
  errors and the report. When resolution fails before the tasks are reached, the report carries
  the error and its code. When it fails in the tasks, the report has neither: a consumer
  that looks only at the report's code cannot tell the failure from a success.
\<close>

theorem resolve_error_report:
  assumes "Resolve L s platform env dynamic = Inl (rep, e)"
  shows "(rep_ErrorCode rep = Some (error_code e) \<and> rep_ErrorMessage rep = Some e)
    \<or> (rep_ErrorCode rep = None \<and> rep_ErrorMessage rep = None
       \<and> (\<exists>pe flds ts. resolveTasks L s env platform pe flds = Inl (ts, e)))"
  using assms by (auto simp: Resolve_def Let_def split: sum.splits prod.splits)

section \<open>Examples\<close>

definition ex_env :: EnvIdentity where
  "ex_env = \<lparr>Original = ''production'', MapKey = ''production'', K8sSafe = ''production''\<rparr>"

definition ex_expose :: "string option \<Rightarrow> Expose" where
  "ex_expose sub = \<lparr>x_Domain = [], x_Subdomain = sub, x_Apex = False, x_disabled = False\<rparr>"

definition ex_app :: "int Spec" where
  "ex_app = ex_spec\<lparr>s_Tasks := ex_tasks, s_Components :=
     [(''web'', zero_Component\<lparr>c_Role := ComponentRoleService, c_Image := ''web:1'', c_Expose := Some (ex_expose (Some ''www''))\<rparr>),
      (''api'', zero_Component\<lparr>c_Role := ComponentRoleService, c_Image := ''api:1'', c_Expose := Some (ex_expose None)\<rparr>)]\<rparr>"

definition ex_plat :: "int PlatformConfig" where
  "ex_plat = ex_platform\<lparr>pc_Profiles := Some [(''default'', ex_default)]\<rparr>"

definition ex_resolved :: "int ResolvedSpec" where
  "ex_resolved = (case Resolve int_lib ex_app (Some ex_plat) ex_env [] of
     Inr (r, rep) \<Rightarrow> r
   | Inl _ \<Rightarrow> \<lparr>rs_Spec = ex_app, rs_Env = ex_env, rs_KubeContext = [], rs_Components = [], rs_Tasks = [], rs_Warnings = []\<rparr>)"

lemma ex_app_wf: "gm_wf (s_Components ex_app)"
  by (simp add: ex_app_def gm_wf_def)

lemma ex_resolve: "\<exists>rep. Resolve int_lib ex_app (Some ex_plat) ex_env [] = Inr (ex_resolved, rep)"
proof -
  have "is_ok (Resolve int_lib ex_app (Some ex_plat) ex_env [])" by code_simp
  then show ?thesis by (auto simp: is_ok_iff ex_resolved_def)
qed

lemma ex_hosts:
  "map_option rc_FQDN (gm_get (rs_Components ex_resolved) ''web'') = Some ''www.example.com''"
  "map_option rc_FQDN (gm_get (rs_Components ex_resolved) ''api'') = Some ''api.example.com''"
  by code_simp+

theorem resolved_hosts_unique_witness:
  "\<exists>ra rb. gm_get (rs_Components ex_resolved) ''web'' = Some ra \<and> gm_get (rs_Components ex_resolved) ''api'' = Some rb
     \<and> rc_FQDN ra \<noteq> rc_FQDN rb"
proof -
  obtain rep where ok: "Resolve int_lib ex_app (Some ex_plat) ex_env [] = Inr (ex_resolved, rep)" using ex_resolve by blast
  obtain ra rb where r: "gm_get (rs_Components ex_resolved) ''web'' = Some ra" "gm_get (rs_Components ex_resolved) ''api'' = Some rb"
    "rc_FQDN ra = ''www.example.com''" using ex_hosts by auto
  from resolved_hosts_unique [OF ex_app_wf ok r(1,2)] r show ?thesis by auto
qed

theorem resolved_components_exact_witness:
  "\<exists>keyed. platform_environment (Some ex_plat) ex_env = Inr keyed \<and>
     (\<exists>rc fs ws c. resolveComponent int_lib ''api'' c (map_option snd keyed) ex_env [] (Some ex_plat) = Inr (rc, fs, ws))"
proof -
  obtain rep where ok: "Resolve int_lib ex_app (Some ex_plat) ex_env [] = Inr (ex_resolved, rep)" using ex_resolve by blast
  obtain rb where "gm_get (rs_Components ex_resolved) ''api'' = Some rb" using ex_hosts by auto
  with resolved_components_exact [OF ex_app_wf ok] show ?thesis by metis
qed

theorem resolved_component_in_policy_witness:
  "\<exists>rc. gm_get (rs_Components ex_resolved) ''api'' = Some rc \<and> DefaultProfileName \<in> set (rc_Profiles rc)"
proof -
  obtain rep where ok: "Resolve int_lib ex_app (Some ex_plat) ex_env [] = Inr (ex_resolved, rep)" using ex_resolve by blast
  obtain rb where r: "gm_get (rs_Components ex_resolved) ''api'' = Some rb" using ex_hosts by auto
  have "\<exists>m. pc_Profiles ex_plat = Some m \<and> gm_has m DefaultProfileName"
    by (simp add: ex_plat_def gm_has_def gm_get_Cons DefaultProfileName_def)
  with resolved_component_in_policy [OF int_lib_laws(1) ex_app_wf ok r] r show ?thesis by blast
qed

theorem resolved_component_shape_witness:
  "\<exists>rc c keyed. gm_get (rs_Components ex_resolved) ''web'' = Some rc \<and> gm_get (s_Components ex_app) ''web'' = Some c
     \<and> component_shape int_lib ''web'' c (map_option snd (keyed :: (string \<times> PlatformEnvironment) option)) [] rc"
proof -
  obtain rep where ok: "Resolve int_lib ex_app (Some ex_plat) ex_env [] = Inr (ex_resolved, rep)" using ex_resolve by blast
  obtain ra where r: "gm_get (rs_Components ex_resolved) ''web'' = Some ra" using ex_hosts by auto
  from resolved_component_shape [OF ex_app_wf ok r] r show ?thesis by blast
qed

theorem default_domain_deterministic_witness:
  "\<exists>pe. gm_get (pc_Environments ex_platform) ''production'' = Some pe \<and> environment_ok pe
     \<and> defaultDomainKey pe = defaultDomainKey (pe\<lparr>pe_Domains := rev (pe_Domains pe)\<rparr>)"
proof -
  obtain pe where pe: "gm_get (pc_Environments ex_platform) ''production'' = Some pe" "environment_ok pe" "gm_wf (pe_Domains pe)"
    by (simp add: ex_platform_def gm_get_Cons environment_ok_def domain_ok_def gm_wf_def)
  from default_domain_deterministic [OF pe(2) same_map_rev [OF pe(3)]] pe show ?thesis by blast
qed

theorem resolve_error_report_witness:
  "\<exists>rep e. Resolve int_lib (ex_app\<lparr>s_Tasks := ex_cycle\<rparr>) (Some ex_plat) ex_env [] = Inl (rep, e) \<and> rep_ErrorCode rep = None
     \<and> (\<exists>pe flds ts. resolveTasks int_lib (ex_app\<lparr>s_Tasks := ex_cycle\<rparr>) ex_env (Some ex_plat) pe flds = Inl (ts, e))"
proof -
  have "case Resolve int_lib (ex_app\<lparr>s_Tasks := ex_cycle\<rparr>) (Some ex_plat) ex_env [] of
      Inl (rep, e) \<Rightarrow> rep_ErrorCode rep = None | Inr _ \<Rightarrow> False" by code_simp
  then obtain rep e where r: "Resolve int_lib (ex_app\<lparr>s_Tasks := ex_cycle\<rparr>) (Some ex_plat) ex_env [] = Inl (rep, e)"
    "rep_ErrorCode rep = None" by (auto split: sum.splits)
  from resolve_error_report [OF r(1)] r show ?thesis by auto
qed

end
