(* ===== verification/Plan_Diff.thy ===== *)
theory Plan_Diff
  imports Tasks "HOL-Library.Product_Lexorder"
begin

text \<open>
  The plan engine (\<open>internal/plan\<close>: \<open>types.go\<close>, \<open>resource.go\<close>, \<open>normalize.go\<close>, \<open>diff.go\<close>,
  \<open>mask.go\<close>, \<open>history.go\<close>, \<open>build.go\<close>): the resources of two rendered manifests are matched by
  identity, normalised and compared, and the result is a plan of additions, changes and
  removals. The YAML reader and writer and the structural comparison (dyff) are third-party:
  they are the fields of a record \<open>plan_lib\<close> that the operations take as an argument.

  A YAML node is a tree. A node that several aliases share is a copy in each place, so what an
  in-place deletion through one alias does to the others is not modelled.
\<close>

section \<open>Plans\<close>

type_synonym Action = string

definition ActionAdd :: Action where "ActionAdd = ''add''"
definition ActionChange :: Action where "ActionChange = ''change''"
definition ActionDestroy :: Action where "ActionDestroy = ''destroy''"

type_synonym FieldChangeKind = string

definition FieldAdded :: FieldChangeKind where "FieldAdded = ''added''"
definition FieldChanged :: FieldChangeKind where "FieldChanged = ''changed''"
definition FieldRemoved :: FieldChangeKind where "FieldRemoved = ''removed''"

lemmas action_defs = ActionAdd_def ActionChange_def ActionDestroy_def
lemmas field_kind_defs = FieldAdded_def FieldChanged_def FieldRemoved_def

record PathSegment =
  ps_Name :: string
  ps_ListKey :: string
  ps_Idx :: int

record FieldDiff =
  fd_Path :: string
  fd_ChangeKind :: FieldChangeKind
  fd_Old :: string
  fd_New :: string
  fd_Masked :: bool
  fd_Segments :: "PathSegment list"

record Change =
  ch_Action :: Action
  ch_Kind :: string
  ch_APIVersion :: string
  ch_Name :: string
  ch_Namespace :: string
  ch_Fields :: "FieldDiff list"

record Summary =
  su_Add :: int
  su_Change :: int
  su_Destroy :: int

definition Total :: "Summary \<Rightarrow> int" where
  "Total s = su_Add s + su_Change s + su_Destroy s"

datatype plan_warning =
    NoWarning
  | LatestNotSuccessful int string
  | NoSuccessfulRevision int string

record Header =
  h_Project :: string
  h_Environment :: string
  h_Release :: string
  h_Namespace :: string
  h_Context :: string
  h_Revision :: int
  h_FreshInstall :: bool
  h_Warning :: plan_warning

record PlannedTask =
  pt_Name :: string
  pt_On :: string
  pt_Timeout :: string
  pt_HookWeight :: int
  pt_Manual :: bool

record Plan =
  p_Header :: Header
  p_Changes :: "Change list"
  p_Summary :: Summary
  p_HooksChanged :: bool
  p_DriftChecked :: bool
  p_Drift :: "Change list"
  p_DriftIncomplete :: "string list"
  p_Tasks :: "PlannedTask list"

definition zero_Summary :: Summary where
  "zero_Summary = \<lparr>su_Add = 0, su_Change = 0, su_Destroy = 0\<rparr>"

definition zero_Header :: Header where
  "zero_Header = \<lparr>h_Project = [], h_Environment = [], h_Release = [], h_Namespace = [], h_Context = [],
     h_Revision = 0, h_FreshInstall = False, h_Warning = NoWarning\<rparr>"

definition zero_Plan :: Plan where
  "zero_Plan = \<lparr>p_Header = zero_Header, p_Changes = [], p_Summary = zero_Summary, p_HooksChanged = False,
     p_DriftChecked = False, p_Drift = [], p_DriftIncomplete = [], p_Tasks = []\<rparr>"

definition FirstInstallTaskNote :: "Plan option \<Rightarrow> string" where
  "FirstInstallTaskNote p =
     (case p of
        None \<Rightarrow> []
      | Some p \<Rightarrow>
          if \<not> h_FreshInstall (p_Header p) then []
          else if \<exists>t \<in> set (p_Tasks p). pt_On t = TaskOnPreDeploy
          then ''preDeploy runs before other resources on a first install; the database must already be reachable.''
          else [])"

definition HasChanges :: "Plan option \<Rightarrow> bool" where
  "HasChanges p = (case p of None \<Rightarrow> False | Some p \<Rightarrow> p_Changes p \<noteq> [] \<or> p_HooksChanged p)"

section \<open>YAML nodes\<close>

datatype ykind = DocumentNode | SequenceNode | MappingNode | ScalarNode | AliasNode

text \<open>The content of a mapping node lists its keys and values alternately.\<close>

datatype ynode =
  YNode (yKind: ykind) (yTag: string) (yValue: string) (yContent: "ynode list") (yAlias: "ynode option")

definition set_content :: "ynode \<Rightarrow> ynode list \<Rightarrow> ynode" where
  "set_content n c = YNode (yKind n) (yTag n) (yValue n) c (yAlias n)"

fun followAlias :: "ynode \<Rightarrow> ynode" where
  "followAlias (YNode k t v c (Some a)) = (if k = AliasNode then followAlias a else YNode k t v c (Some a))"
| "followAlias (YNode k t v c None) = YNode k t v c None"

text \<open>Updating in place the node an alias stands for.\<close>

fun at_alias :: "(ynode \<Rightarrow> ynode) \<Rightarrow> ynode \<Rightarrow> ynode" where
  "at_alias f (YNode k t v c (Some a)) =
     (if k = AliasNode then YNode k t v c (Some (at_alias f a)) else f (YNode k t v c (Some a)))"
| "at_alias f (YNode k t v c None) = f (YNode k t v c None)"

fun value_in :: "string \<Rightarrow> ynode list \<Rightarrow> ynode option" where
  "value_in key (k # v # rest) = (if yValue (followAlias k) = key then Some (followAlias v) else value_in key rest)"
| "value_in key _ = None"

definition mapValue :: "ynode \<Rightarrow> string \<Rightarrow> ynode option" where
  "mapValue mapping key = value_in key (yContent mapping)"

fun delete_in :: "string \<Rightarrow> ynode list \<Rightarrow> ynode list" where
  "delete_in key (k # v # rest) = (if yValue k = key then rest else k # v # delete_in key rest)"
| "delete_in key xs = xs"

definition deleteMapKey :: "string \<Rightarrow> ynode \<Rightarrow> ynode" where
  "deleteMapKey key mapping = set_content mapping (delete_in key (yContent mapping))"

fun update_in :: "(ynode \<Rightarrow> ynode) \<Rightarrow> string \<Rightarrow> ynode list \<Rightarrow> ynode list" where
  "update_in f key (k # v # rest) =
     (if yValue (followAlias k) = key then k # at_alias f v # rest else k # v # update_in f key rest)"
| "update_in f key xs = xs"

definition at_value :: "(ynode \<Rightarrow> ynode) \<Rightarrow> string \<Rightarrow> ynode \<Rightarrow> ynode" where
  "at_value f key mapping = set_content mapping (update_in f key (yContent mapping))"

section \<open>Normalisation\<close>

definition noiseAnnotations :: "string list" where
  "noiseAnnotations =
     [''meta.helm.sh/release-name'', ''meta.helm.sh/release-namespace'',
      ''kubectl.kubernetes.io/last-applied-configuration'']"

definition noiseMetadataFields :: "string list" where
  "noiseMetadataFields = [''resourceVersion'', ''uid'', ''generation'', ''creationTimestamp'', ''managedFields'']"

definition normalize_annotations :: "ynode \<Rightarrow> ynode" where
  "normalize_annotations annotations = fold deleteMapKey noiseAnnotations annotations"

definition normalize_metadata :: "ynode \<Rightarrow> ynode" where
  "normalize_metadata metadata =
     (let md = fold deleteMapKey noiseMetadataFields metadata in
      case mapValue md ''annotations'' of
        None \<Rightarrow> md
      | Some annotations \<Rightarrow>
          if yKind annotations \<noteq> MappingNode then md
          else
            let md' = at_value normalize_annotations ''annotations'' md in
            if yContent (normalize_annotations annotations) = [] then deleteMapKey ''annotations'' md' else md')"

definition normalize_root :: "ynode \<Rightarrow> ynode" where
  "normalize_root root =
     (if yKind root \<noteq> MappingNode then root
      else
        let r = deleteMapKey ''status'' root in
        case mapValue r ''metadata'' of
          None \<Rightarrow> r
        | Some metadata \<Rightarrow>
            if yKind metadata \<noteq> MappingNode then r
            else at_value normalize_metadata ''metadata'' r)"

definition normalizeResource :: "ynode \<Rightarrow> ynode" where
  "normalizeResource node =
     (if yKind node \<noteq> DocumentNode \<or> length (yContent node) \<noteq> 1 then node
      else set_content node [normalize_root (hd (yContent node))])"

section \<open>Libraries\<close>

record PathElement =
  el_Key :: string
  el_Name :: string
  el_Idx :: int

datatype detail_kind = ADDITION | REMOVAL | MODIFICATION | ORDERCHANGE

record dyff_detail =
  dd_Kind :: detail_kind
  dd_From :: "ynode option"
  dd_To :: "ynode option"

record dyff_diff =
  df_Path :: "PathElement list"
  df_Details :: "dyff_detail list"

record resourceIdentity =
  ri_APIVersion :: string
  ri_Kind :: string
  ri_Name :: string
  ri_Namespace :: string

record 'e plan_lib =
  LoadYAMLDocuments :: "string \<Rightarrow> ('e, ynode list) result"
  DecodeIdentity :: "ynode \<Rightarrow> ('e, resourceIdentity) result"
  CompareInputFiles :: "ynode \<Rightarrow> ynode \<Rightarrow> ('e, dyff_diff list) result"
  ToDotStyle :: "PathElement list \<Rightarrow> string"
  yaml_Marshal :: "ynode \<Rightarrow> ('e, string) result"
  err_Error :: "'e \<Rightarrow> string"

section \<open>Resources of a manifest\<close>

record resourceKey =
  rk_APIVersion :: string
  rk_Kind :: string
  rk_Namespace :: string
  rk_Name :: string

record resourceDoc =
  rd_key :: resourceKey
  rd_node :: ynode

definition resourceKey_String :: "resourceKey \<Rightarrow> string" where
  "resourceKey_String k =
     (if rk_Namespace k = [] then rk_Kind k @ ''/'' @ rk_Name k
      else rk_Kind k @ ''/'' @ rk_Namespace k @ ''/'' @ rk_Name k)"

datatype 'e plan_error =
    ManifestYAML 'e
  | DocumentShape
  | IdentityDecode 'e
  | IdentityMissing
  | ParsingPrevious "'e plan_error"
  | ParsingCurrent "'e plan_error"
  | Diffing string 'e
  | ReencodeResource string 'e
  | RenderManifestsError 'e
  | HistoryError 'e
  | ComputeDiffError "'e plan_error"
  | TasksError hook_error
  | SplitManifest "'e plan_error"

definition isEmptyDocument :: "ynode \<Rightarrow> bool" where
  "isEmptyDocument node =
     (yKind node = DocumentNode \<and> length (yContent node) = 1
      \<and> yKind (hd (yContent node)) = ScalarNode \<and> yTag (hd (yContent node)) = ''!!null'')"

definition resource_of :: "'e plan_lib \<Rightarrow> ynode \<Rightarrow> ('e plan_error, resourceDoc) result" where
  "resource_of L doc =
     (if yKind doc \<noteq> DocumentNode \<or> length (yContent doc) \<noteq> 1 then Inl DocumentShape
      else
        case DecodeIdentity L (hd (yContent doc)) of
          Inl e \<Rightarrow> Inl (IdentityDecode e)
        | Inr i \<Rightarrow>
            if ri_APIVersion i = [] \<or> ri_Kind i = [] \<or> ri_Name i = [] then Inl IdentityMissing
            else Inr \<lparr>rd_key = \<lparr>rk_APIVersion = ri_APIVersion i, rk_Kind = ri_Kind i,
                                 rk_Namespace = ri_Namespace i, rk_Name = ri_Name i\<rparr>,
                      rd_node = doc\<rparr>)"

fun parse_docs :: "'e plan_lib \<Rightarrow> ynode list \<Rightarrow> ('e plan_error, resourceDoc list) result" where
  "parse_docs L [] = Inr []"
| "parse_docs L (doc # docs) =
     (if isEmptyDocument doc then parse_docs L docs
      else bindE (resource_of L doc) (\<lambda>r. bindE (parse_docs L docs) (\<lambda>rs. Inr (r # rs))))"

definition parseResources :: "'e plan_lib \<Rightarrow> string \<Rightarrow> ('e plan_error, resourceDoc list) result" where
  "parseResources L manifest =
     (case LoadYAMLDocuments L manifest of
        Inl e \<Rightarrow> Inl (ManifestYAML e)
      | Inr docs \<Rightarrow> parse_docs L docs)"

definition CountResources :: "'e plan_lib \<Rightarrow> string \<Rightarrow> ('e plan_error, nat) result" where
  "CountResources L manifest = bindE (parseResources L manifest) (\<lambda>docs. Inr (length docs))"

record ResourceYAML =
  ry_Label :: string
  ry_YAML :: string

fun split_docs :: "'e plan_lib \<Rightarrow> resourceDoc list \<Rightarrow> ('e plan_error, ResourceYAML list) result" where
  "split_docs L [] = Inr []"
| "split_docs L (d # ds) =
     (case yaml_Marshal L (hd (yContent (rd_node d))) of
        Inl e \<Rightarrow> Inl (ReencodeResource (resourceKey_String (rd_key d)) e)
      | Inr b \<Rightarrow>
          bindE (split_docs L ds) (\<lambda>out. Inr (\<lparr>ry_Label = resourceKey_String (rd_key d), ry_YAML = b\<rparr> # out)))"

definition SplitResources :: "'e plan_lib \<Rightarrow> string \<Rightarrow> ('e plan_error, ResourceYAML list) result" where
  "SplitResources L manifest = bindE (parseResources L manifest) (split_docs L)"

definition indexResources :: "resourceDoc list \<Rightarrow> (resourceKey \<rightharpoonup> resourceDoc)" where
  "indexResources docs = fold (\<lambda>d m. m(rd_key d \<mapsto> d)) docs Map.empty"

section \<open>Field differences\<close>

definition trim_right :: "char \<Rightarrow> string \<Rightarrow> string" where
  "trim_right c s = rev (dropWhile (\<lambda>x. x = c) (rev s))"

definition nodeToString :: "'e plan_lib \<Rightarrow> ynode option \<Rightarrow> string" where
  "nodeToString L node =
     (case node of
        None \<Rightarrow> []
      | Some n \<Rightarrow>
          if yKind n = ScalarNode then yValue n
          else
            case yaml_Marshal L n of
              Inl e \<Rightarrow> ''<error rendering value: '' @ err_Error L e @ ''>''
            | Inr out \<Rightarrow> trim_right (CHR 0x0A) out)"

definition path_segment :: "PathElement \<Rightarrow> PathSegment" where
  "path_segment el =
     (if el_Key el \<noteq> [] then \<lparr>ps_Name = el_Name el, ps_ListKey = el_Key el, ps_Idx = -1\<rparr>
      else if el_Name el \<noteq> [] then \<lparr>ps_Name = el_Name el, ps_ListKey = [], ps_Idx = -1\<rparr>
      else \<lparr>ps_Name = [], ps_ListKey = [], ps_Idx = el_Idx el\<rparr>)"

definition pathSegments :: "PathElement list \<Rightarrow> PathSegment list" where
  "pathSegments path = map path_segment path"

definition whole_field :: "'e plan_lib \<Rightarrow> FieldChangeKind \<Rightarrow> string \<Rightarrow> PathSegment list \<Rightarrow> ynode option \<Rightarrow> FieldDiff" where
  "whole_field L kind path segments node =
     \<lparr>fd_Path = path, fd_ChangeKind = kind,
      fd_Old = (if kind = FieldAdded then [] else nodeToString L node),
      fd_New = (if kind = FieldAdded then nodeToString L node else []),
      fd_Masked = False, fd_Segments = segments\<rparr>"

definition is_named_entry :: "PathSegment list \<Rightarrow> bool" where
  "is_named_entry segments = (segments \<noteq> [] \<and> ps_ListKey (List.last segments) \<noteq> [])"

fun expandMapDetail ::
  "'e plan_lib \<Rightarrow> FieldChangeKind \<Rightarrow> string \<Rightarrow> PathSegment list \<Rightarrow> ynode \<Rightarrow> FieldDiff list"
and expand_pairs ::
  "'e plan_lib \<Rightarrow> FieldChangeKind \<Rightarrow> string \<Rightarrow> PathSegment list \<Rightarrow> ynode list \<Rightarrow> FieldDiff list" where
  "expandMapDetail L kind path segments (YNode k t v c a) =
     (if is_named_entry segments \<or> k \<noteq> MappingNode then [whole_field L kind path segments (Some (YNode k t v c a))]
      else expand_pairs L kind path segments c)"
| "expand_pairs L kind path segments (key # value # rest) =
     expandMapDetail L kind (path @ ''.'' @ yValue key)
       (segments @ [\<lparr>ps_Name = yValue key, ps_ListKey = [], ps_Idx = -1\<rparr>]) value
     @ expand_pairs L kind path segments rest"
| "expand_pairs L kind path segments _ = []"

definition expand_detail ::
  "'e plan_lib \<Rightarrow> FieldChangeKind \<Rightarrow> string \<Rightarrow> PathSegment list \<Rightarrow> ynode option \<Rightarrow> FieldDiff list" where
  "expand_detail L kind path segments node =
     (case node of
        None \<Rightarrow> [whole_field L kind path segments None]
      | Some n \<Rightarrow> expandMapDetail L kind path segments n)"

definition detail_fields :: "'e plan_lib \<Rightarrow> string \<Rightarrow> PathSegment list \<Rightarrow> dyff_detail \<Rightarrow> FieldDiff list" where
  "detail_fields L path segments d =
     (case dd_Kind d of
        ADDITION \<Rightarrow> expand_detail L FieldAdded path segments (dd_To d)
      | REMOVAL \<Rightarrow> expand_detail L FieldRemoved path segments (dd_From d)
      | MODIFICATION \<Rightarrow>
          [\<lparr>fd_Path = path, fd_ChangeKind = FieldChanged, fd_Old = nodeToString L (dd_From d),
            fd_New = nodeToString L (dd_To d), fd_Masked = False, fd_Segments = segments\<rparr>]
      | ORDERCHANGE \<Rightarrow> [])"

definition diffResource :: "'e plan_lib \<Rightarrow> ynode \<Rightarrow> ynode \<Rightarrow> ('e, FieldDiff list) result" where
  "diffResource L prev cur =
     bindE (CompareInputFiles L prev cur)
       (\<lambda>diffs. Inr (concat (map (\<lambda>d. concat (map (detail_fields L (ToDotStyle L (df_Path d)) (pathSegments (df_Path d)))
                                                (df_Details d))) diffs)))"

section \<open>Comparing two manifests\<close>

definition changeFor :: "Action \<Rightarrow> resourceKey \<Rightarrow> FieldDiff list \<Rightarrow> Change" where
  "changeFor action key fs =
     \<lparr>ch_Action = action, ch_Kind = rk_Kind key, ch_APIVersion = rk_APIVersion key,
      ch_Name = rk_Name key, ch_Namespace = rk_Namespace key, ch_Fields = fs\<rparr>"

definition add_change :: "Change \<Rightarrow> (Summary \<Rightarrow> Summary) \<Rightarrow> Plan \<Rightarrow> Plan" where
  "add_change c f p = p\<lparr>p_Changes := p_Changes p @ [c], p_Summary := f (p_Summary p)\<rparr>"

definition count_add :: "Summary \<Rightarrow> Summary" where "count_add s = s\<lparr>su_Add := su_Add s + 1\<rparr>"
definition count_change :: "Summary \<Rightarrow> Summary" where "count_change s = s\<lparr>su_Change := su_Change s + 1\<rparr>"
definition count_destroy :: "Summary \<Rightarrow> Summary" where "count_destroy s = s\<lparr>su_Destroy := su_Destroy s + 1\<rparr>"

text \<open>The loop over the current resources.\<close>

fun diff_current ::
  "'e plan_lib \<Rightarrow> (resourceKey \<rightharpoonup> resourceDoc) \<Rightarrow> resourceDoc list \<Rightarrow> Plan \<Rightarrow> ('e plan_error, Plan) result" where
  "diff_current L prevByKey [] p = Inr p"
| "diff_current L prevByKey (cd # cds) p =
     (case prevByKey (rd_key cd) of
        None \<Rightarrow> diff_current L prevByKey cds (add_change (changeFor ActionAdd (rd_key cd) []) count_add p)
      | Some pd \<Rightarrow>
          (case diffResource L (rd_node pd) (rd_node cd) of
             Inl e \<Rightarrow> Inl (Diffing (resourceKey_String (rd_key cd)) e)
           | Inr fs \<Rightarrow>
               if fs = [] then diff_current L prevByKey cds p
               else diff_current L prevByKey cds
                      (add_change (changeFor ActionChange (rd_key cd) fs) count_change p)))"

text \<open>The loop over the previous resources that the current manifest does not have.\<close>

fun diff_removed :: "resourceKey set \<Rightarrow> resourceDoc list \<Rightarrow> Plan \<Rightarrow> Plan" where
  "diff_removed seen [] p = p"
| "diff_removed seen (pd # pds) p =
     (if rd_key pd \<in> seen then diff_removed seen pds p
      else diff_removed seen pds (add_change (changeFor ActionDestroy (rd_key pd) []) count_destroy p))"

text \<open>
  The order of the changes: kind, namespace, name. \<open>slices.SortFunc\<close> leaves the order of equal
  elements open; the model keeps it.
\<close>

definition change_order :: "Change \<Rightarrow> string \<times> string \<times> string" where
  "change_order c = (ch_Kind c, ch_Namespace c, ch_Name c)"

definition normalize_doc :: "resourceDoc \<Rightarrow> resourceDoc" where
  "normalize_doc d = d\<lparr>rd_node := normalizeResource (rd_node d)\<rparr>"

definition diff_docs :: "'e plan_lib \<Rightarrow> resourceDoc list \<Rightarrow> resourceDoc list \<Rightarrow> ('e plan_error, Plan) result" where
  "diff_docs L prevDocs currDocs =
     bindE (diff_current L (indexResources prevDocs) currDocs zero_Plan)
       (\<lambda>p. let p' = diff_removed (rd_key ` set currDocs) prevDocs p in
            Inr (p'\<lparr>p_Changes := sort_key change_order (p_Changes p')\<rparr>))"

definition ComputeDiff :: "'e plan_lib \<Rightarrow> string \<Rightarrow> string \<Rightarrow> ('e plan_error, Plan) result" where
  "ComputeDiff L previous current =
     (case parseResources L previous of
        Inl e \<Rightarrow> Inl (ParsingPrevious e)
      | Inr prevDocs \<Rightarrow>
          (case parseResources L current of
             Inl e \<Rightarrow> Inl (ParsingCurrent e)
           | Inr currDocs \<Rightarrow> diff_docs L (map normalize_doc prevDocs) (map normalize_doc currDocs)))"

section \<open>Hooks, release history\<close>

record Hook =
  hk_Name :: string
  hk_Manifest :: string

definition by_name :: "Hook list \<Rightarrow> string gomap" where
  "by_name hooks = fold (\<lambda>h. gm_put (hk_Name h) (hk_Manifest h)) hooks []"

definition HooksChanged :: "Hook list \<Rightarrow> Hook list \<Rightarrow> bool" where
  "HooksChanged previous current =
     (if length previous \<noteq> length current then True
      else
        let prev = by_name previous; cur = by_name current in
        if length prev \<noteq> length cur then True
        else \<exists>(name, manifest) \<in> set prev. gm_get_or [] cur name \<noteq> manifest)"

record Release =
  r_Version :: int
  r_Status :: string
  r_Manifest :: string
  r_Hooks :: "Hook list"

datatype 'e history = HistoryOk "Release list" | HistoryNotFound | HistoryFailed 'e

definition successful :: "Release \<Rightarrow> bool" where
  "successful r = (r_Status r = ''deployed'' \<or> r_Status r = ''superseded'')"

definition LastSuccessfulRelease :: "'e history \<Rightarrow> ('e, Release option \<times> plan_warning) result" where
  "LastSuccessfulRelease h =
     (case h of
        HistoryNotFound \<Rightarrow> Inr (None, NoWarning)
      | HistoryFailed e \<Rightarrow> Inl e
      | HistoryOk history \<Rightarrow>
          let releases = sort_key (\<lambda>r. - r_Version r) history in
          (case releases of
             [] \<Rightarrow> Inr (None, NoWarning)
           | latest # _ \<Rightarrow>
               let warning = (if \<not> successful latest then LatestNotSuccessful (r_Version latest) (r_Status latest)
                              else NoWarning) in
               (case find successful releases of
                  Some rel \<Rightarrow> Inr (Some rel, warning)
                | None \<Rightarrow>
                    Inr (None, if warning = NoWarning
                               then NoSuccessfulRevision (r_Version latest) (r_Status latest) else warning))))"

section \<open>Masking\<close>

definition secretMaskedTopLevelFields :: "string list" where
  "secretMaskedTopLevelFields = [''data'', ''stringData'']"

definition isSecretDataPath :: "string \<Rightarrow> bool" where
  "isSecretDataPath path =
     list_ex (\<lambda>p. path = p \<or> HasPrefix path (p @ ''.'')) secretMaskedTopLevelFields"

definition mask_field :: "FieldDiff \<Rightarrow> FieldDiff" where
  "mask_field f = (if isSecretDataPath (fd_Path f) then f\<lparr>fd_Masked := True\<rparr> else f)"

definition maskSecretFields :: "Change list \<Rightarrow> Change list" where
  "maskSecretFields changes =
     map (\<lambda>c. if ch_Kind c \<noteq> ''Secret'' then c else c\<lparr>ch_Fields := map mask_field (ch_Fields c)\<rparr>) changes"

definition ApplyMasking :: "Plan \<Rightarrow> Plan" where
  "ApplyMasking p = p\<lparr>p_Changes := maskSecretFields (p_Changes p), p_Drift := maskSecretFields (p_Drift p)\<rparr>"

section \<open>Building a plan\<close>

record RenderResult =
  rr_ReleaseName :: string
  rr_Namespace :: string
  rr_ChartPath :: string
  rr_Manifest :: string
  rr_Hooks :: "Hook list"
  rr_IsUpgrade :: bool
  rr_Revision :: int

definition plannedTaskOn :: "TaskOn \<Rightarrow> string" where
  "plannedTaskOn on =
     (if on = TaskOnPreDeploy then TaskOnPreDeploy
      else if on = TaskOnPostDeploy then TaskOnPostDeploy
      else if on = TaskOnManual then TaskOnManual
      else on)"

definition TasksFromSpec ::
  "'q k8s_lib \<Rightarrow> 'q Spec option \<Rightarrow> string \<Rightarrow> 'q ResolvedTask gomap option \<Rightarrow> (hook_error, PlannedTask list) result" where
  "TasksFromSpec K manifest environment resolved =
     bindE (EffectiveTasks K manifest environment resolved)
       (\<lambda>tasks. Inr (concat (map (\<lambda>name.
          case gm_get tasks name of
            None \<Rightarrow> []
          | Some rt \<Rightarrow>
              [\<lparr>pt_Name = name, pt_On = plannedTaskOn (t_On (rt_Task rt)), pt_Timeout = t_Timeout (rt_Task rt),
                pt_HookWeight = rt_HookWeight rt, pt_Manual = (t_On (rt_Task rt) = TaskOnManual)\<rparr>])
          (sorted_keys tasks))))"

text \<open>\<open>rendered\<close> and \<open>history\<close> are what the client's \<open>RenderManifests\<close> and \<open>GetReleaseHistory\<close> return.\<close>

definition BuildPlan ::
  "'e plan_lib \<Rightarrow> 'q k8s_lib \<Rightarrow> ('e, RenderResult) result \<Rightarrow> 'e history \<Rightarrow> 'q Spec \<Rightarrow> string \<Rightarrow> string
     \<Rightarrow> 'q ResolvedTask gomap option \<Rightarrow> ('e plan_error, Plan \<times> RenderResult) result" where
  "BuildPlan L K rendered history manifest environment clusterContext resolved =
     (case rendered of
        Inl e \<Rightarrow> Inl (RenderManifestsError e)
      | Inr res \<Rightarrow>
          (case LastSuccessfulRelease history of
             Inl e \<Rightarrow> Inl (HistoryError e)
           | Inr (prevRelease, warning) \<Rightarrow>
               let previousManifest = (case prevRelease of None \<Rightarrow> [] | Some r \<Rightarrow> r_Manifest r);
                   previousHooks = (case prevRelease of None \<Rightarrow> [] | Some r \<Rightarrow> r_Hooks r);
                   revision = (case prevRelease of None \<Rightarrow> 0 | Some r \<Rightarrow> r_Version r) in
               (case ComputeDiff L previousManifest (rr_Manifest res) of
                  Inl e \<Rightarrow> Inl (ComputeDiffError e)
                | Inr p \<Rightarrow>
                    (case TasksFromSpec K (Some manifest) environment resolved of
                       Inl e \<Rightarrow> Inl (TasksError e)
                     | Inr tasks \<Rightarrow>
                         Inr (p\<lparr>p_HooksChanged := HooksChanged previousHooks (rr_Hooks res),
                                p_Header := \<lparr>h_Project = s_Project manifest, h_Environment = environment,
                                  h_Release = rr_ReleaseName res, h_Namespace = rr_Namespace res,
                                  h_Context = clusterContext, h_Revision = revision,
                                  h_FreshInstall = (prevRelease = None), h_Warning = warning\<rparr>,
                                p_Tasks := tasks\<rparr>, res)))))"

section \<open>What the comparison computes\<close>

lemma change_sel [simp]:
  "ch_Action (changeFor a k fs) = a" "ch_Fields (changeFor a k fs) = fs" "ch_Kind (changeFor a k fs) = rk_Kind k"
  "ch_Name (changeFor a k fs) = rk_Name k" "ch_Namespace (changeFor a k fs) = rk_Namespace k"
  "ch_APIVersion (changeFor a k fs) = rk_APIVersion k"
  by (simp_all add: changeFor_def)

text \<open>The identity of the resource a change is about.\<close>

definition change_key :: "Change \<Rightarrow> resourceKey" where
  "change_key c = \<lparr>rk_APIVersion = ch_APIVersion c, rk_Kind = ch_Kind c, rk_Namespace = ch_Namespace c, rk_Name = ch_Name c\<rparr>"

lemma change_key_changeFor [simp]: "change_key (changeFor a k fs) = k"
  by (simp add: change_key_def)

lemma actions_distinct [simp]:
  "ActionAdd \<noteq> ActionChange" "ActionAdd \<noteq> ActionDestroy" "ActionChange \<noteq> ActionDestroy"
  "ActionChange \<noteq> ActionAdd" "ActionDestroy \<noteq> ActionAdd" "ActionDestroy \<noteq> ActionChange"
  by (simp_all add: action_defs)

definition summary_of :: "Change list \<Rightarrow> Summary" where
  "summary_of cs =
     \<lparr>su_Add = int (length (filter (\<lambda>c. ch_Action c = ActionAdd) cs)),
      su_Change = int (length (filter (\<lambda>c. ch_Action c = ActionChange) cs)),
      su_Destroy = int (length (filter (\<lambda>c. ch_Action c = ActionDestroy) cs))\<rparr>"

lemma summary_of_mset: "mset cs = mset cs' \<Longrightarrow> summary_of cs = summary_of cs'"
  unfolding summary_of_def by (metis mset_filter size_mset)

lemma summary_of_add:
  "summary_of (cs @ [changeFor ActionAdd k fs]) = count_add (summary_of cs)"
  "summary_of (cs @ [changeFor ActionChange k fs]) = count_change (summary_of cs)"
  "summary_of (cs @ [changeFor ActionDestroy k fs]) = count_destroy (summary_of cs)"
  by (simp_all add: summary_of_def count_add_def count_change_def count_destroy_def)

definition summary_ok :: "Plan \<Rightarrow> bool" where
  "summary_ok p = (p_Summary p = summary_of (p_Changes p))"

lemma summary_ok_add:
  "summary_ok p \<Longrightarrow> summary_ok (add_change (changeFor ActionAdd k fs) count_add p)"
  "summary_ok p \<Longrightarrow> summary_ok (add_change (changeFor ActionChange k fs) count_change p)"
  "summary_ok p \<Longrightarrow> summary_ok (add_change (changeFor ActionDestroy k fs) count_destroy p)"
  by (simp_all add: summary_ok_def add_change_def summary_of_add)

lemma index_get:
  "indexResources docs k = (case filter (\<lambda>d. rd_key d = k) docs of [] \<Rightarrow> None | d # ds \<Rightarrow> Some (List.last (d # ds)))"
proof (induction docs rule: rev_induct)
  case Nil
  then show ?case by (simp add: indexResources_def)
next
  case (snoc d docs)
  have "indexResources (docs @ [d]) k = ((indexResources docs)(rd_key d \<mapsto> d)) k"
    by (simp add: indexResources_def)
  with snoc show ?case by (auto split: list.splits)
qed

lemma index_distinct:
  assumes "distinct (map rd_key docs)"
  shows "indexResources docs k = Some d \<longleftrightarrow> d \<in> set docs \<and> rd_key d = k"
proof -
  have "d \<in> set docs \<Longrightarrow> filter (\<lambda>x. rd_key x = rd_key d) docs = [d]" for d
    using assms
  proof (induction docs)
    case (Cons a docs)
    then have fresh: "rd_key a \<noteq> rd_key x" if "x \<in> set docs" for x using that by (metis distinct.simps(2) image_eqI list.simps(9) list.set_map)
    from Cons show ?case by (cases "d = a") (auto simp: filter_empty_conv dest: fresh)
  qed simp
  moreover have "d \<in> set docs \<and> rd_key d = k" if "indexResources docs k = Some d"
  proof -
    from that obtain x xs where "filter (\<lambda>d. rd_key d = k) docs = x # xs" "d = List.last (x # xs)"
      by (auto simp: index_get split: list.splits)
    then have "d \<in> set (filter (\<lambda>d. rd_key d = k) docs)" by (metis last_in_set list.distinct(1))
    then show ?thesis by simp
  qed
  ultimately show ?thesis by (auto simp: index_get)
qed

lemma index_None: "indexResources docs k = None \<longleftrightarrow> k \<notin> rd_key ` set docs"
proof -
  have "(filter (\<lambda>d. rd_key d = k) docs = []) = (k \<notin> rd_key ` set docs)" by (auto simp: filter_empty_conv)
  then show ?thesis by (cases "filter (\<lambda>d. rd_key d = k) docs") (simp_all add: index_get)
qed

text \<open>The changes one current resource contributes.\<close>

definition current_changes :: "'e plan_lib \<Rightarrow> (resourceKey \<rightharpoonup> resourceDoc) \<Rightarrow> resourceDoc \<Rightarrow> Change list" where
  "current_changes L idx cd =
     (case idx (rd_key cd) of
        None \<Rightarrow> [changeFor ActionAdd (rd_key cd) []]
      | Some pd \<Rightarrow>
          (case diffResource L (rd_node pd) (rd_node cd) of
             Inl e \<Rightarrow> []
           | Inr fs \<Rightarrow> if fs = [] then [] else [changeFor ActionChange (rd_key cd) fs]))"

definition comparable :: "'e plan_lib \<Rightarrow> (resourceKey \<rightharpoonup> resourceDoc) \<Rightarrow> resourceDoc \<Rightarrow> bool" where
  "comparable L idx cd =
     (case idx (rd_key cd) of None \<Rightarrow> True | Some pd \<Rightarrow> is_ok (diffResource L (rd_node pd) (rd_node cd)))"

lemma diff_current_ok:
  "diff_current L idx cds p = Inr p' \<Longrightarrow>
     p_Changes p' = p_Changes p @ concat (map (current_changes L idx) cds)
     \<and> (summary_ok p \<longrightarrow> summary_ok p') \<and> list_all (comparable L idx) cds"
proof (induction cds arbitrary: p)
  case (Cons cd cds)
  show ?case
  proof (cases "idx (rd_key cd)")
    case None
    with Cons.prems have "diff_current L idx cds (add_change (changeFor ActionAdd (rd_key cd) []) count_add p) = Inr p'"
      by simp
    from Cons.IH [OF this] None show ?thesis
      by (simp add: current_changes_def comparable_def summary_ok_add) (simp add: add_change_def)
  next
    case (Some pd)
    with Cons.prems obtain fs where fs: "diffResource L (rd_node pd) (rd_node cd) = Inr fs"
      by (auto split: sum.splits)
    show ?thesis
    proof (cases "fs = []")
      case True
      with Some fs Cons.prems Cons.IH [of p] show ?thesis by (simp add: current_changes_def comparable_def)
    next
      case False
      with Some fs Cons.prems
      have "diff_current L idx cds (add_change (changeFor ActionChange (rd_key cd) fs) count_change p) = Inr p'" by simp
      from Cons.IH [OF this] Some fs False show ?thesis
        by (simp add: current_changes_def comparable_def summary_ok_add) (simp add: add_change_def)
    qed
  qed
qed simp

lemma diff_current_total:
  "list_all (comparable L idx) cds \<Longrightarrow> is_ok (diff_current L idx cds p)"
  by (induction cds arbitrary: p) (auto simp: comparable_def is_ok_iff split: option.splits sum.splits)

lemma diff_removed_changes:
  "p_Changes (diff_removed seen pds p)
     = p_Changes p @ map (\<lambda>d. changeFor ActionDestroy (rd_key d) []) (filter (\<lambda>d. rd_key d \<notin> seen) pds)"
  by (induction pds arbitrary: p) (auto simp: add_change_def)

lemma diff_removed_summary: "summary_ok p \<Longrightarrow> summary_ok (diff_removed seen pds p)"
  by (induction pds arbitrary: p) (auto simp: summary_ok_add)

lemma summary_ok_sort: "summary_ok p \<Longrightarrow> summary_ok (p\<lparr>p_Changes := sort_key f (p_Changes p)\<rparr>)"
  by (simp add: summary_ok_def) (metis mset_sort summary_of_mset)

lemma summary_ok_zero [simp]: "summary_ok zero_Plan"
  by (simp add: summary_ok_def zero_Plan_def summary_of_def zero_Summary_def)

text \<open>All changes between two lists of resources, unsorted.\<close>

definition all_changes :: "'e plan_lib \<Rightarrow> resourceDoc list \<Rightarrow> resourceDoc list \<Rightarrow> Change list" where
  "all_changes L prev cur =
     concat (map (current_changes L (indexResources prev)) cur)
     @ map (\<lambda>d. changeFor ActionDestroy (rd_key d) []) (filter (\<lambda>d. rd_key d \<notin> rd_key ` set cur) prev)"

lemma diff_docs_ok:
  assumes "diff_docs L prev cur = Inr p"
  shows "p_Changes p = sort_key change_order (all_changes L prev cur)"
    and "p_Summary p = summary_of (p_Changes p)"
    and "list_all (comparable L (indexResources prev)) cur"
proof -
  from assms obtain q where q: "diff_current L (indexResources prev) cur zero_Plan = Inr q"
    and p: "p = (let p' = diff_removed (rd_key ` set cur) prev q in p'\<lparr>p_Changes := sort_key change_order (p_Changes p')\<rparr>)"
    by (auto simp: diff_docs_def)
  note ok = diff_current_ok [OF q]
  from ok show "list_all (comparable L (indexResources prev)) cur" by simp
  from ok show "p_Changes p = sort_key change_order (all_changes L prev cur)"
    by (simp add: p Let_def diff_removed_changes all_changes_def zero_Plan_def)
  from ok have "summary_ok p"
    unfolding p Let_def by (intro summary_ok_sort diff_removed_summary) simp
  then show "p_Summary p = summary_of (p_Changes p)" by (simp add: summary_ok_def)
qed

lemma diff_docs_total:
  "list_all (comparable L (indexResources prev)) cur \<Longrightarrow> is_ok (diff_docs L prev cur)"
  using diff_current_total [of L "indexResources prev" cur zero_Plan]
  by (auto simp: diff_docs_def is_ok_iff Let_def)

lemma set_current_changes:
  assumes "distinct (map rd_key prev)"
  shows "set (current_changes L (indexResources prev) cd) =
     {c. rd_key cd \<notin> rd_key ` set prev \<and> c = changeFor ActionAdd (rd_key cd) []}
     \<union> {c. \<exists>pd \<in> set prev. \<exists>fs. rd_key pd = rd_key cd \<and> diffResource L (rd_node pd) (rd_node cd) = Inr fs
            \<and> fs \<noteq> [] \<and> c = changeFor ActionChange (rd_key cd) fs}"
proof (cases "indexResources prev (rd_key cd)")
  case None
  then have "rd_key cd \<notin> rd_key ` set prev" by (simp add: index_None)
  moreover from this have "rd_key pd \<noteq> rd_key cd" if "pd \<in> set prev" for pd using that by (metis image_eqI)
  ultimately show ?thesis using None by (auto simp: current_changes_def)
next
  case (Some pd)
  then have pd: "pd \<in> set prev" "rd_key pd = rd_key cd" using index_distinct [OF assms] by auto
  have only: "q = pd" if "q \<in> set prev" "rd_key q = rd_key cd" for q
    using that pd index_distinct [OF assms, of "rd_key cd" q] Some by simp
  have inp: "rd_key cd \<in> rd_key ` set prev" using pd by (metis image_eqI)
  have bex: "(\<exists>q \<in> set prev. \<exists>fs. rd_key q = rd_key cd \<and> P q fs) = (\<exists>fs. P pd fs)" for P :: "resourceDoc \<Rightarrow> FieldDiff list \<Rightarrow> bool"
    using pd only by blast
  show ?thesis unfolding bex
    by (cases "diffResource L (rd_node pd) (rd_node cd)") (auto simp: current_changes_def Some inp)
qed

lemma keys_current_changes: "set (map change_key (current_changes L idx cd)) \<subseteq> {rd_key cd}"
  by (auto simp: current_changes_def split: option.splits sum.splits if_splits)

lemma distinct_current_changes: "distinct (map change_key (current_changes L idx cd))"
  by (auto simp: current_changes_def split: option.splits sum.splits if_splits)

lemma keys_all_current:
  "set (map change_key (concat (map (current_changes L idx) cds))) \<subseteq> rd_key ` set cds"
  using keys_current_changes [of L idx] by fastforce

lemma distinct_all_current:
  "distinct (map rd_key cds) \<Longrightarrow> distinct (map change_key (concat (map (current_changes L idx) cds)))"
proof (induction cds)
  case (Cons cd cds)
  have disj: "A \<inter> B = {}" if "A \<subseteq> {rd_key cd}" "B \<subseteq> rd_key ` set cds" for A B
    using that Cons.prems by auto
  have "distinct (map change_key (current_changes L idx cd) @ map change_key (concat (map (current_changes L idx) cds)))"
    unfolding distinct_append
    using disj [OF keys_current_changes keys_all_current] Cons distinct_current_changes [of L idx cd] by simp
  then show ?case by simp
qed simp

lemma distinct_all_changes:
  assumes "distinct (map rd_key prev)" "distinct (map rd_key cur)"
  shows "distinct (map change_key (all_changes L prev cur))"
proof -
  let ?rem = "filter (\<lambda>d. rd_key d \<notin> rd_key ` set cur) prev"
  have "distinct (map rd_key ?rem)" using assms(1) by (rule distinct_map_filter)
  moreover have "map change_key (map (\<lambda>d. changeFor ActionDestroy (rd_key d) []) ?rem) = map rd_key ?rem" by simp
  moreover have "set (map rd_key ?rem) \<inter> rd_key ` set cur = {}" by auto
  ultimately show ?thesis
    unfolding all_changes_def map_append distinct_append
    using distinct_all_current [OF assms(2), of L "indexResources prev"]
      keys_all_current [of L "indexResources prev" cur] by (metis inf_commute inf_mono order_refl subset_empty)
qed

text \<open>What two lists of resources with unique identities differ in.\<close>

definition expected_changes :: "'e plan_lib \<Rightarrow> resourceDoc list \<Rightarrow> resourceDoc list \<Rightarrow> Change set" where
  "expected_changes L prev cur =
     {changeFor ActionAdd (rd_key c) [] |c. c \<in> set cur \<and> rd_key c \<notin> rd_key ` set prev}
     \<union> {changeFor ActionChange (rd_key c) fs |c q fs. c \<in> set cur \<and> q \<in> set prev \<and> rd_key q = rd_key c
          \<and> diffResource L (normalizeResource (rd_node q)) (normalizeResource (rd_node c)) = Inr fs \<and> fs \<noteq> []}
     \<union> {changeFor ActionDestroy (rd_key q) [] |q. q \<in> set prev \<and> rd_key q \<notin> rd_key ` set cur}"

lemma normalize_doc_sel [simp]:
  "rd_key (normalize_doc d) = rd_key d" "rd_node (normalize_doc d) = normalizeResource (rd_node d)"
  by (simp_all add: normalize_doc_def)

lemma keys_normalize_docs [simp]: "map rd_key (map normalize_doc ds) = map rd_key ds"
  by simp

lemma set_concat_map: "set (concat (map f xs)) = (\<Union>x \<in> set xs. set (f x))"
  by simp

lemma set_all_changes:
  assumes "distinct (map rd_key prev)"
  shows "set (all_changes L (map normalize_doc prev) (map normalize_doc cur)) = expected_changes L prev cur"
proof -
  have d: "distinct (map rd_key (map normalize_doc prev))" using assms by (simp add: comp_def)
  have keys: "rd_key ` set (map normalize_doc ds) = rd_key ` set ds" for ds
    by (simp add: image_image)
  show ?thesis
    unfolding all_changes_def expected_changes_def set_append set_concat_map set_current_changes [OF d] keys UN_Un_distrib
  proof (intro arg_cong2 [where f = "(\<union>)"])
    show "(\<Union>x \<in> set (map normalize_doc cur). {c. rd_key x \<notin> rd_key ` set prev \<and> c = changeFor ActionAdd (rd_key x) []})
        = {changeFor ActionAdd (rd_key c) [] |c. c \<in> set cur \<and> rd_key c \<notin> rd_key ` set prev}"
      by auto
    show "set (map (\<lambda>d. changeFor ActionDestroy (rd_key d) []) (filter (\<lambda>d. rd_key d \<notin> rd_key ` set cur) (map normalize_doc prev)))
        = {changeFor ActionDestroy (rd_key q) [] |q. q \<in> set prev \<and> rd_key q \<notin> rd_key ` set cur}"
      by (simp add: filter_map comp_def) (simp add: setcompr_eq_image)
  qed auto
qed

lemma Total_summary_of:
  "\<forall>c \<in> set cs. ch_Action c \<in> {ActionAdd, ActionChange, ActionDestroy} \<Longrightarrow> Total (summary_of cs) = int (length cs)"
  by (induction cs) (auto simp: Total_def summary_of_def)

lemma ComputeDiff_docs:
  assumes "parseResources L previous = Inr prev" "parseResources L current = Inr cur"
  shows "ComputeDiff L previous current = diff_docs L (map normalize_doc prev) (map normalize_doc cur)"
  using assms by (simp add: ComputeDiff_def)

text \<open>
  C21: the changes of a plan are exactly the differences between the two manifests. With unique
  resource identities, a resource only in the current manifest is added, one only in the
  previous manifest is destroyed, one in both is changed iff its normalised documents differ
  in some field, no change is reported twice, the changes are ordered by kind, namespace and
  name, and the summary counts them by action.
\<close>

theorem compute_diff_exact:
  assumes "parseResources L previous = Inr prev" and "parseResources L current = Inr cur"
    and "distinct (map rd_key prev)" and "distinct (map rd_key cur)"
    and "ComputeDiff L previous current = Inr p"
  shows "set (p_Changes p) = expected_changes L prev cur \<and> distinct (map change_key (p_Changes p))
    \<and> sorted (map change_order (p_Changes p)) \<and> p_Summary p = summary_of (p_Changes p)
    \<and> Total (p_Summary p) = int (length (p_Changes p))"
proof -
  let ?all = "all_changes L (map normalize_doc prev) (map normalize_doc cur)"
  have p: "diff_docs L (map normalize_doc prev) (map normalize_doc cur) = Inr p"
    using assms(5) by (simp add: ComputeDiff_docs [OF assms(1,2)])
  note ch = diff_docs_ok(1) [OF p] and su = diff_docs_ok(2) [OF p]
  have "set (p_Changes p) = expected_changes L prev cur"
    unfolding ch set_sort set_all_changes [OF assms(3)] ..
  moreover have "distinct (map change_key ?all)"
    using assms(3,4) by (intro distinct_all_changes) (simp_all add: comp_def)
  then have "distinct (map change_key (p_Changes p))"
    unfolding ch by (metis distinct_map distinct_sort set_sort)
  moreover have "sorted (map change_order (p_Changes p))" unfolding ch by (rule sorted_sort_key)
  moreover have "\<forall>c \<in> set (p_Changes p). ch_Action c \<in> {ActionAdd, ActionChange, ActionDestroy}"
    unfolding \<open>set (p_Changes p) = _\<close> expected_changes_def by auto
  then have "Total (summary_of (p_Changes p)) = int (length (p_Changes p))" by (rule Total_summary_of)
  ultimately show ?thesis using su by simp
qed

section \<open>What normalisation removes\<close>

fun ykeys :: "ynode list \<Rightarrow> ynode list" where
  "ykeys (k # v # rest) = k # ykeys rest"
| "ykeys _ = []"

text \<open>A mapping with unique keys, none of them an alias.\<close>

definition plain_map :: "ynode \<Rightarrow> bool" where
  "plain_map n = (distinct (map yValue (ykeys (yContent n))) \<and> (\<forall>k \<in> set (ykeys (yContent n)). yKind k \<noteq> AliasNode))"

fun ylookup :: "ynode \<Rightarrow> string list \<Rightarrow> ynode option" where
  "ylookup n [] = Some n"
| "ylookup n (k # ks) =
     (if yKind n = MappingNode then (case mapValue n k of None \<Rightarrow> None | Some v \<Rightarrow> ylookup v ks) else None)"

lemma followAlias_id [simp]: "yKind n \<noteq> AliasNode \<Longrightarrow> followAlias n = n"
  by (cases n rule: followAlias.cases) auto

lemma followAlias_at_alias: "yKind (f (followAlias v)) \<noteq> AliasNode \<Longrightarrow> followAlias (at_alias f v) = f (followAlias v)"
  by (induction v rule: followAlias.induct) (auto split: if_splits)

lemma set_content_sel [simp]:
  "yKind (set_content n c) = yKind n" "yContent (set_content n c) = c"
  by (simp_all add: set_content_def)

lemma yKind_delete [simp]: "yKind (deleteMapKey k n) = yKind n" "yKind (at_value f k n) = yKind n"
  by (simp_all add: deleteMapKey_def at_value_def)

lemma ykeys_delete_subset: "set (ykeys (delete_in key c)) \<subseteq> set (ykeys c)"
  by (induction key c rule: delete_in.induct) auto

lemma ykeys_delete_distinct: "distinct (map yValue (ykeys c)) \<Longrightarrow> distinct (map yValue (ykeys (delete_in key c)))"
  by (induction key c rule: delete_in.induct) (use ykeys_delete_subset in fastforce)+

lemma ykeys_update [simp]: "ykeys (update_in f key c) = ykeys c"
  by (induction f key c rule: update_in.induct) auto

lemma plain_delete [simp]: "plain_map n \<Longrightarrow> plain_map (deleteMapKey key n)"
  using ykeys_delete_subset [of key "yContent n"]
  by (auto simp: plain_map_def deleteMapKey_def ykeys_delete_distinct)

lemma plain_at_value [simp]: "plain_map (at_value f key n) = plain_map n"
  by (simp add: plain_map_def at_value_def)

lemma value_in_absent: "\<forall>k \<in> set (ykeys c). yKind k \<noteq> AliasNode \<Longrightarrow> key \<notin> yValue ` set (ykeys c) \<Longrightarrow> value_in key c = None"
  by (induction key c rule: value_in.induct) auto

lemma value_in_delete:
  "distinct (map yValue (ykeys c)) \<Longrightarrow> \<forall>k \<in> set (ykeys c). yKind k \<noteq> AliasNode \<Longrightarrow>
     value_in key (delete_in k c) = (if key = k then None else value_in key c)"
  by (induction k c rule: delete_in.induct) (auto simp: value_in_absent)

lemma mapValue_delete [simp]:
  "plain_map n \<Longrightarrow> mapValue (deleteMapKey k n) key = (if key = k then None else mapValue n key)"
  by (simp add: plain_map_def mapValue_def deleteMapKey_def value_in_delete)

lemma fold_delete:
  "plain_map n \<Longrightarrow> plain_map (fold deleteMapKey ks n) \<and> yKind (fold deleteMapKey ks n) = yKind n
     \<and> mapValue (fold deleteMapKey ks n) key = (if key \<in> set ks then None else mapValue n key)"
  by (induction ks arbitrary: n) auto

lemma value_in_update:
  "(\<And>v. value_in key c = Some v \<Longrightarrow> yKind (f v) \<noteq> AliasNode) \<Longrightarrow>
     value_in key' (update_in f key c) = (if key' = key then map_option f (value_in key c) else value_in key' c)"
  by (induction f key c rule: update_in.induct) (auto simp: followAlias_at_alias)

lemma mapValue_at_value:
  "(\<And>v. mapValue n key = Some v \<Longrightarrow> yKind (f v) \<noteq> AliasNode) \<Longrightarrow>
     mapValue (at_value f key n) key' = (if key' = key then map_option f (mapValue n key) else mapValue n key')"
  by (simp add: mapValue_def at_value_def value_in_update)

lemma normalize_annotations_spec:
  assumes "plain_map a"
  shows "yKind (normalize_annotations a) = yKind a"
    and "mapValue (normalize_annotations a) k = (if k \<in> set noiseAnnotations then None else mapValue a k)"
  using fold_delete [OF assms, of noiseAnnotations k] by (simp_all add: normalize_annotations_def)

text \<open>The annotations of normalised metadata.\<close>

definition kept_annotations :: "ynode \<Rightarrow> ynode option" where
  "kept_annotations a =
     (if yKind a \<noteq> MappingNode then Some a
      else if yContent (normalize_annotations a) = [] then None
      else Some (normalize_annotations a))"

lemma normalize_metadata_spec:
  assumes "plain_map md" and ann: "\<And>a. mapValue md ''annotations'' = Some a \<Longrightarrow> plain_map a"
  shows "yKind (normalize_metadata md) = yKind md"
    and "mapValue (normalize_metadata md) k =
      (if k \<in> set noiseMetadataFields then None
       else if k = ''annotations'' then Option.bind (mapValue md k) kept_annotations
       else mapValue md k)"
proof -
  let ?md = "fold deleteMapKey noiseMetadataFields md"
  note fd = fold_delete [OF assms(1), of noiseMetadataFields]
  have no: "''annotations'' \<notin> set noiseMetadataFields" by (simp add: noiseMetadataFields_def)
  have md_ann: "mapValue ?md ''annotations'' = mapValue md ''annotations''" using fd no by simp
  have upd: "mapValue (at_value normalize_annotations ''annotations'' ?md) key =
      (if key = ''annotations'' then map_option normalize_annotations (mapValue md ''annotations'') else mapValue ?md key)"
    if "\<And>a. mapValue md ''annotations'' = Some a \<Longrightarrow> yKind a = MappingNode" for key
    using that ann md_ann by (subst mapValue_at_value) (auto simp: normalize_annotations_spec)
  show "yKind (normalize_metadata md) = yKind md"
    using fd by (auto simp: normalize_metadata_def Let_def split: option.split)
  show "mapValue (normalize_metadata md) k =
      (if k \<in> set noiseMetadataFields then None
       else if k = ''annotations'' then Option.bind (mapValue md k) kept_annotations
       else mapValue md k)"
  proof (cases "mapValue md ''annotations''")
    case None
    with fd no md_ann show ?thesis by (auto simp: normalize_metadata_def Let_def)
  next
    case (Some a)
    show ?thesis
    proof (cases "yKind a = MappingNode")
      case True
      with Some have u: "mapValue (at_value normalize_annotations ''annotations'' ?md) key =
          (if key = ''annotations'' then Some (normalize_annotations a) else mapValue ?md key)" for key
        by (subst upd) auto
      have "plain_map (at_value normalize_annotations ''annotations'' ?md)" using fd by simp
      with True Some fd no md_ann show ?thesis
        by (auto simp: normalize_metadata_def Let_def kept_annotations_def u)
    next
      case False
      with Some fd no md_ann show ?thesis by (auto simp: normalize_metadata_def Let_def kept_annotations_def)
    qed
  qed
qed

text \<open>The fields the API server, Helm or kubectl write.\<close>

definition noise_path :: "string list \<Rightarrow> bool" where
  "noise_path ks =
     (case ks of
        [] \<Rightarrow> False
      | k # r \<Rightarrow>
          k = ''status''
          \<or> k = ''metadata'' \<and>
            (case r of
               [] \<Rightarrow> False
             | f # r' \<Rightarrow>
                 f \<in> set noiseMetadataFields
                 \<or> f = ''annotations'' \<and> (case r' of [] \<Rightarrow> False | a # r'' \<Rightarrow> a \<in> set noiseAnnotations)))"

text \<open>A resource document whose root, metadata and annotations have unique keys.\<close>

definition plain_resource :: "ynode \<Rightarrow> bool" where
  "plain_resource doc =
     (yKind doc = DocumentNode \<and> length (yContent doc) = 1
      \<and> yKind (hd (yContent doc)) = MappingNode \<and> plain_map (hd (yContent doc))
      \<and> (case ylookup (hd (yContent doc)) [''metadata''] of None \<Rightarrow> True | Some md \<Rightarrow> plain_map md)
      \<and> (case ylookup (hd (yContent doc)) [''metadata'', ''annotations''] of None \<Rightarrow> True | Some a \<Rightarrow> plain_map a))"

lemma ylookup_annotations:
  assumes "plain_map a" "yKind s \<noteq> MappingNode"
  shows "(case kept_annotations a of None \<Rightarrow> None | Some a' \<Rightarrow> ylookup a' ks) = Some s
    \<longleftrightarrow> \<not> (case ks of [] \<Rightarrow> False | k # _ \<Rightarrow> yKind a = MappingNode \<and> k \<in> set noiseAnnotations) \<and> ylookup a ks = Some s"
proof (cases "yKind a = MappingNode")
  case True
  have empty: "mapValue (normalize_annotations a) k = None" if "yContent (normalize_annotations a) = []" for k
    using that by (simp add: mapValue_def)
  show ?thesis
  proof (cases ks)
    case Nil
    with True assms show ?thesis
      using normalize_annotations_spec(1) [OF assms(1)] by (auto simp: kept_annotations_def)
  next
    case (Cons k r)
    have "mapValue a k = None" if "yContent (normalize_annotations a) = []" "k \<notin> set noiseAnnotations"
      using that normalize_annotations_spec(2) [OF assms(1), of k] empty [of k] by simp
    with True Cons show ?thesis
      using normalize_annotations_spec [OF assms(1)] by (auto simp: kept_annotations_def split: option.splits)
  qed
next
  case False
  then show ?thesis by (cases ks) (auto simp: kept_annotations_def)
qed

lemma ylookup_metadata:
  assumes "plain_map md" and md: "yKind md = MappingNode" and "\<And>a. mapValue md ''annotations'' = Some a \<Longrightarrow> plain_map a"
    and "yKind s \<noteq> MappingNode"
  shows "ylookup (normalize_metadata md) ks = Some s \<longleftrightarrow> \<not> noise_path (''metadata'' # ks) \<and> ylookup md ks = Some s"
proof (cases ks)
  case Nil
  then show ?thesis using assms normalize_metadata_spec(1) [OF assms(1,3)] by (auto simp: noise_path_def)
next
  case (Cons k r)
  note spec = normalize_metadata_spec(1) [OF assms(1,3)] normalize_metadata_spec(2) [OF assms(1,3), of k]
  show ?thesis
  proof (cases "k = ''annotations''")
    case True
    have no: "''annotations'' \<notin> set noiseMetadataFields" by (simp add: noiseMetadataFields_def)
    show ?thesis
    proof (cases "mapValue md ''annotations''")
      case None
      with Cons True spec md no show ?thesis by simp
    next
      case (Some a)
      have A: "ylookup (normalize_metadata md) ks = (case kept_annotations a of None \<Rightarrow> None | Some a' \<Rightarrow> ylookup a' r)"
        using spec md no unfolding Cons True by (simp add: Some)
      have B: "ylookup md ks = ylookup a r" using md unfolding Cons True by (simp add: Some)
      have N: "noise_path (''metadata'' # ks) = (case r of [] \<Rightarrow> False | x # _ \<Rightarrow> x \<in> set noiseAnnotations)"
        using no unfolding Cons True by (simp add: noise_path_def)
      show ?thesis
        unfolding A B N ylookup_annotations [OF assms(3) [OF Some] assms(4)] by (cases r) auto
    qed
  next
    case False
    with spec have "mapValue (normalize_metadata md) k = (if k \<in> set noiseMetadataFields then None else mapValue md k)" by simp
    with Cons False spec(1) md show ?thesis by (simp add: noise_path_def)
  qed
qed

lemma ylookup_root:
  assumes "plain_resource doc" and s: "yKind s \<noteq> MappingNode"
  shows "ylookup (hd (yContent (normalizeResource doc))) ks = Some s
    \<longleftrightarrow> \<not> noise_path ks \<and> ylookup (hd (yContent doc)) ks = Some s"
proof -
  define root where "root = hd (yContent doc)"
  let ?r = "deleteMapKey ''status'' root"
  from assms(1) have root: "yKind root = MappingNode" "plain_map root"
    and norm: "hd (yContent (normalizeResource doc)) = normalize_root root"
    by (simp_all add: plain_resource_def normalizeResource_def root_def)
  have md_plain: "plain_map md" "mapValue md ''annotations'' = Some a \<Longrightarrow> yKind md = MappingNode \<Longrightarrow> plain_map a"
    if "mapValue root ''metadata'' = Some md" for md a
    using assms(1) that root by (auto simp: plain_resource_def root_def [symmetric])
  define f where "f md = (if yKind md = MappingNode then normalize_metadata md else md)" for md
  have f: "ylookup (f md) r = Some s \<longleftrightarrow> \<not> noise_path (''metadata'' # r) \<and> ylookup md r = Some s"
    if "mapValue root ''metadata'' = Some md" for md r
  proof (cases "yKind md = MappingNode")
    case True
    then show ?thesis unfolding f_def using md_plain [OF that] ylookup_metadata [OF _ True _ s] by simp
  next
    case False
    then show ?thesis by (cases r) (auto simp: f_def noise_path_def)
  qed
  have mv: "yKind (normalize_root root) = MappingNode
    \<and> mapValue (normalize_root root) k =
        (if k = ''status'' then None else if k = ''metadata'' then map_option f (mapValue root k) else mapValue root k)" for k
  proof (cases "mapValue root ''metadata''")
    case None
    with root show ?thesis by (simp add: normalize_root_def Let_def)
  next
    case (Some md)
    have "yKind (normalize_metadata md) = MappingNode" if "yKind md = MappingNode"
      using normalize_metadata_spec(1) [OF md_plain(1) [OF Some]] md_plain(2) [OF Some] that by simp
    then have "mapValue (at_value normalize_metadata ''metadata'' ?r) key =
        (if key = ''metadata'' then Some (normalize_metadata md) else mapValue ?r key)"
      if "yKind md = MappingNode" for key
      using that Some root by (subst mapValue_at_value) auto
    with Some root show ?thesis by (simp add: normalize_root_def Let_def f_def)
  qed
  show ?thesis
  proof (cases ks)
    case Nil
    with root mv s show ?thesis by (auto simp: norm root_def [symmetric] noise_path_def)
  next
    case (Cons k r)
    show ?thesis
    proof (cases "k = ''metadata''")
      case True
      with Cons mv root f show ?thesis by (auto simp: norm root_def [symmetric] split: option.splits)
    next
      case False
      with Cons mv root show ?thesis by (auto simp: norm root_def [symmetric] noise_path_def split: option.splits)
    qed
  qed
qed

text \<open>
  normalisation removes the server-written noise and nothing else. In a resource whose
  mappings have unique keys, the value at a path that is not a mapping survives iff the path is
  not below \<open>status\<close>, a bookkeeping field of \<open>metadata\<close> or a Helm or kubectl annotation, and it
  keeps its value.
\<close>

theorem normalize_exact:
  assumes "plain_resource doc" and "yKind s \<noteq> MappingNode"
  shows "ylookup (hd (yContent (normalizeResource doc))) ks = Some s
    \<longleftrightarrow> \<not> noise_path ks \<and> ylookup (hd (yContent doc)) ks = Some s"
  using assms by (rule ylookup_root)

section \<open>Release history\<close>

definition newest :: "Release list \<Rightarrow> Release \<Rightarrow> bool" where
  "newest rs r = (r \<in> set rs \<and> (\<forall>r' \<in> set rs. r_Version r' \<le> r_Version r))"

lemma newest_hd:
  assumes "sort_key (\<lambda>r. - r_Version r) rs = r # rest"
  shows "newest rs r"
proof -
  have s: "sorted (map (\<lambda>r. - r_Version r) (r # rest))" by (metis assms sorted_sort_key)
  have set: "set rs = set (r # rest)" by (metis assms set_sort)
  show ?thesis using s unfolding newest_def set by auto
qed

lemma find_sorted_newest:
  assumes "find P (sort_key (\<lambda>r. - r_Version r) rs) = Some r"
  shows "newest (filter P rs) r"
proof -
  have "sort_key (\<lambda>r. - r_Version r) (filter P rs) = filter P (sort_key (\<lambda>r. - r_Version r) rs)"
    by (simp add: filter_sort)
  moreover have "filter P xs = r # tl (filter P xs)" if "find P xs = Some r" for xs
    using that by (induction xs) (auto split: if_splits)
  ultimately show ?thesis using newest_hd [of "filter P rs" r] assms by metis
qed

text \<open>
  the plan compares against the newest successful revision, whatever order the storage lists
  the history in. Nothing is returned iff no revision was deployed or superseded, and there is a
  warning iff the newest revision itself was not successful.
\<close>

theorem last_successful_release:
  assumes "distinct (map r_Version hist)" and "LastSuccessfulRelease (HistoryOk hist) = Inr (rel, warning)"
  shows "(rel = None \<longleftrightarrow> (\<forall>r \<in> set hist. \<not> successful r))
    \<and> (\<forall>r. rel = Some r \<longrightarrow> newest (filter successful hist) r)
    \<and> (warning \<noteq> NoWarning \<longleftrightarrow> (\<exists>r. newest hist r \<and> \<not> successful r))"
proof (cases "sort_key (\<lambda>r. - r_Version r) hist")
  case Nil
  then have "hist = []" by (metis length_0_conv length_sort)
  with assms show ?thesis by (simp add: LastSuccessfulRelease_def newest_def)
next
  case (Cons latest rest)
  let ?rs = "sort_key (\<lambda>r. - r_Version r) hist"
  have set: "set ?rs = set hist" by simp
  have latest: "newest hist latest" using Cons by (rule newest_hd)
  have uniq: "r = latest" if "newest hist r" for r
    using that latest assms(1) unfolding newest_def by (metis distinct_map inj_onD order_antisym)
  have warn: "(\<exists>r. newest hist r \<and> \<not> successful r) \<longleftrightarrow> \<not> successful latest"
    using latest uniq by blast
  show ?thesis
  proof (cases "find successful ?rs")
    case None
    then have none: "\<forall>r \<in> set hist. \<not> successful r" by (metis find_None_iff set)
    with latest have "\<not> successful latest" by (simp add: newest_def)
    with assms(2) None Cons none warn show ?thesis by (auto simp: LastSuccessfulRelease_def)
  next
    case (Some r)
    then have "newest (filter successful hist) r" by (rule find_sorted_newest)
    moreover from this have "r \<in> set hist" "successful r" by (auto simp: newest_def)
    ultimately show ?thesis
      using assms(2) Some Cons warn by (auto simp: LastSuccessfulRelease_def Let_def split: if_splits)
  qed
qed

section \<open>Hooks\<close>

lemma by_name_get: "gm_get (by_name hs) n = map_option hk_Manifest (find (\<lambda>h. hk_Name h = n) (rev hs))"
proof (induction hs rule: rev_induct)
  case Nil
  then show ?case by (simp add: by_name_def)
next
  case (snoc h hs)
  have "by_name (hs @ [h]) = gm_put (hk_Name h) (hk_Manifest h) (by_name hs)" by (simp add: by_name_def)
  with snoc show ?case by simp
qed

lemma by_name_wf: "gm_wf (by_name hs)"
proof -
  have "gm_wf m \<Longrightarrow> gm_wf (fold (\<lambda>h. gm_put (hk_Name h) (hk_Manifest h)) hs m)" for m
    by (induction hs arbitrary: m) auto
  then show ?thesis by (simp add: by_name_def)
qed

lemma by_name_keys: "fst ` set (by_name hs) = hk_Name ` set hs"
proof -
  have "fst ` set (fold (\<lambda>h. gm_put (hk_Name h) (hk_Manifest h)) hs m) = fst ` set m \<union> hk_Name ` set hs" for m
    by (induction hs arbitrary: m) (auto simp: keys_put)
  from this [of "[]"] show ?thesis by (simp add: by_name_def)
qed

lemma by_name_distinct:
  assumes "distinct (map hk_Name hs)"
  shows "gm_get (by_name hs) n = Some m \<longleftrightarrow> (\<exists>h \<in> set hs. hk_Name h = n \<and> hk_Manifest h = m)"
    and "length (by_name hs) = length hs"
proof -
  have found: "find (\<lambda>x. hk_Name x = hk_Name h) xs = Some h" if "h \<in> set xs" "distinct (map hk_Name xs)" for h xs
    using that
  proof (induction xs)
    case (Cons x xs)
    then have "h \<in> set xs \<Longrightarrow> hk_Name x \<noteq> hk_Name h" by (metis distinct.simps(2) image_eqI list.set_map list.simps(9))
    with Cons show ?case by auto
  qed simp
  have finds: "h \<in> set xs \<and> P h" if "find P xs = Some h" for P h and xs :: "Hook list"
    using that by (induction xs) (auto split: if_splits)
  show "gm_get (by_name hs) n = Some m \<longleftrightarrow> (\<exists>h \<in> set hs. hk_Name h = n \<and> hk_Manifest h = m)"
  proof
    assume "gm_get (by_name hs) n = Some m"
    then obtain h where "find (\<lambda>h. hk_Name h = n) (rev hs) = Some h" "hk_Manifest h = m" by (auto simp: by_name_get)
    with finds [of "\<lambda>h. hk_Name h = n" "rev hs" h] show "\<exists>h \<in> set hs. hk_Name h = n \<and> hk_Manifest h = m" by auto
  next
    assume "\<exists>h \<in> set hs. hk_Name h = n \<and> hk_Manifest h = m"
    then obtain h where h: "h \<in> set hs" "hk_Name h = n" "hk_Manifest h = m" by blast
    have "distinct (map hk_Name (rev hs))" using assms by (simp add: rev_map [symmetric])
    with found [of h "rev hs"] h show "gm_get (by_name hs) n = Some m" by (simp add: by_name_get)
  qed
  have "length (by_name hs) = card (fst ` set (by_name hs))"
    using by_name_wf [of hs] by (metis distinct_card gm_wf_def length_map list.set_map)
  also have "\<dots> = length hs" using assms by (metis by_name_keys distinct_card length_map list.set_map)
  finally show "length (by_name hs) = length hs" .
qed

text \<open>
  a change of the hooks is reported iff the two sets of hooks differ, for hooks with unique
  names and non-empty manifests.
\<close>

theorem hooks_changed_iff:
  assumes "distinct (map hk_Name prev)" and "distinct (map hk_Name cur)" and "\<forall>h \<in> set prev. hk_Manifest h \<noteq> []"
  shows "HooksChanged prev cur \<longleftrightarrow> set prev \<noteq> set cur"
proof -
  note p = by_name_distinct [OF assms(1)] and c = by_name_distinct [OF assms(2)]
  have len: "length prev = length cur" if "set prev = set cur"
    using that assms(1,2) by (metis distinct_card distinct_map)
  have entry: "gm_get_or [] (by_name cur) n = m \<longleftrightarrow> (\<exists>h \<in> set cur. hk_Name h = n \<and> hk_Manifest h = m)" if "m \<noteq> []" for n m
    using that c(1) [of n m] by (auto simp: gm_get_or_def split: option.split)
  have pairs: "(n, m) \<in> set (by_name prev) \<longleftrightarrow> (\<exists>h \<in> set prev. hk_Name h = n \<and> hk_Manifest h = m)" for n m
    using p(1) gm_get_wf_iff [OF by_name_wf] by metis
  have same: "h = h'" if "hk_Name h = hk_Name h'" "hk_Manifest h = hk_Manifest h'" for h h' :: Hook
    using that by simp
  have mem: "gm_get_or [] (by_name cur) (hk_Name h) = hk_Manifest h \<longleftrightarrow> h \<in> set cur" if "h \<in> set prev" for h
    using that assms(3) entry same by metis
  have bex: "(\<exists>(n, m) \<in> set (by_name prev). Q n m) \<longleftrightarrow> (\<exists>h \<in> set prev. Q (hk_Name h) (hk_Manifest h))" for Q
    using pairs by (metis (no_types, lifting) case_prodE case_prodI)
  have "(\<exists>(n, m) \<in> set (by_name prev). gm_get_or [] (by_name cur) n \<noteq> m) \<longleftrightarrow> \<not> set prev \<subseteq> set cur"
    unfolding bex using mem by blast
  moreover have "set prev \<subseteq> set cur \<longleftrightarrow> set prev = set cur" if "length prev = length cur"
    using that assms(1,2) by (metis card_subset_eq distinct_card distinct_map finite_set order_refl)
  ultimately show ?thesis
    using len p(2) c(2) by (auto simp: HooksChanged_def Let_def)
qed

section \<open>Planning an unchanged release\<close>

text \<open>The structural comparison finds nothing between a document and itself.\<close>

definition compare_refl :: "'e plan_lib \<Rightarrow> bool" where
  "compare_refl L = (\<forall>d. CompareInputFiles L d d = Inr [])"

lemma diffResource_refl: "compare_refl L \<Longrightarrow> diffResource L d d = Inr []"
  by (simp add: compare_refl_def diffResource_def)

lemma diff_docs_same:
  assumes "compare_refl L" "distinct (map rd_key docs)"
  shows "\<exists>p. diff_docs L docs docs = Inr p \<and> p_Changes p = [] \<and> p_Summary p = zero_Summary"
proof -
  have cmp: "comparable L (indexResources docs) d" "current_changes L (indexResources docs) d = []"
    if "d \<in> set docs" for d
    using that assms index_distinct [OF assms(2), of "rd_key d" d]
    by (simp_all add: comparable_def current_changes_def diffResource_refl)
  then obtain p where p: "diff_docs L docs docs = Inr p"
    using diff_docs_total [of L docs docs] by (auto simp: is_ok_iff list_all_iff)
  have "all_changes L docs docs = []"
    using cmp(2) by (auto simp: all_changes_def filter_empty_conv)
  with diff_docs_ok [OF p] have "p_Changes p = []" "p_Summary p = zero_Summary"
    by (simp_all add: summary_of_def zero_Summary_def)
  with p show ?thesis by blast
qed

lemma HooksChanged_refl: "\<not> HooksChanged hs hs"
  using by_name_wf [of hs] by (auto simp: HooksChanged_def Let_def gm_get_or_def gm_get_wf_iff [symmetric])

text \<open>
  C30: planning again right after a deployment shows no changes. When the newest revision of the
  release is successful and has the manifest and the hooks that the chart renders to now, the
  plan has no changes, is not a fresh install, carries no warning and names that revision.
\<close>

theorem build_plan_idempotent:
  fixes L :: "'e plan_lib"
  assumes "compare_refl L"
    and "parseResources L (rr_Manifest res) = Inr docs" and "distinct (map rd_key docs)"
    and "newest hist r" and "successful r" and "distinct (map r_Version hist)"
    and "r_Manifest r = rr_Manifest res" and "r_Hooks r = rr_Hooks res"
    and "is_ok (TasksFromSpec K (Some manifest) environment resolved)"
  shows "\<exists>p. BuildPlan L K (Inr res) (HistoryOk hist) manifest environment ctx resolved = Inr (p, res)
    \<and> \<not> HasChanges (Some p) \<and> h_Revision (p_Header p) = r_Version r \<and> \<not> h_FreshInstall (p_Header p)
    \<and> h_Warning (p_Header p) = NoWarning"
proof -
  have sort: "\<exists>rest. sort_key (\<lambda>r. - r_Version r) hist = r # rest"
  proof (cases "sort_key (\<lambda>r. - r_Version r) hist")
    case Nil
    with assms(4) show ?thesis by (metis empty_iff empty_set newest_def set_sort)
  next
    case (Cons r' rest)
    then have "newest hist r'" by (rule newest_hd)
    then have "r' = r" using assms(4,6) unfolding newest_def by (metis distinct_map inj_onD order_antisym)
    with Cons show ?thesis by simp
  qed
  then have rel: "LastSuccessfulRelease (HistoryOk hist :: 'e history) = Inr (Some r, NoWarning)"
    using assms(5) by (auto simp: LastSuccessfulRelease_def)
  obtain p where p: "ComputeDiff L (rr_Manifest res) (rr_Manifest res) = Inr p" "p_Changes p = []"
    using diff_docs_same [OF assms(1), of "map normalize_doc docs"] assms(3)
    by (auto simp: ComputeDiff_docs [OF assms(2,2)] comp_def)
  obtain ts where "TasksFromSpec K (Some manifest) environment resolved = Inr ts"
    using assms(9) by (auto simp: is_ok_iff)
  with rel p assms(7,8) show ?thesis
    by (simp add: BuildPlan_def Let_def HasChanges_def HooksChanged_refl)
qed

section \<open>Example: two manifests\<close>

definition yscalar :: "string \<Rightarrow> ynode" where "yscalar v = YNode ScalarNode ''!!str'' v [] None"

definition ymap :: "(string \<times> ynode) list \<Rightarrow> ynode" where
  "ymap kvs = YNode MappingNode ''!!map'' [] (concat (map (\<lambda>(k, v). [yscalar k, v]) kvs)) None"

definition ydoc :: "ynode \<Rightarrow> ynode" where "ydoc n = YNode DocumentNode [] [] [n] None"

definition ex_resource :: "string \<Rightarrow> string \<Rightarrow> (string \<times> ynode) list \<Rightarrow> ynode" where
  "ex_resource kind name extra =
     ydoc (ymap ([(''apiVersion'', yscalar ''v1''), (''kind'', yscalar kind),
                  (''metadata'', ymap [(''name'', yscalar name), (''uid'', yscalar ''42'')])] @ extra))"

definition scalar_at :: "ynode \<Rightarrow> string list \<Rightarrow> string" where
  "scalar_at n ks = (case ylookup n ks of None \<Rightarrow> [] | Some v \<Rightarrow> yValue v)"

fun ypairs :: "ynode list \<Rightarrow> (ynode \<times> ynode) list" where
  "ypairs (k # v # rest) = (k, v) # ypairs rest"
| "ypairs _ = []"

definition ypart :: "(ynode \<times> ynode) list \<Rightarrow> ynode" where
  "ypart ps = YNode MappingNode ''!!map'' [] (concat (map (\<lambda>(k, v). [k, v]) ps)) None"

text \<open>A comparison of the top-level keys of two documents in the way dyff reports them.\<close>

definition ex_compare :: "ynode \<Rightarrow> ynode \<Rightarrow> dyff_diff list" where
  "ex_compare a b =
     (let ra = hd (yContent a @ [a]); rb = hd (yContent b @ [b]);
          gone = filter (\<lambda>(k, v). mapValue rb (yValue k) = None) (ypairs (yContent ra));
          new = filter (\<lambda>(k, v). mapValue ra (yValue k) = None) (ypairs (yContent rb));
          both = filter (\<lambda>(k, v). mapValue rb (yValue k) \<noteq> None \<and> mapValue rb (yValue k) \<noteq> Some v) (ypairs (yContent ra)) in
      if ra = rb then []
      else
        (if gone = [] then [] else
          [\<lparr>df_Path = [], df_Details = [\<lparr>dd_Kind = REMOVAL, dd_From = Some (ypart gone), dd_To = None\<rparr>]\<rparr>])
        @ (if new = [] then [] else
          [\<lparr>df_Path = [], df_Details = [\<lparr>dd_Kind = ADDITION, dd_From = None, dd_To = Some (ypart new)\<rparr>]\<rparr>])
        @ map (\<lambda>(k, v). \<lparr>df_Path = [\<lparr>el_Key = [], el_Name = yValue k, el_Idx = -1\<rparr>],
                 df_Details = [\<lparr>dd_Kind = MODIFICATION, dd_From = Some v, dd_To = mapValue rb (yValue k)\<rparr>]\<rparr>) both)"

definition ex_old :: "ynode list" where
  "ex_old = [ex_resource ''Service'' ''legacy'' [],
             ex_resource ''Deployment'' ''web'' [(''replicas'', yscalar ''2'')],
             ex_resource ''Secret'' ''db'' []]"

definition ex_new :: "ynode list" where
  "ex_new = [ex_resource ''Secret'' ''db'' [(''data'', ymap [(''password'', yscalar ''aHVudGVyMg=='')])],
             ex_resource ''Deployment'' ''web'' [(''replicas'', yscalar ''3'')],
             ex_resource ''ConfigMap'' ''cfg'' []]"

definition ex_plan_lib :: "unit plan_lib" where
  "ex_plan_lib =
     \<lparr>LoadYAMLDocuments = (\<lambda>s. Inr (if s = ''old'' then ex_old else if s = ''new'' then ex_new else [])),
      DecodeIdentity = (\<lambda>n. Inr \<lparr>ri_APIVersion = scalar_at n [''apiVersion''], ri_Kind = scalar_at n [''kind''],
        ri_Name = scalar_at n [''metadata'', ''name''], ri_Namespace = scalar_at n [''metadata'', ''namespace'']\<rparr>),
      CompareInputFiles = (\<lambda>a b. Inr (ex_compare a b)),
      ToDotStyle = (\<lambda>p. str_Join (map el_Name p) ''.''),
      yaml_Marshal = (\<lambda>n. Inr (yValue n)),
      err_Error = (\<lambda>_. [])\<rparr>"

definition ex_docs :: "string \<Rightarrow> resourceDoc list" where
  "ex_docs s = (case parseResources ex_plan_lib s of Inl _ \<Rightarrow> [] | Inr ds \<Rightarrow> ds)"

lemma ex_parse:
  "parseResources ex_plan_lib ''old'' = Inr (ex_docs ''old'')" "distinct (map rd_key (ex_docs ''old''))"
  "parseResources ex_plan_lib ''new'' = Inr (ex_docs ''new'')" "distinct (map rd_key (ex_docs ''new''))"
  by code_simp+

lemma ex_plan_lib_refl: "compare_refl ex_plan_lib"
  by (simp add: compare_refl_def ex_plan_lib_def ex_compare_def)

theorem compute_diff_exact_witness:
  "\<exists>p. ComputeDiff ex_plan_lib ''old'' ''new'' = Inr p
     \<and> set (p_Changes p) = expected_changes ex_plan_lib (ex_docs ''old'') (ex_docs ''new'')
     \<and> sorted (map change_order (p_Changes p)) \<and> Total (p_Summary p) = 4"
proof -
  have "\<exists>p. ComputeDiff ex_plan_lib ''old'' ''new'' = Inr p \<and> length (p_Changes p) = 4"
  proof -
    have "(case ComputeDiff ex_plan_lib ''old'' ''new'' of Inl _ \<Rightarrow> False | Inr p \<Rightarrow> length (p_Changes p) = 4)" by code_simp
    then show ?thesis by (auto split: sum.splits)
  qed
  then obtain p where p: "ComputeDiff ex_plan_lib ''old'' ''new'' = Inr p" "length (p_Changes p) = 4" by blast
  from compute_diff_exact [OF ex_parse(1,3,2,4) p(1)] p show ?thesis by auto
qed

theorem normalize_exact_witness:
  "ylookup (hd (yContent (normalizeResource (ex_resource ''Secret'' ''db'' [])))) [''metadata'', ''name''] = Some (yscalar ''db'')
   \<and> ylookup (hd (yContent (normalizeResource (ex_resource ''Secret'' ''db'' [])))) [''metadata'', ''uid''] \<noteq> Some (yscalar ''42'')"
proof -
  have "plain_resource (ex_resource ''Secret'' ''db'' [])" "yKind (yscalar v) \<noteq> MappingNode" for v
    by code_simp (simp add: yscalar_def)
  moreover have "\<not> noise_path [''metadata'', ''name'']" "noise_path [''metadata'', ''uid'']" by code_simp+
  moreover have "ylookup (hd (yContent (ex_resource ''Secret'' ''db'' []))) [''metadata'', ''name''] = Some (yscalar ''db'')"
    by code_simp
  ultimately show ?thesis using normalize_exact [of "ex_resource ''Secret'' ''db'' []"] by blast
qed

definition ex_history :: "Release list" where
  "ex_history =
     [\<lparr>r_Version = 1, r_Status = ''superseded'', r_Manifest = ''old'', r_Hooks = []\<rparr>,
      \<lparr>r_Version = 3, r_Status = ''failed'', r_Manifest = ''new'', r_Hooks = []\<rparr>,
      \<lparr>r_Version = 2, r_Status = ''deployed'', r_Manifest = ''new'', r_Hooks = []\<rparr>]"

theorem last_successful_release_witness:
  "\<exists>r w. LastSuccessfulRelease (HistoryOk ex_history :: unit history) = Inr (Some r, w)
     \<and> newest (filter successful ex_history) r \<and> w \<noteq> NoWarning"
proof -
  have "LastSuccessfulRelease (HistoryOk ex_history :: unit history)
      = Inr (Some (ex_history ! 2), LatestNotSuccessful 3 ''failed'')" by code_simp
  moreover have "distinct (map r_Version ex_history)" by code_simp
  ultimately show ?thesis using last_successful_release [of ex_history "Some (ex_history ! 2)"] by blast
qed

theorem hooks_changed_iff_witness:
  "HooksChanged [\<lparr>hk_Name = ''migrate'', hk_Manifest = ''v1''\<rparr>] [\<lparr>hk_Name = ''migrate'', hk_Manifest = ''v2''\<rparr>]"
  by (subst hooks_changed_iff) auto

theorem build_plan_idempotent_witness:
  "\<exists>p. BuildPlan ex_plan_lib int_lib
        (Inr \<lparr>rr_ReleaseName = ''app-prod'', rr_Namespace = ''default'', rr_ChartPath = [], rr_Manifest = ''new'',
               rr_Hooks = [], rr_IsUpgrade = True, rr_Revision = 3\<rparr>)
        (HistoryOk [ex_history ! 0, ex_history ! 2]) ex_task_spec ''prod'' ''ctx'' None
      = Inr (p, \<lparr>rr_ReleaseName = ''app-prod'', rr_Namespace = ''default'', rr_ChartPath = [], rr_Manifest = ''new'',
               rr_Hooks = [], rr_IsUpgrade = True, rr_Revision = 3\<rparr>)
     \<and> \<not> HasChanges (Some p)"
proof -
  let ?res = "\<lparr>rr_ReleaseName = ''app-prod'', rr_Namespace = ''default'', rr_ChartPath = [], rr_Manifest = ''new'',
               rr_Hooks = [], rr_IsUpgrade = True, rr_Revision = 3\<rparr> :: RenderResult"
  have "parseResources ex_plan_lib (rr_Manifest ?res) = Inr (ex_docs ''new'')" using ex_parse(3) by simp
  moreover have "newest [ex_history ! 0, ex_history ! 2] (ex_history ! 2)" by code_simp
  moreover have "successful (ex_history ! 2)" "distinct (map r_Version [ex_history ! 0, ex_history ! 2])"
    "r_Manifest (ex_history ! 2) = rr_Manifest ?res" "r_Hooks (ex_history ! 2) = rr_Hooks ?res" by code_simp+
  moreover have "is_ok (TasksFromSpec int_lib (Some ex_task_spec) ''prod'' None)" by code_simp
  ultimately show ?thesis
    using build_plan_idempotent [OF ex_plan_lib_refl _ ex_parse(4), of ?res "[ex_history ! 0, ex_history ! 2]" "ex_history ! 2"]
    by blast
qed

end
