(* ===== verification/Plan_Output.thy ===== *)
theory Plan_Output
  imports Plan_Diff
begin

text \<open>
  What a plan is shown as: the JSON document of \<open>internal/plan/format_json.go\<close>, the text of
  \<open>format_text.go\<close> and the nested tree of \<open>yamltree.go\<close>. Text goes to a writer piece by piece;
  the model gives the list of pieces. A writer that fails ends the list at the failing piece,
  since every caller returns its error. Colours come from a third-party theme: the options carry
  a function from style tokens to string decorators.
\<close>

section \<open>JSON\<close>

record JSONField =
  jf_Path :: string
  jf_Old :: string
  jf_New :: string
  jf_Masked :: bool
  jf_Change :: string

record JSONChange =
  jc_Action :: Action
  jc_Kind :: string
  jc_APIVersion :: string
  jc_Name :: string
  jc_Namespace :: string
  jc_Fields :: "JSONField list"

record JSONDocument =
  jd_FormatVersion :: string
  jd_Project :: string
  jd_Environment :: string
  jd_Release :: string
  jd_Namespace :: string
  jd_Context :: string
  jd_Revision :: "int option"
  jd_FreshInstall :: bool
  jd_Warning :: plan_warning
  jd_Changes :: "JSONChange list"
  jd_HooksChanged :: bool
  jd_Summary :: Summary
  jd_Drift :: "JSONChange list"
  jd_DriftIncomplete :: "string list"
  jd_Tasks :: "PlannedTask list"
  jd_FirstInstallNote :: string

definition jsonFormatVersion :: string where "jsonFormatVersion = ''1.0''"

definition toJSONField :: "FieldDiff \<Rightarrow> JSONField" where
  "toJSONField f =
     (if fd_Masked f
      then \<lparr>jf_Path = fd_Path f, jf_Old = [], jf_New = [], jf_Masked = True, jf_Change = fd_ChangeKind f\<rparr>
      else \<lparr>jf_Path = fd_Path f, jf_Old = fd_Old f, jf_New = fd_New f, jf_Masked = False, jf_Change = []\<rparr>)"

definition toJSONChange :: "Change \<Rightarrow> JSONChange" where
  "toJSONChange c =
     \<lparr>jc_Action = ch_Action c, jc_Kind = ch_Kind c, jc_APIVersion = ch_APIVersion c, jc_Name = ch_Name c,
      jc_Namespace = ch_Namespace c, jc_Fields = map toJSONField (ch_Fields c)\<rparr>"

definition NewJSONDocument :: "Plan \<Rightarrow> JSONDocument" where
  "NewJSONDocument p0 =
     (let p = ApplyMasking p0; h = p_Header p in
      \<lparr>jd_FormatVersion = jsonFormatVersion, jd_Project = h_Project h, jd_Environment = h_Environment h,
       jd_Release = h_Release h, jd_Namespace = h_Namespace h, jd_Context = h_Context h,
       jd_Revision = (if \<not> h_FreshInstall h \<and> h_Revision h > 0 then Some (h_Revision h) else None),
       jd_FreshInstall = h_FreshInstall h, jd_Warning = h_Warning h,
       jd_Changes = map toJSONChange (p_Changes p), jd_HooksChanged = p_HooksChanged p,
       jd_Summary = p_Summary p, jd_Drift = map toJSONChange (p_Drift p),
       jd_DriftIncomplete = p_DriftIncomplete p, jd_Tasks = p_Tasks p,
       jd_FirstInstallNote = FirstInstallTaskNote (Some p)\<rparr>)"

section \<open>Text options and field lines\<close>

datatype Mode = ModeCompact | ModeRaw | ModeYAML

datatype token = StatusSuccess | StatusError | StatusWarning | TextTitle | TextMuted | AccentPrimary

record TextOptions =
  o_Mode :: Mode
  o_ShowSecrets :: bool
  o_Style :: "token \<Rightarrow> string \<Rightarrow> string"

definition NL :: string where "NL = [CHR 0x0A]"

definition Fprintln :: "string \<Rightarrow> string list" where "Fprintln s = [s @ NL]"

definition fmt_d :: "int \<Rightarrow> string" where
  "fmt_d i = (if i < 0 then ''-'' @ Itoa (nat (- i)) else Itoa (nat i))"

definition actionSymbol :: "Action \<Rightarrow> string" where
  "actionSymbol a = (if a = ActionAdd then ''+'' else if a = ActionDestroy then ''-'' else ''~'')"

definition actionToken :: "Action \<Rightarrow> token" where
  "actionToken a = (if a = ActionAdd then StatusSuccess else if a = ActionDestroy then StatusError else StatusWarning)"

definition fieldToken :: "FieldChangeKind \<Rightarrow> token" where
  "fieldToken k = (if k = FieldAdded then StatusSuccess else if k = FieldRemoved then StatusError else StatusWarning)"

text \<open>
  The regular expressions match whole paths, and a placeholder matches one non-empty element
  without dots, so they are patterns on the elements of the path.
\<close>

definition compact_elements :: "string list \<Rightarrow> string option" where
  "compact_elements es =
     (case es of
        [a, b] \<Rightarrow> if a = ''spec'' \<and> b = ''replicas'' then Some ''replicas'' else None
      | [a, b, c, d, x, e] \<Rightarrow>
          if [a, b, c, d] = [''spec'', ''template'', ''spec'', ''containers''] \<and> x \<noteq> [] \<and> e = ''image''
          then Some ''image'' else None
      | [a, b, c, d, x, e, y, f] \<Rightarrow>
          if [a, b, c, d] = [''spec'', ''template'', ''spec'', ''containers''] \<and> x \<noteq> [] \<and> y \<noteq> []
             \<and> e = ''ports'' \<and> f = ''containerPort'' then Some ''port''
          else if [a, b, c, d] = [''spec'', ''template'', ''spec'', ''containers''] \<and> x \<noteq> [] \<and> y \<noteq> []
             \<and> e = ''env'' \<and> f = ''value'' then Some (''env.'' @ y)
          else None
      | _ \<Rightarrow> None)"

definition mapCompactPath :: "string \<Rightarrow> string option" where
  "mapCompactPath path = compact_elements (str_Split (CHR ''.'') path)"

definition display_path :: "TextOptions \<Rightarrow> FieldDiff \<Rightarrow> string" where
  "display_path opts f =
     (if o_Mode opts \<noteq> ModeRaw
      then (case mapCompactPath (fd_Path f) of Some m \<Rightarrow> m | None \<Rightarrow> fd_Path f) else fd_Path f)"

definition writeMaskedField :: "string \<Rightarrow> FieldChangeKind \<Rightarrow> TextOptions \<Rightarrow> string list" where
  "writeMaskedField path kind opts = Fprintln (o_Style opts TextMuted (''    '' @ path @ '': (masked) '' @ kind))"

definition writeField :: "FieldDiff \<Rightarrow> TextOptions \<Rightarrow> string list" where
  "writeField f opts =
     (let path = display_path opts f; style = o_Style opts (fieldToken (fd_ChangeKind f)) in
      if fd_Masked f \<and> \<not> o_ShowSecrets opts then writeMaskedField path (fd_ChangeKind f) opts
      else if fd_ChangeKind f = FieldAdded then Fprintln (style (''    '' @ path @ '': (added) '' @ fd_New f))
      else if fd_ChangeKind f = FieldRemoved then Fprintln (style (''    '' @ path @ '': (removed) '' @ fd_Old f))
      else Fprintln (style (''    '' @ path @ '': '' @ fd_Old f @ '' -> '' @ fd_New f)))"

definition writeDriftField :: "FieldDiff \<Rightarrow> TextOptions \<Rightarrow> string list" where
  "writeDriftField f opts =
     (let path = display_path opts f; style = o_Style opts StatusWarning in
      if fd_Masked f \<and> \<not> o_ShowSecrets opts then writeMaskedField path (fd_ChangeKind f) opts
      else if fd_ChangeKind f = FieldAdded then Fprintln (style (''    '' @ path @ '': (only on cluster) '' @ fd_New f))
      else if fd_ChangeKind f = FieldRemoved
      then Fprintln (style (''    '' @ path @ '': (missing on cluster, expected '' @ fd_Old f @ '')''))
      else Fprintln (style (''    '' @ path @ '': expected '' @ fd_Old f @ '', live '' @ fd_New f)))"

section \<open>The tree of a YAML rendering\<close>

text \<open>The children are kept in insertion order, which the code records in \<open>order\<close>.\<close>

datatype yamlTreeNode =
  YTree (tn_children: "(string \<times> yamlTreeNode) list") (tn_listKey: string) (tn_field: "FieldDiff option")

definition newYAMLTreeNode :: yamlTreeNode where "newYAMLTreeNode = YTree [] [] None"

definition fieldSegments :: "FieldDiff \<Rightarrow> PathSegment list" where
  "fieldSegments f =
     (if fd_Segments f \<noteq> [] \<or> fd_Path f = [] then fd_Segments f
      else map (\<lambda>part. \<lparr>ps_Name = part, ps_ListKey = [], ps_Idx = -1\<rparr>) (str_Split (CHR ''.'') (fd_Path f)))"

definition segment_key :: "PathSegment \<Rightarrow> string" where
  "segment_key s = (if ps_ListKey s = [] \<and> ps_Name s = [] then fmt_d (ps_Idx s) else ps_Name s)"

definition set_listKey :: "string \<Rightarrow> yamlTreeNode \<Rightarrow> yamlTreeNode" where
  "set_listKey k t = (if k \<noteq> [] then YTree (tn_children t) k (tn_field t) else t)"

fun insertYAMLField :: "yamlTreeNode \<Rightarrow> PathSegment list \<Rightarrow> FieldDiff \<Rightarrow> yamlTreeNode" where
  "insertYAMLField t [] f = YTree (tn_children t) (tn_listKey t) (Some f)"
| "insertYAMLField t (seg # segs) f =
     (let key = segment_key seg;
          child = (case gm_get (tn_children t) key of None \<Rightarrow> newYAMLTreeNode | Some c \<Rightarrow> c) in
      YTree (gm_put key (insertYAMLField (set_listKey (ps_ListKey seg) child) segs f) (tn_children t))
        (tn_listKey t) (tn_field t))"

definition buildYAMLTree :: "FieldDiff list \<Rightarrow> yamlTreeNode" where
  "buildYAMLTree fs = fold (\<lambda>f t. insertYAMLField t (fieldSegments f) f) fs newYAMLTreeNode"

datatype yamlLeafStyle = yamlLeafStyleChange | yamlLeafStyleDrift

definition yamlTreeBaseIndent :: nat where "yamlTreeBaseIndent = 2"

definition indent_pad :: "nat \<Rightarrow> string" where "indent_pad n = concat (replicate n ''  '')"

definition indentBlock :: "string \<Rightarrow> string \<Rightarrow> string" where
  "indentBlock value prefix =
     (let pad = replicate (length prefix) (CHR '' '') in
      trim_right (CHR '' '')
        (str_Join (case str_Split (CHR 0x0A) value of [] \<Rightarrow> [] | l # ls \<Rightarrow> (prefix @ l) # map (\<lambda>l. pad @ l) ls) NL))"

definition leaf_token :: "yamlLeafStyle \<Rightarrow> FieldDiff \<Rightarrow> token" where
  "leaf_token style f = (if style = yamlLeafStyleDrift then StatusWarning else fieldToken (fd_ChangeKind f))"

definition writeYAMLValueBlock :: "nat \<Rightarrow> FieldDiff \<Rightarrow> TextOptions \<Rightarrow> yamlLeafStyle \<Rightarrow> string list" where
  "writeYAMLValueBlock indent f opts style =
     (let pad = indent_pad indent; render = o_Style opts (leaf_token style f) in
      if fd_Masked f \<and> \<not> o_ShowSecrets opts
      then Fprintln (o_Style opts TextMuted (pad @ ''(masked) '' @ fd_ChangeKind f))
      else if fd_ChangeKind f = FieldAdded then Fprintln (render (indentBlock (fd_New f) pad))
      else if fd_ChangeKind f = FieldRemoved then Fprintln (render (indentBlock (fd_Old f) pad))
      else Fprintln (render (indentBlock (fd_Old f) (pad @ ''- ''))) @ Fprintln (render (indentBlock (fd_New f) (pad @ ''+ ''))))"

definition writeYAMLLeaf :: "nat \<Rightarrow> string \<Rightarrow> FieldDiff \<Rightarrow> TextOptions \<Rightarrow> yamlLeafStyle \<Rightarrow> string list" where
  "writeYAMLLeaf indent key f opts style =
     (let pad = indent_pad indent; render = o_Style opts (leaf_token style f) in
      if fd_Masked f \<and> \<not> o_ShowSecrets opts
      then Fprintln (o_Style opts TextMuted (pad @ key @ '': (masked) '' @ fd_ChangeKind f))
      else if CHR 0x0A \<in> set (fd_Old f) \<or> CHR 0x0A \<in> set (fd_New f)
      then Fprintln (pad @ key @ '':'') @ writeYAMLValueBlock (indent + 1) f opts style
      else if style = yamlLeafStyleDrift
      then
        (if fd_ChangeKind f = FieldAdded then Fprintln (render (pad @ key @ '': (only on cluster) '' @ fd_New f))
         else if fd_ChangeKind f = FieldRemoved
         then Fprintln (render (pad @ key @ '': (missing on cluster, expected '' @ fd_Old f @ '')''))
         else Fprintln (render (pad @ key @ '': expected '' @ fd_Old f @ '', live '' @ fd_New f)))
      else if fd_ChangeKind f = FieldAdded then Fprintln (render (pad @ key @ '': (added) '' @ fd_New f))
      else if fd_ChangeKind f = FieldRemoved then Fprintln (render (pad @ key @ '': (removed) '' @ fd_Old f))
      else Fprintln (render (pad @ key @ '': '' @ fd_Old f @ '' -> '' @ fd_New f)))"

fun writeYAMLNode :: "TextOptions \<Rightarrow> yamlLeafStyle \<Rightarrow> string \<Rightarrow> nat \<Rightarrow> yamlTreeNode \<Rightarrow> string list"
and writeYAMLChildren :: "TextOptions \<Rightarrow> yamlLeafStyle \<Rightarrow> nat \<Rightarrow> (string \<times> yamlTreeNode) list \<Rightarrow> string list" where
  "writeYAMLNode opts style key indent (YTree children listKey field) =
     (if listKey \<noteq> []
      then Fprintln (indent_pad indent @ ''- '' @ listKey @ '': '' @ key)
           @ (case field of
                Some f \<Rightarrow> writeYAMLValueBlock (indent + 1) f opts style
              | None \<Rightarrow> writeYAMLChildren opts style (indent + 1) children)
      else
        case field of
          Some f \<Rightarrow>
            if children = [] then writeYAMLLeaf indent key f opts style
            else Fprintln (indent_pad indent @ key @ '':'') @ writeYAMLChildren opts style (indent + 1) children
        | None \<Rightarrow> Fprintln (indent_pad indent @ key @ '':'') @ writeYAMLChildren opts style (indent + 1) children)"
| "writeYAMLChildren opts style indent [] = []"
| "writeYAMLChildren opts style indent ((k, t) # ts) =
     writeYAMLNode opts style k indent t @ writeYAMLChildren opts style indent ts"

definition writeYAMLTree :: "FieldDiff list \<Rightarrow> TextOptions \<Rightarrow> yamlLeafStyle \<Rightarrow> string list" where
  "writeYAMLTree fs opts style =
     (let root = buildYAMLTree fs in
      (case tn_field root of
         Some f \<Rightarrow> writeYAMLLeaf yamlTreeBaseIndent ''(root)'' f opts style
       | None \<Rightarrow> [])
      @ writeYAMLChildren opts style yamlTreeBaseIndent (tn_children root))"

section \<open>The whole text\<close>

definition Summary_String :: "Summary \<Rightarrow> string" where
  "Summary_String s =
     fmt_d (su_Add s) @ '' to add, '' @ fmt_d (su_Change s) @ '' to change, '' @ fmt_d (su_Destroy s) @ '' to destroy''"

definition warning_text :: "plan_warning \<Rightarrow> string" where
  "warning_text w =
     (case w of
        NoWarning \<Rightarrow> []
      | LatestNotSuccessful v st \<Rightarrow>
          ''latest revision '' @ fmt_d v @ '' is '' @ st @ ''; comparing against the last successful revision instead''
      | NoSuccessfulRevision v st \<Rightarrow>
          ''no successful revision found in history (latest revision '' @ fmt_d v @ '' is '' @ st @ '')'')"

definition pad_label :: "string \<Rightarrow> string" where
  "pad_label l = l @ '':'' @ replicate (12 - (length l + 1)) (CHR '' '')"

definition header_lines :: "Header \<Rightarrow> (string \<times> string) list" where
  "header_lines h =
     (if h_Project h \<noteq> [] then [(''Project'', h_Project h)] else [])
     @ (if h_Environment h \<noteq> [] then [(''Environment'', h_Environment h)] else [])
     @ (if h_Release h \<noteq> []
        then [(''Release'', h_Release h @
                 (if h_FreshInstall h then '' (fresh install)''
                  else if h_Revision h > 0 then '' (revision '' @ fmt_d (h_Revision h) @ '')'' else []))] else [])
     @ (if h_Namespace h \<noteq> [] then [(''Namespace'', h_Namespace h)] else [])
     @ (if h_Context h \<noteq> [] then [(''Context'', h_Context h)] else [])"

definition writeHeader :: "Header \<Rightarrow> TextOptions \<Rightarrow> string list" where
  "writeHeader h opts =
     concat (map (\<lambda>(label, value). Fprintln (o_Style opts AccentPrimary (pad_label label) @ '' '' @ value)) (header_lines h))
     @ (if warning_text (h_Warning h) \<noteq> []
        then Fprintln (NL @ o_Style opts StatusWarning (''Warning: '' @ warning_text (h_Warning h))) else [])"

definition change_line :: "Change \<Rightarrow> TextOptions \<Rightarrow> string list" where
  "change_line c opts =
     Fprintln (o_Style opts (actionToken (ch_Action c)) (actionSymbol (ch_Action c) @ '' '' @ ch_Kind c @ ''/'' @ ch_Name c))"

definition writeChange :: "Change \<Rightarrow> TextOptions \<Rightarrow> string list" where
  "writeChange c opts =
     change_line c opts
     @ (if o_Mode opts = ModeYAML then writeYAMLTree (ch_Fields c) opts yamlLeafStyleChange
        else concat (map (\<lambda>f. writeField f opts) (ch_Fields c)))"

definition writeDriftChange :: "Change \<Rightarrow> TextOptions \<Rightarrow> string list" where
  "writeDriftChange c opts =
     change_line c opts
     @ (if o_Mode opts = ModeYAML then writeYAMLTree (ch_Fields c) opts yamlLeafStyleDrift
        else concat (map (\<lambda>f. writeDriftField f opts) (ch_Fields c)))"

definition writeDrift :: "Plan \<Rightarrow> TextOptions \<Rightarrow> string list" where
  "writeDrift p opts =
     (if \<not> p_DriftChecked p \<or> h_FreshInstall (p_Header p) then []
      else
        Fprintln (NL @ o_Style opts TextTitle ''Drift (cluster changed outside deployah):'')
        @ concat (map (\<lambda>c. writeDriftChange c opts) (p_Drift p))
        @ (if p_Drift p = [] then Fprintln (o_Style opts StatusSuccess ''No drift detected.'') else [])
        @ (if p_DriftIncomplete p \<noteq> []
           then Fprintln (NL @ o_Style opts StatusWarning ''Warning: drift is incomplete; could not check:'')
                @ concat (map (\<lambda>r. Fprintln (''  - '' @ r)) (p_DriftIncomplete p))
           else [])
        @ Fprintln (NL @ o_Style opts TextMuted
            (''Note: deploy does not revert drift. Drifted fields keep their live values'' @ NL
             @ ''unless the spec changes them.'')))"

definition writeHookNote :: "Plan \<Rightarrow> TextOptions \<Rightarrow> string list" where
  "writeHookNote p opts =
     (if \<not> p_HooksChanged p then []
      else Fprintln (NL @ o_Style opts TextMuted ''Note: Helm hooks changed for this release (not shown above).''))"

definition task_line :: "PlannedTask \<Rightarrow> string list" where
  "task_line t =
     Fprintln (''    '' @ pt_Name t @ (if pt_Timeout t \<noteq> [] then '' (timeout '' @ pt_Timeout t @ '')'' else [])
       @ (if \<not> pt_Manual t then '' weight '' @ fmt_d (pt_HookWeight t) else []))"

definition task_items :: "Plan \<Rightarrow> string \<Rightarrow> PlannedTask list" where
  "task_items p on =
     (let items = filter (\<lambda>t. pt_On t = on) (p_Tasks p) in
      if on \<noteq> TaskOnManual then sort_key (\<lambda>t. (pt_HookWeight t, pt_Name t)) items else items)"

definition writeTasks :: "Plan \<Rightarrow> TextOptions \<Rightarrow> string list" where
  "writeTasks p opts =
     (if p_Tasks p = [] then []
      else
        Fprintln (NL @ o_Style opts TextTitle ''Tasks:'')
        @ concat (map (\<lambda>(title, on).
             if task_items p on = [] then []
             else Fprintln (''  '' @ title) @ concat (map task_line (task_items p on)))
           [(TaskOnPreDeploy, TaskOnPreDeploy), (TaskOnPostDeploy, TaskOnPostDeploy), (''manual (CLI only)'', TaskOnManual)])
        @ (if FirstInstallTaskNote (Some p) \<noteq> []
           then Fprintln (o_Style opts TextMuted (''Note: '' @ FirstInstallTaskNote (Some p))) else []))"

definition RenderText :: "Plan \<Rightarrow> TextOptions \<Rightarrow> string list" where
  "RenderText p0 opts =
     (let p = ApplyMasking p0 in
      writeHeader (p_Header p) opts @ writeTasks p opts
      @ (if p_Changes p = []
         then Fprintln (o_Style opts StatusSuccess ''No changes.'') @ writeHookNote p opts @ writeDrift p opts
         else
           Fprintln [] @ concat (map (\<lambda>c. writeChange c opts) (p_Changes p)) @ writeHookNote p opts
           @ Fprintln (NL @ ''Plan: '' @ Summary_String (p_Summary p) @ ''.'') @ writeDrift p opts))"

section \<open>Secrets do not reach the output\<close>

text \<open>What may be shown of a field difference: a masked one without its values.\<close>

definition censor :: "FieldDiff \<Rightarrow> FieldDiff" where
  "censor f = (if fd_Masked f then f\<lparr>fd_Old := [], fd_New := []\<rparr> else f)"

lemma censor_sel [simp]:
  "fd_Path (censor f) = fd_Path f" "fd_ChangeKind (censor f) = fd_ChangeKind f"
  "fd_Masked (censor f) = fd_Masked f" "fd_Segments (censor f) = fd_Segments f"
  by (simp_all add: censor_def)

lemma censor_unmasked: "\<not> fd_Masked f \<Longrightarrow> censor f = f"
  by (simp add: censor_def)

lemma toJSONField_censor: "toJSONField (censor f) = toJSONField f"
  by (simp add: toJSONField_def censor_unmasked)

lemma display_path_censor [simp]: "display_path opts (censor f) = display_path opts f"
  by (simp add: display_path_def split: option.split)

lemma field_writers_censor:
  assumes "\<not> o_ShowSecrets opts"
  shows "writeField (censor f) opts = writeField f opts" "writeDriftField (censor f) opts = writeDriftField f opts"
    "writeYAMLValueBlock n (censor f) opts style = writeYAMLValueBlock n f opts style"
    "writeYAMLLeaf n key (censor f) opts style = writeYAMLLeaf n key f opts style"
proof -
  show "writeField (censor f) opts = writeField f opts"
    using assms by (cases "fd_Masked f") (simp_all add: censor_unmasked writeField_def)
  show "writeDriftField (censor f) opts = writeDriftField f opts"
    using assms by (cases "fd_Masked f") (simp_all add: censor_unmasked writeDriftField_def)
  show "writeYAMLValueBlock n (censor f) opts style = writeYAMLValueBlock n f opts style"
    using assms by (cases "fd_Masked f") (simp_all add: censor_unmasked writeYAMLValueBlock_def)
  show "writeYAMLLeaf n key (censor f) opts style = writeYAMLLeaf n key f opts style"
    using assms by (cases "fd_Masked f") (simp_all add: censor_unmasked writeYAMLLeaf_def)
qed

fun censor_tree :: "yamlTreeNode \<Rightarrow> yamlTreeNode"
and censor_trees :: "(string \<times> yamlTreeNode) list \<Rightarrow> (string \<times> yamlTreeNode) list" where
  "censor_tree (YTree cs lk fo) = YTree (censor_trees cs) lk (map_option censor fo)"
| "censor_trees [] = []"
| "censor_trees ((k, t) # ts) = (k, censor_tree t) # censor_trees ts"

lemma censor_trees_map: "censor_trees cs = gm_map censor_tree cs"
  by (induction cs) (auto simp: gm_map_def)

lemma writers_censor_tree:
  assumes "\<not> o_ShowSecrets opts"
  shows "writeYAMLNode opts style key n (censor_tree t) = writeYAMLNode opts style key n t"
    and "writeYAMLChildren opts style n (censor_trees ts) = writeYAMLChildren opts style n ts"
  using assms
proof (induction opts style key n t and opts style n ts rule: writeYAMLNode_writeYAMLChildren.induct)
  case (1 opts style key n cs lk fo)
  have "censor_trees cs = [] \<longleftrightarrow> cs = []" by (simp add: censor_trees_map gm_map_def)
  with 1 show ?case
    by (cases fo; cases "lk = []"; cases "cs = []"; simp add: field_writers_censor [OF 1(4)])
qed simp_all

lemma censor_insert:
  "censor_tree (insertYAMLField t segs f) = insertYAMLField (censor_tree t) segs (censor f)"
proof (induction segs arbitrary: t)
  case Nil
  then show ?case by (cases t) simp
next
  case (Cons seg segs)
  have put: "gm_map censor_tree (gm_put k v m) = gm_put k (censor_tree v) (gm_map censor_tree m)" for k v m
    by (induction m) (auto simp: gm_map_def gm_put_def)
  have lk: "censor_tree (set_listKey k c) = set_listKey k (censor_tree c)" for k c
    by (cases c) (simp add: set_listKey_def)
  have new: "censor_tree newYAMLTreeNode = newYAMLTreeNode" by (simp add: newYAMLTreeNode_def)
  obtain cs k fo where t: "t = YTree cs k fo" by (cases t)
  show ?case
    by (cases "gm_get cs (segment_key seg)") (simp_all add: t Let_def censor_trees_map put Cons lk new)
qed

lemma censor_build: "censor_tree (buildYAMLTree fs) = buildYAMLTree (map censor fs)"
proof -
  have seg: "fieldSegments (censor f) = fieldSegments f" for f by (simp add: fieldSegments_def)
  have "censor_tree (fold (\<lambda>f t. insertYAMLField t (fieldSegments f) f) fs t)
      = fold (\<lambda>f t. insertYAMLField t (fieldSegments f) f) (map censor fs) (censor_tree t)" for t
    by (induction fs arbitrary: t) (simp_all add: censor_insert seg)
  from this [of newYAMLTreeNode] show ?thesis by (simp add: buildYAMLTree_def newYAMLTreeNode_def)
qed

lemma writeYAMLTree_censor:
  assumes "\<not> o_ShowSecrets opts"
  shows "writeYAMLTree (map censor fs) opts style = writeYAMLTree fs opts style"
proof -
  obtain cs k fo where t: "buildYAMLTree fs = YTree cs k fo" by (cases "buildYAMLTree fs")
  show ?thesis
    unfolding writeYAMLTree_def censor_build [symmetric] t
    by (cases fo) (simp_all add: writers_censor_tree [OF assms] field_writers_censor [OF assms])
qed

definition censor_change :: "Change \<Rightarrow> Change" where
  "censor_change c = c\<lparr>ch_Fields := map censor (ch_Fields c)\<rparr>"

lemma change_writers_censor:
  assumes "\<not> o_ShowSecrets opts"
  shows "writeChange (censor_change c) opts = writeChange c opts"
    and "writeDriftChange (censor_change c) opts = writeDriftChange c opts"
  by (simp_all add: writeChange_def writeDriftChange_def censor_change_def change_line_def comp_def
      writeYAMLTree_censor [OF assms] field_writers_censor [OF assms])

lemma toJSONChange_censor: "toJSONChange (censor_change c) = toJSONChange c"
  by (simp add: toJSONChange_def censor_change_def comp_def toJSONField_censor)

text \<open>
  A path lies under the payload of a Secret when its first element, up to the first dot, is \<open>data\<close> or
  \<open>stringData\<close>; this is said without the prefixes and the comparison of the code. Then the plan with
  the values of all such fields of Secrets replaced by other values.
\<close>

definition path_head :: "string \<Rightarrow> string" where
  "path_head path = takeWhile (\<lambda>c. c \<noteq> CHR ''.'') path"

definition under_data :: "string \<Rightarrow> bool" where
  "under_data path = (path_head path = ''data'' \<or> path_head path = ''stringData'')"

lemma path_head_eq: "CHR ''.'' \<notin> set p \<Longrightarrow> path_head path = p \<longleftrightarrow> path = p \<or> HasPrefix path (p @ ''.'')"
proof (induction p arbitrary: path)
  case Nil
  then show ?case by (cases path) (auto simp: path_head_def HasPrefix_def)
next
  case (Cons c p)
  then show ?case by (cases path) (auto simp: path_head_def HasPrefix_def)
qed

lemma isSecretDataPath_iff: "isSecretDataPath path \<longleftrightarrow> under_data path"
  by (simp add: isSecretDataPath_def secretMaskedTopLevelFields_def under_data_def path_head_eq)

definition replace_values :: "(FieldDiff \<Rightarrow> string) \<Rightarrow> (FieldDiff \<Rightarrow> string) \<Rightarrow> Change \<Rightarrow> Change" where
  "replace_values a b c =
     (if ch_Kind c \<noteq> ''Secret'' then c
      else c\<lparr>ch_Fields := map (\<lambda>f. if under_data (fd_Path f) then f\<lparr>fd_Old := a f, fd_New := b f\<rparr> else f) (ch_Fields c)\<rparr>)"

definition replace_secrets :: "(FieldDiff \<Rightarrow> string) \<Rightarrow> (FieldDiff \<Rightarrow> string) \<Rightarrow> Plan \<Rightarrow> Plan" where
  "replace_secrets a b p =
     p\<lparr>p_Changes := map (replace_values a b) (p_Changes p), p_Drift := map (replace_values a b) (p_Drift p)\<rparr>"

lemma censor_replace:
  "map censor_change (maskSecretFields (map (replace_values a b) cs)) = map censor_change (maskSecretFields cs)"
  by (auto simp: maskSecretFields_def replace_values_def censor_change_def mask_field_def censor_def comp_def isSecretDataPath_iff)

lemma hidden_iff:
  "(\<forall>x y. toJSONField (mask_field (f\<lparr>fd_Old := x, fd_New := y\<rparr>)) = toJSONField (mask_field f)) \<longleftrightarrow> under_data (fd_Path f) \<or> fd_Masked f"
  (is "?l \<longleftrightarrow> ?r")
proof
  assume ?l
  then have "toJSONField (mask_field (f\<lparr>fd_Old := CHR ''x'' # fd_Old f, fd_New := []\<rparr>)) = toJSONField (mask_field f)" by blast
  then show ?r by (auto simp: toJSONField_def mask_field_def isSecretDataPath_iff split: if_splits)
next
  assume ?r
  then show ?l by (auto simp: toJSONField_def mask_field_def isSecretDataPath_iff)
qed

lemma map_censor_cong:
  assumes "map censor_change xs = map censor_change ys" and "\<And>c. g (censor_change c) = g c"
  shows "map g xs = map g ys"
proof -
  have "map g zs = map g (map censor_change zs)" for zs by (simp add: assms(2))
  with assms(1) show ?thesis by metis
qed

lemma map_Nil_cong: "map f xs = map f ys \<Longrightarrow> (xs = []) = (ys = [])"
  by (metis map_is_Nil_conv)

text \<open>
  C25: the values of Secret fields reach neither the JSON document nor, without \<open>--show-secrets\<close>, the
  text in any mode. Replacing the old and new values of the differences of Secrets whose path begins with
  the element \<open>data\<close> or \<open>stringData\<close> changes nothing of what is shown; and these are exactly the fields
  that the masking hides: the JSON of a field of a Secret is the same for all values if and only if its
  path begins so (or the field was masked before). A block that is added or removed as a whole at the
  root of the document is outside of this: its paths begin with the root and a dot, and its values are shown.
\<close>

theorem secrets_not_shown:
  assumes "\<not> o_ShowSecrets opts"
  shows "RenderText (replace_secrets a b p) opts = RenderText p opts
    \<and> NewJSONDocument (replace_secrets a b p) = NewJSONDocument p
    \<and> (\<forall>f. (\<forall>x y. toJSONField (mask_field (f\<lparr>fd_Old := x, fd_New := y\<rparr>)) = toJSONField (mask_field f))
             \<longleftrightarrow> under_data (fd_Path f) \<or> fd_Masked f)"
proof -
  let ?q = "replace_secrets a b p"
  have ch: "map censor_change (p_Changes (ApplyMasking ?q)) = map censor_change (p_Changes (ApplyMasking p))"
    and dr: "map censor_change (p_Drift (ApplyMasking ?q)) = map censor_change (p_Drift (ApplyMasking p))"
    by (simp_all add: ApplyMasking_def replace_secrets_def censor_replace)
  have rest: "p_Header (ApplyMasking ?q) = p_Header (ApplyMasking p)" "p_Tasks (ApplyMasking ?q) = p_Tasks (ApplyMasking p)"
    "p_Summary (ApplyMasking ?q) = p_Summary (ApplyMasking p)" "p_HooksChanged (ApplyMasking ?q) = p_HooksChanged (ApplyMasking p)"
    "p_DriftChecked (ApplyMasking ?q) = p_DriftChecked (ApplyMasking p)"
    "p_DriftIncomplete (ApplyMasking ?q) = p_DriftIncomplete (ApplyMasking p)"
    by (simp_all add: ApplyMasking_def replace_secrets_def)
  note lists = map_Nil_cong [OF ch] map_Nil_cong [OF dr]
    map_censor_cong [OF ch, of "\<lambda>c. writeChange c opts", OF change_writers_censor(1) [OF assms]]
    map_censor_cong [OF dr, of "\<lambda>c. writeDriftChange c opts", OF change_writers_censor(2) [OF assms]]
  have tasks: "writeTasks (ApplyMasking ?q) opts = writeTasks (ApplyMasking p) opts"
    "FirstInstallTaskNote (Some (ApplyMasking ?q)) = FirstInstallTaskNote (Some (ApplyMasking p))"
    by (simp_all add: writeTasks_def task_items_def FirstInstallTaskNote_def rest)
  have "RenderText ?q opts = RenderText p opts"
    by (simp add: RenderText_def Let_def writeDrift_def writeHookNote_def rest lists tasks)
  moreover have "NewJSONDocument ?q = NewJSONDocument p"
    by (simp add: NewJSONDocument_def Let_def rest tasks map_censor_cong [OF ch, of toJSONChange, OF toJSONChange_censor]
        map_censor_cong [OF dr, of toJSONChange, OF toJSONChange_censor])
  ultimately show ?thesis using hidden_iff by blast
qed

text \<open>The fields of an added block have paths that start with the path of the block.\<close>

lemma expand_paths:
  "f \<in> set (expandMapDetail L kind path segs n) \<Longrightarrow> (\<exists>r. fd_Path f = path @ r) \<and> \<not> fd_Masked f"
  "f \<in> set (expand_pairs L kind path segs c) \<Longrightarrow> (\<exists>r. fd_Path f = path @ ''.'' @ r) \<and> \<not> fd_Masked f"
proof (induction L kind path segs n and L kind path segs c rule: expandMapDetail_expand_pairs.induct)
  case (1 L kind path segs k t v c a)
  then show ?case by (auto simp: whole_field_def split: if_splits)
next
  case (2 L kind path segs key val r)
  then show ?case by fastforce
qed simp_all

lemma not_secret_root: "root \<in> {[], ''(root level)''} \<Longrightarrow> \<not> isSecretDataPath (root @ ''.'' @ r)"
  by (auto simp: isSecretDataPath_def secretMaskedTopLevelFields_def HasPrefix_def)

text \<open>
  the \<open>data\<close> block of a Secret that is added or removed as a whole is not masked. The comparison
  reports it as keys added to the root of the document; the paths of its fields then start with
  the path of the root, which the dot style writes as nothing or as (root level), and a dot.
  No such path is recognised as Secret data, so the fields keep their values in the masked plan.
\<close>

theorem secret_block_unmasked:
  assumes "ToDotStyle L [] \<in> {[], ''(root level)''}" and "dd_Kind d = ADDITION" and "dd_To d = Some n"
    and "yKind n = MappingNode"
    and "f \<in> set (detail_fields L (ToDotStyle L []) (pathSegments []) d)"
  shows "\<not> fd_Masked (mask_field f) \<and> jf_New (toJSONField (mask_field f)) = fd_New f"
proof -
  obtain k t v c a where n: "n = YNode k t v c a" by (cases n)
  from assms(2-5) have "f \<in> set (expand_pairs L FieldAdded (ToDotStyle L []) [] c)"
    by (simp add: detail_fields_def expand_detail_def n pathSegments_def is_named_entry_def)
  then obtain r where "fd_Path f = ToDotStyle L [] @ ''.'' @ r" and "\<not> fd_Masked f" using expand_paths(2) by blast
  moreover from this have "\<not> isSecretDataPath (fd_Path f)" using not_secret_root [OF assms(1)] by simp
  ultimately show ?thesis by (simp add: mask_field_def toJSONField_def)
qed

section \<open>The tree holds every field\<close>

fun tree_at :: "yamlTreeNode \<Rightarrow> string list \<Rightarrow> FieldDiff option" where
  "tree_at t [] = tn_field t"
| "tree_at t (k # ks) = (case gm_get (tn_children t) k of None \<Rightarrow> None | Some c \<Rightarrow> tree_at c ks)"

definition field_keys :: "FieldDiff \<Rightarrow> string list" where
  "field_keys f = map segment_key (fieldSegments f)"

lemma tree_at_set_listKey [simp]: "tree_at (set_listKey k t) ks = tree_at t ks"
  by (cases ks) (simp_all add: set_listKey_def)

lemma tree_at_new [simp]: "tree_at newYAMLTreeNode ks = None"
  by (cases ks) (simp_all add: newYAMLTreeNode_def)

lemma tree_at_insert:
  "tree_at (insertYAMLField t segs f) ks = (if ks = map segment_key segs then Some f else tree_at t ks)"
proof (induction segs arbitrary: t ks)
  case Nil
  then show ?case by (cases ks) simp_all
next
  case (Cons seg segs)
  then show ?case by (cases ks) (auto simp: Let_def split: option.split)
qed

text \<open>
  the tree of the YAML rendering is a map from key paths to field differences. At each path
  it holds the last field with that path and nothing anywhere else.
\<close>

theorem yaml_tree_lookup:
  "tree_at (buildYAMLTree fs) ks = find (\<lambda>f. field_keys f = ks) (rev fs)"
proof (induction fs rule: rev_induct)
  case Nil
  then show ?case by (simp add: buildYAMLTree_def)
next
  case (snoc f fs)
  have "buildYAMLTree (fs @ [f]) = insertYAMLField (buildYAMLTree fs) (fieldSegments f) f"
    by (simp add: buildYAMLTree_def)
  with snoc show ?case by (auto simp: tree_at_insert field_keys_def)
qed

section \<open>Examples\<close>

definition ex_opts :: TextOptions where
  "ex_opts = \<lparr>o_Mode = ModeYAML, o_ShowSecrets = False, o_Style = (\<lambda>_ s. s)\<rparr>"

definition ex_secret_plan :: "string \<Rightarrow> Plan" where
  "ex_secret_plan v = zero_Plan\<lparr>p_Changes :=
     [\<lparr>ch_Action = ActionChange, ch_Kind = ''Secret'', ch_APIVersion = ''v1'', ch_Name = ''db'', ch_Namespace = [],
       ch_Fields = [\<lparr>fd_Path = ''data.password'', fd_ChangeKind = FieldChanged, fd_Old = ''b2xk'', fd_New = v,
                     fd_Masked = False, fd_Segments = []\<rparr>]\<rparr>]\<rparr>"

theorem secrets_not_shown_witness:
  "RenderText (ex_secret_plan ''aHVudGVyMg=='') ex_opts = RenderText (ex_secret_plan ''Zm9v'') ex_opts"
proof -
  have "replace_secrets fd_Old (\<lambda>_. ''aHVudGVyMg=='') (ex_secret_plan ''Zm9v'') = ex_secret_plan ''aHVudGVyMg==''"
    by code_simp
  with secrets_not_shown [of ex_opts fd_Old "\<lambda>_. ''aHVudGVyMg==''" "ex_secret_plan ''Zm9v''"] show ?thesis
    by (simp add: ex_opts_def)
qed

text \<open>
  The example manifests add the whole \<open>data\<close> block to a Secret: the password is in the JSON document.
\<close>

definition ex_block :: dyff_detail where
  "ex_block = \<lparr>dd_Kind = ADDITION, dd_From = None, dd_To = Some (ymap [(''data'', ymap [(''password'', yscalar ''aHVudGVyMg=='')])])\<rparr>"

theorem secret_block_unmasked_witness:
  "\<exists>f. f \<in> set (detail_fields ex_plan_lib [] (pathSegments []) ex_block)
     \<and> fd_Path f = ''.data.password'' \<and> jf_New (toJSONField (mask_field f)) = ''aHVudGVyMg==''"
proof -
  let ?f = "\<lparr>fd_Path = ''.data.password'', fd_ChangeKind = FieldAdded, fd_Old = [], fd_New = ''aHVudGVyMg=='', fd_Masked = False,
     fd_Segments = [\<lparr>ps_Name = ''data'', ps_ListKey = [], ps_Idx = -1\<rparr>, \<lparr>ps_Name = ''password'', ps_ListKey = [], ps_Idx = -1\<rparr>]\<rparr>"
  have root: "ToDotStyle ex_plan_lib [] = []" by code_simp
  have mem: "?f \<in> set (detail_fields ex_plan_lib [] (pathSegments []) ex_block)" by code_simp
  have "yKind (ymap [(''data'', ymap [(''password'', yscalar ''aHVudGVyMg=='')])]) = MappingNode" by (simp add: ymap_def)
  with secret_block_unmasked [of ex_plan_lib ex_block _ ?f] root mem show ?thesis by (auto simp: ex_block_def)
qed

end
