(* ===== verification/Drift.thy ===== *)
theory Drift
  imports Plan_Diff
begin

text \<open>
  Drift detection (\<open>internal/drift/drift.go\<close>): each resource of the rendered manifest is compared
  with its live state through a server-side prediction, and the fields that the plan itself
  changes are subtracted. The prediction is a Kubernetes call: the operations take it as a
  function from a resource to a result.
\<close>

section \<open>Operations\<close>

record Result =
  d_Changes :: "Change list"
  d_Incomplete :: "string list"

definition HasDrift :: "Result option \<Rightarrow> bool" where
  "HasDrift r = (case r of None \<Rightarrow> False | Some r \<Rightarrow> d_Changes r \<noteq> [])"

definition resourceLabel :: "string \<Rightarrow> string \<Rightarrow> string \<Rightarrow> string" where
  "resourceLabel kind namespace name =
     (if namespace = [] then kind @ ''/'' @ name else kind @ ''/'' @ namespace @ ''/'' @ name)"

definition change_label :: "Change \<Rightarrow> string" where
  "change_label c = resourceLabel (ch_Kind c) (ch_Namespace c) (ch_Name c)"

definition addedLabels :: "Plan \<Rightarrow> bool gomap" where
  "addedLabels specPlan =
     fold (\<lambda>c out. if ch_Action c = ActionAdd then gm_put (change_label c) True out else out) (p_Changes specPlan) []"

definition explainedPaths :: "Plan \<Rightarrow> string list gomap" where
  "explainedPaths specPlan = fold (\<lambda>c. gm_put (change_label c) (map fd_Path (ch_Fields c))) (p_Changes specPlan) []"

text \<open>A missing entry of the explained paths is a nil map, in which every lookup misses.\<close>

definition driftOnlyChange :: "Plan \<Rightarrow> string list \<Rightarrow> Change option" where
  "driftOnlyChange tot explained =
     (case p_Changes tot of
        [] \<Rightarrow> None
      | c # _ \<Rightarrow>
          let remaining = filter (\<lambda>f. fd_Path f \<notin> set explained) (ch_Fields c) in
          if remaining = [] then None else Some (c\<lparr>ch_Fields := remaining\<rparr>))"

text \<open>
  What checking one resource adds to the result. \<open>predict\<close> gives the predicted and the live
  manifest of the resource, or the text of its error; \<open>diff_text\<close> is the text of an error of the
  comparison.
\<close>

definition check_resource ::
  "'e plan_lib \<Rightarrow> ('e plan_error \<Rightarrow> string) \<Rightarrow> (string \<Rightarrow> (string, string \<times> string) result) \<Rightarrow> bool gomap
     \<Rightarrow> string list gomap \<Rightarrow> ResourceYAML \<Rightarrow> Result \<Rightarrow> Result" where
  "check_resource L diff_text predict adding explained res r =
     (if gm_get_or False adding (ry_Label res) then r
      else
        case predict (ry_YAML res) of
          Inl e \<Rightarrow> r\<lparr>d_Incomplete := d_Incomplete r @ [ry_Label res @ '': '' @ e]\<rparr>
        | Inr (predicted, live) \<Rightarrow>
            if live = [] then r
            else
              case ComputeDiff L predicted live of
                Inl e \<Rightarrow> r\<lparr>d_Incomplete := d_Incomplete r @ [ry_Label res @ '': '' @ diff_text e]\<rparr>
              | Inr tot \<Rightarrow>
                  (case driftOnlyChange tot (gm_get_or [] explained (ry_Label res)) of
                     None \<Rightarrow> r
                   | Some c \<Rightarrow> r\<lparr>d_Changes := d_Changes r @ [c]\<rparr>))"

definition ComputeDrift ::
  "'e plan_lib \<Rightarrow> ('e plan_error \<Rightarrow> string) \<Rightarrow> (string \<Rightarrow> (string, string \<times> string) result) \<Rightarrow> Plan \<Rightarrow> string
     \<Rightarrow> ('e plan_error, Result) result" where
  "ComputeDrift L diff_text predict specPlan currentManifest =
     (if h_FreshInstall (p_Header specPlan) then Inr \<lparr>d_Changes = [], d_Incomplete = []\<rparr>
      else
        case SplitResources L currentManifest of
          Inl e \<Rightarrow> Inl (SplitManifest e)
        | Inr resources \<Rightarrow>
            Inr (fold (check_resource L diff_text predict (addedLabels specPlan) (explainedPaths specPlan))
                   resources \<lparr>d_Changes = [], d_Incomplete = []\<rparr>))"

section \<open>What is reported as drift\<close>

text \<open>The drift and the gaps one resource contributes.\<close>

definition drift_of ::
  "'e plan_lib \<Rightarrow> (string \<Rightarrow> (string, string \<times> string) result) \<Rightarrow> bool gomap \<Rightarrow> string list gomap
     \<Rightarrow> ResourceYAML \<Rightarrow> Change list" where
  "drift_of L predict adding explained res =
     (if gm_get_or False adding (ry_Label res) then []
      else
        case predict (ry_YAML res) of
          Inl e \<Rightarrow> []
        | Inr (predicted, live) \<Rightarrow>
            if live = [] then []
            else
              case ComputeDiff L predicted live of
                Inl e \<Rightarrow> []
              | Inr tot \<Rightarrow>
                  (case driftOnlyChange tot (gm_get_or [] explained (ry_Label res)) of None \<Rightarrow> [] | Some c \<Rightarrow> [c]))"

definition not_checked ::
  "'e plan_lib \<Rightarrow> (string \<Rightarrow> (string, string \<times> string) result) \<Rightarrow> bool gomap \<Rightarrow> ResourceYAML \<Rightarrow> bool" where
  "not_checked L predict adding res =
     (\<not> gm_get_or False adding (ry_Label res)
      \<and> (case predict (ry_YAML res) of
           Inl e \<Rightarrow> True
         | Inr (predicted, live) \<Rightarrow> live \<noteq> [] \<and> \<not> is_ok (ComputeDiff L predicted live)))"

lemma check_resource_parts:
  "d_Changes (check_resource L dt predict adding explained res r) = d_Changes r @ drift_of L predict adding explained res"
  "length (d_Incomplete (check_resource L dt predict adding explained res r))
     = length (d_Incomplete r) + (if not_checked L predict adding res then 1 else 0)"
  by (auto simp: check_resource_def drift_of_def not_checked_def split: sum.split option.split)

lemma fold_check_resource:
  "d_Changes (fold (check_resource L dt predict adding explained) rs r)
     = d_Changes r @ concat (map (drift_of L predict adding explained) rs)"
  "length (d_Incomplete (fold (check_resource L dt predict adding explained) rs r))
     = length (d_Incomplete r) + length (filter (not_checked L predict adding) rs)"
  by (induction rs arbitrary: r) (simp_all add: check_resource_parts)

lemma gm_get_added:
  "gm_get_or False (addedLabels p) l = (\<exists>c \<in> set (p_Changes p). ch_Action c = ActionAdd \<and> change_label c = l)"
proof -
  have "gm_get_or False (fold (\<lambda>c out. if ch_Action c = ActionAdd then gm_put (change_label c) True out else out) cs m) l
      = (gm_get_or False m l \<or> (\<exists>c \<in> set cs. ch_Action c = ActionAdd \<and> change_label c = l))" for cs m
    by (induction cs arbitrary: m) auto
  from this [of "p_Changes p" "[]"] show ?thesis by (simp add: addedLabels_def gm_get_or_def)
qed

lemma gm_get_explained:
  assumes "distinct (map change_label (p_Changes p))"
  shows "path \<in> set (gm_get_or [] (explainedPaths p) l)
    \<longleftrightarrow> (\<exists>c \<in> set (p_Changes p). change_label c = l \<and> path \<in> fd_Path ` set (ch_Fields c))"
proof -
  have "path \<in> set (gm_get_or [] (fold (\<lambda>c. gm_put (change_label c) (map fd_Path (ch_Fields c))) cs m) l)
      \<longleftrightarrow> (\<exists>c \<in> set cs. change_label c = l \<and> path \<in> fd_Path ` set (ch_Fields c))
         \<or> (l \<notin> change_label ` set cs \<and> path \<in> set (gm_get_or [] m l))"
    if "distinct (map change_label cs)" for cs m
    using that
  proof (induction cs arbitrary: m)
    case (Cons c cs)
    then have IH: "path \<in> set (gm_get_or [] (fold (\<lambda>c. gm_put (change_label c) (map fd_Path (ch_Fields c))) cs m') l)
      \<longleftrightarrow> (\<exists>c \<in> set cs. change_label c = l \<and> path \<in> fd_Path ` set (ch_Fields c))
         \<or> (l \<notin> change_label ` set cs \<and> path \<in> set (gm_get_or [] m' l))" for m' by simp
    show ?case
    proof (cases "l = change_label c")
      case True
      with Cons.prems have "l \<notin> change_label ` set cs" by simp
      moreover from this have "\<not> (\<exists>c' \<in> set cs. change_label c' = l \<and> path \<in> fd_Path ` set (ch_Fields c'))" by blast
      ultimately show ?thesis by (simp add: IH True [symmetric]) blast
    next
      case False
      then show ?thesis by (simp add: IH)
    qed
  qed simp
  from this [OF assms, of "[]"] show ?thesis by (simp add: explainedPaths_def gm_get_or_def)
qed

text \<open>The fields that differ between the prediction and the live state of one resource.\<close>

definition live_differences ::
  "'e plan_lib \<Rightarrow> (string \<Rightarrow> (string, string \<times> string) result) \<Rightarrow> ResourceYAML \<Rightarrow> FieldDiff list" where
  "live_differences L predict res =
     (case predict (ry_YAML res) of
        Inl e \<Rightarrow> []
      | Inr (predicted, live) \<Rightarrow>
          if live = [] then []
          else
            case ComputeDiff L predicted live of
              Inl e \<Rightarrow> []
            | Inr tot \<Rightarrow> (case p_Changes tot of [] \<Rightarrow> [] | c # _ \<Rightarrow> ch_Fields c))"

lemma driftOnlyChange_fields:
  "(\<exists>c. driftOnlyChange tot explained = Some c \<and> f \<in> set (ch_Fields c))
   \<longleftrightarrow> f \<in> set (case p_Changes tot of [] \<Rightarrow> [] | c # _ \<Rightarrow> ch_Fields c) \<and> fd_Path f \<notin> set explained"
  by (cases "p_Changes tot") (auto simp: driftOnlyChange_def Let_def filter_empty_conv)

lemma drift_of_fields:
  "(\<exists>c \<in> set (drift_of L predict adding explained res). f \<in> set (ch_Fields c))
   \<longleftrightarrow> \<not> gm_get_or False adding (ry_Label res) \<and> f \<in> set (live_differences L predict res)
      \<and> fd_Path f \<notin> set (gm_get_or [] explained (ry_Label res))"
proof (cases "predict (ry_YAML res)")
  case (Inr pl)
  obtain predicted live where pl: "pl = (predicted, live)" by (cases pl)
  have opt: "(\<exists>c \<in> set (case o' of None \<Rightarrow> [] | Some c \<Rightarrow> [c]). P c) = (\<exists>c. o' = Some c \<and> P c)" for o' and P :: "Change \<Rightarrow> bool"
    by (cases o') auto
  show ?thesis
  proof (cases "ComputeDiff L predicted live")
    case (Inr tot)
    then show ?thesis
      using \<open>predict (ry_YAML res) = Inr pl\<close>
        driftOnlyChange_fields [of tot "gm_get_or [] explained (ry_Label res)" f]
      by (simp add: drift_of_def live_differences_def pl opt) metis
  qed (simp add: drift_of_def live_differences_def Inr pl)
qed (simp add: drift_of_def live_differences_def)

text \<open>
  C31: drift is exactly what the plan does not explain. On an existing release, a field is
  reported as drift iff it differs between the prediction and the live state of a resource that
  the plan does not add, and no change the plan lists for that resource has the path of the
  field; and nothing is listed as incomplete iff every resource could be predicted and compared.
\<close>

theorem drift_exact:
  assumes "SplitResources L m = Inr resources" and "\<not> h_FreshInstall (p_Header p)"
    and "distinct (map change_label (p_Changes p))" and "ComputeDrift L diff_text predict p m = Inr r"
  shows "((\<exists>c \<in> set (d_Changes r). f \<in> set (ch_Fields c))
      \<longleftrightarrow> (\<exists>res \<in> set resources. f \<in> set (live_differences L predict res)
            \<and> \<not> (\<exists>c \<in> set (p_Changes p). change_label c = ry_Label res
                    \<and> (ch_Action c = ActionAdd \<or> fd_Path f \<in> fd_Path ` set (ch_Fields c)))))
    \<and> (d_Incomplete r = [] \<longleftrightarrow> (\<forall>res \<in> set resources. \<not> not_checked L predict (addedLabels p) res))"
proof -
  have r: "r = fold (check_resource L diff_text predict (addedLabels p) (explainedPaths p)) resources
      \<lparr>d_Changes = [], d_Incomplete = []\<rparr>"
    using assms(1,2,4) by (simp add: ComputeDrift_def)
  have ch: "d_Changes r = concat (map (drift_of L predict (addedLabels p) (explainedPaths p)) resources)"
    unfolding r fold_check_resource by simp
  have "length (d_Incomplete r) = length (filter (not_checked L predict (addedLabels p)) resources)"
    unfolding r fold_check_resource by simp
  then have "d_Incomplete r = [] \<longleftrightarrow> (\<forall>res \<in> set resources. \<not> not_checked L predict (addedLabels p) res)"
    by (metis filter_empty_conv length_0_conv)
  moreover have "(\<exists>c \<in> set (d_Changes r). f \<in> set (ch_Fields c))
      \<longleftrightarrow> (\<exists>res \<in> set resources. \<exists>c \<in> set (drift_of L predict (addedLabels p) (explainedPaths p) res). f \<in> set (ch_Fields c))"
    unfolding ch by auto
  ultimately show ?thesis
    unfolding drift_of_fields gm_get_added gm_get_explained [OF assms(3)] by blast
qed

text \<open>The cluster has scaled the web Deployment, which the plan of the example changes anyway.\<close>

definition ex_live :: "string \<Rightarrow> (string, string \<times> string) result" where
  "ex_live y = Inr (''new'', ''old'')"

theorem drift_exact_witness:
  "\<exists>p r. ComputeDiff ex_plan_lib ''old'' ''new'' = Inr p \<and> ComputeDrift ex_plan_lib (\<lambda>_. []) ex_live p ''new'' = Inr r
     \<and> d_Incomplete r = []"
proof -
  have "(case ComputeDiff ex_plan_lib ''old'' ''new'' of Inl _ \<Rightarrow> False
      | Inr p \<Rightarrow> \<not> h_FreshInstall (p_Header p) \<and> distinct (map change_label (p_Changes p))
          \<and> is_ok (ComputeDrift ex_plan_lib (\<lambda>_. []) ex_live p ''new'')
          \<and> (case SplitResources ex_plan_lib ''new'' of Inl _ \<Rightarrow> False
             | Inr rs \<Rightarrow> list_all (\<lambda>res. \<not> not_checked ex_plan_lib ex_live (addedLabels p) res) rs))" by code_simp
  then obtain p r rs where "ComputeDiff ex_plan_lib ''old'' ''new'' = Inr p" "\<not> h_FreshInstall (p_Header p)"
    "distinct (map change_label (p_Changes p))" "ComputeDrift ex_plan_lib (\<lambda>_. []) ex_live p ''new'' = Inr r"
    "SplitResources ex_plan_lib ''new'' = Inr rs" "list_all (\<lambda>res. \<not> not_checked ex_plan_lib ex_live (addedLabels p) res) rs"
    by (auto simp: is_ok_iff split: sum.splits)
  with drift_exact [of ex_plan_lib "''new''" rs p "\<lambda>_. []" ex_live r] show ?thesis by (auto simp: list_all_iff)
qed

end
