(* ===== verification/Workload.thy ===== *)
theory Workload
  imports Resolve Plan_Diff
begin

text \<open>
  The deploy-time guards that compare a spec with the previous release
  (\<open>internal/cmd/deploy/guards.go\<close>, the hostname guard of \<open>deploy.go\<close> and the resize detection of
  \<open>resize.go\<close>). The previous release is known through its chart values, a tree of untyped
  values. Messages are values of a datatype; the code sorts their texts before it prints them.
\<close>

section \<open>The previous release\<close>

text \<open>The type assertions \<open>v.(map[string]any)\<close> and \<open>v.(string)\<close> on a looked-up value.\<close>

definition get_map :: "jval gomap \<Rightarrow> string \<Rightarrow> jval gomap option" where
  "get_map m k = (case gm_get m k of Some (JObj kvs) \<Rightarrow> Some kvs | _ \<Rightarrow> None)"

definition get_str :: "jval gomap \<Rightarrow> string \<Rightarrow> string option" where
  "get_str m k = (case gm_get m k of Some (JStr s) \<Rightarrow> Some s | _ \<Rightarrow> None)"

definition components_block :: "jval gomap \<Rightarrow> jval gomap option" where
  "components_block values =
     (case get_map values ''deployah'' of
        None \<Rightarrow> None
      | Some d \<Rightarrow> (case get_map d ''resolved'' of None \<Rightarrow> None | Some r \<Rightarrow> get_map r ''components''))"

definition previousResolvedComponents :: "jval gomap \<Rightarrow> jval gomap gomap" where
  "previousResolvedComponents chartValues =
     (case components_block chartValues of
        None \<Rightarrow> []
      | Some cs \<Rightarrow> fold (\<lambda>(name, raw) out. case raw of JObj m \<Rightarrow> gm_put name m out | _ \<Rightarrow> out) cs [])"

text \<open>
  \<open>chart\<close> gives the values of the chart of a release, when the release has a chart.
\<close>

definition loadPreviousResolvedComponents ::
  "'e history \<Rightarrow> (Release \<Rightarrow> jval gomap option) \<Rightarrow> ('e, jval gomap gomap) result" where
  "loadPreviousResolvedComponents h chart =
     (case LastSuccessfulRelease h of
        Inl e \<Rightarrow> Inl e
      | Inr (None, _) \<Rightarrow> Inr []
      | Inr (Some rel, _) \<Rightarrow> (case chart rel of None \<Rightarrow> Inr [] | Some values \<Rightarrow> Inr (previousResolvedComponents values)))"

section \<open>Workload guards\<close>

definition componentActiveInEnv :: "'q Component \<Rightarrow> string \<Rightarrow> bool" where
  "componentActiveInEnv component environment =
     (c_Environments component = [] \<or> matchEnvKey environment (c_Environments component) \<noteq> None)"

definition hasStatefulWithPersistence :: "'q Spec \<Rightarrow> string \<Rightarrow> bool" where
  "hasStatefulWithPersistence manifest environment =
     list_ex (\<lambda>(_, component). componentActiveInEnv component environment
        \<and> c_Kind component = ComponentKindStateful \<and> c_Persistence component \<noteq> None) (s_Components manifest)"

datatype size_error = ParsePreviousSize string | ParseNewSize string

definition persistenceSizeDecreased :: "'q k8s_lib \<Rightarrow> string \<Rightarrow> string \<Rightarrow> (size_error, bool) result" where
  "persistenceSizeDecreased L prev next_size =
     (case q_Parse L prev of
        None \<Rightarrow> Inl (ParsePreviousSize prev)
      | Some prevQ \<Rightarrow>
          (case q_Parse L next_size of
             None \<Rightarrow> Inl (ParseNewSize next_size)
           | Some nextQ \<Rightarrow> Inr (q_Cmp L nextQ prevQ < 0)))"

datatype guard_error =
    KindChanged string string
  | RoleChanged string string
  | PersistenceAdded
  | PersistenceRemoved
  | SizeUnreadable size_error
  | SizeDecreased string string

definition wantKind :: "'q Component \<Rightarrow> string" where
  "wantKind component = (if c_Kind component = ComponentKindStateful then ''StatefulSet'' else ''Deployment'')"

definition wantRole :: "'q Component \<Rightarrow> string" where
  "wantRole component = (if c_Role component = [] then ComponentRoleService else c_Role component)"

definition prevRole :: "jval gomap \<Rightarrow> string" where
  "prevRole prev =
     (case get_str prev ''role'' of
        None \<Rightarrow> ComponentRoleService
      | Some r \<Rightarrow> if r = [] then ComponentRoleService else r)"

definition str_or :: "string option \<Rightarrow> string" where
  "str_or s = (case s of None \<Rightarrow> [] | Some s \<Rightarrow> s)"

text \<open>What the guards say about one component that the previous release had as well.\<close>

definition component_guards :: "'q k8s_lib \<Rightarrow> 'q Component \<Rightarrow> jval gomap \<Rightarrow> guard_error list" where
  "component_guards L component prev =
     (let prevKind = str_or (get_str prev ''workloadKind'');
          prevSize = str_or (get_str prev ''persistenceSize'');
          prevHad = prevSize \<noteq> [];
          nowHas = c_Persistence component \<noteq> None in
      (if prevKind \<noteq> [] \<and> prevKind \<noteq> wantKind component then [KindChanged prevKind (wantKind component)] else [])
      @ (if prevRole prev \<noteq> wantRole component then [RoleChanged (prevRole prev) (wantRole component)] else [])
      @ (if (wantKind component = ''StatefulSet'' \<or> prevKind = ''StatefulSet'') \<and> prevHad \<noteq> nowHas
         then (if \<not> prevHad \<and> nowHas then [PersistenceAdded] else [PersistenceRemoved]) else [])
      @ (case c_Persistence component of
           None \<Rightarrow> []
         | Some p \<Rightarrow>
             if prevSize = [] then []
             else
               case persistenceSizeDecreased L prevSize (p_Size p) of
                 Inl e \<Rightarrow> [SizeUnreadable e]
               | Inr decreased \<Rightarrow> if decreased then [SizeDecreased prevSize (p_Size p)] else []))"

definition checkWorkloadGuards ::
  "'q k8s_lib \<Rightarrow> 'q Spec \<Rightarrow> string \<Rightarrow> jval gomap gomap \<Rightarrow> (string \<times> guard_error) list" where
  "checkWorkloadGuards L manifest environment prevResolved =
     concat (map (\<lambda>(name, component).
       if \<not> componentActiveInEnv component environment then []
       else
         case gm_get prevResolved name of
           None \<Rightarrow> []
         | Some prev \<Rightarrow> map (Pair name) (component_guards L component prev)) (s_Components manifest))"

datatype workload_warning =
    RetainsVolumes
  | ExposedReplicas
  | MountPathChanged string string

definition effective_replicas :: "'q Component \<Rightarrow> int" where
  "effective_replicas component =
     (let replicas = (case c_Replicas component of None \<Rightarrow> 1 | Some r \<Rightarrow> r) in
      case c_Autoscaling component of
        None \<Rightarrow> replicas
      | Some a \<Rightarrow> if as_Enabled a \<and> as_MaxReplicas a > replicas then as_MaxReplicas a else replicas)"

definition component_warnings :: "'q Component \<Rightarrow> jval gomap option \<Rightarrow> workload_warning list" where
  "component_warnings component prev =
     (if c_Kind component = ComponentKindStateful
      then
        (if c_Persistence component \<noteq> None \<and> (\<exists>a \<in> set_option (c_Autoscaling component). as_Enabled a) then [RetainsVolumes] else [])
        @ (if c_Expose component \<noteq> None \<and> effective_replicas component > 1 then [ExposedReplicas] else [])
      else [])
     @ (case (c_Persistence component, prev) of
          (Some p, Some m) \<Rightarrow>
            let prevMount = str_or (get_str m ''persistenceMountPath'') in
            if prevMount \<noteq> [] \<and> prevMount \<noteq> p_MountPath p then [MountPathChanged prevMount (p_MountPath p)] else []
        | _ \<Rightarrow> [])"

definition emitWorkloadWarnings ::
  "'q Spec \<Rightarrow> string \<Rightarrow> jval gomap gomap \<Rightarrow> (string \<times> workload_warning) list" where
  "emitWorkloadWarnings manifest environment prevResolved =
     concat (map (\<lambda>(name, component).
       if \<not> componentActiveInEnv component environment then []
       else map (Pair name) (component_warnings component (gm_get prevResolved name))) (s_Components manifest))"

section \<open>Hostname guard\<close>

definition hostnameChanges :: "jval gomap \<Rightarrow> 'q ResolvedSpec \<Rightarrow> (string \<times> string \<times> string) list" where
  "hostnameChanges config resolved =
     (case components_block config of
        None \<Rightarrow> []
      | Some block \<Rightarrow>
          concat (map (\<lambda>(compName, rc).
            if rc_FQDN rc = [] then []
            else
              case get_map block compName of
                None \<Rightarrow> []
              | Some prevComp \<Rightarrow>
                  (case get_str prevComp ''fqdn'' of
                     None \<Rightarrow> []
                   | Some prevFQDN \<Rightarrow>
                       if prevFQDN \<noteq> [] \<and> prevFQDN \<noteq> rc_FQDN rc then [(compName, prevFQDN, rc_FQDN rc)] else []))
            (rs_Components resolved)))"

datatype 'e hostname_error = HostnameHistory 'e | HostnameChanged "(string \<times> string \<times> string) list"

text \<open>\<open>force\<close> turns the block into warnings: the second component of the result.\<close>

definition checkHostnameGuard ::
  "'e history \<Rightarrow> (Release \<Rightarrow> jval gomap option) \<Rightarrow> 'q ResolvedSpec \<Rightarrow> bool
     \<Rightarrow> ('e hostname_error, (string \<times> string \<times> string) list) result" where
  "checkHostnameGuard h chart resolved force =
     (case LastSuccessfulRelease h of
        Inl e \<Rightarrow> Inl (HostnameHistory e)
      | Inr (None, _) \<Rightarrow> Inr []
      | Inr (Some rel, _) \<Rightarrow>
          let changed = hostnameChanges (case chart rel of None \<Rightarrow> [] | Some v \<Rightarrow> v) resolved in
          if changed = [] then Inr []
          else if force then Inr changed
          else Inl (HostnameChanged changed))"

section \<open>Volume growth\<close>

record persistenceResize =
  z_Component :: string
  z_PreviousSize :: string
  z_NewSize :: string
  z_StorageClass :: string
  z_Stateful :: bool

definition component_resize ::
  "'q k8s_lib \<Rightarrow> 'q ResolvedSpec option \<Rightarrow> jval gomap gomap \<Rightarrow> string \<Rightarrow> 'q Component \<Rightarrow> persistenceResize list" where
  "component_resize L resolved prevResolved name component =
     (case (c_Persistence component, gm_get prevResolved name) of
        (Some p, Some prev) \<Rightarrow>
          (case get_str prev ''persistenceSize'' of
             None \<Rightarrow> []
           | Some prevSize \<Rightarrow>
               if prevSize = [] \<or> prevSize = p_Size p then []
               else if persistenceSizeDecreased L prevSize (p_Size p) \<noteq> Inr False then []
               else
                 [\<lparr>z_Component = name, z_PreviousSize = prevSize, z_NewSize = p_Size p,
                   z_StorageClass = (case resolved of None \<Rightarrow> []
                     | Some r \<Rightarrow> (case gm_get (rs_Components r) name of None \<Rightarrow> [] | Some rc \<Rightarrow> rc_StorageClass rc)),
                   z_Stateful = (c_Kind component = ComponentKindStateful)\<rparr>])
      | _ \<Rightarrow> [])"

definition detectPersistenceResizes ::
  "'q k8s_lib \<Rightarrow> 'q Spec \<Rightarrow> string \<Rightarrow> 'q ResolvedSpec option \<Rightarrow> jval gomap gomap \<Rightarrow> persistenceResize list" where
  "detectPersistenceResizes L manifest environment resolved prevResolved =
     sort_key z_Component
       (concat (map (\<lambda>(name, component).
          if \<not> componentActiveInEnv component environment \<or> c_Persistence component = None then []
          else component_resize L resolved prevResolved name component) (s_Components manifest)))"

definition hasStatefulResize :: "persistenceResize list \<Rightarrow> bool" where
  "hasStatefulResize resizes = list_ex z_Stateful resizes"

text \<open>The error of \<open>requireResizeFlag\<close>: the growths, and whether the hint mentions StatefulSets.\<close>

definition requireResizeFlag ::
  "persistenceResize list \<Rightarrow> bool \<Rightarrow> ((string \<times> string \<times> string) list \<times> bool) check" where
  "requireResizeFlag resizes enabled =
     (if resizes = [] \<or> enabled then None
      else Some (map (\<lambda>r. (z_Component r, z_PreviousSize r, z_NewSize r)) resizes, hasStatefulResize resizes))"

section \<open>What the guards guarantee\<close>

lemma checkWorkloadGuards_Nil:
  "checkWorkloadGuards L manifest environment prevResolved = [] \<longleftrightarrow>
     (\<forall>(name, c) \<in> set (s_Components manifest). componentActiveInEnv c environment \<longrightarrow>
        (\<forall>prev. gm_get prevResolved name = Some prev \<longrightarrow> component_guards L c prev = []))"
  by (fastforce simp: checkWorkloadGuards_def split: option.splits)

lemma component_guards_kind:
  assumes "component_guards L c prev = []"
  shows "get_str prev ''workloadKind'' \<in> {None, Some [], Some (wantKind c)}" and "prevRole prev = wantRole c"
  using assms by (auto simp: component_guards_def Let_def str_or_def split: option.splits if_splits)

lemma component_guards_persistence:
  assumes "component_guards L c prev = []" and "wantKind c = ''StatefulSet'' \<or> get_str prev ''workloadKind'' = Some ''StatefulSet''"
  shows "(c_Persistence c \<noteq> None) = (str_or (get_str prev ''persistenceSize'') \<noteq> [])"
  using assms by (auto simp: component_guards_def Let_def str_or_def split: option.splits if_splits)

lemma component_guards_size:
  assumes "component_guards L c prev = []" and "c_Persistence c = Some p"
    and "get_str prev ''persistenceSize'' = Some old" and "old \<noteq> []"
  shows "\<exists>oq nq. q_Parse L old = Some oq \<and> q_Parse L (p_Size p) = Some nq \<and> 0 \<le> q_Cmp L nq oq"
  using assms by (auto simp: component_guards_def Let_def str_or_def persistenceSizeDecreased_def split: option.splits if_splits)

lemma detect_mem:
  "z \<in> set (detectPersistenceResizes L manifest environment resolved prevResolved) \<longleftrightarrow>
     (\<exists>(name, c) \<in> set (s_Components manifest). componentActiveInEnv c environment
        \<and> z \<in> set (component_resize L resolved prevResolved name c))"
proof -
  have "z \<in> set (component_resize L resolved prevResolved name c) \<Longrightarrow> c_Persistence c \<noteq> None" for name c
    by (cases "c_Persistence c") (simp_all add: component_resize_def)
  then show ?thesis
    unfolding detectPersistenceResizes_def set_sort set_concat_map by (simp add: split_def) metis
qed

lemma growth_flagged:
  assumes "requireResizeFlag (detectPersistenceResizes L manifest environment resolved prevResolved) enabled = None"
    and "(name, c) \<in> set (s_Components manifest)" and "componentActiveInEnv c environment"
    and "gm_get prevResolved name = Some prev" and "c_Persistence c = Some p"
    and "get_str prev ''persistenceSize'' = Some old" and "old \<noteq> []" and "p_Size p \<noteq> old"
    and "persistenceSizeDecreased L old (p_Size p) = Inr False"
  shows "enabled \<and> (\<exists>z \<in> set (detectPersistenceResizes L manifest environment resolved prevResolved).
      z_Component z = name \<and> z_PreviousSize z = old \<and> z_NewSize z = p_Size p)"
proof -
  have "\<exists>z. z \<in> set (component_resize L resolved prevResolved name c)
      \<and> z_Component z = name \<and> z_PreviousSize z = old \<and> z_NewSize z = p_Size p"
    using assms(8) [symmetric] assms(4-7,9) by (simp add: component_resize_def)
  then obtain z where "z \<in> set (component_resize L resolved prevResolved name c)"
    and z: "z_Component z = name" "z_PreviousSize z = old" "z_NewSize z = p_Size p" by blast
  then have mem: "z \<in> set (detectPersistenceResizes L manifest environment resolved prevResolved)"
    using assms(2,3) by (auto simp: detect_mem)
  with assms(1) have enabled by (auto simp: requireResizeFlag_def split: if_splits)
  with mem z show ?thesis by blast
qed

text \<open>
  C26: no deployment shrinks a volume, grows one unasked or turns a component into another kind. When
  the workload guards pass and the check of the resize flag passes, every active component of the
  previous release keeps its workload kind (where it is recorded) and its role; a StatefulSet neither
  gains nor loses persistence; and where the component has persistence and a size is recorded, the
  new size is at least the recorded one: it is written the same, or volume resizing was enabled and the
  component is among the volumes to grow.
\<close>

theorem volumes_never_shrink:
  assumes "checkWorkloadGuards L manifest environment prevResolved = []"
    and "requireResizeFlag (detectPersistenceResizes L manifest environment resolved prevResolved) enabled = None"
    and "(name, c) \<in> set (s_Components manifest)" and "componentActiveInEnv c environment"
    and "gm_get prevResolved name = Some prev"
  shows "get_str prev ''workloadKind'' \<in> {None, Some [], Some (wantKind c)} \<and> prevRole prev = wantRole c
    \<and> (wantKind c = ''StatefulSet'' \<longrightarrow> (c_Persistence c \<noteq> None) = (str_or (get_str prev ''persistenceSize'') \<noteq> []))
    \<and> (\<forall>p old. c_Persistence c = Some p \<and> get_str prev ''persistenceSize'' = Some old \<and> old \<noteq> [] \<longrightarrow>
         (\<exists>oq nq. q_Parse L old = Some oq \<and> q_Parse L (p_Size p) = Some nq \<and> 0 \<le> q_Cmp L nq oq)
         \<and> (p_Size p = old \<or> enabled \<and> (\<exists>z \<in> set (detectPersistenceResizes L manifest environment resolved prevResolved).
              z_Component z = name \<and> z_PreviousSize z = old \<and> z_NewSize z = p_Size p)))"
proof -
  from assms(1,3-5) have ok: "component_guards L c prev = []" by (auto simp: checkWorkloadGuards_Nil)
  have "(\<exists>oq nq. q_Parse L old = Some oq \<and> q_Parse L (p_Size p) = Some nq \<and> 0 \<le> q_Cmp L nq oq)
      \<and> (p_Size p = old \<or> enabled \<and> (\<exists>z \<in> set (detectPersistenceResizes L manifest environment resolved prevResolved).
           z_Component z = name \<and> z_PreviousSize z = old \<and> z_NewSize z = p_Size p))"
    if p: "c_Persistence c = Some p" and old: "get_str prev ''persistenceSize'' = Some old" "old \<noteq> []" for p old
  proof -
    from component_guards_size [OF ok p old] obtain oq nq
      where q: "q_Parse L old = Some oq" "q_Parse L (p_Size p) = Some nq" "0 \<le> q_Cmp L nq oq" by blast
    then have "persistenceSizeDecreased L old (p_Size p) = Inr False" by (simp add: persistenceSizeDecreased_def)
    with growth_flagged [OF assms(2-5) p old] q show ?thesis by blast
  qed
  with component_guards_kind [OF ok] component_guards_persistence [OF ok] show ?thesis by blast
qed

text \<open>
  what may change between two releases of a component. The guards accept an active component
  of the previous release iff its workload kind (when recorded) and its role stay, a StatefulSet
  neither gains nor loses persistence, and a recorded size is readable and not decreased.
\<close>

theorem workload_guards_iff:
  fixes L :: "'q k8s_lib"
  shows "checkWorkloadGuards L manifest environment prevResolved = [] \<longleftrightarrow>
     (\<forall>(name, c) \<in> set (s_Components manifest). componentActiveInEnv c environment \<longrightarrow>
        (\<forall>prev. gm_get prevResolved name = Some prev \<longrightarrow>
           get_str prev ''workloadKind'' \<in> {None, Some [], Some (wantKind c)}
           \<and> prevRole prev = wantRole c
           \<and> (wantKind c = ''StatefulSet'' \<longrightarrow>
                (c_Persistence c \<noteq> None) = (str_or (get_str prev ''persistenceSize'') \<noteq> []))
           \<and> (\<forall>p old. c_Persistence c = Some p \<longrightarrow> get_str prev ''persistenceSize'' = Some old \<longrightarrow> old \<noteq> [] \<longrightarrow>
                persistenceSizeDecreased L old (p_Size p) = Inr False)))"
proof -
  have kinds: "wantKind c \<in> {''StatefulSet'', ''Deployment''}" for c :: "'q Component" by (simp add: wantKind_def)
  have "component_guards L c prev = [] \<longleftrightarrow>
      get_str prev ''workloadKind'' \<in> {None, Some [], Some (wantKind c)} \<and> prevRole prev = wantRole c
      \<and> (wantKind c = ''StatefulSet'' \<longrightarrow> (c_Persistence c \<noteq> None) = (str_or (get_str prev ''persistenceSize'') \<noteq> []))
      \<and> (\<forall>p old. c_Persistence c = Some p \<longrightarrow> get_str prev ''persistenceSize'' = Some old \<longrightarrow> old \<noteq> [] \<longrightarrow>
           persistenceSizeDecreased L old (p_Size p) = Inr False)" for c :: "'q Component" and prev
    using kinds [of c]
    by (auto simp: component_guards_def Let_def str_or_def split: option.splits if_splits sum.splits)
  then show ?thesis unfolding checkWorkloadGuards_Nil by (simp only:)
qed

lemma hostnameChanges_mem:
  assumes "components_block values = Some block"
  shows "(name, old, new) \<in> set (hostnameChanges values resolved) \<longleftrightarrow>
     (\<exists>rc prevComp. (name, rc) \<in> set (rs_Components resolved) \<and> new = rc_FQDN rc \<and> new \<noteq> []
        \<and> get_map block name = Some prevComp \<and> get_str prevComp ''fqdn'' = Some old \<and> old \<noteq> [] \<and> old \<noteq> new)" (is "?l \<longleftrightarrow> ?r")
proof
  assume ?l
  then show ?r using assms by (auto simp: hostnameChanges_def split: if_splits option.splits) metis
next
  assume ?r
  then obtain rc prevComp where r: "(name, rc) \<in> set (rs_Components resolved)" "new = rc_FQDN rc" "new \<noteq> []"
    "get_map block name = Some prevComp" "get_str prevComp ''fqdn'' = Some old" "old \<noteq> []" "old \<noteq> new" by blast
  with assms show ?l by (auto simp: hostnameChanges_def intro!: bexI [OF _ r(1)])
qed

text \<open>
  C40: host names do not move unnoticed. Where the last successful release recorded the resolved
  components, the hostname guard passes without the override flag exactly when every component that is
  still resolved with a host name has the one recorded for it, if any; otherwise its error names
  exactly the components whose host name differs, with the old and the new one, and with the override
  flag the same list becomes the warnings. A component that is no longer resolved, or resolved without a
  host name, does not stop the deployment.
\<close>

theorem hostname_guard_keeps_hosts:
  assumes "LastSuccessfulRelease h = Inr (Some rel, warning)" and "chart rel = Some values"
    and "components_block values = Some block"
  shows "((\<exists>w. checkHostnameGuard h chart resolved False = Inr w) \<longleftrightarrow>
       (\<forall>name rc prevComp old. (name, rc) \<in> set (rs_Components resolved) \<and> rc_FQDN rc \<noteq> []
          \<and> get_map block name = Some prevComp \<and> get_str prevComp ''fqdn'' = Some old \<and> old \<noteq> [] \<longrightarrow> rc_FQDN rc = old))
    \<and> (\<exists>changed. checkHostnameGuard h chart resolved True = Inr changed
         \<and> checkHostnameGuard h chart resolved False = (if changed = [] then Inr [] else Inl (HostnameChanged changed))
         \<and> (\<forall>name old new. (name, old, new) \<in> set changed \<longleftrightarrow>
              (\<exists>rc prevComp. (name, rc) \<in> set (rs_Components resolved) \<and> new = rc_FQDN rc \<and> new \<noteq> []
                 \<and> get_map block name = Some prevComp \<and> get_str prevComp ''fqdn'' = Some old \<and> old \<noteq> [] \<and> old \<noteq> new)))"
proof -
  let ?changed = "hostnameChanges values resolved"
  note mem = hostnameChanges_mem [OF assms(3), of _ _ _ resolved]
  have forced: "checkHostnameGuard h chart resolved True = Inr ?changed"
    and plain: "checkHostnameGuard h chart resolved False = (if ?changed = [] then Inr [] else Inl (HostnameChanged ?changed))"
    using assms(1,2) by (simp_all add: checkHostnameGuard_def Let_def)
  have "(\<exists>w. checkHostnameGuard h chart resolved False = Inr w) \<longleftrightarrow> (\<forall>name old new. (name, old, new) \<notin> set ?changed)"
    unfolding plain by (cases ?changed) auto
  also have "\<dots> \<longleftrightarrow> (\<forall>name rc prevComp old. (name, rc) \<in> set (rs_Components resolved) \<and> rc_FQDN rc \<noteq> []
      \<and> get_map block name = Some prevComp \<and> get_str prevComp ''fqdn'' = Some old \<and> old \<noteq> [] \<longrightarrow> rc_FQDN rc = old)"
    unfolding mem by metis
  finally show ?thesis using forced plain mem by blast
qed

section \<open>Examples\<close>

definition ex_db :: "int Component" where
  "ex_db = zero_Component\<lparr>c_Kind := ComponentKindStateful,
     c_Persistence := Some \<lparr>p_Size = ''10Gi'', p_MountPath = ''/data'', p_StorageClass = []\<rparr>\<rparr>"

definition ex_db_spec :: "int Spec" where
  "ex_db_spec = \<lparr>s_APIVersion = [], s_Project = ''shop'', s_Environments = [], s_Components = [(''db'', ex_db)], s_Tasks = []\<rparr>"

definition ex_db_prev :: "string \<Rightarrow> jval gomap" where
  "ex_db_prev sz = [(''workloadKind'', JStr ''StatefulSet''), (''persistenceSize'', JStr sz), (''fqdn'', JStr ''db.example.com'')]"

theorem volumes_never_shrink_witness:
  "(\<exists>oq nq. q_Parse int_lib ''1Gi'' = Some oq \<and> q_Parse int_lib ''10Gi'' = Some nq \<and> 0 \<le> q_Cmp int_lib nq oq)
   \<and> checkWorkloadGuards int_lib ex_db_spec ''prod'' [(''db'', ex_db_prev ''1Gi'')] = []
   \<and> get_str (ex_db_prev ''1Gi'') ''workloadKind'' = Some (wantKind ex_db)"
proof -
  have g: "checkWorkloadGuards int_lib ex_db_spec ''prod'' [(''db'', ex_db_prev ''1Gi'')] = []" by code_simp
  moreover have "requireResizeFlag (detectPersistenceResizes int_lib ex_db_spec ''prod'' None [(''db'', ex_db_prev ''1Gi'')]) True = None"
    by code_simp
  moreover have "(''db'', ex_db) \<in> set (s_Components ex_db_spec)" "componentActiveInEnv ex_db ''prod''"
    "gm_get [(''db'', ex_db_prev ''1Gi'')] ''db'' = Some (ex_db_prev ''1Gi'')"
    "c_Persistence ex_db = Some \<lparr>p_Size = ''10Gi'', p_MountPath = ''/data'', p_StorageClass = []\<rparr>"
    "get_str (ex_db_prev ''1Gi'') ''persistenceSize'' = Some ''1Gi''" "get_str (ex_db_prev ''1Gi'') ''workloadKind'' = Some ''StatefulSet''" by code_simp+
  ultimately show ?thesis
    using volumes_never_shrink [of int_lib ex_db_spec "''prod''" "[(''db'', ex_db_prev ''1Gi'')]" None True "''db''" ex_db]
    by fastforce
qed

theorem workload_guards_iff_witness:
  "checkWorkloadGuards int_lib ex_db_spec ''prod'' [(''db'', ex_db_prev ''10Gi''@ [(''role'', JStr ''worker'')])] \<noteq> []"
proof -
  let ?prev = "ex_db_prev ''10Gi'' @ [(''role'', JStr ''worker'')]"
  have "(''db'', ex_db) \<in> set (s_Components ex_db_spec)" "componentActiveInEnv ex_db ''prod''"
    "gm_get [(''db'', ?prev)] ''db'' = Some ?prev" "prevRole ?prev \<noteq> wantRole ex_db" by code_simp+
  with workload_guards_iff [of int_lib ex_db_spec "''prod''" "[(''db'', ?prev)]"] show ?thesis by blast
qed

definition ex_db_values :: "jval gomap" where
  "ex_db_values = [(''deployah'', JObj [(''resolved'', JObj [(''components'', JObj [(''db'', JObj (ex_db_prev ''10Gi''))])])])]"

definition ex_db_resolved :: "string \<Rightarrow> int ResolvedSpec" where
  "ex_db_resolved host =
     \<lparr>rs_Spec = ex_db_spec, rs_Env = NormalizeEnv ''prod'', rs_KubeContext = [],
      rs_Components = [(''db'', zero_ResolvedComponent\<lparr>rc_FQDN := host\<rparr>)], rs_Tasks = [], rs_Warnings = []\<rparr>"

theorem hostname_guard_keeps_hosts_witness:
  "\<not> is_ok (checkHostnameGuard (HistoryOk [ex_history ! 0] :: unit history) (\<lambda>_. Some ex_db_values) (ex_db_resolved ''new.example.com'') False)"
proof
  assume "is_ok (checkHostnameGuard (HistoryOk [ex_history ! 0] :: unit history) (\<lambda>_. Some ex_db_values) (ex_db_resolved ''new.example.com'') False)"
  then obtain w where w: "checkHostnameGuard (HistoryOk [ex_history ! 0] :: unit history) (\<lambda>_. Some ex_db_values)
      (ex_db_resolved ''new.example.com'') False = Inr w" by (auto simp: is_ok_iff)
  let ?rc = "zero_ResolvedComponent\<lparr>rc_FQDN := ''new.example.com''\<rparr> :: int ResolvedComponent"
  have f: "LastSuccessfulRelease (HistoryOk [ex_history ! 0] :: unit history) = Inr (Some (ex_history ! 0), NoWarning)"
    "components_block ex_db_values = Some [(''db'', JObj (ex_db_prev ''10Gi''))]"
    "get_map [(''db'', JObj (ex_db_prev ''10Gi''))] ''db'' = Some (ex_db_prev ''10Gi'')"
    "get_str (ex_db_prev ''10Gi'') ''fqdn'' = Some ''db.example.com''" by code_simp+
  have m: "(''db'', ?rc) \<in> set (rs_Components (ex_db_resolved ''new.example.com''))" by (simp add: ex_db_resolved_def)
  have "rc_FQDN ?rc = ''db.example.com''"
    using hostname_guard_keeps_hosts [OF f(1) refl f(2), of "ex_db_resolved ''new.example.com''"] w m f(3,4) by fastforce
  then show False by simp
qed

end
