(* ===== verification/Resize.thy ===== *)
theory Resize
  imports Workload
begin

text \<open>
  Growing volumes (\<open>internal/cmd/deploy/resize.go\<close>): patch the storage request of the volume
  claims, wait until each is expanded, then orphan-delete the StatefulSets whose claim templates
  change. The operations run against a model of the cluster: the volume claims, storage classes
  and StatefulSets of the namespace, and the faults that the next API calls meet. A call that
  fails has no effect. The volume controller is the environment: what a poll sees of the status
  of a claim, and when the wait is over time or cancelled, is a parameter.
\<close>

section \<open>The cluster\<close>

record 'q pvc =
  v_Name :: string
  v_Labels :: "string gomap"
  v_StorageClassName :: "string option"
  v_Request :: 'q

record storage_class =
  g_Name :: string
  g_Annotations :: "string gomap"
  g_AllowVolumeExpansion :: "bool option"

record stateful_set =
  ss_Name :: string
  ss_Labels :: "string gomap"

text \<open>The head of the faults is the outcome of the next call: nothing, or an error.\<close>

record ('q, 'e) cluster =
  k_PVCs :: "'q pvc list"
  k_Classes :: "storage_class list"
  k_StatefulSets :: "stateful_set list"
  k_Faults :: "'e option list"
  k_Poll :: nat

text \<open>
  What a poll finds: the capacity and the pending file-system resize of a claim, whether the
  deadline of a wait that began at a given poll has passed, whether the context is cancelled.
\<close>

record 'q world =
  w_Capacity :: "nat \<Rightarrow> string \<Rightarrow> 'q"
  w_ResizePending :: "nat \<Rightarrow> string \<Rightarrow> bool"
  w_TimedOut :: "nat \<Rightarrow> nat \<Rightarrow> bool"
  w_Cancelled :: "nat \<Rightarrow> bool"

datatype 'e api_error = NotFound | ApiFault 'e

datatype 'e resize_error =
    ClientRequired
  | SizeParse string string
  | PVCGet string "'e api_error"
  | PVCList string 'e
  | NoPVCs string
  | ClassList 'e
  | NoStorageClass string
  | ClassGet string "'e api_error"
  | ExpansionNotAllowed string
  | PVCPatch string 'e
  | WaitGet string "'e api_error"
  | WaitTimeout string
  | WaitCancelled
  | StatefulSetList string 'e
  | StatefulSetNotFound string
  | StatefulSetAmbiguous string nat
  | StatefulSetDelete string 'e

text \<open>An API call: consumes one fault; \<open>act\<close> is what it does when it succeeds.\<close>

definition api_call :: "('q, 'e) cluster \<Rightarrow> (('q, 'e) cluster \<Rightarrow> 'a) \<Rightarrow> ('e \<Rightarrow> ('q, 'e) cluster \<Rightarrow> 'a) \<Rightarrow> 'a" where
  "api_call s act fail =
     (case k_Faults s of
        [] \<Rightarrow> act s
      | None # fs \<Rightarrow> act (s\<lparr>k_Faults := fs\<rparr>)
      | Some e # fs \<Rightarrow> fail e (s\<lparr>k_Faults := fs\<rparr>))"

type_synonym ('q, 'e, 'a) action = "('q, 'e) cluster \<Rightarrow> ('e resize_error, 'a) result \<times> ('q, 'e) cluster"

definition bindA :: "('q, 'e, 'a) action \<Rightarrow> ('a \<Rightarrow> ('q, 'e, 'b) action) \<Rightarrow> ('q, 'e, 'b) action" where
  "bindA m f s = (case m s of (Inl e, s') \<Rightarrow> (Inl e, s') | (Inr x, s') \<Rightarrow> f x s')"

definition returnA :: "'a \<Rightarrow> ('q, 'e, 'a) action" where
  "returnA x s = (Inr x, s)"

definition failA :: "'e resize_error \<Rightarrow> ('q, 'e, 'a) action" where
  "failA e s = (Inl e, s)"

definition get_pvc :: "(string \<Rightarrow> 'e api_error \<Rightarrow> 'e resize_error) \<Rightarrow> string \<Rightarrow> ('q, 'e, 'q pvc) action" where
  "get_pvc err name s =
     api_call s
       (\<lambda>s. (case find (\<lambda>p. v_Name p = name) (k_PVCs s) of None \<Rightarrow> (Inl (err name NotFound), s) | Some p \<Rightarrow> (Inr p, s)))
       (\<lambda>e s. (Inl (err name (ApiFault e)), s))"

text \<open>The label selector \<open>app.kubernetes.io/instance=<release>,deployah.dev/component=<component>\<close>.\<close>

definition LabelComponent :: string where "LabelComponent = ''deployah.dev/component''"

definition selects :: "string \<Rightarrow> string \<Rightarrow> string gomap \<Rightarrow> bool" where
  "selects release component labels =
     (gm_get labels ''app.kubernetes.io/instance'' = Some release \<and> gm_get labels LabelComponent = Some component)"

definition listPVCsByComponentLabels :: "string \<Rightarrow> string \<Rightarrow> ('q, 'e, string list) action" where
  "listPVCsByComponentLabels releaseName component s =
     api_call s
       (\<lambda>s. (Inr (map v_Name (filter (\<lambda>p. selects releaseName component (v_Labels p)) (k_PVCs s))), s))
       (\<lambda>e s. (Inl (PVCList component e), s))"

definition deploymentComponentPVCNames :: "string \<Rightarrow> string \<Rightarrow> ('q, 'e, string list) action" where
  "deploymentComponentPVCNames releaseName component s =
     (let direct = releaseName @ ''-'' @ component in
      case get_pvc PVCGet direct s of
        (Inr _, s') \<Rightarrow> (Inr [direct], s')
      | (Inl (PVCGet n NotFound), s') \<Rightarrow> listPVCsByComponentLabels releaseName component s'
      | (Inl e, s') \<Rightarrow> (Inl e, s'))"

definition componentPVCNames :: "string \<Rightarrow> persistenceResize \<Rightarrow> ('q, 'e, string list) action" where
  "componentPVCNames releaseName r =
     (if z_Stateful r then listPVCsByComponentLabels releaseName (z_Component r)
      else deploymentComponentPVCNames releaseName (z_Component r))"

definition defaultSCAnnotKey :: string where "defaultSCAnnotKey = ''storageclass.kubernetes.io/is-default-class''"

definition defaultStorageClassName :: "('q, 'e, string) action" where
  "defaultStorageClassName s =
     api_call s
       (\<lambda>s. (Inr (case find (\<lambda>c. gm_get_or [] (g_Annotations c) defaultSCAnnotKey = ''true'') (k_Classes s) of
                    None \<Rightarrow> [] | Some c \<Rightarrow> g_Name c), s))
       (\<lambda>e s. (Inl (ClassList e), s))"

definition resolveStorageClassForExpansion :: "'q pvc \<Rightarrow> string \<Rightarrow> ('q, 'e, string) action" where
  "resolveStorageClassForExpansion p hint =
     (case v_StorageClassName p of
        Some c \<Rightarrow>
          if c \<noteq> [] then returnA c
          else if hint \<noteq> [] then returnA hint
          else bindA defaultStorageClassName (\<lambda>d. if d = [] then failA (NoStorageClass (v_Name p)) else returnA d)
      | None \<Rightarrow>
          if hint \<noteq> [] then returnA hint
          else bindA defaultStorageClassName (\<lambda>d. if d = [] then failA (NoStorageClass (v_Name p)) else returnA d))"

definition ensureVolumeExpansionAllowed :: "string \<Rightarrow> ('q, 'e, unit) action" where
  "ensureVolumeExpansionAllowed className s =
     api_call s
       (\<lambda>s. (case find (\<lambda>c. g_Name c = className) (k_Classes s) of
               None \<Rightarrow> (Inl (ClassGet className NotFound), s)
             | Some c \<Rightarrow>
                 if g_AllowVolumeExpansion c \<noteq> Some True then (Inl (ExpansionNotAllowed className), s) else (Inr (), s)))
       (\<lambda>e s. (Inl (ClassGet className (ApiFault e)), s))"

definition patchPVCSize :: "'q k8s_lib \<Rightarrow> 'q pvc \<Rightarrow> 'q \<Rightarrow> ('q, 'e, unit) action" where
  "patchPVCSize L p qty s =
     (if 0 \<le> q_Cmp L (v_Request p) qty then (Inr (), s)
      else
        api_call s
          (\<lambda>s. (Inr (), s\<lparr>k_PVCs := map (\<lambda>q. if v_Name q = v_Name p then p\<lparr>v_Request := qty\<rparr> else q) (k_PVCs s)\<rparr>))
          (\<lambda>e s. (Inl (PVCPatch (v_Name p) e), s)))"

section \<open>Patching\<close>

text \<open>The body of the loop over the claims of one component; gives the classes checked so far.\<close>

definition patch_claim :: "'q k8s_lib \<Rightarrow> string \<Rightarrow> 'q \<Rightarrow> string \<Rightarrow> string list \<Rightarrow> ('q, 'e, string list) action" where
  "patch_claim L hint qty name checked =
     bindA (get_pvc PVCGet name) (\<lambda>p.
     bindA (resolveStorageClassForExpansion p hint) (\<lambda>className.
     bindA (if className \<in> set checked then returnA () else ensureVolumeExpansionAllowed className) (\<lambda>_.
     bindA (patchPVCSize L p qty) (\<lambda>_.
     returnA (List.insert className checked)))))"

fun patch_claims ::
  "'q k8s_lib \<Rightarrow> string \<Rightarrow> 'q \<Rightarrow> string list \<Rightarrow> string list \<Rightarrow> ('q, 'e, string list) action" where
  "patch_claims L hint qty [] checked = returnA checked"
| "patch_claims L hint qty (name # names) checked =
     bindA (patch_claim L hint qty name checked) (patch_claims L hint qty names)"

text \<open>The body of the loop over the components: the claims of one component and the checked classes.\<close>

definition patch_component ::
  "'q k8s_lib \<Rightarrow> string \<Rightarrow> persistenceResize \<Rightarrow> string list \<Rightarrow> ('q, 'e, string list \<times> string list) action" where
  "patch_component L releaseName r checked =
     (case q_Parse L (z_NewSize r) of
        None \<Rightarrow> failA (SizeParse (z_Component r) (z_NewSize r))
      | Some qty \<Rightarrow>
          bindA (componentPVCNames releaseName r) (\<lambda>names.
          if names = [] then failA (NoPVCs (z_Component r))
          else bindA (patch_claims L (z_StorageClass r) qty names checked) (\<lambda>checked'. returnA (names, checked'))))"

text \<open>The loop over the components: gives the patched claims and the StatefulSet components.\<close>

fun patch_all ::
  "'q k8s_lib \<Rightarrow> string \<Rightarrow> persistenceResize list \<Rightarrow> string list \<Rightarrow> string list \<Rightarrow> string list
     \<Rightarrow> ('q, 'e, string list \<times> string list) action" where
  "patch_all L releaseName [] checked patched stateful = returnA (patched, stateful)"
| "patch_all L releaseName (r # rs) checked patched stateful =
     bindA (patch_component L releaseName r checked) (\<lambda>(names, checked').
     patch_all L releaseName rs checked' (patched @ names) (if z_Stateful r then stateful @ [z_Component r] else stateful))"

section \<open>Waiting\<close>

partial_function (option) wait_loop ::
  "'q k8s_lib \<Rightarrow> 'q world \<Rightarrow> nat \<Rightarrow> string \<Rightarrow> ('q, 'e) cluster
     \<Rightarrow> (('e resize_error, unit) result \<times> ('q, 'e) cluster) option" where
  "wait_loop L W start name s =
     (case get_pvc WaitGet name s of
        (Inl e, s') \<Rightarrow> Some (Inl e, s')
      | (Inr p, s') \<Rightarrow>
          let n = k_Poll s'; capacity = w_Capacity W n name in
          if \<not> q_IsZero L capacity \<and> 0 \<le> q_Cmp L capacity (v_Request p) then Some (Inr (), s')
          else if w_ResizePending W n name then Some (Inr (), s')
          else if w_TimedOut W start n then Some (Inl (WaitTimeout name), s')
          else if w_Cancelled W n then Some (Inl WaitCancelled, s')
          else wait_loop L W start name (s'\<lparr>k_Poll := n + 1\<rparr>))"

declare wait_loop.simps [code]

definition waitForPVCExpansion ::
  "'q k8s_lib \<Rightarrow> 'q world \<Rightarrow> string \<Rightarrow> ('q, 'e) cluster
     \<Rightarrow> (('e resize_error, unit) result \<times> ('q, 'e) cluster) option" where
  "waitForPVCExpansion L W name s = wait_loop L W (k_Poll s) name s"

fun wait_all ::
  "'q k8s_lib \<Rightarrow> 'q world \<Rightarrow> string list \<Rightarrow> ('q, 'e) cluster
     \<Rightarrow> (('e resize_error, unit) result \<times> ('q, 'e) cluster) option" where
  "wait_all L W [] s = Some (Inr (), s)"
| "wait_all L W (name # names) s =
     (case waitForPVCExpansion L W name s of
        None \<Rightarrow> None
      | Some (Inl e, s') \<Rightarrow> Some (Inl e, s')
      | Some (Inr _, s') \<Rightarrow> wait_all L W names s')"

section \<open>Orphan-deleting StatefulSets\<close>

definition list_stateful_sets :: "string \<Rightarrow> string \<Rightarrow> ('q, 'e, stateful_set list) action" where
  "list_stateful_sets releaseName component s =
     api_call s
       (\<lambda>s. (Inr (filter (\<lambda>t. selects releaseName component (ss_Labels t)) (k_StatefulSets s)), s))
       (\<lambda>e s. (Inl (StatefulSetList component e), s))"

definition delete_stateful_set :: "stateful_set \<Rightarrow> ('q, 'e, unit) action" where
  "delete_stateful_set t s =
     api_call s
       (\<lambda>s. (Inr (), s\<lparr>k_StatefulSets := filter (\<lambda>t'. ss_Name t' \<noteq> ss_Name t) (k_StatefulSets s)\<rparr>))
       (\<lambda>e s. (Inl (StatefulSetDelete (ss_Name t) e), s))"

fun orphanDeleteStatefulSets :: "string \<Rightarrow> string list \<Rightarrow> ('q, 'e, unit) action" where
  "orphanDeleteStatefulSets releaseName [] = returnA ()"
| "orphanDeleteStatefulSets releaseName (c # cs) =
     bindA (list_stateful_sets releaseName c) (\<lambda>items.
       case items of
         [] \<Rightarrow> failA (StatefulSetNotFound c)
       | [t] \<Rightarrow> bindA (delete_stateful_set t) (\<lambda>_. orphanDeleteStatefulSets releaseName cs)
       | _ \<Rightarrow> failA (StatefulSetAmbiguous c (length items)))"

text \<open>\<open>None\<close> is a wait that never ends. Without a client the call fails at once.\<close>

definition resizeVolumes ::
  "'q k8s_lib \<Rightarrow> 'q world \<Rightarrow> bool \<Rightarrow> string \<Rightarrow> persistenceResize list \<Rightarrow> ('q, 'e) cluster
     \<Rightarrow> (('e resize_error, unit) result \<times> ('q, 'e) cluster) option" where
  "resizeVolumes L W hasClient releaseName resizes s =
     (if \<not> hasClient then Some (Inl ClientRequired, s)
      else if resizes = [] then Some (Inr (), s)
      else
        case patch_all L releaseName resizes [] [] [] s of
          (Inl e, s') \<Rightarrow> Some (Inl e, s')
        | (Inr (patched, stateful), s') \<Rightarrow>
            (case wait_all L W patched s' of
               None \<Rightarrow> None
             | Some (Inl e, s'') \<Rightarrow> Some (Inl e, s'')
             | Some (Inr _, s'') \<Rightarrow> Some (orphanDeleteStatefulSets releaseName stateful s'')))"

section \<open>How the cluster changes\<close>

definition idle :: "('q, 'e) cluster \<Rightarrow> ('q, 'e) cluster \<Rightarrow> bool" where
  "idle s s' = (k_PVCs s' = k_PVCs s \<and> k_Classes s' = k_Classes s \<and> k_StatefulSets s' = k_StatefulSets s)"

lemma idle_refl [simp]: "idle s s"
  by (simp add: idle_def)

lemma idle_faults [simp]: "idle s (s'\<lparr>k_Faults := fs\<rparr>) = idle s s'" "idle (s\<lparr>k_Faults := fs\<rparr>) s' = idle s s'"
  "idle s (s'\<lparr>k_Poll := n\<rparr>) = idle s s'" "idle (s\<lparr>k_Poll := n\<rparr>) s' = idle s s'"
  by (simp_all add: idle_def)

lemma idle_trans: "idle s s' \<Longrightarrow> idle s' s'' \<Longrightarrow> idle s s''"
  by (simp add: idle_def)

lemma api_callI:
  assumes "\<And>fs. P (act (s\<lparr>k_Faults := fs\<rparr>))" and "\<And>e fs. P (fail e (s\<lparr>k_Faults := fs\<rparr>))"
  shows "P (api_call s act fail)"
proof (cases "k_Faults s")
  case Nil
  then have "s\<lparr>k_Faults := []\<rparr> = s" by (cases s) simp
  with assms(1) [of "[]"] Nil show ?thesis by (simp add: api_call_def)
next
  case (Cons f fs)
  then show ?thesis using assms by (cases f) (simp_all add: api_call_def)
qed

lemma bindA_cases:
  assumes "bindA m f s = (r, s')"
  obtains e where "m s = (Inl e, s')" "r = Inl e" | x t where "m s = (Inr x, t)" "f x t = (r, s')"
  using assms by (cases "m s"; cases "fst (m s)") (auto simp: bindA_def)

lemma find_SomeD: "find P xs = Some x \<Longrightarrow> x \<in> set xs \<and> P x"
  by (induction xs) (auto split: if_splits)

lemma get_pvc_idle:
  assumes "get_pvc err name s = (r, s')"
  shows "idle s s' \<and> k_Poll s' = k_Poll s \<and> (\<forall>p. r = Inr p \<longrightarrow> p \<in> set (k_PVCs s) \<and> v_Name p = name)"
proof -
  have "case get_pvc err name s of (r, s') \<Rightarrow>
      idle s s' \<and> k_Poll s' = k_Poll s \<and> (\<forall>p. r = Inr p \<longrightarrow> p \<in> set (k_PVCs s) \<and> v_Name p = name)"
    unfolding get_pvc_def by (rule api_callI) (auto dest: find_SomeD split: option.splits)
  with assms show ?thesis by simp
qed

lemma list_pvcs_idle:
  assumes "listPVCsByComponentLabels rel c s = (r, s')"
  shows "idle s s' \<and> (\<forall>ns. r = Inr ns \<longrightarrow> ns = map v_Name (filter (\<lambda>p. selects rel c (v_Labels p)) (k_PVCs s)))"
proof -
  have "case listPVCsByComponentLabels rel c s of (r, s') \<Rightarrow>
      idle s s' \<and> (\<forall>ns. r = Inr ns \<longrightarrow> ns = map v_Name (filter (\<lambda>p. selects rel c (v_Labels p)) (k_PVCs s)))"
    unfolding listPVCsByComponentLabels_def by (rule api_callI) simp_all
  with assms show ?thesis by simp
qed

lemma pvc_names_idle:
  assumes "componentPVCNames rel z s = (r, s')"
  shows "idle s s'"
proof (cases "z_Stateful z")
  case True
  with assms list_pvcs_idle show ?thesis by (fastforce simp: componentPVCNames_def)
next
  case False
  with assms have d: "deploymentComponentPVCNames rel (z_Component z) s = (r, s')" by (simp add: componentPVCNames_def)
  obtain x t where g: "get_pvc PVCGet (rel @ ''-'' @ z_Component z) s = (x, t)" by fastforce
  have t: "idle s t" using get_pvc_idle [OF g] by simp
  from d g have "s' = t \<or> listPVCsByComponentLabels rel (z_Component z) t = (r, s')"
    by (auto simp: deploymentComponentPVCNames_def Let_def split: sum.splits resize_error.splits api_error.splits)
  with t list_pvcs_idle show ?thesis by (metis idle_trans)
qed

definition allowed :: "storage_class list \<Rightarrow> string \<Rightarrow> bool" where
  "allowed cs c = (\<exists>k. find (\<lambda>x. g_Name x = c) cs = Some k \<and> g_AllowVolumeExpansion k = Some True)"

lemma ensure_allowed:
  assumes "ensureVolumeExpansionAllowed c s = (r, s')"
  shows "idle s s' \<and> (r = Inr () \<longrightarrow> allowed (k_Classes s) c)"
proof -
  have "case ensureVolumeExpansionAllowed c s of (r, s') \<Rightarrow> idle s s' \<and> (r = Inr () \<longrightarrow> allowed (k_Classes s) c)"
    unfolding ensureVolumeExpansionAllowed_def by (rule api_callI) (auto simp: allowed_def split: option.splits)
  with assms show ?thesis by simp
qed

lemma default_class_idle:
  assumes "bindA defaultStorageClassName (\<lambda>d. if d = [] then failA e else returnA d) s = (r, s')"
  shows "idle s s'"
proof -
  have "case defaultStorageClassName s of (r, s') \<Rightarrow> idle s s'"
    unfolding defaultStorageClassName_def by (rule api_callI) simp_all
  with assms show ?thesis by (elim bindA_cases) (auto simp: failA_def returnA_def split: if_splits)
qed

lemma resolve_class:
  assumes "resolveStorageClassForExpansion p hint s = (r, s')"
  shows "idle s s' \<and> (\<forall>c d. r = Inr c \<longrightarrow> v_StorageClassName p = Some d \<longrightarrow> d \<noteq> [] \<longrightarrow> c = d)"
  using assms default_class_idle
  by (auto simp: resolveStorageClassForExpansion_def returnA_def split: option.splits if_splits)

section \<open>Claims only grow\<close>

definition grown_pvc :: "'q k8s_lib \<Rightarrow> storage_class list \<Rightarrow> 'q pvc \<Rightarrow> 'q pvc \<Rightarrow> bool" where
  "grown_pvc L cs p p' =
     (\<exists>q. p' = p\<lparr>v_Request := q\<rparr>
       \<and> (q = v_Request p \<or> 0 \<le> q_Cmp L q (v_Request p) \<and> (\<forall>c. v_StorageClassName p = Some c \<longrightarrow> c \<noteq> [] \<longrightarrow> allowed cs c)))"

definition grown :: "'q k8s_lib \<Rightarrow> ('q, 'e) cluster \<Rightarrow> ('q, 'e) cluster \<Rightarrow> bool" where
  "grown L s s' =
     (k_Classes s' = k_Classes s \<and> k_StatefulSets s' = k_StatefulSets s
      \<and> list_all2 (grown_pvc L (k_Classes s)) (k_PVCs s) (k_PVCs s'))"

lemma Cmp_ge_trans: "quantity_laws L \<Longrightarrow> 0 \<le> q_Cmp L a b \<Longrightarrow> 0 \<le> q_Cmp L b c \<Longrightarrow> 0 \<le> q_Cmp L a c"
  unfolding quantity_laws_def by meson

lemma Cmp_less_ge: "quantity_laws L \<Longrightarrow> \<not> 0 \<le> q_Cmp L a b \<Longrightarrow> 0 \<le> q_Cmp L b a"
  unfolding quantity_laws_def by (metis linorder_linear)

lemma grown_pvc_refl [simp]: "grown_pvc L cs p p"
  by (auto simp: grown_pvc_def intro: exI [of _ "v_Request p"])

lemma grown_pvc_trans:
  assumes "quantity_laws L" "grown_pvc L cs p p'" "grown_pvc L cs p' p''"
  shows "grown_pvc L cs p p''"
proof -
  let ?ok = "\<forall>c. v_StorageClassName p = Some c \<longrightarrow> c \<noteq> [] \<longrightarrow> allowed cs c"
  from assms(2) obtain q where p': "p' = p\<lparr>v_Request := q\<rparr>"
    and q: "q = v_Request p \<or> 0 \<le> q_Cmp L q (v_Request p) \<and> ?ok" by (auto simp: grown_pvc_def)
  from assms(3) obtain r where p'': "p'' = p\<lparr>v_Request := r\<rparr>" and r: "r = q \<or> 0 \<le> q_Cmp L r q \<and> ?ok"
    by (auto simp: grown_pvc_def p')
  from q r have "r = v_Request p \<or> 0 \<le> q_Cmp L r (v_Request p) \<and> ?ok"
    using Cmp_ge_trans [OF assms(1), of r q "v_Request p"] by blast
  with p'' show ?thesis unfolding grown_pvc_def by blast
qed

lemma grown_idle: "idle s s' \<Longrightarrow> grown L s s'"
  by (simp add: grown_def idle_def list.rel_refl)

lemma grown_trans:
  assumes "quantity_laws L" "grown L s s'" "grown L s' s''"
  shows "grown L s s''"
proof -
  have a: "list_all2 (grown_pvc L (k_Classes s)) (k_PVCs s) (k_PVCs s')"
    and b: "list_all2 (grown_pvc L (k_Classes s)) (k_PVCs s') (k_PVCs s'')"
    using assms(2,3) by (simp_all add: grown_def)
  have "list_all2 (grown_pvc L (k_Classes s)) (k_PVCs s) (k_PVCs s'')"
    by (rule list_all2_trans [OF _ a b]) (rule grown_pvc_trans [OF assms(1)])
  with assms(2,3) show ?thesis by (simp add: grown_def)
qed

lemma grown_names: "grown L s s' \<Longrightarrow> map v_Name (k_PVCs s') = map v_Name (k_PVCs s)"
proof -
  have "list_all2 (grown_pvc L cs) xs ys \<Longrightarrow> map v_Name ys = map v_Name xs" for cs xs ys
    by (induction rule: list_all2_induct) (auto simp: grown_pvc_def)
  then show "grown L s s' \<Longrightarrow> map v_Name (k_PVCs s') = map v_Name (k_PVCs s)" by (auto simp: grown_def)
qed

text \<open>Every claim of the name requests at least the quantity.\<close>

definition requests :: "'q k8s_lib \<Rightarrow> 'q \<Rightarrow> string \<Rightarrow> ('q, 'e) cluster \<Rightarrow> bool" where
  "requests L qty n s = (\<forall>p \<in> set (k_PVCs s). v_Name p = n \<longrightarrow> 0 \<le> q_Cmp L (v_Request p) qty)"

lemma requests_grown:
  assumes "quantity_laws L" "grown L s s'" "requests L qty n s"
  shows "requests L qty n s'"
proof -
  have "0 \<le> q_Cmp L (v_Request p') qty" if mem: "p' \<in> set (k_PVCs s')" and nm: "v_Name p' = n" for p'
  proof -
    have rel: "list_all2 (grown_pvc L (k_Classes s)) (k_PVCs s) (k_PVCs s')" using assms(2) by (simp add: grown_def)
    obtain i where i: "i < length (k_PVCs s')" "k_PVCs s' ! i = p'" using mem by (auto simp: in_set_conv_nth)
    define p where "p = k_PVCs s ! i"
    have len: "length (k_PVCs s) = length (k_PVCs s')" using rel by (rule list_all2_lengthD)
    have p: "p \<in> set (k_PVCs s)" "grown_pvc L (k_Classes s) p p'"
      using i len list_all2_nthD [OF rel, of i] by (simp_all add: p_def)
    from p(2) nm have "v_Name p = n" and ge: "v_Request p' = v_Request p \<or> 0 \<le> q_Cmp L (v_Request p') (v_Request p)"
      by (auto simp: grown_pvc_def)
    with p(1) assms(3) have "0 \<le> q_Cmp L (v_Request p) qty" by (simp add: requests_def)
    with ge show ?thesis using Cmp_ge_trans [OF assms(1), of "v_Request p'" "v_Request p" qty] by auto
  qed
  then show ?thesis by (simp add: requests_def)
qed

lemma patch_one:
  assumes laws: "quantity_laws L" and "distinct (map v_Name (k_PVCs s))" and "p \<in> set (k_PVCs s)"
    and "\<And>c. v_StorageClassName p = Some c \<Longrightarrow> c \<noteq> [] \<Longrightarrow> allowed (k_Classes s) c"
    and "patchPVCSize L p qty s = (r, s')"
  shows "grown L s s' \<and> (r = Inr () \<longrightarrow> requests L qty (v_Name p) s')"
proof (cases "0 \<le> q_Cmp L (v_Request p) qty")
  case True
  have "q = p" if "q \<in> set (k_PVCs s)" "v_Name q = v_Name p" for q
    using that assms(2,3) by (metis distinct_map inj_onD)
  then have "requests L qty (v_Name p) s" using True by (auto simp: requests_def)
  moreover have "s' = s" using assms(5) True by (simp add: patchPVCSize_def)
  ultimately show ?thesis by (simp add: grown_idle)
next
  case False
  let ?upd = "\<lambda>q. if v_Name q = v_Name p then p\<lparr>v_Request := qty\<rparr> else q"
  have same: "q = p" if "q \<in> set (k_PVCs s)" "v_Name q = v_Name p" for q
    using that assms(2,3) by (metis distinct_map inj_onD)
  have ge: "0 \<le> q_Cmp L qty (v_Request p)" using Cmp_less_ge [OF laws False] .
  have refl: "0 \<le> q_Cmp L qty qty" using laws unfolding quantity_laws_def by (metis linorder_linear)
  have "grown_pvc L (k_Classes s) q (?upd q)" if "q \<in> set (k_PVCs s)" for q
  proof (cases "v_Name q = v_Name p")
    case True
    then show ?thesis using same [OF that True] ge assms(4) by (auto simp: grown_pvc_def)
  qed simp
  then have step: "list_all2 (grown_pvc L (k_Classes s)) (k_PVCs s) (map ?upd (k_PVCs s))"
    by (simp add: list_all2_conv_all_nth)
  have "case patchPVCSize L p qty s of (r, s') \<Rightarrow> grown L s s' \<and> (r = Inr () \<longrightarrow> requests L qty (v_Name p) s')"
    unfolding patchPVCSize_def using False step refl
    by (simp) (rule api_callI; auto simp: grown_def requests_def intro: grown_idle list.rel_refl)
  with assms(5) show ?thesis by simp
qed

lemma bindA_rule:
  assumes "bindA m f s = (r, s')"
    and "\<And>e t. m s = (Inl e, t) \<Longrightarrow> R (Inl e) t"
    and "\<And>x t r s'. m s = (Inr x, t) \<Longrightarrow> f x t = (r, s') \<Longrightarrow> R r s'"
  shows "R r s'"
  using assms by (auto elim: bindA_cases)

lemma ensure_or_checked:
  assumes "(if c \<in> set checked then returnA () else ensureVolumeExpansionAllowed c) s = (r, t)"
    and "\<forall>c \<in> set checked. allowed (k_Classes s) c"
  shows "idle s t \<and> (r = Inr () \<longrightarrow> allowed (k_Classes s) c)"
  using assms ensure_allowed [of c s r t] by (auto simp: returnA_def split: if_splits)

lemma patch_claim_spec:
  assumes laws: "quantity_laws L" and "distinct (map v_Name (k_PVCs s))" and "\<forall>c \<in> set checked. allowed (k_Classes s) c"
    and "patch_claim L hint qty name checked s = (r, s')"
  shows "grown L s s' \<and> (\<forall>ck. r = Inr ck \<longrightarrow> (\<forall>c \<in> set ck. allowed (k_Classes s) c) \<and> requests L qty name s')"
    (is "?R r s'")
  using assms(4) unfolding patch_claim_def
proof (rule bindA_rule)
  show "?R (Inl e) t" if "get_pvc PVCGet name s = (Inl e, t)" for e t
    using get_pvc_idle [OF that] by (simp add: grown_idle)
next
  fix p s1 r1 t1
  assume get: "get_pvc PVCGet name s = (Inr p, s1)" and 1: "bindA (resolveStorageClassForExpansion p hint) (\<lambda>className.
     bindA (if className \<in> set checked then returnA () else ensureVolumeExpansionAllowed className) (\<lambda>_.
     bindA (patchPVCSize L p qty) (\<lambda>_. returnA (List.insert className checked)))) s1 = (r1, t1)"
  have p: "idle s s1" "p \<in> set (k_PVCs s)" "v_Name p = name" using get_pvc_idle [OF get] by simp_all
  from 1 show "?R r1 t1"
  proof (rule bindA_rule)
    show "?R (Inl e) t" if "resolveStorageClassForExpansion p hint s1 = (Inl e, t)" for e t
      using resolve_class [OF that] idle_trans [OF p(1)] by (simp add: grown_idle)
  next
    fix c s2 r2 t2
    assume res: "resolveStorageClassForExpansion p hint s1 = (Inr c, s2)"
      and 2: "bindA (if c \<in> set checked then returnA () else ensureVolumeExpansionAllowed c) (\<lambda>_.
       bindA (patchPVCSize L p qty) (\<lambda>_. returnA (List.insert c checked))) s2 = (r2, t2)"
    have i2: "idle s s2" using resolve_class [OF res] idle_trans [OF p(1)] by simp
    then have k2: "\<forall>c \<in> set checked. allowed (k_Classes s2) c" "k_Classes s2 = k_Classes s" using assms(3) by (simp_all add: idle_def)
    from 2 show "?R r2 t2"
    proof (rule bindA_rule)
      fix u s3 r3 t3
      assume ens: "(if c \<in> set checked then returnA () else ensureVolumeExpansionAllowed c) s2 = (Inr u, s3)"
        and 3: "bindA (patchPVCSize L p qty) (\<lambda>_. returnA (List.insert c checked)) s3 = (r3, t3)"
      have i3: "idle s s3" and al: "allowed (k_Classes s) c"
        using ensure_or_checked [OF ens k2(1)] idle_trans [OF i2] k2(2) by simp_all
      obtain r4 s4 where pat: "patchPVCSize L p qty s3 = (r4, s4)" by fastforce
      have "grown L s3 s4 \<and> (r4 = Inr () \<longrightarrow> requests L qty (v_Name p) s4)"
        using resolve_class [OF res] al assms(2) p i3 by (intro patch_one [OF laws _ _ _ pat]) (auto simp: idle_def)
      then have "grown L s s4" "r4 = Inr () \<longrightarrow> requests L qty name s4" using grown_trans [OF laws grown_idle [OF i3]] p by auto
      with 3 pat al assms(3) show "?R r3 t3" by (auto simp: bindA_def returnA_def split: sum.splits)
    qed (use ensure_or_checked [OF _ k2(1)] idle_trans [OF i2] in \<open>auto simp: grown_idle\<close>)
  qed
qed

lemma patch_claims_spec:
  assumes laws: "quantity_laws L"
  shows "distinct (map v_Name (k_PVCs s)) \<Longrightarrow> \<forall>c \<in> set checked. allowed (k_Classes s) c \<Longrightarrow>
    patch_claims L hint qty names checked s = (r, s') \<Longrightarrow>
    grown L s s' \<and> (\<forall>ck. r = Inr ck \<longrightarrow> (\<forall>c \<in> set ck. allowed (k_Classes s) c) \<and> (\<forall>n \<in> set names. requests L qty n s'))"
proof (induction names arbitrary: checked s)
  case Nil
  then show ?case by (auto simp: returnA_def grown_idle)
next
  case (Cons name names)
  from Cons.prems(3) have "bindA (patch_claim L hint qty name checked) (patch_claims L hint qty names) s = (r, s')" by simp
  then show ?case
  proof (rule bindA_cases)
    fix e
    assume "patch_claim L hint qty name checked s = (Inl e, s')" "r = Inl e"
    with patch_claim_spec [OF laws Cons.prems(1,2)] show ?case by auto
  next
    fix ck t
    assume c: "patch_claim L hint qty name checked s = (Inr ck, t)" and rest: "patch_claims L hint qty names ck t = (r, s')"
    from patch_claim_spec [OF laws Cons.prems(1,2) c]
    have g: "grown L s t" and ck: "\<forall>c \<in> set ck. allowed (k_Classes s) c" and rq: "requests L qty name t" by auto
    have k: "k_Classes t = k_Classes s" "map v_Name (k_PVCs t) = map v_Name (k_PVCs s)"
      using g grown_names [OF g] by (simp_all add: grown_def)
    have IH: "grown L t s' \<and> (\<forall>ck. r = Inr ck \<longrightarrow> (\<forall>c \<in> set ck. allowed (k_Classes t) c) \<and> (\<forall>n \<in> set names. requests L qty n s'))"
      by (rule Cons.IH [OF _ _ rest]) (use Cons.prems(1) ck k in simp_all)
    with k requests_grown [OF laws _ rq] grown_trans [OF laws g] show ?case by auto
  qed
qed

section \<open>All components\<close>

text \<open>The names of the claims of one component.\<close>

definition labelled_claims :: "string \<Rightarrow> string \<Rightarrow> 'q pvc list \<Rightarrow> string list" where
  "labelled_claims rel c ps = map v_Name (filter (\<lambda>p. selects rel c (v_Labels p)) ps)"

definition claim_names :: "string \<Rightarrow> persistenceResize \<Rightarrow> 'q pvc list \<Rightarrow> string list" where
  "claim_names rel z ps =
     (let direct = rel @ ''-'' @ z_Component z in
      if \<not> z_Stateful z \<and> direct \<in> v_Name ` set ps then [direct] else labelled_claims rel (z_Component z) ps)"

lemma get_pvc_found:
  assumes "get_pvc PVCGet name s = (r, s')"
  shows "(\<forall>p. r = Inr p \<longrightarrow> name \<in> v_Name ` set (k_PVCs s)) \<and> (r = Inl (PVCGet name NotFound) \<longrightarrow> name \<notin> v_Name ` set (k_PVCs s))
    \<and> (\<forall>e. r = Inl e \<longrightarrow> (\<exists>a. e = PVCGet name a))"
proof -
  have "case get_pvc PVCGet name s of (r, s') \<Rightarrow>
      (\<forall>p. r = Inr p \<longrightarrow> name \<in> v_Name ` set (k_PVCs s)) \<and> (r = Inl (PVCGet name NotFound) \<longrightarrow> name \<notin> v_Name ` set (k_PVCs s))
      \<and> (\<forall>e. r = Inl e \<longrightarrow> (\<exists>a. e = PVCGet name a))"
    unfolding get_pvc_def by (rule api_callI) (auto dest!: find_SomeD simp: find_None_iff split: option.splits)
  with assms show ?thesis by simp
qed

lemma names_spec:
  assumes "componentPVCNames rel z s = (Inr ns, s')"
  shows "ns = claim_names rel z (k_PVCs s)"
proof (cases "z_Stateful z")
  case True
  with assms list_pvcs_idle show ?thesis by (fastforce simp: componentPVCNames_def claim_names_def labelled_claims_def)
next
  case False
  let ?d = "rel @ ''-'' @ z_Component z"
  obtain x t where g: "get_pvc PVCGet ?d s = (x, t)" by fastforce
  note found = get_pvc_found [OF g] and idle = get_pvc_idle [OF g]
  from assms False have d: "deploymentComponentPVCNames rel (z_Component z) s = (Inr ns, s')" by (simp add: componentPVCNames_def)
  show ?thesis
  proof (cases x)
    case (Inr p)
    with d g found show ?thesis by (simp add: deploymentComponentPVCNames_def Let_def claim_names_def False)
  next
    case (Inl e)
    with found obtain a where e: "e = PVCGet ?d a" by blast
    with d g Inl have a: "a = NotFound" and l: "listPVCsByComponentLabels rel (z_Component z) t = (Inr ns, s')"
      by (cases a; simp add: deploymentComponentPVCNames_def Let_def)+
    have "ns = labelled_claims rel (z_Component z) (k_PVCs t)" using list_pvcs_idle [OF l] by (simp add: labelled_claims_def)
    moreover have "k_PVCs t = k_PVCs s" using idle by (simp add: idle_def)
    ultimately show ?thesis using found Inl e a by (simp add: claim_names_def False Let_def)
  qed
qed

lemma claim_names_grown:
  assumes "grown L s s'"
  shows "claim_names rel z (k_PVCs s') = claim_names rel z (k_PVCs s)"
proof -
  have "list_all2 (grown_pvc L cs) xs ys \<Longrightarrow> labelled_claims rel c ys = labelled_claims rel c xs" for cs c and xs ys :: "'a pvc list"
    by (induction rule: list_all2_induct) (auto simp: grown_pvc_def labelled_claims_def)
  then have "labelled_claims rel (z_Component z) (k_PVCs s') = labelled_claims rel (z_Component z) (k_PVCs s)"
    using assms unfolding grown_def by blast
  moreover have "v_Name ` set (k_PVCs s') = v_Name ` set (k_PVCs s)" using grown_names [OF assms] by (metis list.set_map)
  ultimately show ?thesis by (simp add: claim_names_def Let_def)
qed

text \<open>The claims of a component are found, and each requests the new size.\<close>

definition resized :: "'q k8s_lib \<Rightarrow> string \<Rightarrow> persistenceResize \<Rightarrow> ('q, 'e) cluster \<Rightarrow> bool" where
  "resized L rel z s =
     (claim_names rel z (k_PVCs s) \<noteq> []
      \<and> (\<exists>qty. q_Parse L (z_NewSize z) = Some qty \<and> (\<forall>n \<in> set (claim_names rel z (k_PVCs s)). requests L qty n s)))"

lemma resized_grown:
  assumes "quantity_laws L" "grown L s s'" "resized L rel z s"
  shows "resized L rel z s'"
  using assms(3) requests_grown [OF assms(1,2)] by (auto simp: resized_def claim_names_grown [OF assms(2)])

lemma patch_component_spec:
  assumes laws: "quantity_laws L" and "distinct (map v_Name (k_PVCs s))" and "\<forall>c \<in> set checked. allowed (k_Classes s) c"
    and "patch_component L rel z checked s = (r, s')"
  shows "grown L s s' \<and> (\<forall>ns ck. r = Inr (ns, ck) \<longrightarrow> (\<forall>c \<in> set ck. allowed (k_Classes s) c)
    \<and> ns = claim_names rel z (k_PVCs s) \<and> resized L rel z s')" (is "?R r s'")
proof (cases "q_Parse L (z_NewSize z)")
  case None
  with assms(4) show ?thesis by (auto simp: patch_component_def failA_def grown_idle)
next
  case (Some qty)
  from assms(4) Some have "bindA (componentPVCNames rel z) (\<lambda>names. if names = [] then failA (NoPVCs (z_Component z))
      else bindA (patch_claims L (z_StorageClass z) qty names checked) (\<lambda>ck. returnA (names, ck))) s = (r, s')"
    by (simp add: patch_component_def)
  then show ?thesis
  proof (rule bindA_rule)
    show "?R (Inl e) t" if "componentPVCNames rel z s = (Inl e, t)" for e t
      using pvc_names_idle [OF that] by (simp add: grown_idle)
  next
    fix names t r s'
    assume nm: "componentPVCNames rel z s = (Inr names, t)"
      and k: "(if names = [] then failA (NoPVCs (z_Component z))
        else bindA (patch_claims L (z_StorageClass z) qty names checked) (\<lambda>ck. returnA (names, ck))) t = (r, s')"
    have i: "idle s t" and ns: "names = claim_names rel z (k_PVCs s)" using pvc_names_idle [OF nm] names_spec [OF nm] by simp_all
    then have t: "distinct (map v_Name (k_PVCs t))" "\<forall>c \<in> set checked. allowed (k_Classes t) c" "grown L s t" "k_Classes t = k_Classes s"
      using assms(2,3) by (simp_all add: idle_def grown_idle)
    obtain r1 u where pc: "patch_claims L (z_StorageClass z) qty names checked t = (r1, u)" by fastforce
    note spec = patch_claims_spec [OF laws t(1,2) pc]
    have su: "grown L s u" using spec grown_trans [OF laws t(3)] by blast
    have "resized L rel z u" if "r1 = Inr ck" "names \<noteq> []" for ck
      using spec that ns Some claim_names_grown [OF su] by (auto simp: resized_def)
    with k pc spec su t(3,4) ns show "?R r s'"
      by (auto simp: failA_def returnA_def bindA_def split: if_splits sum.splits)
  qed
qed

lemma patch_all_spec:
  assumes laws: "quantity_laws L"
  shows "distinct (map v_Name (k_PVCs s)) \<Longrightarrow> \<forall>c \<in> set checked. allowed (k_Classes s) c \<Longrightarrow>
    patch_all L rel zs checked patched stateful s = (r, s') \<Longrightarrow>
    grown L s s' \<and> (\<forall>ps st. r = Inr (ps, st) \<longrightarrow>
      (\<forall>z \<in> set zs. resized L rel z s') \<and> st = stateful @ map z_Component (filter z_Stateful zs))"
proof (induction zs arbitrary: checked patched stateful s)
  case Nil
  then show ?case by (auto simp: returnA_def grown_idle)
next
  case (Cons z zs)
  let ?st = "if z_Stateful z then stateful @ [z_Component z] else stateful"
  from Cons.prems(3) have "bindA (patch_component L rel z checked)
      (\<lambda>(names, ck). patch_all L rel zs ck (patched @ names) ?st) s = (r, s')" by simp
  then show ?case
  proof (rule bindA_cases)
    fix e
    assume "patch_component L rel z checked s = (Inl e, s')" "r = Inl e"
    with patch_component_spec [OF laws Cons.prems(1,2)] show ?case by auto
  next
    fix x t
    assume c: "patch_component L rel z checked s = (Inr x, t)"
      and k: "(case x of (names, ck) \<Rightarrow> patch_all L rel zs ck (patched @ names) ?st) t = (r, s')"
    obtain names ck where x: "x = (names, ck)" by (cases x)
    have g: "grown L s t" and ck: "\<forall>c \<in> set ck. allowed (k_Classes s) c" and z: "resized L rel z t"
      using patch_component_spec [OF laws Cons.prems(1,2) c] x by auto
    have t: "distinct (map v_Name (k_PVCs t))" "\<forall>c \<in> set ck. allowed (k_Classes t) c"
      using grown_names [OF g] Cons.prems(1) ck g by (simp_all add: grown_def)
    have rest: "patch_all L rel zs ck (patched @ names) ?st t = (r, s')" using k x by simp
    note IH = Cons.IH [OF t rest]
    have "resized L rel z s'" using IH resized_grown [OF laws _ z] by blast
    with IH grown_trans [OF laws g] show ?case by auto
  qed
qed

section \<open>Waiting ends and changes nothing\<close>

lemma wait_loop_idle:
  fixes s :: "('q, 'e) cluster"
  assumes "wait_loop L W start name s = Some x"
  shows "idle s (snd x)"
proof (rule wait_loop.raw_induct [where P = "\<lambda>L W start name s x. idle s (snd x)", OF _ assms])
  fix rec_loop and L :: "'q k8s_lib" and W start name and s :: "('q, 'e) cluster" and x
  assume IH: "\<And>L W start name s x. rec_loop L W start name s = Some x \<Longrightarrow> idle s (snd x)"
    and body: "(case get_pvc WaitGet name s of
        (Inl e, s') \<Rightarrow> Some (Inl e, s')
      | (Inr p, s') \<Rightarrow>
          let n = k_Poll s'; capacity = w_Capacity W n name in
          if \<not> q_IsZero L capacity \<and> 0 \<le> q_Cmp L capacity (v_Request p) then Some (Inr (), s')
          else if w_ResizePending W n name then Some (Inr (), s')
          else if w_TimedOut W start n then Some (Inl (WaitTimeout name), s')
          else if w_Cancelled W n then Some (Inl WaitCancelled, s')
          else rec_loop L W start name (s'\<lparr>k_Poll := n + 1\<rparr>)) = Some x"
  obtain y t where g: "get_pvc WaitGet name s = (y, t)" by fastforce
  have t: "idle s t" using get_pvc_idle [OF g] by simp
  have next_poll: "idle s (snd x)" if "rec_loop L W start name (t\<lparr>k_Poll := Suc (k_Poll t)\<rparr>) = Some x"
    using IH [OF that] t by (auto intro: idle_trans)
  from body g t next_poll show "idle s (snd x)"
    by (auto simp: Let_def split: sum.splits if_splits)
qed

lemma wait_loop_ends:
  assumes "w_TimedOut W start k" and "k_Poll s \<le> k"
  shows "\<exists>x. wait_loop L W start name s = Some x"
  using assms(2)
proof (induction "k - k_Poll s" arbitrary: s rule: less_induct)
  case less
  obtain x t where g: "get_pvc WaitGet name s = (x, t)" by fastforce
  have t: "k_Poll t = k_Poll s" using get_pvc_idle [OF g] by simp
  have IH: "\<exists>x. wait_loop L W start name (t\<lparr>k_Poll := Suc (k_Poll s)\<rparr>) = Some x" if "k_Poll s \<noteq> k"
    using that less by simp
  show ?case
  proof (cases x)
    case (Inl e)
    with g show ?thesis by (simp add: wait_loop.simps [of L W start name s])
  next
    case (Inr p)
    with g t assms(1) IH show ?thesis
      by (cases "k_Poll s = k") (auto simp: wait_loop.simps [of L W start name s] Let_def)
  qed
qed

lemma wait_all_idle: "wait_all L W names s = Some (r, s') \<Longrightarrow> idle s s'"
proof (induction names arbitrary: s)
  case (Cons n names)
  from Cons.prems obtain x t where w: "waitForPVCExpansion L W n s = Some (x, t)" by (auto split: option.splits)
  have "idle s t" using wait_loop_idle [OF w [unfolded waitForPVCExpansion_def]] by simp
  with Cons.prems w Cons.IH [of t] show ?case by (auto split: sum.splits intro: idle_trans)
qed simp

lemma wait_all_ends:
  assumes "\<forall>start. \<exists>k \<ge> start. w_TimedOut W start k"
  shows "\<exists>x. wait_all L W names s = Some x"
proof (induction names arbitrary: s)
  case (Cons n names)
  obtain k where "w_TimedOut W (k_Poll s) k" "k_Poll s \<le> k" using assms by blast
  then obtain x t where "waitForPVCExpansion L W n s = Some (x, t)"
    using wait_loop_ends [of W "k_Poll s" k s L n] unfolding waitForPVCExpansion_def by fast
  with Cons.IH [of t] show ?case by (cases x) auto
qed simp

section \<open>Orphan deletion\<close>

lemma list_sets_idle:
  assumes "list_stateful_sets rel c s = (r, s')"
  shows "idle s s' \<and> (\<forall>ts. r = Inr ts \<longrightarrow> ts = filter (\<lambda>t. selects rel c (ss_Labels t)) (k_StatefulSets s))"
proof -
  have "case list_stateful_sets rel c s of (r, s') \<Rightarrow>
      idle s s' \<and> (\<forall>ts. r = Inr ts \<longrightarrow> ts = filter (\<lambda>t. selects rel c (ss_Labels t)) (k_StatefulSets s))"
    unfolding list_stateful_sets_def by (rule api_callI) simp_all
  with assms show ?thesis by simp
qed

text \<open>Deleting StatefulSets leaves the claims and the classes alone and only removes sets.\<close>

definition fewer_sets :: "('q, 'e) cluster \<Rightarrow> ('q, 'e) cluster \<Rightarrow> bool" where
  "fewer_sets s s' = (k_PVCs s' = k_PVCs s \<and> k_Classes s' = k_Classes s \<and> set (k_StatefulSets s') \<subseteq> set (k_StatefulSets s))"

lemma delete_set:
  assumes "delete_stateful_set t s = (r, s')"
  shows "fewer_sets s s' \<and> (r = Inr () \<longrightarrow> t \<notin> set (k_StatefulSets s'))"
proof -
  have "case delete_stateful_set t s of (r, s') \<Rightarrow> fewer_sets s s' \<and> (r = Inr () \<longrightarrow> t \<notin> set (k_StatefulSets s'))"
    unfolding delete_stateful_set_def by (rule api_callI) (auto simp: fewer_sets_def)
  with assms show ?thesis by simp
qed

definition no_set :: "string \<Rightarrow> string \<Rightarrow> ('q, 'e) cluster \<Rightarrow> bool" where
  "no_set rel c s = (\<forall>t \<in> set (k_StatefulSets s). \<not> selects rel c (ss_Labels t))"

lemma fewer_sets_trans: "fewer_sets s s' \<Longrightarrow> fewer_sets s' s'' \<Longrightarrow> fewer_sets s s''"
  by (auto simp: fewer_sets_def)

lemma fewer_sets_idle: "idle s s' \<Longrightarrow> fewer_sets s s'"
  by (simp add: idle_def fewer_sets_def)

lemma no_set_fewer: "fewer_sets s s' \<Longrightarrow> no_set rel c s \<Longrightarrow> no_set rel c s'"
  by (auto simp: fewer_sets_def no_set_def)

lemma orphan_spec:
  "orphanDeleteStatefulSets rel cs s = (r, s') \<Longrightarrow> fewer_sets s s' \<and> (r = Inr () \<longrightarrow> (\<forall>c \<in> set cs. no_set rel c s'))"
proof (induction cs arbitrary: s)
  case Nil
  then show ?case by (simp add: returnA_def fewer_sets_idle)
next
  case (Cons c cs)
  obtain x t where l: "list_stateful_sets rel c s = (x, t)" by fastforce
  have t: "fewer_sets s t" "k_StatefulSets t = k_StatefulSets s" using list_sets_idle [OF l] by (simp_all add: fewer_sets_idle idle_def)
  show ?case
  proof (cases "\<exists>y. x = Inr [y]")
    case True
    then obtain y where y: "x = Inr [y]" by blast
    obtain d u where d: "delete_stateful_set y t = (d, u)" by fastforce
    have u: "fewer_sets s u" using delete_set [OF d] fewer_sets_trans [OF t(1)] by blast
    have only: "filter (\<lambda>t. selects rel c (ss_Labels t)) (k_StatefulSets t) = [y]" using list_sets_idle [OF l] y t(2) by simp
    have gone: "no_set rel c u" if "d = Inr ()"
    proof -
      have "y' = y" if "y' \<in> set (k_StatefulSets t)" "selects rel c (ss_Labels y')" for y'
      proof -
        from that have "y' \<in> set (filter (\<lambda>t. selects rel c (ss_Labels t)) (k_StatefulSets t))" by simp
        then show ?thesis by (simp only: only list.set) simp
      qed
      then show ?thesis using delete_set [OF d] that by (auto simp: no_set_def fewer_sets_def)
    qed
    have step: "d = Inr () \<Longrightarrow> orphanDeleteStatefulSets rel cs u = (r, s')" "\<And>e. d = Inl e \<Longrightarrow> s' = u \<and> r = Inl e"
      using Cons.prems l y d by (auto simp: bindA_def split: sum.splits)
    show ?thesis
    proof (cases d)
      case (Inr z)
      then have IH: "fewer_sets u s' \<and> (r = Inr () \<longrightarrow> (\<forall>c \<in> set cs. no_set rel c s'))"
        by (intro Cons.IH step(1)) simp
      with gone Inr fewer_sets_trans [OF u] no_set_fewer show ?thesis by auto
    qed (use u step(2) in auto)
  next
    case False
    with Cons.prems l have "s' = t \<and> r \<noteq> Inr ()" by (auto simp: bindA_def failA_def split: sum.splits list.splits)
    with t show ?thesis by simp
  qed
qed

section \<open>The whole operation\<close>

lemma resizeVolumes_phases:
  assumes "resizeVolumes L W True rel zs s = Some (r, s')" and "zs \<noteq> []"
  obtains (patching) e where "patch_all L rel zs [] [] [] s = (Inl e, s')" "r = Inl e"
    | (waiting) ps st t e where "patch_all L rel zs [] [] [] s = (Inr (ps, st), t)" "wait_all L W ps t = Some (Inl e, s')" "r = Inl e"
    | (deleting) ps st t u where "patch_all L rel zs [] [] [] s = (Inr (ps, st), t)" "wait_all L W ps t = Some (Inr (), u)"
        "orphanDeleteStatefulSets rel st u = (r, s')"
proof (cases "patch_all L rel zs [] [] [] s")
  case (Pair x t)
  show thesis
  proof (cases x)
    case (Inl e)
    with Pair assms show thesis by (intro patching) (auto simp: resizeVolumes_def)
  next
    case (Inr y)
    obtain ps st where y: "y = (ps, st)" by (cases y)
    from assms Pair Inr y obtain w u where w: "wait_all L W ps t = Some (w, u)"
      by (auto simp: resizeVolumes_def split: option.splits)
    with assms Pair Inr y show thesis
      by (cases w) (auto simp: resizeVolumes_def intro: waiting deleting)
  qed
qed

text \<open>
  C39: whatever API call fails, and however the operation ends, resizing never shrinks a volume
  claim: claims keep their name, labels and storage class, no request decreases, and a claim
  whose own storage class does not allow expansion keeps its request. Storage classes stay.
\<close>

theorem resize_claims_only_grow:
  assumes "quantity_laws L" and "distinct (map v_Name (k_PVCs s))"
    and "resizeVolumes L W hasClient rel zs s = Some (r, s')"
  shows "list_all2 (grown_pvc L (k_Classes s)) (k_PVCs s) (k_PVCs s') \<and> k_Classes s' = k_Classes s"
proof (cases "hasClient \<and> zs \<noteq> []")
  case True
  have "grown L s t" if "patch_all L rel zs [] [] [] s = (x, t)" for x t
    using patch_all_spec [OF assms(1,2) _ that] by simp
  note patch = this
  from assms(3) True have "resizeVolumes L W True rel zs s = Some (r, s')" "zs \<noteq> []" by simp_all
  then show ?thesis
  proof (cases rule: resizeVolumes_phases)
    case (waiting ps st t e)
    with patch [OF waiting(1)] wait_all_idle [OF waiting(2)] show ?thesis by (simp add: grown_def idle_def)
  next
    case (deleting ps st t u)
    with patch [OF deleting(1)] wait_all_idle [OF deleting(2)] orphan_spec [OF deleting(3)] show ?thesis
      by (simp add: grown_def idle_def fewer_sets_def)
  qed (use True patch in \<open>auto simp: grown_def\<close>)
next
  case False
  then have "s' = s" using assms(3) by (auto simp: resizeVolumes_def split: if_splits)
  then show ?thesis by (simp add: list.rel_refl)
qed

text \<open>
  C10: StatefulSets are only touched after every volume is patched. If a resize changes the
  StatefulSets of the namespace, even one that fails later, then the claims of every component
  in the resize request the new size; and a resize that succeeds leaves no StatefulSet of a
  stateful component in it.
\<close>

theorem resize_statefulsets_last:
  assumes "quantity_laws L" and "distinct (map v_Name (k_PVCs s))"
    and "resizeVolumes L W True rel zs s = Some (r, s')"
    and "k_StatefulSets s' \<noteq> k_StatefulSets s \<or> r = Inr ()" and "z \<in> set zs"
  shows "resized L rel z s' \<and> (r = Inr () \<longrightarrow> z_Stateful z \<longrightarrow> no_set rel (z_Component z) s')"
proof -
  have "zs \<noteq> []" using assms(5) by auto
  from assms(3) this show ?thesis
  proof (cases rule: resizeVolumes_phases)
    case (patching e)
    with patch_all_spec [OF assms(1,2) _ patching(1)] assms(4) show ?thesis by (simp add: grown_def)
  next
    case (waiting ps st t e)
    with patch_all_spec [OF assms(1,2) _ waiting(1)] wait_all_idle [OF waiting(2)] assms(4) show ?thesis
      by (simp add: grown_def idle_def)
  next
    case (deleting ps st t u)
    note spec = patch_all_spec [OF assms(1,2) _ deleting(1)]
    have t: "resized L rel z t" "st = map z_Component (filter z_Stateful zs)" using spec assms(5) by simp_all
    have "k_PVCs s' = k_PVCs t"
      using wait_all_idle [OF deleting(2)] orphan_spec [OF deleting(3)] by (simp add: idle_def fewer_sets_def)
    with t(1) have "resized L rel z s'" by (simp add: resized_def requests_def)
    with orphan_spec [OF deleting(3)] t(2) assms(5) show ?thesis by auto
  qed
qed

lemma resizeVolumes_ends:
  assumes "\<forall>start. \<exists>k \<ge> start. w_TimedOut W start k"
  shows "\<exists>r s'. resizeVolumes L W hasClient rel zs s = Some (r, s')"
proof (cases "patch_all L rel zs [] [] [] s")
  case (Pair x t)
  show ?thesis
  proof (cases x)
    case (Inr y)
    obtain ps st where y: "y = (ps, st)" by (cases y)
    obtain w u where "wait_all L W ps t = Some (w, u)" using wait_all_ends [OF assms] by fast
    with Pair Inr y show ?thesis
      by (cases w; cases "orphanDeleteStatefulSets rel st u") (simp_all add: resizeVolumes_def)
  qed (simp add: resizeVolumes_def Pair)
qed

text \<open>
  the operation ends. Waiting polls until the deadline, so when every deadline passes at some
  poll, resizing returns a result whatever the cluster answers.
\<close>

theorem resize_terminates:
  assumes "\<forall>start. \<exists>k \<ge> start. w_TimedOut W start k"
  shows "\<exists>r s'. resizeVolumes L W hasClient rel zs s = Some (r, s')"
  by (rule resizeVolumes_ends [OF assms])

section \<open>Example\<close>

text \<open>One StatefulSet with one claim of 1Gi.\<close>

definition ex_labels :: "string gomap" where
  "ex_labels = [(''app.kubernetes.io/instance'', ''shop-prod''), (LabelComponent, ''db'')]"

definition ex_cluster :: "(int, unit) cluster" where
  "ex_cluster =
     \<lparr>k_PVCs = [\<lparr>v_Name = ''data-db-0'', v_Labels = ex_labels, v_StorageClassName = Some ''ssd'', v_Request = 1024\<rparr>],
      k_Classes = [\<lparr>g_Name = ''ssd'', g_Annotations = [], g_AllowVolumeExpansion = Some True\<rparr>],
      k_StatefulSets = [\<lparr>ss_Name = ''shop-prod-db'', ss_Labels = ex_labels\<rparr>],
      k_Faults = [], k_Poll = 0\<rparr>"

definition ex_resize :: persistenceResize where
  "ex_resize = \<lparr>z_Component = ''db'', z_PreviousSize = ''1Gi'', z_NewSize = ''10Gi'', z_StorageClass = [], z_Stateful = True\<rparr>"

text \<open>The claim has its new capacity at the second poll; a wait times out after 150 polls.\<close>

definition ex_world :: "int world" where
  "ex_world = \<lparr>w_Capacity = \<lambda>n _. if n = 0 then 1024 else 10240, w_ResizePending = \<lambda>_ _. False,
     w_TimedOut = \<lambda>start n. start + 150 \<le> n, w_Cancelled = \<lambda>_. False\<rparr>"

lemma ex_resize_run:
  "\<exists>s'. resizeVolumes int_lib ex_world True ''shop-prod'' [ex_resize] ex_cluster = Some (Inr (), s')"
proof -
  have "(case resizeVolumes int_lib ex_world True ''shop-prod'' [ex_resize] ex_cluster of
      None \<Rightarrow> False | Some (r, s') \<Rightarrow> r = Inr ())" by code_simp
  then show ?thesis by (auto split: option.splits)
qed

lemma ex_cluster_distinct: "distinct (map v_Name (k_PVCs ex_cluster))"
  by code_simp

theorem resize_claims_only_grow_witness:
  "\<exists>s'. resizeVolumes int_lib ex_world True ''shop-prod'' [ex_resize] ex_cluster = Some (Inr (), s')
     \<and> list_all2 (grown_pvc int_lib (k_Classes ex_cluster)) (k_PVCs ex_cluster) (k_PVCs s')"
proof -
  obtain s' where s': "resizeVolumes int_lib ex_world True ''shop-prod'' [ex_resize] ex_cluster = Some (Inr (), s')"
    using ex_resize_run by blast
  with resize_claims_only_grow [OF int_lib_laws(1) ex_cluster_distinct s'] show ?thesis by blast
qed

theorem resize_statefulsets_last_witness:
  "\<exists>s'. resizeVolumes int_lib ex_world True ''shop-prod'' [ex_resize] ex_cluster = Some (Inr (), s')
     \<and> resized int_lib ''shop-prod'' ex_resize s' \<and> no_set ''shop-prod'' ''db'' s'"
proof -
  obtain s' where s': "resizeVolumes int_lib ex_world True ''shop-prod'' [ex_resize] ex_cluster = Some (Inr (), s')"
    using ex_resize_run by blast
  with resize_statefulsets_last [OF int_lib_laws(1) ex_cluster_distinct s', of ex_resize] show ?thesis
    by (auto simp: ex_resize_def)
qed

theorem resize_terminates_witness:
  "\<exists>r s'. resizeVolumes int_lib ex_world True ''shop-prod'' [ex_resize] (ex_cluster\<lparr>k_Faults := [None, Some ()]\<rparr>) = Some (r, s')"
proof (rule resize_terminates, intro allI)
  show "\<exists>k \<ge> start. w_TimedOut ex_world start k" for start
    by (rule exI [of _ "start + 150"]) (simp add: ex_world_def)
qed

end
