(* ===== verification/Cluster_Checks.thy ===== *)
theory Cluster_Checks
  imports Resolve
begin

text \<open>
  What a deployment asks of a cluster and reads from it: the API groups a spec needs
  (\<open>internal/k8s/requirements.go\<close>, \<open>capabilities.go\<close>), the minimum server version (\<open>version.go\<close>),
  the self-signed certificates (\<open>tlscert.go\<close>) and the readiness of pods
  (\<open>internal/readiness/readiness.go\<close>). Answers of the API server are arguments; certificate parsing
  and generation are third-party calls and are fields of \<open>cert_lib\<close>.
\<close>

section \<open>Required APIs\<close>

record APIRequirement =
  ar_GroupVersions :: "string list"
  ar_Components :: "string list"

text \<open>The features of one component that need an API group.\<close>

definition needed_apis :: "'q Component \<Rightarrow> 'q ResolvedComponent option \<Rightarrow> string list list" where
  "needed_apis component rc =
     (case c_Autoscaling component of
        Some a \<Rightarrow> if as_Enabled a then [[''autoscaling/v2'', ''autoscaling/v2beta2'']] else []
      | None \<Rightarrow> [])
     @ (if c_Expose component \<noteq> None then [[''networking.k8s.io/v1'']] else [])
     @ (if IsEnabled (c_Metrics component) then [[''monitoring.coreos.com/v1'']] else [])
     @ (case rc of Some rc \<Rightarrow> if rc_TLSMode rc = TLSModeCertManager then [[''cert-manager.io/v1'']] else [] | None \<Rightarrow> [])"

definition add_requirement :: "string \<Rightarrow> string list \<Rightarrow> APIRequirement gomap \<Rightarrow> APIRequirement gomap" where
  "add_requirement name gvs entries =
     (let key = str_Join gvs ''|'';
          e = (case gm_get entries key of None \<Rightarrow> \<lparr>ar_GroupVersions = gvs, ar_Components = []\<rparr> | Some e \<Rightarrow> e) in
      gm_put key (e\<lparr>ar_Components := ar_Components e @ [name]\<rparr>) entries)"

definition active_component :: "string \<Rightarrow> 'q Component \<Rightarrow> bool" where
  "active_component environment component =
     (c_Environments component = [] \<or> matchEnvKey environment (c_Environments component) \<noteq> None)"

definition required_entries ::
  "'q Spec \<Rightarrow> string \<Rightarrow> 'q ResolvedComponent gomap option \<Rightarrow> APIRequirement gomap" where
  "required_entries manifest environment resolved =
     fold (\<lambda>(name, component) entries.
         if \<not> active_component environment component then entries
         else fold (add_requirement name)
                (needed_apis component (case resolved of None \<Rightarrow> None | Some rcs \<Rightarrow> gm_get rcs name)) entries)
       (s_Components manifest) []"

definition RequiredAPIs :: "'q Spec \<Rightarrow> string \<Rightarrow> 'q ResolvedComponent gomap option \<Rightarrow> APIRequirement list" where
  "RequiredAPIs manifest environment resolved = map snd (required_entries manifest environment resolved)"

datatype 'e capability_error = DiscoverGroups 'e | MissingAPIs "APIRequirement list"

text \<open>\<open>available\<close> is the list of group versions that the server reports.\<close>

definition CheckAPIRequirements :: "('e, string list) result \<Rightarrow> APIRequirement list \<Rightarrow> 'e capability_error check" where
  "CheckAPIRequirements groups reqs =
     (if reqs = [] then None
      else
        case groups of
          Inl e \<Rightarrow> Some (DiscoverGroups e)
        | Inr available \<Rightarrow>
            let missing = filter (\<lambda>r. \<not> list_ex (\<lambda>gv. gv \<in> set available) (ar_GroupVersions r)) reqs in
            if missing = [] then None else Some (MissingAPIs missing))"

definition filterCoveredAPIs :: "APIRequirement list \<Rightarrow> string list \<Rightarrow> APIRequirement list" where
  "filterCoveredAPIs reqs covered =
     (if covered = [] \<or> reqs = [] then reqs
      else filter (\<lambda>r. \<not> list_ex (\<lambda>gv. gv \<in> set covered) (ar_GroupVersions r)) reqs)"

section \<open>Server version\<close>

definition MinStatefulMajor :: int where "MinStatefulMajor = 1"
definition MinStatefulMinor :: int where "MinStatefulMinor = 32"

definition parseVersionPart :: "string \<Rightarrow> int option" where
  "parseVersionPart s0 =
     (let s1 = fst (CutSuffix (TrimSpace s0) ''+'');
          s = takeWhile (\<lambda>c. c \<noteq> CHR ''.'' \<and> c \<noteq> CHR ''-'') s1 in
      if s = [] then None else Atoi s)"

datatype 'e version_error =
    DiscoverVersion 'e
  | MajorUnreadable string
  | MinorUnreadable string
  | VersionBelow int int

definition CheckMinimumVersion :: "('e, string \<times> string) result \<Rightarrow> int \<Rightarrow> int \<Rightarrow> 'e version_error check" where
  "CheckMinimumVersion server major minor =
     (case server of
        Inl e \<Rightarrow> Some (DiscoverVersion e)
      | Inr (srv_major, srv_minor) \<Rightarrow>
          (case parseVersionPart srv_major of
             None \<Rightarrow> Some (MajorUnreadable srv_major)
           | Some gotMajor \<Rightarrow>
               (case parseVersionPart srv_minor of
                  None \<Rightarrow> Some (MinorUnreadable srv_minor)
                | Some gotMinor \<Rightarrow>
                    if gotMajor < major \<or> gotMajor = major \<and> gotMinor < minor
                    then Some (VersionBelow gotMajor gotMinor) else None)))"

section \<open>Self-signed certificates\<close>

text \<open>Times are seconds.\<close>

record leaf_cert =
  NotAfter :: int
  ValidHosts :: "string list"

record 'e cert_lib =
  ParseKeyPair :: "string \<Rightarrow> string \<Rightarrow> leaf_cert option"
  GenerateCert :: "string \<Rightarrow> ('e, string \<times> string) result"

record tls_secret =
  sec_IsTLS :: bool
  sec_Cert :: string
  sec_Key :: string

datatype 'e secret_get = SecretFound tls_secret | SecretNotFound | SecretError 'e

definition selfSignedCertRenewBefore :: int where "selfSignedCertRenewBefore = 30 * 24 * 60 * 60"

definition selfSignedSecretName :: "string \<Rightarrow> string" where "selfSignedSecretName fqdn = fqdn @ ''-tls''"

definition reusableCert :: "'e cert_lib \<Rightarrow> int \<Rightarrow> tls_secret \<Rightarrow> string \<Rightarrow> (string \<times> string) option" where
  "reusableCert C now secret fqdn =
     (if \<not> sec_IsTLS secret then None
      else if sec_Cert secret = [] \<or> sec_Key secret = [] then None
      else
        case ParseKeyPair C (sec_Cert secret) (sec_Key secret) of
          None \<Rightarrow> None
        | Some leaf \<Rightarrow>
            if NotAfter leaf - now < selfSignedCertRenewBefore then None
            else if fqdn \<notin> set (ValidHosts leaf) then None
            else Some (sec_Cert secret, sec_Key secret))"

datatype 'e tls_error = GetTLSSecret string 'e | GenerateFailed string 'e | NoClient 'e

definition GenerateSelfSignedCert :: "'e cert_lib \<Rightarrow> string \<Rightarrow> ('e tls_error, string \<times> string) result" where
  "GenerateSelfSignedCert C fqdn = (case GenerateCert C fqdn of Inl e \<Rightarrow> Inl (GenerateFailed fqdn e) | Inr p \<Rightarrow> Inr p)"

definition EnsureSelfSignedCert ::
  "'e cert_lib \<Rightarrow> int \<Rightarrow> (string \<Rightarrow> 'e secret_get) \<Rightarrow> string \<Rightarrow> ('e tls_error, string \<times> string) result" where
  "EnsureSelfSignedCert C now getSecret fqdn =
     (case getSecret (selfSignedSecretName fqdn) of
        SecretFound secret \<Rightarrow>
          (case reusableCert C now secret fqdn of Some p \<Rightarrow> Inr p | None \<Rightarrow> GenerateSelfSignedCert C fqdn)
      | SecretNotFound \<Rightarrow> GenerateSelfSignedCert C fqdn
      | SecretError e \<Rightarrow> Inl (GetTLSSecret (selfSignedSecretName fqdn) e))"

definition needs_self_signed :: "'q ResolvedComponent \<Rightarrow> bool" where
  "needs_self_signed rc = (rc_TLSMode rc = TLSModeSelfSigned \<and> rc_FQDN rc \<noteq> [])"

definition HasSelfSignedComponents :: "'q ResolvedComponent gomap \<Rightarrow> bool" where
  "HasSelfSignedComponents rcs = list_ex (\<lambda>(_, rc). needs_self_signed rc) rcs"

text \<open>\<open>client\<close> reads a secret of the namespace; without one, certificates are generated offline.\<close>

definition materialize_one ::
  "'e cert_lib \<Rightarrow> int \<Rightarrow> (string \<Rightarrow> 'e secret_get) option \<Rightarrow> 'q ResolvedComponent \<Rightarrow> ('e tls_error, 'q ResolvedComponent) result" where
  "materialize_one C now client rc =
     (if \<not> needs_self_signed rc then Inr rc
      else
        bindE (case client of Some g \<Rightarrow> EnsureSelfSignedCert C now g (rc_FQDN rc) | None \<Rightarrow> GenerateSelfSignedCert C (rc_FQDN rc))
          (\<lambda>(cert, key). Inr (rc\<lparr>rc_TLSCertPEM := cert, rc_TLSKeyPEM := key\<rparr>)))"

fun MaterializeSelfSignedTLS ::
  "'e cert_lib \<Rightarrow> int \<Rightarrow> (string \<Rightarrow> 'e secret_get) option \<Rightarrow> 'q ResolvedComponent gomap
     \<Rightarrow> ('e tls_error, 'q ResolvedComponent gomap) result" where
  "MaterializeSelfSignedTLS C now client [] = Inr []"
| "MaterializeSelfSignedTLS C now client ((name, rc) # rcs) =
     bindE (materialize_one C now client rc) (\<lambda>rc'.
     bindE (MaterializeSelfSignedTLS C now client rcs) (\<lambda>rcs'. Inr ((name, rc') # rcs')))"

text \<open>The wrapper of \<open>cmdopts\<close>: without a client it refuses components that need a certificate.\<close>

definition cmdopts_MaterializeSelfSignedTLS ::
  "'e cert_lib \<Rightarrow> int \<Rightarrow> ('e, string \<Rightarrow> 'e secret_get) result \<Rightarrow> 'q ResolvedComponent gomap
     \<Rightarrow> ('e tls_error, 'q ResolvedComponent gomap) result" where
  "cmdopts_MaterializeSelfSignedTLS C now client rcs =
     (case client of
        Inl e \<Rightarrow> if HasSelfSignedComponents rcs then Inl (NoClient e) else MaterializeSelfSignedTLS C now None rcs
      | Inr g \<Rightarrow> MaterializeSelfSignedTLS C now (Some g) rcs)"

section \<open>Readiness\<close>

record pod =
  pod_Labels :: "string gomap"
  pod_Phase :: string
  pod_ContainersReady :: "bool list"

record ComponentStatus =
  cs_Name :: string
  cs_ReadyPods :: int
  cs_TotalPods :: int

definition IsPodReady :: "pod \<Rightarrow> bool" where
  "IsPodReady p = (pod_Phase p = ''Running'' \<and> list_all id (pod_ContainersReady p))"

definition pod_component :: "string \<Rightarrow> pod \<Rightarrow> string" where
  "pod_component releaseName p =
     (let c1 = gm_get_or [] (pod_Labels p) ''deployah.dev/component'';
          c2 = (if c1 = [] then gm_get_or [] (pod_Labels p) ''app.kubernetes.io/component'' else c1) in
      if c2 = [] then releaseName else c2)"

definition count_pod :: "string \<Rightarrow> pod \<Rightarrow> (int \<times> int) gomap \<Rightarrow> (int \<times> int) gomap" where
  "count_pod releaseName p m =
     (let (ready, total_pods) = gm_get_or (0, 0) m (pod_component releaseName p) in
      gm_put (pod_component releaseName p) (if IsPodReady p then ready + 1 else ready, total_pods + 1) m)"

definition Poll :: "string \<Rightarrow> ('e, pod list) result \<Rightarrow> ('e, ComponentStatus list) result" where
  "Poll releaseName pods =
     bindE pods (\<lambda>items.
       Inr (sort_key cs_Name
         (map (\<lambda>(name, (ready, total_pods)). \<lparr>cs_Name = name, cs_ReadyPods = ready, cs_TotalPods = total_pods\<rparr>)
            (fold (count_pod releaseName) items []))))"

definition AllReady :: "ComponentStatus list \<Rightarrow> bool" where
  "AllReady statuses = (statuses \<noteq> [] \<and> list_all (\<lambda>s. \<not> cs_ReadyPods s < cs_TotalPods s) statuses)"

definition readiness_Summary :: "ComponentStatus list \<Rightarrow> string" where
  "readiness_Summary statuses =
     (if statuses = [] then []
      else str_Join (map (\<lambda>s. cs_Name s @ '': '' @ Itoa (nat (cs_ReadyPods s)) @ ''/'' @ Itoa (nat (cs_TotalPods s))) statuses) '', '')"

section \<open>Every needed API is asked for\<close>

definition api_lists :: "string list list" where
  "api_lists = [[''autoscaling/v2'', ''autoscaling/v2beta2''], [''networking.k8s.io/v1''], [''monitoring.coreos.com/v1''], [''cert-manager.io/v1'']]"

lemma needed_apis_known: "gvs \<in> set (needed_apis c rc) \<Longrightarrow> gvs \<in> set api_lists"
  by (auto simp: needed_apis_def api_lists_def split: option.splits if_splits)

lemma api_key_inj: "gvs \<in> set api_lists \<Longrightarrow> gvs' \<in> set api_lists \<Longrightarrow> str_Join gvs ''|'' = str_Join gvs' ''|'' \<Longrightarrow> gvs = gvs'"
proof -
  have "distinct (map (\<lambda>gvs. str_Join gvs ''|'') api_lists)" by code_simp
  then show "gvs \<in> set api_lists \<Longrightarrow> gvs' \<in> set api_lists \<Longrightarrow> str_Join gvs ''|'' = str_Join gvs' ''|'' \<Longrightarrow> gvs = gvs'"
    by (auto simp: distinct_map dest: inj_onD)
qed

text \<open>The components that a map of requirements lists for a list of group versions.\<close>

definition asked :: "APIRequirement gomap \<Rightarrow> string list \<Rightarrow> string set" where
  "asked m gvs = (case gm_get m (str_Join gvs ''|'') of None \<Rightarrow> {} | Some e \<Rightarrow> set (ar_Components e))"

definition entries_ok :: "APIRequirement gomap \<Rightarrow> bool" where
  "entries_ok m = (gm_wf m \<and> (\<forall>(k, e) \<in> set m. ar_GroupVersions e \<in> set api_lists \<and> k = str_Join (ar_GroupVersions e) ''|''))"

lemma add_requirement_ok:
  assumes "entries_ok m" "gvs \<in> set api_lists"
  shows "entries_ok (add_requirement name gvs m)"
    and "gvs' \<in> set api_lists \<Longrightarrow> asked (add_requirement name gvs m) gvs' = asked m gvs' \<union> (if gvs' = gvs then {name} else {})"
proof -
  let ?e = "case gm_get m (str_Join gvs ''|'') of None \<Rightarrow> \<lparr>ar_GroupVersions = gvs, ar_Components = []\<rparr> | Some e \<Rightarrow> e"
  have e: "ar_GroupVersions ?e = gvs"
    using assms api_key_inj by (fastforce simp: entries_ok_def dest: gm_get_SomeD split: option.splits)
  show "entries_ok (add_requirement name gvs m)"
    using assms e set_gm_put [of "str_Join gvs ''|''" "?e\<lparr>ar_Components := ar_Components ?e @ [name]\<rparr>" m]
    by (fastforce simp: add_requirement_def Let_def entries_ok_def)
  show "asked (add_requirement name gvs m) gvs' = asked m gvs' \<union> (if gvs' = gvs then {name} else {})" if "gvs' \<in> set api_lists"
    using api_key_inj [OF that assms(2)]
    by (auto simp: asked_def add_requirement_def Let_def split: option.split)
qed

lemma fold_add_requirement:
  assumes "entries_ok m" "set ls \<subseteq> set api_lists"
  shows "entries_ok (fold (add_requirement name) ls m)
    \<and> (\<forall>gvs' \<in> set api_lists. asked (fold (add_requirement name) ls m) gvs' = asked m gvs' \<union> (if gvs' \<in> set ls then {name} else {}))"
  using assms
proof (induction ls arbitrary: m)
  case (Cons gvs ls)
  note step = add_requirement_ok [of m gvs]
  have "entries_ok (add_requirement name gvs m)" using Cons.prems by (intro step(1)) auto
  with Cons.IH [of "add_requirement name gvs m"] Cons.prems step(2) show ?case by auto
qed simp

text \<open>What a component of the spec needs in an environment.\<close>

definition needs :: "string \<Rightarrow> 'q ResolvedComponent gomap option \<Rightarrow> string \<times> 'q Component \<Rightarrow> string list list" where
  "needs environment resolved nc =
     (if active_component environment (snd nc)
      then needed_apis (snd nc) (case resolved of None \<Rightarrow> None | Some rcs \<Rightarrow> gm_get rcs (fst nc)) else [])"

lemma required_entries_spec:
  "entries_ok (required_entries m env res)
   \<and> (\<forall>gvs \<in> set api_lists. asked (required_entries m env res) gvs = {name. \<exists>c. (name, c) \<in> set (s_Components m) \<and> gvs \<in> set (needs env res (name, c))})"
proof -
  have "entries_ok s \<Longrightarrow> entries_ok (fold (\<lambda>(name, component) entries.
         if \<not> active_component env component then entries
         else fold (add_requirement name) (needed_apis component (case res of None \<Rightarrow> None | Some rcs \<Rightarrow> gm_get rcs name)) entries) cs s)
    \<and> (\<forall>gvs \<in> set api_lists. asked (fold (\<lambda>(name, component) entries.
         if \<not> active_component env component then entries
         else fold (add_requirement name) (needed_apis component (case res of None \<Rightarrow> None | Some rcs \<Rightarrow> gm_get rcs name)) entries) cs s) gvs
        = asked s gvs \<union> {name. \<exists>c. (name, c) \<in> set cs \<and> gvs \<in> set (needs env res (name, c))})" for cs s
  proof (induction cs arbitrary: s)
    case (Cons nc cs)
    obtain n c where nc: "nc = (n, c)" by (cases nc)
    define t where "t = fold (add_requirement n) (needs env res (n, c)) s"
    have body: "(if \<not> active_component env c then s
        else fold (add_requirement n) (needed_apis c (case res of None \<Rightarrow> None | Some rcs \<Rightarrow> gm_get rcs n)) s) = t"
      by (cases res) (simp_all add: t_def needs_def)
    have "set (needs env res (n, c)) \<subseteq> set api_lists" using needed_apis_known by (auto simp: needs_def)
    from fold_add_requirement [OF Cons.prems this, of n]
    have t: "entries_ok t" "\<And>gvs. gvs \<in> set api_lists \<Longrightarrow> asked t gvs = asked s gvs \<union> (if gvs \<in> set (needs env res (n, c)) then {n} else {})"
      by (simp_all add: t_def)
    show ?case using Cons.IH [OF t(1)] t(2) by (auto simp: nc body)
  qed simp
  from this [of "[]" "s_Components m"] show ?thesis by (simp add: required_entries_def entries_ok_def asked_def)
qed

text \<open>
  a deployment that passes the API check finds every API it needs. For each component active
  in the environment, every feature that needs an API group (autoscaling, expose, metrics,
  cert-manager certificates) has one of its acceptable versions on the server or among the
  resource definitions that the deployment installs.
\<close>

theorem required_apis_available:
  assumes "CheckAPIRequirements (Inr available) (filterCoveredAPIs (RequiredAPIs m env res) covered) = None"
    and "(name, c) \<in> set (s_Components m)" and "gvs \<in> set (needs env res (name, c))"
  shows "\<exists>gv \<in> set gvs. gv \<in> set available \<or> gv \<in> set covered"
proof -
  have known: "gvs \<in> set api_lists" using assms(3) needed_apis_known by (auto simp: needs_def split: if_splits)
  note spec = required_entries_spec [of m env res]
  have "name \<in> asked (required_entries m env res) gvs" using spec known assms(2,3) by blast
  then obtain e where "gm_get (required_entries m env res) (str_Join gvs ''|'') = Some e"
    by (auto simp: asked_def split: option.splits)
  then have mem: "(str_Join gvs ''|'', e) \<in> set (required_entries m env res)" by (rule gm_get_SomeD)
  then have "ar_GroupVersions e = gvs" using spec api_key_inj [OF _ known] by (fastforce simp: entries_ok_def)
  moreover have "e \<in> set (RequiredAPIs m env res)" using mem by (force simp: RequiredAPIs_def)
  ultimately show ?thesis
    using assms(1) by (fastforce simp: CheckAPIRequirements_def filterCoveredAPIs_def Let_def filter_empty_conv list_ex_iff split: if_splits)
qed

section \<open>Versions\<close>

lemma digit_chars: "is_digit c \<Longrightarrow> c \<noteq> CHR ''.''" "is_digit c \<Longrightarrow> c \<noteq> CHR ''-''" "is_digit c \<Longrightarrow> c \<noteq> CHR ''+''"
  "is_digit c \<Longrightarrow> \<not> ascii_space c"
  by (auto simp: is_digit_def ascii_space_def)

lemma takeWhile_digits: "list_all is_digit s \<Longrightarrow> takeWhile (\<lambda>c. c \<noteq> CHR ''.'' \<and> c \<noteq> CHR ''-'') s = s"
  by (simp add: takeWhile_eq_all_conv list_all_iff digit_chars)

lemma TrimSpace_digits: "list_all is_digit s \<Longrightarrow> TrimSpace s = s"
proof -
  have "dropWhile ascii_space xs = xs" if "list_all is_digit xs" for xs
    using that by (cases xs) (simp_all add: digit_chars)
  then show "list_all is_digit s \<Longrightarrow> TrimSpace s = s" by (simp add: TrimSpace_def)
qed

lemma CutSuffix_digits:
  assumes "list_all is_digit s"
  shows "fst (CutSuffix s ''+'') = s"
proof -
  have "\<not> HasSuffix s ''+''" using assms digit_chars(3) by (fastforce simp: HasSuffix_iff)
  then show ?thesis by (simp add: CutSuffix_def)
qed

lemma parseVersionPart_Itoa: "int n < 2 ^ 63 \<Longrightarrow> parseVersionPart (Itoa n) = Some (int n)"
  using Itoa_digits [of n]
  by (simp add: parseVersionPart_def TrimSpace_digits CutSuffix_digits takeWhile_digits Atoi_Itoa)

text \<open>
  the version floor is the lexicographic order on versions. A server whose version parts read
  as numbers is accepted iff its version is at least the required one.
\<close>

theorem minimum_version_iff:
  assumes "int M < 2 ^ 63" and "int m < 2 ^ 63"
  shows "CheckMinimumVersion (Inr (Itoa M, Itoa m)) major minor = None \<longleftrightarrow> major < int M \<or> major = int M \<and> minor \<le> int m"
  using assms by (auto simp: CheckMinimumVersion_def parseVersionPart_Itoa)

section \<open>Readiness counts\<close>

definition pods_of :: "string \<Rightarrow> pod list \<Rightarrow> string \<Rightarrow> pod list" where
  "pods_of rel ps n = filter (\<lambda>p. pod_component rel p = n) ps"

lemma fold_count_pod:
  "gm_get_or (0, 0) (fold (count_pod rel) ps m) n =
     (fst (gm_get_or (0, 0) m n) + int (length (filter IsPodReady (pods_of rel ps n))),
      snd (gm_get_or (0, 0) m n) + int (length (pods_of rel ps n)))"
proof (induction ps arbitrary: m)
  case (Cons p ps)
  have step: "gm_get_or (0, 0) (count_pod rel p m) n =
      (if n = pod_component rel p
       then (fst (gm_get_or (0, 0) m n) + (if IsPodReady p then 1 else 0), snd (gm_get_or (0, 0) m n) + 1)
       else gm_get_or (0, 0) m n)"
    by (auto simp: count_pod_def Let_def split: prod.split)
  show ?case unfolding fold_Cons comp_apply Cons.IH step by (auto simp: pods_of_def)
qed (simp add: pods_of_def)

lemma fold_count_keys:
  "gm_wf m \<Longrightarrow> gm_wf (fold (count_pod rel) ps m) \<and> fst ` set (fold (count_pod rel) ps m) = fst ` set m \<union> pod_component rel ` set ps"
proof (induction ps arbitrary: m)
  case (Cons p ps)
  have "gm_wf (count_pod rel p m)" "fst ` set (count_pod rel p m) = insert (pod_component rel p) (fst ` set m)"
    using Cons.prems by (cases "gm_get_or (0, 0) m (pod_component rel p)"; simp add: count_pod_def Let_def keys_put)+
  with Cons.IH [of "count_pod rel p m"] show ?case by auto
qed simp

lemma Poll_mem:
  assumes "Poll rel (Inr ps :: ('e, _) result) = Inr ss"
  shows "s \<in> set ss \<longleftrightarrow> cs_Name s \<in> pod_component rel ` set ps
    \<and> cs_ReadyPods s = int (length (filter IsPodReady (pods_of rel ps (cs_Name s))))
    \<and> cs_TotalPods s = int (length (pods_of rel ps (cs_Name s)))"
proof -
  let ?m = "fold (count_pod rel) ps []"
  have k: "gm_wf ?m" "fst ` set ?m = pod_component rel ` set ps" using fold_count_keys [of "[]" rel ps] by simp_all
  have g: "(n, v) \<in> set ?m \<longleftrightarrow> n \<in> pod_component rel ` set ps
      \<and> v = (int (length (filter IsPodReady (pods_of rel ps n))), int (length (pods_of rel ps n)))" for n v
  proof -
    have "(n, v) \<in> set ?m \<longleftrightarrow> gm_get ?m n = Some v" using gm_get_wf_iff [OF k(1)] by blast
    also have "\<dots> \<longleftrightarrow> n \<in> pod_component rel ` set ps \<and> gm_get_or (0, 0) ?m n = v"
      using gm_get_None_keys [of ?m n] k(2) by (auto simp: gm_get_or_def split: option.split)
    finally show ?thesis using fold_count_pod [of rel ps "[]" n] by (auto simp: gm_get_or_def)
  qed
  have "s \<in> set ss \<longleftrightarrow> (cs_Name s, (cs_ReadyPods s, cs_TotalPods s)) \<in> set ?m"
    using assms by (cases s) (force simp: Poll_def)
  then show ?thesis unfolding g by auto
qed

text \<open>
  readiness. The components of a release are all ready iff the release has pods and every pod
  runs with all its containers ready; and each component is counted with exactly its pods.
\<close>

theorem all_ready_iff:
  assumes "Poll rel (Inr ps :: ('e, _) result) = Inr ss"
  shows "(AllReady ss \<longleftrightarrow> ps \<noteq> [] \<and> (\<forall>p \<in> set ps. IsPodReady p))
    \<and> (\<forall>s \<in> set ss. cs_TotalPods s = int (length (pods_of rel ps (cs_Name s))) \<and> cs_ReadyPods s \<le> cs_TotalPods s)"
proof -
  note mem = Poll_mem [OF assms]
  have lt: "\<not> length (filter P xs) < length xs \<longleftrightarrow> (\<forall>x \<in> set xs. P x)" for P and xs :: "pod list"
    by (cases "\<forall>x \<in> set xs. P x") (auto intro: length_filter_less)
  define st where "st n = \<lparr>cs_Name = n, cs_ReadyPods = int (length (filter IsPodReady (pods_of rel ps n))),
      cs_TotalPods = int (length (pods_of rel ps n))\<rparr>" for n
  have ss: "set ss = st ` pod_component rel ` set ps"
  proof (rule set_eqI)
    fix s :: ComponentStatus
    show "s \<in> set ss \<longleftrightarrow> s \<in> st ` pod_component rel ` set ps"
      unfolding mem by (cases s) (auto simp: st_def)
  qed
  have "(\<forall>s \<in> set ss. \<not> cs_ReadyPods s < cs_TotalPods s) \<longleftrightarrow> (\<forall>p \<in> set ps. \<forall>q \<in> set (pods_of rel ps (pod_component rel p)). IsPodReady q)"
    by (simp add: ss st_def lt)
  also have "\<dots> \<longleftrightarrow> (\<forall>p \<in> set ps. IsPodReady p)" by (auto simp: pods_of_def)
  finally have "(\<forall>s \<in> set ss. \<not> cs_ReadyPods s < cs_TotalPods s) \<longleftrightarrow> (\<forall>p \<in> set ps. IsPodReady p)" .
  moreover have "ss = [] \<longleftrightarrow> ps = []" using ss by (metis image_is_empty set_empty)
  moreover have "\<forall>s \<in> set ss. cs_TotalPods s = int (length (pods_of rel ps (cs_Name s))) \<and> cs_ReadyPods s \<le> cs_TotalPods s"
    by (simp add: ss st_def)
  ultimately show ?thesis unfolding AllReady_def list_all_iff by blast
qed

section \<open>Certificates are stable\<close>

lemma materialize_names:
  "MaterializeSelfSignedTLS C now client rcs = Inr rcs' \<Longrightarrow> map fst rcs' = map fst rcs"
  by (induction rcs arbitrary: rcs') auto

text \<open>
  self-signed certificates do not change between deployments. When the secret of every
  exposed self-signed component holds the certificate that was materialised before, still valid
  for the host and not close to expiry, materialising again gives the same components, so the
  chart renders to the same manifest.
\<close>

theorem tls_reuse_stable:
  assumes "\<forall>(name, rc) \<in> set rcs. needs_self_signed rc \<longrightarrow>
      (\<exists>secret. getSecret (selfSignedSecretName (rc_FQDN rc)) = SecretFound secret
         \<and> reusableCert C now secret (rc_FQDN rc) = Some (rc_TLSCertPEM rc, rc_TLSKeyPEM rc))"
  shows "MaterializeSelfSignedTLS C now (Some getSecret) rcs = Inr rcs"
  using assms
proof (induction rcs)
  case (Cons nrc rcs)
  obtain n rc where nrc: "nrc = (n, rc)" by (cases nrc)
  have "materialize_one C now (Some getSecret) rc = Inr rc"
    using Cons.prems by (auto simp: nrc materialize_one_def EnsureSelfSignedCert_def)
  with Cons show ?case by (simp add: nrc)
qed simp

section \<open>Examples\<close>

definition ex_web :: "int Component" where
  "ex_web = zero_Component\<lparr>c_Expose := Some \<lparr>x_Domain = [], x_Subdomain = None, x_Apex = False, x_disabled = False\<rparr>\<rparr>"

definition ex_web_spec :: "int Spec" where
  "ex_web_spec = \<lparr>s_APIVersion = [], s_Project = ''shop'', s_Environments = [], s_Components = [(''web'', ex_web)], s_Tasks = []\<rparr>"

theorem required_apis_available_witness:
  "\<exists>gv \<in> set [''networking.k8s.io/v1'']. gv \<in> set [''apps/v1'', ''networking.k8s.io/v1''] \<or> gv \<in> set []"
proof -
  have c: "CheckAPIRequirements (Inr [''apps/v1'', ''networking.k8s.io/v1''] :: (unit, _) result)
      (filterCoveredAPIs (RequiredAPIs ex_web_spec ''prod'' None) []) = None" by code_simp
  have m: "(''web'', ex_web) \<in> set (s_Components ex_web_spec)" by (simp add: ex_web_spec_def)
  have n: "[''networking.k8s.io/v1''] \<in> set (needs ''prod'' None (''web'', ex_web))" by code_simp
  from required_apis_available [OF c m n] show ?thesis .
qed

theorem minimum_version_iff_witness:
  "CheckMinimumVersion (Inr (Itoa 1, Itoa 31) :: (unit, _) result) MinStatefulMajor MinStatefulMinor \<noteq> None"
  by (subst minimum_version_iff) (simp_all add: MinStatefulMajor_def MinStatefulMinor_def)

definition ex_pods :: "pod list" where
  "ex_pods = [\<lparr>pod_Labels = [(''deployah.dev/component'', ''web'')], pod_Phase = ''Running'', pod_ContainersReady = [True, False]\<rparr>]"

theorem all_ready_iff_witness:
  "\<exists>ss. Poll ''shop'' (Inr ex_pods :: (unit, _) result) = Inr ss \<and> \<not> AllReady ss"
proof -
  obtain ss where ss: "Poll ''shop'' (Inr ex_pods :: (unit, _) result) = Inr ss" by (simp add: Poll_def)
  have "\<not> (\<forall>p \<in> set ex_pods. IsPodReady p)" by code_simp
  with all_ready_iff [OF ss] ss show ?thesis by blast
qed

definition ex_certs :: "unit cert_lib" where
  "ex_certs = \<lparr>ParseKeyPair = \<lambda>c k. Some \<lparr>NotAfter = 315360000, ValidHosts = [''web.example.com'']\<rparr>, GenerateCert = \<lambda>h. Inr (''new'', ''key'')\<rparr>"

definition ex_tls_components :: "int ResolvedComponent gomap" where
  "ex_tls_components = [(''web'', zero_ResolvedComponent\<lparr>rc_FQDN := ''web.example.com'', rc_TLSMode := TLSModeSelfSigned,
     rc_TLSCertPEM := ''crt'', rc_TLSKeyPEM := ''key''\<rparr>)]"

definition ex_secret :: "string \<Rightarrow> unit secret_get" where
  "ex_secret n = (if n = ''web.example.com-tls'' then SecretFound \<lparr>sec_IsTLS = True, sec_Cert = ''crt'', sec_Key = ''key''\<rparr> else SecretNotFound)"

theorem tls_reuse_stable_witness:
  "MaterializeSelfSignedTLS ex_certs 0 (Some ex_secret) ex_tls_components = Inr ex_tls_components"
proof (rule tls_reuse_stable)
  have "reusableCert ex_certs 0 \<lparr>sec_IsTLS = True, sec_Cert = ''crt'', sec_Key = ''key''\<rparr> ''web.example.com'' = Some (''crt'', ''key'')" by code_simp
  then show "\<forall>(name, rc) \<in> set ex_tls_components. needs_self_signed rc \<longrightarrow>
      (\<exists>secret. ex_secret (selfSignedSecretName (rc_FQDN rc)) = SecretFound secret
         \<and> reusableCert ex_certs 0 secret (rc_FQDN rc) = Some (rc_TLSCertPEM rc, rc_TLSKeyPEM rc))"
    by (simp add: ex_tls_components_def ex_secret_def selfSignedSecretName_def)
qed

end
