(* ===== verification/Go_Path.thy ===== *)
theory Go_Path
  imports Prelude
begin

text \<open>
  Slash-separated file paths: what the sources use of Go's \<open>path/filepath\<close> (\<open>Clean\<close>,
  \<open>Join\<close>, \<open>Dir\<close>, \<open>Ext\<close>) on Unix, and \<open>strings.ToLower\<close> and \<open>strings.EqualFold\<close> on
  ASCII text. (Go also folds letters outside ASCII.)
\<close>

definition Lower :: "string \<Rightarrow> string" where
  "Lower = map (\<lambda>c. if 65 \<le> (of_char c :: nat) \<and> (of_char c :: nat) \<le> 90 then char_of (of_char c + (32 :: nat)) else c)"

definition EqualFold :: "string \<Rightarrow> string \<Rightarrow> bool" where
  "EqualFold a b = (Lower a = Lower b)"

text \<open>The elements of a cleaned path, last one first.\<close>

fun clean_elements :: "bool \<Rightarrow> string list \<Rightarrow> string list \<Rightarrow> string list" where
  "clean_elements rooted acc [] = acc"
| "clean_elements rooted acc (p # ps) =
     (if p = [] \<or> p = ''.'' then clean_elements rooted acc ps
      else if p = ''..'' then
        (case acc of
           [] \<Rightarrow> clean_elements rooted (if rooted then [] else [p]) ps
         | q # qs \<Rightarrow> clean_elements rooted (if q = ''..'' then p # acc else qs) ps)
      else clean_elements rooted (p # acc) ps)"

definition path_Clean :: "string \<Rightarrow> string" where
  "path_Clean p =
     (let rooted = HasPrefix p ''/'';
          s = str_Join (rev (clean_elements rooted [] (str_Split (CHR ''/'') p))) ''/''
      in if rooted then ''/'' @ s else if s = [] then ''.'' else s)"

definition path_Join :: "string list \<Rightarrow> string" where
  "path_Join ps =
     (case dropWhile (\<lambda>p. p = []) ps of [] \<Rightarrow> [] | qs \<Rightarrow> path_Clean (str_Join qs ''/''))"

text \<open>Everything up to and including the last slash, cleaned.\<close>

definition path_Dir :: "string \<Rightarrow> string" where
  "path_Dir p = path_Clean (rev (dropWhile (\<lambda>c. c \<noteq> CHR ''/'') (rev p)))"

text \<open>The suffix from the last dot of the last element.\<close>

definition path_Ext :: "string \<Rightarrow> string" where
  "path_Ext p =
     (let e = takeWhile (\<lambda>c. c \<noteq> CHR ''/'') (rev p)
      in if CHR ''.'' \<in> set e then rev (takeWhile (\<lambda>c. c \<noteq> CHR ''.'') e @ ''.'') else [])"

lemma path_examples:
  "path_Clean ''a//./b/../c/'' = ''a/c''" "path_Clean [] = ''.''" "path_Clean ''/../x'' = ''/x''"
  "path_Join [path_Dir ''deployah.yaml'', ''.deployah''] = ''.deployah''"
  "path_Ext ''a.d/b.tar.gz'' = ''.gz''" "path_Ext ''a.d/b'' = []"
  by code_simp+

text \<open>A cleaned path has no empty element and no dot element.\<close>

lemma clean_elements_proper:
  assumes "\<forall>p \<in> set acc. p \<noteq> [] \<and> p \<noteq> ''.''" and "p \<in> set (clean_elements rooted acc ps)"
  shows "p \<noteq> [] \<and> p \<noteq> ''.''"
  using assms
  by (induction rooted acc ps rule: clean_elements.induct) (auto split: if_splits list.splits)

end
