(* ===== verification/Extras.thy ===== *)
theory Extras
  imports Workload Go_Path
begin

text \<open>
  Extra manifests and CRDs of a project (\<open>internal/extras\<close>): the objects under
  \<open>.deployah/manifests\<close> and \<open>.deployah/crds\<close> are listed and parsed, their scope is resolved,
  they get the identity labels and annotations of Deployah, and a post-renderer appends the
  manifests to what Helm renders.

  An object is the \<open>map[string]any\<close> that the YAML decoder gives. The accessors of
  \<open>unstructured.Unstructured\<close>, the YAML codec and the discovery of the cluster are parameters
  (\<open>obj_lib\<close>, the mapper of a resolver), the file system is one too (\<open>file_sys\<close>).
\<close>

section \<open>Parameters\<close>

record gvk =
  gvk_Group :: string
  gvk_Version :: string
  gvk_Kind :: string

text \<open>
  \<open>ol_Decode\<close> gives the documents of a YAML stream and the error that ended it, if any but the
  end of the file did.
\<close>

record 'e obj_lib =
  ol_GetAPIVersion :: "jval gomap \<Rightarrow> string"
  ol_GetKind :: "jval gomap \<Rightarrow> string"
  ol_GetNamespace :: "jval gomap \<Rightarrow> string"
  ol_GetName :: "jval gomap \<Rightarrow> string"
  ol_GVK :: "jval gomap \<Rightarrow> gvk"
  ol_SetNamespace :: "string \<Rightarrow> jval gomap \<Rightarrow> jval gomap"
  ol_SetLabels :: "string gomap \<Rightarrow> jval gomap \<Rightarrow> jval gomap"
  ol_SetAnnotations :: "string gomap \<Rightarrow> jval gomap \<Rightarrow> jval gomap"
  ol_Marshal :: "jval gomap \<Rightarrow> ('e, string) result"
  ol_Decode :: "string \<Rightarrow> jval gomap list \<times> 'e option"

datatype 'e dir_error = NotExist | DirFault 'e

record dir_entry =
  de_Name :: string
  de_IsDir :: bool

record 'e file_sys =
  fs_ReadDir :: "string \<Rightarrow> ('e dir_error, dir_entry list) result"
  fs_ReadFile :: "string \<Rightarrow> ('e, string) result"

section \<open>Objects\<close>

record Identity =
  id_APIVersion :: string
  id_Kind :: string
  id_Namespace :: string
  id_Name :: string

definition Identity_String :: "Identity \<Rightarrow> string" where
  "Identity_String i =
     id_APIVersion i @ ''/'' @ id_Kind i @ '' '' @ (if id_Namespace i = [] then ''(cluster)'' else id_Namespace i)
     @ ''/'' @ id_Name i"

definition Identity_Key :: "Identity \<Rightarrow> string" where
  "Identity_Key i = str_Join [id_APIVersion i, id_Kind i, id_Namespace i, id_Name i] [CHR 0x00]"

record Object =
  o_Path :: string
  o_Raw :: string
  o_Obj :: "jval gomap"

definition identity_of :: "'e obj_lib \<Rightarrow> jval gomap \<Rightarrow> Identity" where
  "identity_of OL obj =
     \<lparr>id_APIVersion = ol_GetAPIVersion OL obj, id_Kind = ol_GetKind OL obj,
      id_Namespace = ol_GetNamespace OL obj, id_Name = ol_GetName OL obj\<rparr>"

definition Object_Identity :: "'e obj_lib \<Rightarrow> Object \<Rightarrow> Identity" where
  "Object_Identity OL ob = identity_of OL (o_Obj ob)"

definition Object_GVK :: "'e obj_lib \<Rightarrow> Object \<Rightarrow> gvk" where
  "Object_GVK OL ob = ol_GVK OL (o_Obj ob)"

text \<open>The errors of the package, in the order the code raises them.\<close>

datatype 'e extras_error =
    NoScopeResolver
  | NoProject
  | ReadDirFailed string 'e
  | UnknownEnvDir string string
  | CRDSubdir string
  | NestedDir string
  | UnsupportedFile string
  | ReadFileFailed string 'e
  | ParseYAML string 'e
  | MissingFields string nat
  | CRDInManifests string
  | MarshalFailed Identity 'e
  | NotACRD string string
  | CRDVersion string string
  | ResolveType string 'e
  | UnknownType string gvk
  | ResolveScope string 'e
  | EmptyNamespace string
  | OtherNamespace string string string
  | ClusterScopedNamespace string string
  | DuplicateObject Identity string string

definition MarshalYAML :: "'e obj_lib \<Rightarrow> jval gomap \<Rightarrow> ('e extras_error, string) result" where
  "MarshalYAML OL obj =
     (case ol_Marshal OL obj of Inl e \<Rightarrow> Inl (MarshalFailed (identity_of OL obj) e) | Inr s \<Rightarrow> Inr s)"

definition string_values :: "jval gomap \<Rightarrow> string gomap" where
  "string_values raw = concat (map (\<lambda>(k, v). case v of JStr s \<Rightarrow> [(k, s)] | _ \<Rightarrow> []) raw)"

definition getMetaStringMap :: "jval gomap \<Rightarrow> string \<Rightarrow> string gomap option" where
  "getMetaStringMap obj field =
     (case get_map obj ''metadata'' of
        None \<Rightarrow> None
      | Some meta \<Rightarrow> (case get_map meta field of None \<Rightarrow> None | Some raw \<Rightarrow> Some (string_values raw)))"

section \<open>Scope\<close>

definition crdScopeKey :: "string \<Rightarrow> string \<Rightarrow> string" where
  "crdScopeKey grp kind = Lower grp @ ''/'' @ Lower kind"

definition builtInScope :: "bool gomap" where
  "builtInScope =
     [(''/namespace'', False), (''/node'', False), (''/persistentvolume'', False), (''/persistentvolumeclaim'', True),
      (''/pod'', True), (''/service'', True), (''/configmap'', True), (''/secret'', True), (''/serviceaccount'', True),
      (''/endpoints'', True), (''/limitrange'', True), (''/resourcequota'', True), (''/event'', True),
      (''apps/deployment'', True), (''apps/statefulset'', True), (''apps/daemonset'', True), (''apps/replicaset'', True),
      (''apps/controllerrevision'', True),
      (''batch/job'', True), (''batch/cronjob'', True),
      (''networking.k8s.io/ingress'', True), (''networking.k8s.io/networkpolicy'', True),
      (''networking.k8s.io/ingressclass'', False),
      (''autoscaling/horizontalpodautoscaler'', True),
      (''policy/poddisruptionbudget'', True), (''policy/podsecuritypolicy'', False),
      (''rbac.authorization.k8s.io/role'', True), (''rbac.authorization.k8s.io/rolebinding'', True),
      (''rbac.authorization.k8s.io/clusterrole'', False), (''rbac.authorization.k8s.io/clusterrolebinding'', False),
      (''storage.k8s.io/storageclass'', False), (''storage.k8s.io/csidriver'', False), (''storage.k8s.io/csinode'', False),
      (''storage.k8s.io/volumeattachment'', False),
      (''scheduling.k8s.io/priorityclass'', False),
      (''apiextensions.k8s.io/customresourcedefinition'', False),
      (''admissionregistration.k8s.io/mutatingwebhookconfiguration'', False),
      (''admissionregistration.k8s.io/validatingwebhookconfiguration'', False),
      (''apiregistration.k8s.io/apiservice'', False),
      (''node.k8s.io/runtimeclass'', False),
      (''flowcontrol.apiserver.k8s.io/flowschema'', False), (''flowcontrol.apiserver.k8s.io/prioritylevelconfiguration'', False),
      (''coordination.k8s.io/lease'', True),
      (''discovery.k8s.io/endpointslice'', True),
      (''cert-manager.io/certificate'', True), (''cert-manager.io/issuer'', True), (''cert-manager.io/clusterissuer'', False),
      (''cert-manager.io/certificaterequest'', True), (''acme.cert-manager.io/challenge'', True),
      (''acme.cert-manager.io/order'', True),
      (''monitoring.coreos.com/prometheusrule'', True), (''monitoring.coreos.com/servicemonitor'', True),
      (''monitoring.coreos.com/podmonitor'', True), (''monitoring.coreos.com/probe'', True),
      (''monitoring.coreos.com/alertmanagerconfig'', True)]"

text \<open>
  The implementations of the interface \<open>ScopeResolver\<close>. A mapper is \<open>meta.RESTMapper\<close>: whether a
  kind the cluster serves is namespaced. The last one stands for an implementation of a caller.
\<close>

datatype 'e ScopeResolver =
    TableResolver (CRDScope: "bool gomap")
  | DiscoveryResolver "(gvk \<Rightarrow> bool option) option" "bool gomap"
  | chainedScope "bool gomap" "'e ScopeResolver"
  | CustomResolver "gvk \<Rightarrow> ('e, bool) result" "gvk \<Rightarrow> ('e, bool) result"

definition Table_Known :: "bool gomap \<Rightarrow> gvk \<Rightarrow> bool" where
  "Table_Known crdScope g =
     (let key = crdScopeKey (gvk_Group g) (gvk_Kind g) in
      if gm_has crdScope key then True else gm_has builtInScope key)"

definition Table_Namespaced :: "bool gomap \<Rightarrow> gvk \<Rightarrow> bool" where
  "Table_Namespaced crdScope g =
     (let key = crdScopeKey (gvk_Group g) (gvk_Kind g) in
      case gm_get crdScope key of
        Some ns \<Rightarrow> ns
      | None \<Rightarrow> (case gm_get builtInScope key of Some ns \<Rightarrow> ns | None \<Rightarrow> True))"

fun Known :: "'e ScopeResolver \<Rightarrow> gvk \<Rightarrow> ('e, bool) result" where
  "Known (TableResolver crdScope) g = Inr (Table_Known crdScope g)"
| "Known (DiscoveryResolver mapper crdScope) g =
     (case mapper of
        Some m \<Rightarrow> if m g \<noteq> None then Inr True else Inr (Table_Known crdScope g)
      | None \<Rightarrow> Inr (Table_Known crdScope g))"
| "Known (chainedScope crdScope nxt) g = (if Table_Known crdScope g then Inr True else Known nxt g)"
| "Known (CustomResolver k n) g = k g"

fun Namespaced :: "'e ScopeResolver \<Rightarrow> gvk \<Rightarrow> ('e, bool) result" where
  "Namespaced (TableResolver crdScope) g = Inr (Table_Namespaced crdScope g)"
| "Namespaced (DiscoveryResolver mapper crdScope) g =
     (case mapper of
        Some m \<Rightarrow> (case m g of Some ns \<Rightarrow> Inr ns | None \<Rightarrow> Inr (Table_Namespaced crdScope g))
      | None \<Rightarrow> Inr (Table_Namespaced crdScope g))"
| "Namespaced (chainedScope crdScope nxt) g =
     (case gm_get crdScope (crdScopeKey (gvk_Group g) (gvk_Kind g)) of
        Some ns \<Rightarrow> Inr ns
      | None \<Rightarrow> Namespaced nxt g)"
| "Namespaced (CustomResolver k n) g = n g"

text \<open>\<open>cfg\<close> is the mapper that a REST configuration gives, or the error of building it.\<close>

definition NewDiscoveryResolver ::
  "('e, gvk \<Rightarrow> bool option) result option \<Rightarrow> bool gomap \<Rightarrow> ('e, 'e ScopeResolver) result" where
  "NewDiscoveryResolver cfg crdScope =
     (case cfg of
        None \<Rightarrow> Inr (TableResolver crdScope)
      | Some (Inl e) \<Rightarrow> Inl e
      | Some (Inr mapper) \<Rightarrow> Inr (DiscoveryResolver (Some mapper) crdScope))"

definition withCRDScope :: "'e ScopeResolver \<Rightarrow> bool gomap \<Rightarrow> 'e ScopeResolver" where
  "withCRDScope b crdScope =
     (if crdScope = [] then b
      else case b of
        TableResolver c \<Rightarrow> TableResolver (gm_copy (gm_copy [] c) crdScope)
      | DiscoveryResolver mapper c \<Rightarrow> DiscoveryResolver mapper (gm_copy (gm_copy [] c) crdScope)
      | _ \<Rightarrow> chainedScope crdScope b)"

fun nested :: "jval \<Rightarrow> string list \<Rightarrow> jval option" where
  "nested v [] = Some v"
| "nested v (f # fs) =
     (case v of
        JObj m \<Rightarrow> (case gm_get m f of None \<Rightarrow> None | Some w \<Rightarrow> nested w fs)
      | _ \<Rightarrow> None)"

definition unstructuredNestedString :: "jval gomap \<Rightarrow> string list \<Rightarrow> string option" where
  "unstructuredNestedString obj fs = (case nested (JObj obj) fs of Some (JStr s) \<Rightarrow> Some s | _ \<Rightarrow> None)"

definition unstructuredNestedSlice :: "jval gomap \<Rightarrow> string list \<Rightarrow> jval list option" where
  "unstructuredNestedSlice obj fs = (case nested (JObj obj) fs of Some (JArr vs) \<Rightarrow> Some vs | _ \<Rightarrow> None)"

definition nested_string_or :: "jval gomap \<Rightarrow> string list \<Rightarrow> string" where
  "nested_string_or obj fs = (case unstructuredNestedString obj fs of None \<Rightarrow> [] | Some s \<Rightarrow> s)"

definition crd_scope_of :: "Object \<Rightarrow> bool gomap \<Rightarrow> bool gomap" where
  "crd_scope_of crd out =
     (let group = nested_string_or (o_Obj crd) [''spec'', ''group''];
          kind = nested_string_or (o_Obj crd) [''spec'', ''names'', ''kind''];
          scope = nested_string_or (o_Obj crd) [''spec'', ''scope'']
      in if group = [] \<or> kind = [] then out
         else gm_put (crdScopeKey group kind) (\<not> EqualFold scope ''Cluster'') out)"

definition scopeFromCRDObjects :: "Object list \<Rightarrow> bool gomap" where
  "scopeFromCRDObjects crds = fold crd_scope_of crds []"

definition version_name :: "jval \<Rightarrow> string option" where
  "version_name v =
     (case v of JObj vm \<Rightarrow> (case get_str vm ''name'' of None \<Rightarrow> None | Some n \<Rightarrow> if n = [] then None else Some n) | _ \<Rightarrow> None)"

definition crd_group_versions :: "Object \<Rightarrow> string list" where
  "crd_group_versions crd =
     (case unstructuredNestedString (o_Obj crd) [''spec'', ''group''] of
        None \<Rightarrow> []
      | Some grp \<Rightarrow>
          if grp = [] then []
          else (case unstructuredNestedSlice (o_Obj crd) [''spec'', ''versions''] of
                  None \<Rightarrow> []
                | Some versions \<Rightarrow>
                    map (\<lambda>name. grp @ ''/'' @ name) (List.map_filter version_name versions)))"

definition GroupVersionsFromCRDs :: "Object list \<Rightarrow> string list" where
  "GroupVersionsFromCRDs crds = remdups (concat (map crd_group_versions crds))"

section \<open>Identity labels and annotations\<close>

definition LabelPrefix :: string where "LabelPrefix = ''deployah.dev''"
definition LabelProject :: string where "LabelProject = LabelPrefix @ ''/project''"
definition LabelEnvironment :: string where "LabelEnvironment = LabelPrefix @ ''/environment''"
definition AnnotationSource :: string where "AnnotationSource = LabelPrefix @ ''/source''"
definition AnnotationProject :: string where "AnnotationProject = LabelProject"
definition SourceManifests :: string where "SourceManifests = ''manifests''"
definition SourceCRDs :: string where "SourceCRDs = ''crds''"

definition reserved_key :: "string \<Rightarrow> bool" where
  "reserved_key k = HasPrefix k (LabelPrefix @ ''/'')"

definition or_empty :: "'v gomap option \<Rightarrow> 'v gomap" where
  "or_empty m = (case m of None \<Rightarrow> [] | Some m' \<Rightarrow> m')"

definition identity_labels :: "string \<Rightarrow> string \<Rightarrow> string \<Rightarrow> string gomap \<Rightarrow> string gomap" where
  "identity_labels project environment source labels =
     (let keepEnv = (source = SourceManifests \<and> environment \<noteq> []);
          labels = gm_put LabelProject project labels;
          labels = (if keepEnv then gm_put LabelEnvironment environment labels else labels)
      in filter (\<lambda>(k, _). \<not> reserved_key k \<or> k = LabelProject \<or> (keepEnv \<and> k = LabelEnvironment)) labels)"

definition identity_annotations :: "string \<Rightarrow> string \<Rightarrow> string gomap \<Rightarrow> string gomap" where
  "identity_annotations project source annotations =
     filter (\<lambda>(k, _). \<not> (reserved_key k \<and> k \<noteq> AnnotationSource \<and> k \<noteq> AnnotationProject))
       (gm_put AnnotationProject project (gm_put AnnotationSource source annotations))"

definition fill_namespace ::
  "'e obj_lib \<Rightarrow> Object \<Rightarrow> string \<Rightarrow> bool \<Rightarrow> ('e extras_error, jval gomap) result" where
  "fill_namespace OL ob releaseNamespace namespaced =
     (let ns = ol_GetNamespace OL (o_Obj ob) in
      if namespaced then
        (if ns = [] then
           (if releaseNamespace = [] then Inl (EmptyNamespace (o_Path ob))
            else Inr (ol_SetNamespace OL releaseNamespace (o_Obj ob)))
         else if releaseNamespace \<noteq> [] \<and> ns \<noteq> releaseNamespace
         then Inl (OtherNamespace (o_Path ob) ns releaseNamespace)
         else Inr (o_Obj ob))
      else if ns \<noteq> [] then Inl (ClusterScopedNamespace (o_Path ob) (ol_GetKind OL (o_Obj ob)))
      else Inr (o_Obj ob))"

definition mergeIdentity ::
  "'e obj_lib \<Rightarrow> Object \<Rightarrow> string \<Rightarrow> string \<Rightarrow> string \<Rightarrow> string \<Rightarrow> bool \<Rightarrow> ('e extras_error, Object) result" where
  "mergeIdentity OL ob project environment source releaseNamespace namespaced =
     bindE (fill_namespace OL ob releaseNamespace namespaced) (\<lambda>obj.
       let obj = ol_SetLabels OL (identity_labels project environment source (or_empty (getMetaStringMap obj ''labels''))) obj;
           obj = ol_SetAnnotations OL (identity_annotations project source (or_empty (getMetaStringMap obj ''annotations''))) obj
       in bindE (MarshalYAML OL obj) (\<lambda>raw. Inr (ob\<lparr>o_Obj := obj, o_Raw := raw\<rparr>)))"

section \<open>Files\<close>

definition classifyFile :: "string \<Rightarrow> string \<Rightarrow> ('e extras_error, bool) result" where
  "classifyFile path name =
     (let lower = Lower name; ext = Lower (path_Ext name) in
      if HasPrefix name ''.'' then Inr False
      else if HasPrefix lower ''readme'' \<or> HasSuffix lower ''.md'' then Inr False
      else if ext = ''.yaml'' \<or> ext = ''.yml'' then Inr True
      else Inl (UnsupportedFile path))"

text \<open>A listing of a directory; a missing one has no entries.\<close>

definition read_entries :: "'e file_sys \<Rightarrow> string \<Rightarrow> ('e extras_error, dir_entry list) result" where
  "read_entries FS dir =
     (case fs_ReadDir FS dir of
        Inl NotExist \<Rightarrow> Inr []
      | Inl (DirFault e) \<Rightarrow> Inl (ReadDirFailed dir e)
      | Inr es \<Rightarrow> Inr es)"

fun yaml_entries :: "string \<Rightarrow> dir_entry list \<Rightarrow> ('e extras_error, string list) result" where
  "yaml_entries dir [] = Inr []"
| "yaml_entries dir (e # es) =
     (let path = path_Join [dir, de_Name e] in
      if de_IsDir e then Inl (NestedDir path)
      else bindE (classifyFile path (de_Name e)) (\<lambda>keep.
           bindE (yaml_entries dir es) (\<lambda>files. Inr (if keep then path # files else files))))"

definition listYAMLFiles :: "'e file_sys \<Rightarrow> string \<Rightarrow> ('e extras_error, string list) result" where
  "listYAMLFiles FS dir = bindE (read_entries FS dir) (yaml_entries dir)"

fun manifest_entries ::
  "'e file_sys \<Rightarrow> string \<Rightarrow> string list \<Rightarrow> string \<Rightarrow> dir_entry list \<Rightarrow> ('e extras_error, string list) result" where
  "manifest_entries FS root declaredEnvs envKey [] = Inr []"
| "manifest_entries FS root declaredEnvs envKey (e # es) =
     (let name = de_Name e; path = path_Join [root, name] in
      if de_IsDir e then
        (if name \<notin> set declaredEnvs then Inl (UnknownEnvDir path name)
         else if envKey = [] \<or> name \<noteq> envKey then manifest_entries FS root declaredEnvs envKey es
         else bindE (listYAMLFiles FS path) (\<lambda>envFiles.
              bindE (manifest_entries FS root declaredEnvs envKey es) (\<lambda>files. Inr (envFiles @ files))))
      else bindE (classifyFile path name) (\<lambda>keep.
           bindE (manifest_entries FS root declaredEnvs envKey es) (\<lambda>files.
             Inr (if keep then path # files else files))))"

definition listManifestFiles ::
  "'e file_sys \<Rightarrow> string \<Rightarrow> string list \<Rightarrow> string \<Rightarrow> ('e extras_error, string list) result" where
  "listManifestFiles FS root declaredEnvs envKey =
     bindE (read_entries FS root) (manifest_entries FS root declaredEnvs envKey)"

definition listCRDFiles :: "'e file_sys \<Rightarrow> string \<Rightarrow> ('e extras_error, string list) result" where
  "listCRDFiles FS root =
     bindE (read_entries FS root) (\<lambda>es.
       case find de_IsDir es of
         Some e \<Rightarrow> Inl (CRDSubdir (path_Join [root, de_Name e]))
       | None \<Rightarrow> listYAMLFiles FS root)"

text \<open>The documents of one file; \<open>doc\<close> counts the documents read so far.\<close>

fun load_docs ::
  "'e obj_lib \<Rightarrow> string \<Rightarrow> bool \<Rightarrow> nat \<Rightarrow> jval gomap list \<Rightarrow> ('e extras_error, Object list) result" where
  "load_docs OL path rejectCRD doc [] = Inr []"
| "load_docs OL path rejectCRD doc (obj # objs) =
     (if obj = [] then load_docs OL path rejectCRD (Suc doc) objs
      else if ol_GetAPIVersion OL obj = [] \<or> ol_GetKind OL obj = [] \<or> ol_GetName OL obj = []
      then Inl (MissingFields path (Suc doc))
      else if rejectCRD \<and> ol_GetKind OL obj = ''CustomResourceDefinition'' then Inl (CRDInManifests path)
      else bindE (MarshalYAML OL obj) (\<lambda>raw.
           bindE (load_docs OL path rejectCRD (Suc doc) objs) (\<lambda>out.
             Inr (\<lparr>o_Path = path, o_Raw = raw, o_Obj = obj\<rparr> # out))))"

definition loadFile ::
  "'e obj_lib \<Rightarrow> 'e file_sys \<Rightarrow> string \<Rightarrow> bool \<Rightarrow> ('e extras_error, Object list) result" where
  "loadFile OL FS path rejectCRD =
     (case fs_ReadFile FS path of
        Inl e \<Rightarrow> Inl (ReadFileFailed path e)
      | Inr data \<Rightarrow>
          (case ol_Decode OL data of
             (docs, err) \<Rightarrow>
               bindE (load_docs OL path rejectCRD 0 docs) (\<lambda>out.
                 case err of None \<Rightarrow> Inr out | Some e \<Rightarrow> Inl (ParseYAML path e))))"

section \<open>Loading\<close>

record Bundle =
  b_Manifests :: "Object list"
  b_CRDs :: "Object list"

record 'e LoadConfig =
  lc_SpecDir :: string
  lc_Project :: string
  lc_Environment :: string
  lc_DeclaredEnvs :: "string list"
  lc_ReleaseNamespace :: string
  lc_Scope :: "'e ScopeResolver option"
  lc_Offline :: bool

definition DeployahConfigDir :: string where "DeployahConfigDir = ''.deployah''"
definition ManifestsDir :: string where "ManifestsDir = ''manifests''"
definition CRDsDir :: string where "CRDsDir = ''crds''"
definition crdAPIVersion :: string where "crdAPIVersion = ''apiextensions.k8s.io/v1''"

fun concatE :: "('a \<Rightarrow> ('e, 'b list) result) \<Rightarrow> 'a list \<Rightarrow> ('e, 'b list) result" where
  "concatE f [] = Inr []"
| "concatE f (x # xs) = bindE (f x) (\<lambda>ys. bindE (concatE f xs) (\<lambda>zs. Inr (ys @ zs)))"

definition check_crd :: "'e obj_lib \<Rightarrow> Object \<Rightarrow> 'e extras_error check" where
  "check_crd OL ob =
     (if ol_GetKind OL (o_Obj ob) \<noteq> ''CustomResourceDefinition'' then Some (NotACRD (o_Path ob) (ol_GetKind OL (o_Obj ob)))
      else if ol_GetAPIVersion OL (o_Obj ob) \<noteq> crdAPIVersion
      then Some (CRDVersion (o_Path ob) (ol_GetAPIVersion OL (o_Obj ob)))
      else None)"

definition load_crd_file :: "'e obj_lib \<Rightarrow> 'e file_sys \<Rightarrow> string \<Rightarrow> ('e extras_error, Object list) result" where
  "load_crd_file OL FS path =
     bindE (loadFile OL FS path False) (\<lambda>objs.
       case first_error (map (check_crd OL) objs) of None \<Rightarrow> Inr objs | Some e \<Rightarrow> Inl e)"

definition load_manifest ::
  "'e obj_lib \<Rightarrow> 'e LoadConfig \<Rightarrow> 'e ScopeResolver \<Rightarrow> Object \<Rightarrow> ('e extras_error, Object list) result" where
  "load_manifest OL cfg scope ob =
     (let g = Object_GVK OL ob in
      case Known scope g of
        Inl e \<Rightarrow> Inl (ResolveType (o_Path ob) e)
      | Inr known \<Rightarrow>
          if \<not> known \<and> \<not> lc_Offline cfg then Inl (UnknownType (o_Path ob) g)
          else (case Namespaced scope g of
                  Inl e \<Rightarrow> Inl (ResolveScope (o_Path ob) e)
                | Inr namespaced \<Rightarrow>
                    bindE (mergeIdentity OL ob (lc_Project cfg) (K8sSafe (NormalizeEnv (lc_Environment cfg)))
                             SourceManifests (lc_ReleaseNamespace cfg) namespaced)
                      (\<lambda>ob'. Inr [ob'])))"

fun check_duplicates :: "'e obj_lib \<Rightarrow> string gomap \<Rightarrow> Object list \<Rightarrow> 'e extras_error check" where
  "check_duplicates OL seen [] = None"
| "check_duplicates OL seen (ob # obs) =
     (let i = Object_Identity OL ob in
      case gm_get seen (Identity_Key i) of
        Some prev \<Rightarrow> Some (DuplicateObject i prev (o_Path ob))
      | None \<Rightarrow> check_duplicates OL (gm_put (Identity_Key i) (o_Path ob) seen) obs)"

definition checkDuplicateIdentities :: "'e obj_lib \<Rightarrow> Object list \<Rightarrow> 'e extras_error check" where
  "checkDuplicateIdentities OL objs = check_duplicates OL [] objs"

definition Load :: "'e obj_lib \<Rightarrow> 'e file_sys \<Rightarrow> 'e LoadConfig \<Rightarrow> ('e extras_error, Bundle) result" where
  "Load OL FS cfg =
     (case lc_Scope cfg of
        None \<Rightarrow> Inl NoScopeResolver
      | Some cfgScope \<Rightarrow>
          if lc_Project cfg = [] then Inl NoProject
          else
            let root = path_Join [lc_SpecDir cfg, DeployahConfigDir];
                envKey = (case matchEnvKey (lc_Environment cfg) (lc_DeclaredEnvs cfg) of None \<Rightarrow> [] | Some k \<Rightarrow> k)
            in bindE (listManifestFiles FS (path_Join [root, ManifestsDir]) (lc_DeclaredEnvs cfg) envKey) (\<lambda>manifestFiles.
               bindE (listCRDFiles FS (path_Join [root, CRDsDir])) (\<lambda>crdFiles.
               bindE (concatE (\<lambda>path. loadFile OL FS path True) manifestFiles) (\<lambda>manifests.
               bindE (concatE (load_crd_file OL FS) crdFiles) (\<lambda>crds.
               let scope = withCRDScope cfgScope (scopeFromCRDObjects crds) in
               bindE (concatE (load_manifest OL cfg scope) manifests) (\<lambda>manifests'.
               bindE (concatE (\<lambda>ob. bindE (mergeIdentity OL ob (lc_Project cfg) [] SourceCRDs [] False) (\<lambda>ob'. Inr [ob'])) crds) (\<lambda>crds'.
                 case checkDuplicateIdentities OL manifests' of
                   Some e \<Rightarrow> Inl e
                 | None \<Rightarrow>
                     (case checkDuplicateIdentities OL crds' of
                        Some e \<Rightarrow> Inl e
                      | None \<Rightarrow> Inr \<lparr>b_Manifests = manifests', b_CRDs = crds'\<rparr>))))))))"

definition LoadFromSpec ::
  "'e obj_lib \<Rightarrow> 'e file_sys \<Rightarrow> string \<Rightarrow> 'q Spec \<Rightarrow> 'q PlatformConfig option \<Rightarrow> string \<Rightarrow> string
     \<Rightarrow> ('e, gvk \<Rightarrow> bool option) result option \<Rightarrow> ('e + 'e extras_error, Bundle) result" where
  "LoadFromSpec OL FS specPath spc platform environment releaseNamespace cfg =
     (case NewDiscoveryResolver cfg [] of
        Inl e \<Rightarrow> Inl (Inl e)
      | Inr scope \<Rightarrow>
          (case Load OL FS
                  \<lparr>lc_SpecDir = path_Dir specPath, lc_Project = s_Project spc, lc_Environment = environment,
                   lc_DeclaredEnvs = DeclaredEnvironments (s_Environments spc) platform,
                   lc_ReleaseNamespace = releaseNamespace, lc_Scope = Some scope, lc_Offline = (cfg = None)\<rparr> of
             Inl e \<Rightarrow> Inl (Inr e)
           | Inr b \<Rightarrow> Inr b))"

section \<open>Post-rendering\<close>

datatype 'e post_error =
    ParseRendered 'e
  | Collides string Identity string

fun index_docs :: "'e obj_lib \<Rightarrow> nat \<Rightarrow> jval gomap list \<Rightarrow> string gomap \<Rightarrow> string gomap" where
  "index_docs OL idx [] out = out"
| "index_docs OL idx (obj # objs) out =
     (let i = identity_of OL obj in
      if obj = [] \<or> id_APIVersion i = [] \<or> id_Kind i = [] \<or> id_Name i = [] then index_docs OL (Suc idx) objs out
      else index_docs OL (Suc idx) objs (gm_put (Identity_Key i) (''rendered#'' @ Itoa (Suc idx)) out))"

definition parseIdentities :: "'e obj_lib \<Rightarrow> string \<Rightarrow> ('e, string gomap) result" where
  "parseIdentities OL data =
     (if TrimSpace data = [] then Inr []
      else case ol_Decode OL data of
             (docs, None) \<Rightarrow> Inr (index_docs OL 0 docs [])
           | (docs, Some e) \<Rightarrow> Inl e)"

fun check_collisions :: "'e obj_lib \<Rightarrow> string gomap \<Rightarrow> Object list \<Rightarrow> 'e post_error check" where
  "check_collisions OL generated [] = None"
| "check_collisions OL generated (m # ms) =
     (let i = Object_Identity OL m in
      case gm_get generated (Identity_Key i) of
        Some path \<Rightarrow> Some (Collides (o_Path m) i path)
      | None \<Rightarrow> check_collisions OL (gm_put (Identity_Key i) (o_Path m) generated) ms)"

definition newline :: string where "newline = [CHR 0x0A]"

definition ensure_newline :: "string \<Rightarrow> string" where
  "ensure_newline s = (if HasSuffix s newline then s else s @ newline)"

definition append_manifest :: "Object \<Rightarrow> string \<Rightarrow> string" where
  "append_manifest m out =
     (let raw = TrimSpace (o_Raw m) in
      if raw = [] then out
      else out @ (if out = [] then [] else ''---'' @ newline) @ ensure_newline raw)"

text \<open>A post-renderer is nil or holds the manifests.\<close>

definition PostRenderer_Run ::
  "'e obj_lib \<Rightarrow> Object list option \<Rightarrow> string \<Rightarrow> ('e post_error, string) result" where
  "PostRenderer_Run OL p rendered =
     (case p of
        None \<Rightarrow> Inr rendered
      | Some manifests \<Rightarrow>
          if manifests = [] then Inr rendered
          else case parseIdentities OL rendered of
                 Inl e \<Rightarrow> Inl (ParseRendered e)
               | Inr generated \<Rightarrow>
                   (case check_collisions OL generated manifests of
                      Some e \<Rightarrow> Inl e
                    | None \<Rightarrow>
                        Inr (fold append_manifest manifests (if rendered = [] then [] else ensure_newline rendered))))"

definition PostRendererFor :: "Bundle option \<Rightarrow> Object list option" where
  "PostRendererFor b =
     (case b of None \<Rightarrow> None | Some b' \<Rightarrow> if b_Manifests b' = [] then None else Some (b_Manifests b'))"

section \<open>What identity merging does\<close>

text \<open>
  What a reader of an object sees of its metadata. The documented behaviour of the setters of
  \<open>unstructured.Unstructured\<close> on an object with a metadata block (one that has a name): each
  changes what it names and nothing else.
\<close>

record obj_view =
  ov_APIVersion :: string
  ov_Kind :: string
  ov_Namespace :: string
  ov_Name :: string
  ov_Labels :: "string \<Rightarrow> string option"
  ov_Annotations :: "string \<Rightarrow> string option"

definition view :: "'e obj_lib \<Rightarrow> jval gomap \<Rightarrow> obj_view" where
  "view OL obj =
     \<lparr>ov_APIVersion = ol_GetAPIVersion OL obj, ov_Kind = ol_GetKind OL obj,
      ov_Namespace = ol_GetNamespace OL obj, ov_Name = ol_GetName OL obj,
      ov_Labels = gm_get (or_empty (getMetaStringMap obj ''labels'')),
      ov_Annotations = gm_get (or_empty (getMetaStringMap obj ''annotations''))\<rparr>"

definition obj_laws :: "'e obj_lib \<Rightarrow> bool" where
  "obj_laws OL =
     (\<forall>obj. ol_GetName OL obj \<noteq> [] \<longrightarrow>
        (\<forall>n. n \<noteq> [] \<longrightarrow> view OL (ol_SetNamespace OL n obj) = (view OL obj)\<lparr>ov_Namespace := n\<rparr>)
        \<and> (\<forall>m. view OL (ol_SetLabels OL m obj) = (view OL obj)\<lparr>ov_Labels := gm_get m\<rparr>)
        \<and> (\<forall>m. view OL (ol_SetAnnotations OL m obj) = (view OL obj)\<lparr>ov_Annotations := gm_get m\<rparr>))"

lemma view_sel [simp]:
  "ov_APIVersion (view OL obj) = ol_GetAPIVersion OL obj"
  "ov_Kind (view OL obj) = ol_GetKind OL obj"
  "ov_Namespace (view OL obj) = ol_GetNamespace OL obj"
  "ov_Name (view OL obj) = ol_GetName OL obj"
  by (simp_all add: view_def)

lemma view_identity: "Object_Identity OL ob =
    \<lparr>id_APIVersion = ov_APIVersion (view OL (o_Obj ob)), id_Kind = ov_Kind (view OL (o_Obj ob)),
     id_Namespace = ov_Namespace (view OL (o_Obj ob)), id_Name = ov_Name (view OL (o_Obj ob))\<rparr>"
  by (simp add: Object_Identity_def identity_of_def)

text \<open>The specification: what the merge makes of the metadata.\<close>

definition merged_view :: "string \<Rightarrow> string \<Rightarrow> string \<Rightarrow> string \<Rightarrow> bool \<Rightarrow> obj_view \<Rightarrow> obj_view" where
  "merged_view project environment source releaseNamespace namespaced v =
     v\<lparr>ov_Namespace := if namespaced \<and> ov_Namespace v = [] then releaseNamespace else ov_Namespace v,
       ov_Labels := (\<lambda>k. if k = LabelProject then Some project
                         else if k = LabelEnvironment \<and> source = SourceManifests \<and> environment \<noteq> [] then Some environment
                         else if reserved_key k then None else ov_Labels v k),
       ov_Annotations := (\<lambda>k. if k = AnnotationProject then Some project
                              else if k = AnnotationSource then Some source
                              else if reserved_key k then None else ov_Annotations v k)\<rparr>"

definition namespace_ok :: "string \<Rightarrow> bool \<Rightarrow> obj_view \<Rightarrow> bool" where
  "namespace_ok releaseNamespace namespaced v =
     (if namespaced
      then if ov_Namespace v = [] then releaseNamespace \<noteq> [] else releaseNamespace \<in> {[], ov_Namespace v}
      else ov_Namespace v = [])"

lemma gm_get_filter_key: "gm_get (filter (\<lambda>(k, _). P k) m) k = (if P k then gm_get m k else None)"
  by (induction m) (auto simp: gm_get_Cons split: prod.splits)

lemma reserved_keys [simp]:
  "reserved_key LabelProject" "reserved_key LabelEnvironment" "reserved_key AnnotationSource" "reserved_key AnnotationProject"
  "LabelProject \<noteq> LabelEnvironment" "AnnotationProject \<noteq> AnnotationSource" "LabelEnvironment \<noteq> LabelProject"
  "AnnotationSource \<noteq> AnnotationProject"
  by (simp_all add: reserved_key_def LabelProject_def LabelEnvironment_def AnnotationSource_def AnnotationProject_def
      LabelPrefix_def HasPrefix_def)

lemma gm_get_identity_labels:
  "gm_get (identity_labels project environment source labels) =
     (\<lambda>k. if k = LabelProject then Some project
          else if k = LabelEnvironment \<and> source = SourceManifests \<and> environment \<noteq> [] then Some environment
          else if reserved_key k then None else gm_get labels k)"
  by (rule ext) (auto simp: identity_labels_def Let_def gm_get_filter_key)

lemma gm_get_identity_annotations:
  "gm_get (identity_annotations project source annotations) =
     (\<lambda>k. if k = AnnotationProject then Some project
          else if k = AnnotationSource then Some source
          else if reserved_key k then None else gm_get annotations k)"
  by (rule ext) (auto simp: identity_annotations_def gm_get_filter_key)

lemma fill_namespace_view:
  assumes "obj_laws OL" and "ol_GetName OL (o_Obj ob) \<noteq> []"
  shows "fill_namespace OL ob releaseNamespace namespaced = Inr obj
           \<Longrightarrow> namespace_ok releaseNamespace namespaced (view OL (o_Obj ob))
               \<and> view OL obj = (view OL (o_Obj ob))\<lparr>ov_Namespace :=
                    if namespaced \<and> ol_GetNamespace OL (o_Obj ob) = [] then releaseNamespace else ol_GetNamespace OL (o_Obj ob)\<rparr>"
    and "namespace_ok releaseNamespace namespaced (view OL (o_Obj ob)) \<Longrightarrow>
           is_ok (fill_namespace OL ob releaseNamespace namespaced)"
  using assms
  by (auto simp: fill_namespace_def namespace_ok_def obj_laws_def Let_def view_def split: if_splits)

lemma setters_view:
  assumes "obj_laws OL" and "ol_GetName OL obj \<noteq> []"
  shows "view OL (ol_SetLabels OL m obj) = (view OL obj)\<lparr>ov_Labels := gm_get m\<rparr>"
    and "view OL (ol_SetAnnotations OL m obj) = (view OL obj)\<lparr>ov_Annotations := gm_get m\<rparr>"
    and "ol_GetName OL (ol_SetLabels OL m obj) \<noteq> []"
proof -
  show l: "view OL (ol_SetLabels OL m obj) = (view OL obj)\<lparr>ov_Labels := gm_get m\<rparr>"
    and "view OL (ol_SetAnnotations OL m obj) = (view OL obj)\<lparr>ov_Annotations := gm_get m\<rparr>"
    using assms by (simp_all add: obj_laws_def)
  show "ol_GetName OL (ol_SetLabels OL m obj) \<noteq> []" using arg_cong [OF l, of ov_Name] assms(2) by simp
qed

lemma mergeIdentity_view:
  assumes "obj_laws OL" and "ol_GetName OL (o_Obj ob) \<noteq> []"
    and "mergeIdentity OL ob project environment source releaseNamespace namespaced = Inr ob'"
  shows "namespace_ok releaseNamespace namespaced (view OL (o_Obj ob))"
    and "view OL (o_Obj ob') = merged_view project environment source releaseNamespace namespaced (view OL (o_Obj ob))"
    and "o_Path ob' = o_Path ob"
proof -
  from assms(3) obtain obj where fill: "fill_namespace OL ob releaseNamespace namespaced = Inr obj"
    and obj': "o_Obj ob' = ol_SetAnnotations OL (identity_annotations project source (or_empty (getMetaStringMap
         (ol_SetLabels OL (identity_labels project environment source (or_empty (getMetaStringMap obj ''labels''))) obj)
         ''annotations'')))
         (ol_SetLabels OL (identity_labels project environment source (or_empty (getMetaStringMap obj ''labels''))) obj)"
    and path: "o_Path ob' = o_Path ob"
    by (auto simp: mergeIdentity_def Let_def)
  note ns = fill_namespace_view(1) [OF assms(1,2) fill]
  let ?lm = "identity_labels project environment source (or_empty (getMetaStringMap obj ''labels''))"
  have name: "ol_GetName OL obj \<noteq> []" using arg_cong [OF conjunct2 [OF ns], of ov_Name] assms(2) by simp
  note sl = setters_view [OF assms(1) name, of ?lm]
  have lab: "gm_get (or_empty (getMetaStringMap obj ''labels'')) = ov_Labels (view OL (o_Obj ob))"
    using arg_cong [OF conjunct2 [OF ns], of ov_Labels] by (simp add: view_def)
  have ann: "gm_get (or_empty (getMetaStringMap (ol_SetLabels OL ?lm obj) ''annotations'')) = ov_Annotations (view OL (o_Obj ob))"
    using arg_cong [OF sl(1), of ov_Annotations] arg_cong [OF conjunct2 [OF ns], of ov_Annotations] by (simp add: view_def)
  show "namespace_ok releaseNamespace namespaced (view OL (o_Obj ob))" using ns ..
  show "view OL (o_Obj ob') = merged_view project environment source releaseNamespace namespaced (view OL (o_Obj ob))"
    unfolding obj' setters_view(2) [OF assms(1) sl(3)] sl(1) conjunct2 [OF ns]
    by (simp add: merged_view_def gm_get_identity_labels gm_get_identity_annotations lab ann cong: if_cong)
  show "o_Path ob' = o_Path ob" by (rule path)
qed

text \<open>
  C23: merging the identity refines its specification. For a named object, the merge succeeds
  exactly when the namespace fits the scope of the object and of the release (and the result
  can be written), and then the metadata is that of the specification: the reserved
  \<open>deployah.dev/\<close> labels and annotations are the ones of Deployah and no others, all other
  metadata is as the manifest has it, and the type and name never change.
\<close>

theorem merge_identity_refines:
  assumes "obj_laws OL" and "ol_GetName OL (o_Obj ob) \<noteq> []" and "\<forall>obj. is_ok (ol_Marshal OL obj)"
  shows "is_ok (mergeIdentity OL ob project environment source releaseNamespace namespaced)
           = namespace_ok releaseNamespace namespaced (view OL (o_Obj ob))
         \<and> (\<forall>ob'. mergeIdentity OL ob project environment source releaseNamespace namespaced = Inr ob' \<longrightarrow>
              view OL (o_Obj ob') = merged_view project environment source releaseNamespace namespaced (view OL (o_Obj ob)))"
proof (intro conjI allI impI)
  let ?m = "mergeIdentity OL ob project environment source releaseNamespace namespaced"
  have "is_ok ?m" if "is_ok (fill_namespace OL ob releaseNamespace namespaced)"
  proof -
    from that obtain obj where "fill_namespace OL ob releaseNamespace namespaced = Inr obj" by (auto simp: is_ok_iff)
    moreover have "\<exists>s. MarshalYAML OL obj' = Inr s" for obj'
      using assms(3) [THEN spec, of obj'] by (auto simp: MarshalYAML_def is_ok_iff)
    ultimately show ?thesis by (simp add: mergeIdentity_def Let_def is_ok_iff)
  qed
  then show "is_ok ?m = namespace_ok releaseNamespace namespaced (view OL (o_Obj ob))"
    using fill_namespace_view(2) [OF assms(1,2)] mergeIdentity_view(1) [OF assms(1,2)] by (auto simp: is_ok_iff)
qed (rule mergeIdentity_view(2) [OF assms(1,2)])

section \<open>What loading gives\<close>

lemma concatE_mem:
  "concatE f xs = Inr ys \<Longrightarrow> y \<in> set ys \<Longrightarrow> \<exists>x \<in> set xs. \<exists>zs. f x = Inr zs \<and> y \<in> set zs"
  by (induction xs arbitrary: ys) auto

lemma check_duplicates_None:
  "check_duplicates OL seen obs = None \<longleftrightarrow>
     distinct (map (\<lambda>ob. Identity_Key (Object_Identity OL ob)) obs)
     \<and> (\<forall>ob \<in> set obs. \<not> gm_has seen (Identity_Key (Object_Identity OL ob)))"
  by (induction OL seen obs rule: check_duplicates.induct) (auto simp: Let_def gm_has_def image_iff split: option.splits)

lemma check_collisions_None:
  "check_collisions OL generated ms = None \<longleftrightarrow>
     distinct (map (\<lambda>ob. Identity_Key (Object_Identity OL ob)) ms)
     \<and> (\<forall>ob \<in> set ms. \<not> gm_has generated (Identity_Key (Object_Identity OL ob)))"
  by (induction OL generated ms rule: check_collisions.induct) (auto simp: Let_def gm_has_def image_iff split: option.splits)

lemma load_docs_mem:
  "load_docs OL path rejectCRD doc objs = Inr out \<Longrightarrow> ob \<in> set out \<Longrightarrow>
     o_Path ob = path \<and> ol_GetName OL (o_Obj ob) \<noteq> []
     \<and> (rejectCRD \<longrightarrow> ol_GetKind OL (o_Obj ob) \<noteq> ''CustomResourceDefinition'')"
  by (induction OL path rejectCRD doc objs arbitrary: out rule: load_docs.induct) (auto split: if_splits)

lemma loadFile_mem:
  assumes "loadFile OL FS path rejectCRD = Inr out" and "ob \<in> set out"
  shows "o_Path ob = path \<and> ol_GetName OL (o_Obj ob) \<noteq> []
     \<and> (rejectCRD \<longrightarrow> ol_GetKind OL (o_Obj ob) \<noteq> ''CustomResourceDefinition'')"
proof -
  from assms(1) obtain docs where "load_docs OL path rejectCRD 0 docs = Inr out"
    by (auto simp: loadFile_def split: sum.splits prod.splits option.splits)
  from load_docs_mem [OF this assms(2)] show ?thesis .
qed

lemma load_crd_file_mem:
  assumes "load_crd_file OL FS path = Inr out" and "ob \<in> set out"
  shows "ol_GetName OL (o_Obj ob) \<noteq> [] \<and> ol_GetKind OL (o_Obj ob) = ''CustomResourceDefinition''
         \<and> ol_GetAPIVersion OL (o_Obj ob) = crdAPIVersion"
proof -
  from assms(1) have ld: "loadFile OL FS path False = Inr out" and chk: "first_error (map (check_crd OL) out) = None"
    by (auto simp: load_crd_file_def split: option.splits)
  from chk assms(2) have "check_crd OL ob = None" by (auto simp: first_error_None)
  with loadFile_mem [OF ld assms(2)] show ?thesis by (simp add: check_crd_def split: if_splits)
qed

text \<open>
  A YAML file directly in a directory: an entry of its listing that is no directory, with a name that is
  an element of a path and not hidden. \<open>os.ReadDir\<close> gives base names, which \<open>plain_names\<close> says.
\<close>

definition plain_name :: "string \<Rightarrow> bool" where
  "plain_name name = (name \<notin> {[], ''.'', ''..''} \<and> CHR ''/'' \<notin> set name)"

definition plain_names :: "'e file_sys \<Rightarrow> bool" where
  "plain_names FS = (\<forall>dir es. fs_ReadDir FS dir = Inr es \<longrightarrow> list_all (\<lambda>e. plain_name (de_Name e)) es)"

definition listed_file :: "'e file_sys \<Rightarrow> string \<Rightarrow> string \<Rightarrow> bool" where
  "listed_file FS dir path =
     (\<exists>es e. fs_ReadDir FS dir = Inr es \<and> e \<in> set es \<and> \<not> de_IsDir e \<and> plain_name (de_Name e)
        \<and> \<not> HasPrefix (de_Name e) ''.'' \<and> Lower (path_Ext (de_Name e)) \<in> {''.yaml'', ''.yml''}
        \<and> path = path_Join [dir, de_Name e])"

lemma classifyFile_True:
  "classifyFile path name = Inr True \<Longrightarrow> \<not> HasPrefix name ''.'' \<and> Lower (path_Ext name) \<in> {''.yaml'', ''.yml''}"
  by (auto simp: classifyFile_def Let_def split: if_splits)

lemma read_entries_mem: "read_entries FS dir = Inr es \<Longrightarrow> e \<in> set es \<Longrightarrow> fs_ReadDir FS dir = Inr es"
  by (auto simp: read_entries_def split: sum.splits dir_error.splits)

lemma yaml_entries_mem:
  "yaml_entries dir es = (Inr files :: ('e extras_error, string list) result) \<Longrightarrow> f \<in> set files \<Longrightarrow>
     \<exists>e \<in> set es. \<not> de_IsDir e \<and> classifyFile f (de_Name e) = (Inr True :: ('e extras_error, bool) result) \<and> f = path_Join [dir, de_Name e]"
proof (induction es arbitrary: files)
  case (Cons e es)
  let ?path = "path_Join [dir, de_Name e]"
  from Cons.prems(1) obtain keep fs where e: "\<not> de_IsDir e" "classifyFile ?path (de_Name e) = (Inr keep :: ('e extras_error, bool) result)"
    "yaml_entries dir es = (Inr fs :: ('e extras_error, string list) result)" "files = (if keep then ?path # fs else fs)"
    by (fastforce simp: Let_def split: if_splits)
  show ?case
  proof (cases "keep \<and> f = ?path")
    case True
    with e show ?thesis by auto
  next
    case False
    with e(4) Cons.prems(2) have "f \<in> set fs" by (auto split: if_splits)
    from Cons.IH [OF e(3) this] show ?thesis by auto
  qed
qed simp

lemma listed_fileI:
  fixes FS :: "'e file_sys"
  assumes "plain_names FS" and "read_entries FS dir = Inr es" and "e \<in> set es" and "\<not> de_IsDir e"
    and "classifyFile f (de_Name e) = (Inr True :: ('e extras_error, bool) result)" and "f = path_Join [dir, de_Name e]"
  shows "listed_file FS dir f"
proof -
  have es: "fs_ReadDir FS dir = Inr es" by (rule read_entries_mem [OF assms(2,3)])
  with assms(1,3) have "plain_name (de_Name e)" by (auto simp: plain_names_def list_all_iff)
  with es assms(3,4,6) classifyFile_True [OF assms(5)] show ?thesis unfolding listed_file_def by blast
qed

lemma listYAMLFiles_mem:
  fixes FS :: "'e file_sys"
  assumes "plain_names FS" and "listYAMLFiles FS dir = Inr files" and "f \<in> set files"
  shows "listed_file FS dir f"
proof -
  from assms(2) obtain es where es: "read_entries FS dir = Inr es" "yaml_entries dir es = (Inr files :: ('e extras_error, string list) result)"
    by (auto simp: listYAMLFiles_def)
  from yaml_entries_mem [OF es(2) assms(3)] listed_fileI [OF assms(1) es(1)] show ?thesis by blast
qed

lemma manifest_entries_mem:
  "plain_names FS \<Longrightarrow> manifest_entries FS root declaredEnvs envKey es = Inr files \<Longrightarrow> f \<in> set files \<Longrightarrow>
     (\<exists>e \<in> set es. \<not> de_IsDir e \<and> classifyFile f (de_Name e) = (Inr True :: ('e extras_error, bool) result) \<and> f = path_Join [root, de_Name e])
     \<or> (envKey \<noteq> [] \<and> listed_file FS (path_Join [root, envKey]) f)"
  for FS :: "'e file_sys"
proof (induction es arbitrary: files)
  case (Cons e es)
  let ?in = "\<lambda>f. (\<exists>e' \<in> set (e # es). \<not> de_IsDir e' \<and> classifyFile f (de_Name e') = (Inr True :: ('e extras_error, bool) result)
        \<and> f = path_Join [root, de_Name e'])
     \<or> (envKey \<noteq> [] \<and> listed_file FS (path_Join [root, envKey]) f)"
  have rest: "?in f" if "manifest_entries FS root declaredEnvs envKey es = Inr fs" "f \<in> set fs" for fs
    using Cons.IH [OF Cons.prems(1) that] by auto
  show ?case
  proof (cases "de_IsDir e")
    case False
    with Cons.prems(2) obtain fs keep where fs: "manifest_entries FS root declaredEnvs envKey es = Inr fs"
      "classifyFile (path_Join [root, de_Name e]) (de_Name e) = (Inr keep :: ('e extras_error, bool) result)"
      "files = (if keep then path_Join [root, de_Name e] # fs else fs)" by (auto simp: Let_def)
    then have "keep \<and> f = path_Join [root, de_Name e] \<or> f \<in> set fs" using Cons.prems(3) by (auto split: if_splits)
    with rest [OF fs(1)] False fs(2) show ?thesis by auto
  next
    case True
    show ?thesis
    proof (cases "envKey = [] \<or> de_Name e \<noteq> envKey")
      case skip: True
      with True Cons.prems(2) have "manifest_entries FS root declaredEnvs envKey es = Inr files"
        by (simp add: Let_def split: if_splits)
      from rest [OF this Cons.prems(3)] show ?thesis .
    next
      case False
      with True Cons.prems(2) obtain envFiles fs where dir: "files = envFiles @ fs"
        "listYAMLFiles FS (path_Join [root, envKey]) = Inr envFiles" "manifest_entries FS root declaredEnvs envKey es = Inr fs"
        by (auto simp: Let_def split: if_splits)
      have "?in f" if "f \<in> set envFiles" using listYAMLFiles_mem [OF Cons.prems(1) dir(2) that] False by blast
      with rest [OF dir(3)] dir(1) Cons.prems(3) show ?thesis by auto
    qed
  qed
qed simp

lemma listManifestFiles_mem:
  assumes "plain_names FS" and "listManifestFiles FS root declaredEnvs envKey = Inr files" and "f \<in> set files"
  shows "listed_file FS root f \<or> (envKey \<noteq> [] \<and> listed_file FS (path_Join [root, envKey]) f)"
proof -
  from assms(2) obtain es where es: "read_entries FS root = Inr es" "manifest_entries FS root declaredEnvs envKey es = Inr files"
    by (auto simp: listManifestFiles_def)
  from manifest_entries_mem [OF assms(1) es(2) assms(3)] listed_fileI [OF assms(1) es(1)] show ?thesis by blast
qed

lemma Load_parts:
  assumes "Load OL FS cfg = Inr b"
  obtains scope0 manifestFiles crdFiles manifests crds where
    "lc_Scope cfg = Some scope0"
    "listManifestFiles FS (path_Join [path_Join [lc_SpecDir cfg, DeployahConfigDir], ManifestsDir]) (lc_DeclaredEnvs cfg)
       (case matchEnvKey (lc_Environment cfg) (lc_DeclaredEnvs cfg) of None \<Rightarrow> [] | Some k \<Rightarrow> k) = Inr manifestFiles"
    "concatE (\<lambda>path. loadFile OL FS path True) manifestFiles = Inr manifests"
    "concatE (load_crd_file OL FS) crdFiles = Inr crds"
    "concatE (load_manifest OL cfg (withCRDScope scope0 (scopeFromCRDObjects crds))) manifests = Inr (b_Manifests b)"
    "concatE (\<lambda>ob. bindE (mergeIdentity OL ob (lc_Project cfg) [] SourceCRDs [] False) (\<lambda>ob'. Inr [ob'])) crds = Inr (b_CRDs b)"
    "checkDuplicateIdentities OL (b_Manifests b) = None" "checkDuplicateIdentities OL (b_CRDs b) = None"
  using assms by (auto simp: Load_def Let_def split: option.splits if_splits)

lemma load_manifest_mem:
  assumes "obj_laws OL" and "ol_GetName OL (o_Obj ob) \<noteq> []" and "load_manifest OL cfg scope ob = Inr obs" and "ob' \<in> set obs"
  shows "\<exists>namespaced. Namespaced scope (Object_GVK OL ob) = Inr namespaced
           \<and> (lc_Offline cfg \<or> Known scope (Object_GVK OL ob) = Inr True)
           \<and> namespace_ok (lc_ReleaseNamespace cfg) namespaced (view OL (o_Obj ob))
           \<and> o_Path ob' = o_Path ob
           \<and> view OL (o_Obj ob') = merged_view (lc_Project cfg) (K8sSafe (NormalizeEnv (lc_Environment cfg)))
               SourceManifests (lc_ReleaseNamespace cfg) namespaced (view OL (o_Obj ob))"
proof -
  from assms(3,4) obtain namespaced where
    merge: "mergeIdentity OL ob (lc_Project cfg) (K8sSafe (NormalizeEnv (lc_Environment cfg))) SourceManifests
              (lc_ReleaseNamespace cfg) namespaced = Inr ob'"
    and scope: "Namespaced scope (Object_GVK OL ob) = Inr namespaced" "lc_Offline cfg \<or> Known scope (Object_GVK OL ob) = Inr True"
    by (auto simp: load_manifest_def Let_def split: sum.splits if_splits)
  from mergeIdentity_view [OF assms(1,2) merge] scope show ?thesis by blast
qed

text \<open>The namespace of a merged object: that of the release, or none for a cluster-scoped one.\<close>

lemma merged_view_namespace:
  assumes "namespace_ok releaseNamespace namespaced v" and "releaseNamespace \<noteq> []"
  shows "ov_Namespace (merged_view project environment source releaseNamespace namespaced v)
           = (if namespaced then releaseNamespace else [])"
  using assms by (auto simp: merged_view_def namespace_ok_def split: if_splits)

lemma crd_merged:
  assumes "obj_laws OL" and "concatE (load_crd_file OL FS) crdFiles = Inr crds"
    and "concatE (\<lambda>ob. bindE (mergeIdentity OL ob project [] SourceCRDs [] False) (\<lambda>ob'. Inr [ob'])) crds = Inr crds'"
    and "ob' \<in> set crds'"
  shows "ol_GetKind OL (o_Obj ob') = ''CustomResourceDefinition'' \<and> ol_GetAPIVersion OL (o_Obj ob') = crdAPIVersion
         \<and> ol_GetNamespace OL (o_Obj ob') = []"
proof -
  obtain ob where ob: "ob \<in> set crds" and m: "mergeIdentity OL ob project [] SourceCRDs [] False = Inr ob'"
    using concatE_mem [OF assms(3,4)] by auto
  have named: "ol_GetName OL (o_Obj ob) \<noteq> []" and kind: "ol_GetKind OL (o_Obj ob) = ''CustomResourceDefinition''"
    and version: "ol_GetAPIVersion OL (o_Obj ob) = crdAPIVersion"
    using concatE_mem [OF assms(2) ob] load_crd_file_mem by blast+
  note v = mergeIdentity_view [OF assms(1) named m]
  from arg_cong [OF v(2), of ov_Kind] arg_cong [OF v(2), of ov_APIVersion] arg_cong [OF v(2), of ov_Namespace] v(1) kind version
  show ?thesis by (simp add: merged_view_def namespace_ok_def)
qed

lemma manifest_merged_from:
  assumes "obj_laws OL" and "concatE (\<lambda>path. loadFile OL FS path True) files = Inr manifests"
    and "concatE (load_manifest OL cfg scope) manifests = Inr manifests'" and "ob' \<in> set manifests'"
  obtains ob namespaced where "ob \<in> set manifests" "o_Path ob' = o_Path ob" "o_Path ob \<in> set files"
    "ol_GetKind OL (o_Obj ob) \<noteq> ''CustomResourceDefinition''"
    "namespace_ok (lc_ReleaseNamespace cfg) namespaced (view OL (o_Obj ob))"
    "view OL (o_Obj ob') = merged_view (lc_Project cfg) (K8sSafe (NormalizeEnv (lc_Environment cfg)))
               SourceManifests (lc_ReleaseNamespace cfg) namespaced (view OL (o_Obj ob))"
proof -
  obtain ob obs where ob: "ob \<in> set manifests" and l: "load_manifest OL cfg scope ob = Inr obs" "ob' \<in> set obs"
    using concatE_mem [OF assms(3,4)] by blast
  obtain path out where "path \<in> set files" "loadFile OL FS path True = Inr out" "ob \<in> set out"
    using concatE_mem [OF assms(2) ob] by blast
  with loadFile_mem have f: "o_Path ob \<in> set files" "ol_GetName OL (o_Obj ob) \<noteq> []"
    "ol_GetKind OL (o_Obj ob) \<noteq> ''CustomResourceDefinition''" by blast+
  from load_manifest_mem [OF assms(1) f(2) l] that [OF ob _ f(1,3)] show thesis by blast
qed

lemma manifest_merged:
  assumes "obj_laws OL" and "lc_ReleaseNamespace cfg \<noteq> []"
    and "concatE (\<lambda>path. loadFile OL FS path True) files = Inr manifests"
    and "concatE (load_manifest OL cfg scope) manifests = Inr manifests'" and "ob' \<in> set manifests'"
  shows "ol_GetKind OL (o_Obj ob') \<noteq> ''CustomResourceDefinition''
         \<and> ol_GetNamespace OL (o_Obj ob') \<in> {[], lc_ReleaseNamespace cfg}
         \<and> ov_Labels (view OL (o_Obj ob')) LabelProject = Some (lc_Project cfg)
         \<and> ov_Labels (view OL (o_Obj ob')) LabelEnvironment =
             (let env = K8sSafe (NormalizeEnv (lc_Environment cfg)) in if env = [] then None else Some env)
         \<and> (\<forall>k. reserved_key k \<longrightarrow> k \<noteq> LabelProject \<longrightarrow> k \<noteq> LabelEnvironment \<longrightarrow> ov_Labels (view OL (o_Obj ob')) k = None)"
proof -
  obtain ob :: Object and namespaced where kind: "ol_GetKind OL (o_Obj ob) \<noteq> ''CustomResourceDefinition''"
    and ns: "namespace_ok (lc_ReleaseNamespace cfg) namespaced (view OL (o_Obj ob))"
    and v: "view OL (o_Obj ob') = merged_view (lc_Project cfg) (K8sSafe (NormalizeEnv (lc_Environment cfg)))
               SourceManifests (lc_ReleaseNamespace cfg) namespaced (view OL (o_Obj ob))"
    by (rule manifest_merged_from [OF assms(1,3-5)]) blast
  have "ol_GetKind OL (o_Obj ob') = ol_GetKind OL (o_Obj ob)" using arg_cong [OF v, of ov_Kind] by (simp add: merged_view_def)
  moreover have "ol_GetNamespace OL (o_Obj ob') = (if namespaced then lc_ReleaseNamespace cfg else [])"
    using arg_cong [OF v, of ov_Namespace] merged_view_namespace [OF ns assms(2)] by simp
  ultimately show ?thesis using kind by (simp add: v merged_view_def Let_def)
qed

lemma manifest_path:
  assumes "obj_laws OL" and "plain_names FS"
    and "listManifestFiles FS root envs (case matchEnvKey env envs of None \<Rightarrow> [] | Some k \<Rightarrow> k) = Inr files"
    and "concatE (\<lambda>path. loadFile OL FS path True) files = Inr manifests"
    and "concatE (load_manifest OL cfg scope) manifests = Inr manifests'" and "ob' \<in> set manifests'"
  shows "listed_file FS root (o_Path ob')
       \<or> (\<exists>k. matchEnvKey env envs = Some k \<and> listed_file FS (path_Join [root, k]) (o_Path ob'))"
proof -
  have "o_Path ob' \<in> set files" using manifest_merged_from [OF assms(1,4-6)] by metis
  from listManifestFiles_mem [OF assms(2,3) this] show ?thesis by (cases "matchEnvKey env envs") auto
qed

text \<open>
  C27: what a loaded bundle holds. Every manifest of a bundle carries as labels the project and the
  environment (normalised and made safe, no such label where that leaves nothing) and no other reserved label,
  is no CRD, lies in the namespace of the release or in none, and comes from a YAML file that is listed
  in the directory \<open>.deployah/manifests\<close> itself or in its subdirectory of the environment key that the target
  matches: the name of the file is a single path element, so no file of another environment's directory
  is taken. Every CRD of the bundle is a \<open>v1\<close> definition without a namespace. No two manifests, and no two CRDs, have the same identity.
\<close>

theorem load_bundle_sound:
  assumes "obj_laws OL" and "plain_names FS" and "Load OL FS cfg = Inr b" and "lc_ReleaseNamespace cfg \<noteq> []"
  shows "(\<forall>ob. ob \<in> set (b_Manifests b) \<longrightarrow>
            ol_GetKind OL (o_Obj ob) \<noteq> ''CustomResourceDefinition''
            \<and> ol_GetNamespace OL (o_Obj ob) \<in> {[], lc_ReleaseNamespace cfg}
            \<and> ov_Labels (view OL (o_Obj ob)) LabelProject = Some (lc_Project cfg)
            \<and> ov_Labels (view OL (o_Obj ob)) LabelEnvironment =
                (let env = K8sSafe (NormalizeEnv (lc_Environment cfg)) in if env = [] then None else Some env)
            \<and> (\<forall>k. reserved_key k \<longrightarrow> k \<noteq> LabelProject \<longrightarrow> k \<noteq> LabelEnvironment \<longrightarrow> ov_Labels (view OL (o_Obj ob)) k = None)
            \<and> (let root = path_Join [path_Join [lc_SpecDir cfg, DeployahConfigDir], ManifestsDir] in
               listed_file FS root (o_Path ob)
               \<or> (\<exists>env. matchEnvKey (lc_Environment cfg) (lc_DeclaredEnvs cfg) = Some env
                      \<and> listed_file FS (path_Join [root, env]) (o_Path ob))))
         \<and> (\<forall>ob. ob \<in> set (b_CRDs b) \<longrightarrow>
              ol_GetKind OL (o_Obj ob) = ''CustomResourceDefinition'' \<and> ol_GetAPIVersion OL (o_Obj ob) = crdAPIVersion
              \<and> ol_GetNamespace OL (o_Obj ob) = [])
         \<and> distinct (map (Object_Identity OL) (b_Manifests b)) \<and> distinct (map (Object_Identity OL) (b_CRDs b))"
proof -
  let ?root = "path_Join [path_Join [lc_SpecDir cfg, DeployahConfigDir], ManifestsDir]"
  let ?key = "case matchEnvKey (lc_Environment cfg) (lc_DeclaredEnvs cfg) of None \<Rightarrow> [] | Some k \<Rightarrow> k"
  obtain scope0 manifestFiles crdFiles manifests crds where load:
    "lc_Scope cfg = Some scope0" "listManifestFiles FS ?root (lc_DeclaredEnvs cfg) ?key = Inr manifestFiles"
    "concatE (\<lambda>path. loadFile OL FS path True) manifestFiles = Inr manifests"
    "concatE (load_crd_file OL FS) crdFiles = Inr crds"
    "concatE (load_manifest OL cfg (withCRDScope scope0 (scopeFromCRDObjects crds))) manifests = Inr (b_Manifests b)"
    "concatE (\<lambda>ob. bindE (mergeIdentity OL ob (lc_Project cfg) [] SourceCRDs [] False) (\<lambda>ob'. Inr [ob'])) crds = Inr (b_CRDs b)"
    "checkDuplicateIdentities OL (b_Manifests b) = None" "checkDuplicateIdentities OL (b_CRDs b) = None"
    using Load_parts [OF assms(3)] .
  have "distinct (map (Object_Identity OL) (b_Manifests b)) \<and> distinct (map (Object_Identity OL) (b_CRDs b))"
    using load(7,8) by (auto simp: checkDuplicateIdentities_def check_duplicates_None distinct_map inj_on_def)
  moreover have "\<forall>ob. ob \<in> set (b_CRDs b) \<longrightarrow> ol_GetKind OL (o_Obj ob) = ''CustomResourceDefinition''
      \<and> ol_GetAPIVersion OL (o_Obj ob) = crdAPIVersion \<and> ol_GetNamespace OL (o_Obj ob) = []"
    using crd_merged [OF assms(1) load(4,6)] by blast
  moreover have "\<forall>ob. ob \<in> set (b_Manifests b) \<longrightarrow>
            ol_GetKind OL (o_Obj ob) \<noteq> ''CustomResourceDefinition''
            \<and> ol_GetNamespace OL (o_Obj ob) \<in> {[], lc_ReleaseNamespace cfg}
            \<and> ov_Labels (view OL (o_Obj ob)) LabelProject = Some (lc_Project cfg)
            \<and> ov_Labels (view OL (o_Obj ob)) LabelEnvironment =
                (let env = K8sSafe (NormalizeEnv (lc_Environment cfg)) in if env = [] then None else Some env)
            \<and> (\<forall>k. reserved_key k \<longrightarrow> k \<noteq> LabelProject \<longrightarrow> k \<noteq> LabelEnvironment \<longrightarrow> ov_Labels (view OL (o_Obj ob)) k = None)"
    using manifest_merged [OF assms(1,4) load(3,5)] by blast
  moreover have "\<forall>ob. ob \<in> set (b_Manifests b) \<longrightarrow> listed_file FS ?root (o_Path ob)
      \<or> (\<exists>env. matchEnvKey (lc_Environment cfg) (lc_DeclaredEnvs cfg) = Some env \<and> listed_file FS (path_Join [?root, env]) (o_Path ob))"
    using manifest_path [OF assms(1,2) load(2,3,5)] by blast
  ultimately show ?thesis unfolding Let_def by blast
qed

section \<open>What post-rendering does\<close>

definition complete_identity :: "Identity \<Rightarrow> bool" where
  "complete_identity i = (id_APIVersion i \<noteq> [] \<and> id_Kind i \<noteq> [] \<and> id_Name i \<noteq> [])"

text \<open>The identity keys of the rendered documents.\<close>

definition rendered_keys :: "'e obj_lib \<Rightarrow> string \<Rightarrow> string set" where
  "rendered_keys OL rendered =
     (if TrimSpace rendered = [] then {}
      else {Identity_Key (identity_of OL obj) |obj.
              obj \<in> set (fst (ol_Decode OL rendered)) \<and> obj \<noteq> [] \<and> complete_identity (identity_of OL obj)})"

lemma gm_has_index_docs:
  "gm_has (index_docs OL idx docs out) k \<longleftrightarrow>
     gm_has out k \<or> (\<exists>obj \<in> set docs. obj \<noteq> [] \<and> complete_identity (identity_of OL obj) \<and> k = Identity_Key (identity_of OL obj))"
  by (induction OL idx docs out rule: index_docs.induct) (auto simp: Let_def complete_identity_def gm_has_def)

lemma gm_has_Nil: "\<not> gm_has [] k"
  by (simp add: gm_has_def)

lemma parseIdentities_has:
  "parseIdentities OL rendered = Inr generated \<Longrightarrow> gm_has generated k = (k \<in> rendered_keys OL rendered)"
  by (auto simp: parseIdentities_def rendered_keys_def gm_has_index_docs gm_has_Nil split: if_splits prod.splits option.splits)

lemma fold_append_prefix: "\<exists>rest. fold append_manifest ms out = out @ rest"
proof (induction ms arbitrary: out)
  case (Cons m ms)
  have "\<exists>r. append_manifest m out = out @ r" by (simp add: append_manifest_def Let_def)
  with Cons show ?case by (metis append_assoc fold_simps(2))
qed simp

lemma PostRenderer_prefix:
  assumes "PostRenderer_Run OL (Some ms) rendered = Inr out"
  shows "\<exists>rest. out = rendered @ rest"
proof (cases "out = rendered")
  case False
  with assms have "out = fold append_manifest ms (if rendered = [] then [] else ensure_newline rendered)"
    by (auto simp: PostRenderer_Run_def split: option.splits if_splits sum.splits)
  with fold_append_prefix obtain rest where "out = (if rendered = [] then [] else ensure_newline rendered) @ rest" by blast
  then show ?thesis by (cases "rendered = []") (auto simp: ensure_newline_def split: if_splits)
qed simp

lemma PostRenderer_ok_iff:
  assumes "ms \<noteq> []"
  shows "is_ok (PostRenderer_Run OL (Some ms) rendered) \<longleftrightarrow>
           (TrimSpace rendered = [] \<or> snd (ol_Decode OL rendered) = None)
           \<and> distinct (map (\<lambda>m. Identity_Key (Object_Identity OL m)) ms)
           \<and> (\<forall>m. m \<in> set ms \<longrightarrow> Identity_Key (Object_Identity OL m) \<notin> rendered_keys OL rendered)"
proof (cases "parseIdentities OL rendered")
  case (Inl e)
  then have "TrimSpace rendered \<noteq> [] \<and> snd (ol_Decode OL rendered) \<noteq> None"
    by (auto simp: parseIdentities_def split: if_splits prod.splits option.splits)
  with Inl assms show ?thesis by (simp add: PostRenderer_Run_def)
next
  case (Inr generated)
  then have "TrimSpace rendered = [] \<or> snd (ol_Decode OL rendered) = None"
    by (auto simp: parseIdentities_def split: if_splits prod.splits option.splits)
  moreover have "is_ok (PostRenderer_Run OL (Some ms) rendered) \<longleftrightarrow> check_collisions OL generated ms = None"
    using assms Inr by (simp add: PostRenderer_Run_def split: option.splits)
  ultimately show ?thesis by (simp add: check_collisions_None parseIdentities_has [OF Inr] Ball_def)
qed

text \<open>
  the post-renderer only adds. It succeeds exactly when the rendered stream can be parsed
  and no extra manifest has the identity of a rendered object or of another extra manifest;
  the rendered text is then the beginning of the result, unchanged.
\<close>

theorem post_render_adds:
  assumes "ms \<noteq> []"
  shows "(is_ok (PostRenderer_Run OL (Some ms) rendered) \<longleftrightarrow>
            (TrimSpace rendered = [] \<or> snd (ol_Decode OL rendered) = None)
            \<and> distinct (map (\<lambda>m. Identity_Key (Object_Identity OL m)) ms)
            \<and> (\<forall>m. m \<in> set ms \<longrightarrow> Identity_Key (Object_Identity OL m) \<notin> rendered_keys OL rendered))
         \<and> (\<forall>out. PostRenderer_Run OL (Some ms) rendered = Inr out \<longrightarrow> (\<exists>rest. out = rendered @ rest))"
  by (intro conjI allI impI PostRenderer_ok_iff [OF assms] PostRenderer_prefix)

section \<open>Which scope wins\<close>

text \<open>
  the scope that a CRD of the repository declares wins over the table and over the resolver
  of a caller. With discovery it does not: the scope the cluster serves wins over the CRD,
  although the resolver is documented to prefer the scopes of the CRDs.
\<close>

theorem crd_scope_wins:
  assumes "gm_get crdScope (crdScopeKey (gvk_Group g) (gvk_Kind g)) = Some ns" and "gm_wf crdScope"
  shows "Namespaced (withCRDScope b crdScope) g =
           (case b of
              DiscoveryResolver (Some mapper) _ \<Rightarrow> (case mapper g of Some live \<Rightarrow> Inr live | None \<Rightarrow> Inr ns)
            | _ \<Rightarrow> Inr ns)
         \<and> Known (withCRDScope b crdScope) g = Inr True"
proof -
  have "crdScope \<noteq> []" using assms(1) by auto
  then show ?thesis using assms
    by (cases b) (simp_all add: withCRDScope_def Table_Namespaced_def Table_Known_def gm_get_copy gm_has_def Let_def
        split: option.splits)
qed


section \<open>An example project\<close>

text \<open>The accessors as navigation in the decoded document, and two files.\<close>

definition set_meta :: "string \<Rightarrow> jval \<Rightarrow> jval gomap \<Rightarrow> jval gomap" where
  "set_meta f v obj = gm_put ''metadata'' (JObj (gm_put f v (or_empty (get_map obj ''metadata'')))) obj"

definition ex_configmap :: "jval gomap" where
  "ex_configmap =
     [(''apiVersion'', JStr ''v1''), (''kind'', JStr ''ConfigMap''),
      (''metadata'', JObj [(''name'', JStr ''motd''),
                           (''labels'', JObj [(''team'', JStr ''web''), (''deployah.dev/component'', JStr ''api'')])])]"

definition ex_crd :: "jval gomap" where
  "ex_crd =
     [(''apiVersion'', JStr ''apiextensions.k8s.io/v1''), (''kind'', JStr ''CustomResourceDefinition''),
      (''metadata'', JObj [(''name'', JStr ''widgets.example.org'')]),
      (''spec'', JObj [(''group'', JStr ''example.org''), (''names'', JObj [(''kind'', JStr ''Widget'')]),
                       (''scope'', JStr ''Cluster''), (''versions'', JArr [JObj [(''name'', JStr ''v1'')]])])]"

definition ex_obj_lib :: "unit obj_lib" where
  "ex_obj_lib =
     \<lparr>ol_GetAPIVersion = (\<lambda>obj. nested_string_or obj [''apiVersion'']),
      ol_GetKind = (\<lambda>obj. nested_string_or obj [''kind'']),
      ol_GetNamespace = (\<lambda>obj. nested_string_or obj [''metadata'', ''namespace'']),
      ol_GetName = (\<lambda>obj. nested_string_or obj [''metadata'', ''name'']),
      ol_GVK = (\<lambda>obj. \<lparr>gvk_Group = [], gvk_Version = nested_string_or obj [''apiVersion''],
                        gvk_Kind = nested_string_or obj [''kind'']\<rparr>),
      ol_SetNamespace = (\<lambda>n. set_meta ''namespace'' (JStr n)),
      ol_SetLabels = (\<lambda>m. set_meta ''labels'' (JObj (gm_map JStr m))),
      ol_SetAnnotations = (\<lambda>m. set_meta ''annotations'' (JObj (gm_map JStr m))),
      ol_Marshal = (\<lambda>obj. Inr (nested_string_or obj [''kind''])),
      ol_Decode = (\<lambda>s. (if s = ''configmap'' then [ex_configmap] else if s = ''crd'' then [ex_crd] else [], None))\<rparr>"

definition ex_files :: "unit file_sys" where
  "ex_files =
     \<lparr>fs_ReadDir = (\<lambda>d. if d = ''.deployah/manifests'' then Inr [\<lparr>de_Name = ''prod'', de_IsDir = True\<rparr>, \<lparr>de_Name = ''README.md'', de_IsDir = False\<rparr>]
                       else if d = ''.deployah/manifests/prod'' then Inr [\<lparr>de_Name = ''motd.yaml'', de_IsDir = False\<rparr>]
                       else if d = ''.deployah/crds'' then Inr [\<lparr>de_Name = ''widgets.yml'', de_IsDir = False\<rparr>]
                       else Inl NotExist),
      fs_ReadFile = (\<lambda>f. if f = ''.deployah/manifests/prod/motd.yaml'' then Inr ''configmap''
                        else if f = ''.deployah/crds/widgets.yml'' then Inr ''crd'' else Inl ())\<rparr>"

definition ex_load_config :: "unit LoadConfig" where
  "ex_load_config =
     \<lparr>lc_SpecDir = ''.'', lc_Project = ''shop'', lc_Environment = ''prod'', lc_DeclaredEnvs = [''prod'', ''staging''],
      lc_ReleaseNamespace = ''shop-prod'', lc_Scope = Some (TableResolver []), lc_Offline = False\<rparr>"

lemma string_values_map [simp]: "string_values (gm_map JStr m) = m"
  by (induction m) (auto simp: string_values_def gm_map_def)

lemma ex_set_meta:
  "nested_string_or obj [''metadata'', ''name''] \<noteq> [] \<Longrightarrow> f \<noteq> ''name'' \<Longrightarrow>
     nested_string_or (set_meta f v obj) [''metadata'', ''name''] = nested_string_or obj [''metadata'', ''name'']"
  "g \<noteq> ''metadata'' \<Longrightarrow> nested_string_or (set_meta f v obj) [g] = nested_string_or obj [g]"
  "f \<noteq> ''namespace'' \<Longrightarrow> nested_string_or (set_meta f v obj) [''metadata'', ''namespace'']
     = (if get_map obj ''metadata'' = None then [] else nested_string_or obj [''metadata'', ''namespace''])"
  "nested_string_or (set_meta ''namespace'' (JStr n) obj) [''metadata'', ''namespace''] = n"
  "f \<noteq> g \<Longrightarrow> or_empty (getMetaStringMap (set_meta f v obj) g) = or_empty (getMetaStringMap obj g)"
  "or_empty (getMetaStringMap (set_meta g (JObj m) obj) g) = string_values m"
  by (auto simp: set_meta_def nested_string_or_def unstructuredNestedString_def getMetaStringMap_def get_map_def or_empty_def
      split: option.splits jval.splits)

lemma ex_name_meta: "nested_string_or obj [''metadata'', ''name''] \<noteq> [] \<Longrightarrow> get_map obj ''metadata'' \<noteq> None"
  by (auto simp: nested_string_or_def unstructuredNestedString_def get_map_def split: option.splits jval.splits)

lemma ex_obj_laws: "obj_laws ex_obj_lib"
  by (auto simp: obj_laws_def ex_obj_lib_def view_def ex_set_meta dest: ex_name_meta)

lemma ex_load: "\<exists>b. Load ex_obj_lib ex_files ex_load_config = Inr b \<and> length (b_Manifests b) = 1 \<and> length (b_CRDs b) = 1
    \<and> map (\<lambda>ob. getMetaStringMap (o_Obj ob) ''labels'') (b_Manifests b)
        = [Some [(''team'', ''web''), (''deployah.dev/project'', ''shop''), (''deployah.dev/environment'', ''prod'')]]"
proof -
  have "case Load ex_obj_lib ex_files ex_load_config of Inl _ \<Rightarrow> False
    | Inr b \<Rightarrow> length (b_Manifests b) = 1 \<and> length (b_CRDs b) = 1
        \<and> map (\<lambda>ob. getMetaStringMap (o_Obj ob) ''labels'') (b_Manifests b)
          = [Some [(''team'', ''web''), (''deployah.dev/project'', ''shop''), (''deployah.dev/environment'', ''prod'')]]"
    by code_simp
  then show ?thesis by (simp split: sum.splits)
qed

theorem load_bundle_sound_witness:
  "\<exists>b ob. Load ex_obj_lib ex_files ex_load_config = Inr b \<and> b_Manifests b = [ob]
     \<and> ol_GetKind ex_obj_lib (o_Obj ob) \<noteq> ''CustomResourceDefinition''
     \<and> ov_Labels (view ex_obj_lib (o_Obj ob)) LabelEnvironment = Some ''prod''
     \<and> (listed_file ex_files ''.deployah/manifests'' (o_Path ob) \<or> listed_file ex_files ''.deployah/manifests/prod'' (o_Path ob))
     \<and> distinct (map (Object_Identity ex_obj_lib) (b_CRDs b))"
proof -
  obtain b where b: "Load ex_obj_lib ex_files ex_load_config = Inr b" "length (b_Manifests b) = 1" using ex_load by blast
  then obtain ob where ob: "b_Manifests b = [ob]" by (auto simp: length_Suc_conv)
  have plain: "plain_names ex_files" by (simp add: plain_names_def ex_files_def plain_name_def)
  have e: "lc_ReleaseNamespace ex_load_config \<noteq> []" "K8sSafe (NormalizeEnv (lc_Environment ex_load_config)) = ''prod''"
    "matchEnvKey (lc_Environment ex_load_config) (lc_DeclaredEnvs ex_load_config) = Some ''prod''"
    "path_Join [path_Join [lc_SpecDir ex_load_config, DeployahConfigDir], ManifestsDir] = ''.deployah/manifests''"
    "path_Join [''.deployah/manifests'', ''prod''] = ''.deployah/manifests/prod''" by code_simp+
  from load_bundle_sound [OF ex_obj_laws plain b(1) e(1)] b ob show ?thesis by (auto simp: e Let_def)
qed

definition ex_object :: Object where
  "ex_object = \<lparr>o_Path = ''motd.yaml'', o_Raw = ''kind: ConfigMap'', o_Obj = ex_configmap\<rparr>"

theorem merge_identity_refines_witness:
  "is_ok (mergeIdentity ex_obj_lib ex_object ''shop'' ''prod'' SourceManifests ''shop-prod'' True)"
proof -
  have "ol_GetName ex_obj_lib (o_Obj ex_object) \<noteq> []"
    and "namespace_ok ''shop-prod'' True (view ex_obj_lib (o_Obj ex_object))"
    by code_simp+
  moreover have "\<forall>obj. is_ok (ol_Marshal ex_obj_lib obj)" by (simp add: ex_obj_lib_def)
  ultimately show ?thesis using merge_identity_refines [OF ex_obj_laws] by blast
qed

theorem post_render_adds_witness:
  "is_ok (PostRenderer_Run ex_obj_lib (Some [ex_object]) ''crd'')
   \<and> \<not> is_ok (PostRenderer_Run ex_obj_lib (Some [ex_object]) ''configmap'')"
proof -
  have "Identity_Key (Object_Identity ex_obj_lib ex_object) \<notin> rendered_keys ex_obj_lib ''crd''"
    and "snd (ol_Decode ex_obj_lib ''crd'') = None"
    by (simp_all add: rendered_keys_def ex_obj_lib_def ex_object_def Object_Identity_def identity_of_def ex_configmap_def ex_crd_def
        nested_string_or_def unstructuredNestedString_def gm_get_Cons Identity_Key_def)
  moreover have "Identity_Key (Object_Identity ex_obj_lib ex_object) \<in> rendered_keys ex_obj_lib ''configmap''"
  proof -
    have "TrimSpace ''configmap'' \<noteq> []" "ex_configmap \<noteq> []" "complete_identity (identity_of ex_obj_lib ex_configmap)" by code_simp+
    then show ?thesis by (auto simp: rendered_keys_def ex_object_def Object_Identity_def ex_obj_lib_def)
  qed
  ultimately show ?thesis using post_render_adds [of "[ex_object]" ex_obj_lib] by auto
qed

theorem crd_scope_wins_witness:
  "Namespaced (withCRDScope (TableResolver [] :: unit ScopeResolver) [(''example.org/widget'', False)])
     \<lparr>gvk_Group = ''example.org'', gvk_Version = ''v1'', gvk_Kind = ''Widget''\<rparr> = Inr False"
proof -
  let ?g = "\<lparr>gvk_Group = ''example.org'', gvk_Version = ''v1'', gvk_Kind = ''Widget''\<rparr>"
  have get: "gm_get [(''example.org/widget'', False)] (crdScopeKey (gvk_Group ?g) (gvk_Kind ?g)) = Some False" by code_simp
  have "gm_wf [(''example.org/widget'', False)]" by (simp add: gm_wf_def)
  from crd_scope_wins [OF get this, of "TableResolver [] :: unit ScopeResolver"] show ?thesis by simp
qed

end
