(* ===== verification/Crds.thy ===== *)
theory Crds
  imports Extras
begin

text \<open>
  Installing the CRDs of a bundle (\<open>internal/extras/crd.go\<close>): each definition is looked up,
  created or server-side applied as the policy says, then each is awaited until it is
  established. The API server is a parameter (\<open>crd_client\<close>) over a state of its own; what the
  code observes and does is a trace of its calls, newest first. Time is a parameter too: when the
  deadline has passed, and how often a wait polls before its context ends.
\<close>

section \<open>Server, clock and errors\<close>

definition PolicyCreate :: string where "PolicyCreate = ''create''"
definition PolicyCreateReplace :: string where "PolicyCreateReplace = ''create-replace''"

record CRDStats =
  st_Created :: nat
  st_Replaced :: nat
  st_Ready :: nat

definition zero_CRDStats :: CRDStats where
  "zero_CRDStats = \<lparr>st_Created = 0, st_Replaced = 0, st_Ready = 0\<rparr>"

text \<open>A lookup finds the definition (its name, whether it is established), misses it, or fails.\<close>

datatype 'e crd_get = GotCRD string bool | NoCRD 'e | GetFault 'e

record ('s, 'e) crd_client =
  cl_Get :: "string \<Rightarrow> 's \<Rightarrow> 'e crd_get \<times> 's"
  cl_Create :: "string \<Rightarrow> 's \<Rightarrow> 'e option \<times> 's"
  cl_Apply :: "string \<Rightarrow> jval gomap \<Rightarrow> 's \<Rightarrow> 'e option \<times> 's"

text \<open>The YAML decoder: the name of a typed definition, and the document as a map.\<close>

record 'e crd_codec =
  cd_Name :: "string \<Rightarrow> ('e, string) result"
  cd_Map :: "string \<Rightarrow> ('e, jval gomap) result"

record 'e crd_clock =
  ck_Expired :: "nat \<Rightarrow> bool"
  ck_Polls :: "nat \<Rightarrow> nat"
  ck_End :: "nat \<Rightarrow> 'e"
  ck_IsDeadline :: "'e \<Rightarrow> bool"
  ck_IsCanceled :: "'e \<Rightarrow> bool"

datatype 'e crd_event =
    EvGet string "'e crd_get"
  | EvCreate string "'e option"
  | EvApply string "jval gomap" "'e option"

type_synonym ('s, 'e) crd_run = "'s \<times> 'e crd_event list"

datatype 'e crd_error =
    NoClusterConfig
  | UnknownPolicy string
  | BuildClient 'e
  | DecodeCRD string 'e
  | EmptyCRDName string
  | DecodeForApply string 'e
  | ApplyCRD string 'e
  | CreateCRD string 'e
  | GetCRD string 'e
  | ReplaceCRD string 'e
  | EstablishTimeout string "'e option"
  | EstablishCanceled string 'e
  | EstablishFailed string 'e

definition crd_Get :: "('s, 'e) crd_client \<Rightarrow> string \<Rightarrow> ('s, 'e) crd_run \<Rightarrow> 'e crd_get \<times> ('s, 'e) crd_run" where
  "crd_Get C name st = (case cl_Get C name (fst st) of (r, s') \<Rightarrow> (r, s', EvGet name r # snd st))"

definition crd_Create :: "('s, 'e) crd_client \<Rightarrow> string \<Rightarrow> ('s, 'e) crd_run \<Rightarrow> 'e option \<times> ('s, 'e) crd_run" where
  "crd_Create C name st = (case cl_Create C name (fst st) of (r, s') \<Rightarrow> (r, s', EvCreate name r # snd st))"

definition crd_Apply ::
  "('s, 'e) crd_client \<Rightarrow> string \<Rightarrow> jval gomap \<Rightarrow> ('s, 'e) crd_run \<Rightarrow> 'e option \<times> ('s, 'e) crd_run" where
  "crd_Apply C name patch st = (case cl_Apply C name patch (fst st) of (r, s') \<Rightarrow> (r, s', EvApply name patch r # snd st))"

section \<open>Decoding\<close>

definition decodeCRD :: "'e crd_codec \<Rightarrow> Object \<Rightarrow> ('e crd_error, string) result" where
  "decodeCRD D ob =
     (case cd_Name D (o_Raw ob) of
        Inl e \<Rightarrow> Inl (DecodeCRD (o_Path ob) e)
      | Inr name \<Rightarrow> if name = [] then Inl (EmptyCRDName (o_Path ob)) else Inr name)"

definition server_managed :: "string list" where
  "server_managed = [''managedFields'', ''resourceVersion'', ''uid'', ''creationTimestamp'', ''generation'', ''selfLink'']"

text \<open>The patch is the document that the code marshals to JSON.\<close>

definition ssaPatchFromObject :: "'e crd_codec \<Rightarrow> Object \<Rightarrow> ('e crd_error, jval gomap) result" where
  "ssaPatchFromObject D ob =
     (case cd_Map D (o_Raw ob) of
        Inl e \<Rightarrow> Inl (DecodeForApply (o_Path ob) e)
      | Inr obj \<Rightarrow>
          let obj = gm_del ''status'' obj in
          Inr (case get_map obj ''metadata'' of
                 None \<Rightarrow> obj
               | Some meta \<Rightarrow> gm_put ''metadata'' (JObj (fold gm_del server_managed meta)) obj))"

section \<open>Applying and waiting\<close>

text \<open>A write of a definition: the error if it fails, else the counter to raise.\<close>

definition ssa_write ::
  "('s, 'e) crd_client \<Rightarrow> 'e crd_codec \<Rightarrow> Object \<Rightarrow> string \<Rightarrow> (string \<Rightarrow> 'e \<Rightarrow> 'e crd_error) \<Rightarrow> ('s, 'e) crd_run
     \<Rightarrow> 'e crd_error option \<times> ('s, 'e) crd_run" where
  "ssa_write C D ob name err st =
     (case ssaPatchFromObject D ob of
        Inl e \<Rightarrow> (Some e, st)
      | Inr patch \<Rightarrow>
          (case crd_Apply C name patch st of
             (None, st') \<Rightarrow> (None, st')
           | (Some e, st') \<Rightarrow> (Some (err name e), st')))"

definition create_write ::
  "('s, 'e) crd_client \<Rightarrow> string \<Rightarrow> ('s, 'e) crd_run \<Rightarrow> 'e crd_error option \<times> ('s, 'e) crd_run" where
  "create_write C name st =
     (case crd_Create C name st of (None, st') \<Rightarrow> (None, st') | (Some e, st') \<Rightarrow> (Some (CreateCRD name e), st'))"

type_synonym ('s, 'e) apply_state = "CRDStats \<times> string list \<times> ('s, 'e) crd_run"

definition apply_one ::
  "('s, 'e) crd_client \<Rightarrow> 'e crd_codec \<Rightarrow> string \<Rightarrow> Object \<Rightarrow> ('s, 'e) apply_state
     \<Rightarrow> 'e crd_error option \<times> ('s, 'e) apply_state" where
  "apply_one C D policy ob X =
     (let (stats, applied, st) = X in
      case decodeCRD D ob of
        Inl e \<Rightarrow> (Some e, X)
      | Inr name \<Rightarrow>
          (case crd_Get C name st of
             (NoCRD _, st) \<Rightarrow>
               (case (if policy = PolicyCreateReplace then ssa_write C D ob name ApplyCRD st else create_write C name st) of
                  (Some e, st) \<Rightarrow> (Some e, stats, applied, st)
                | (None, st) \<Rightarrow> (None, stats\<lparr>st_Created := st_Created stats + 1\<rparr>, applied @ [name], st))
           | (GetFault e, st) \<Rightarrow> (Some (GetCRD name e), stats, applied, st)
           | (GotCRD existing _, st) \<Rightarrow>
               if policy = PolicyCreate then (None, stats, applied @ [existing], st)
               else if policy = PolicyCreateReplace then
                 (case ssa_write C D ob name ReplaceCRD st of
                    (Some e, st) \<Rightarrow> (Some e, stats, applied, st)
                  | (None, st) \<Rightarrow> (None, stats\<lparr>st_Replaced := st_Replaced stats + 1\<rparr>, applied @ [name], st))
               else (None, stats, applied, st)))"

fun apply_loop ::
  "('s, 'e) crd_client \<Rightarrow> 'e crd_codec \<Rightarrow> string \<Rightarrow> Object list \<Rightarrow> ('s, 'e) apply_state
     \<Rightarrow> 'e crd_error option \<times> ('s, 'e) apply_state" where
  "apply_loop C D policy [] X = (None, X)"
| "apply_loop C D policy (ob # obs) X =
     (case apply_one C D policy ob X of (Some e, X') \<Rightarrow> (Some e, X') | (None, X') \<Rightarrow> apply_loop C D policy obs X')"

text \<open>
  \<open>wait.PollUntilContextTimeout\<close>, immediate: the condition runs at once, then at every interval
  until the context ends; \<open>k\<close> is how many more polls that leaves.
\<close>

fun poll_established ::
  "('s, 'e) crd_client \<Rightarrow> 'e crd_clock \<Rightarrow> string \<Rightarrow> nat \<Rightarrow> ('s, 'e) crd_run \<Rightarrow> 'e option \<times> ('s, 'e) crd_run" where
  "poll_established C W name k st =
     (case crd_Get C name st of
        (NoCRD e, st) \<Rightarrow> (Some e, st)
      | (GetFault e, st) \<Rightarrow> (Some e, st)
      | (GotCRD _ established, st) \<Rightarrow>
          if established then (None, st)
          else (case k of 0 \<Rightarrow> (Some (ck_End W (length (snd st))), st) | Suc k' \<Rightarrow> poll_established C W name k' st))"

declare poll_established.simps [simp del]

definition waitEstablished ::
  "('s, 'e) crd_client \<Rightarrow> 'e crd_clock \<Rightarrow> string \<Rightarrow> ('s, 'e) crd_run \<Rightarrow> 'e option \<times> ('s, 'e) crd_run" where
  "waitEstablished C W name st = poll_established C W name (ck_Polls W (length (snd st))) st"

definition wait_error :: "'e crd_clock \<Rightarrow> string \<Rightarrow> 'e \<Rightarrow> 'e crd_error" where
  "wait_error W name e =
     (if ck_IsDeadline W e then EstablishTimeout name (Some e)
      else if ck_IsCanceled W e then EstablishCanceled name e
      else EstablishFailed name e)"

fun established_loop ::
  "('s, 'e) crd_client \<Rightarrow> 'e crd_clock \<Rightarrow> string list \<Rightarrow> CRDStats \<Rightarrow> ('s, 'e) crd_run
     \<Rightarrow> CRDStats \<times> 'e crd_error option \<times> ('s, 'e) crd_run" where
  "established_loop C W [] stats st = (stats, None, st)"
| "established_loop C W (name # names) stats st =
     (if ck_Expired W (length (snd st)) then (stats, Some (EstablishTimeout name None), st)
      else case waitEstablished C W name st of
             (Some e, st) \<Rightarrow> (stats, Some (wait_error W name e), st)
           | (None, st) \<Rightarrow> established_loop C W names (stats\<lparr>st_Ready := st_Ready stats + 1\<rparr>) st)"

definition applyCRDs ::
  "('s, 'e) crd_client \<Rightarrow> 'e crd_codec \<Rightarrow> 'e crd_clock \<Rightarrow> Object list \<Rightarrow> string \<Rightarrow> ('s, 'e) crd_run
     \<Rightarrow> CRDStats \<times> 'e crd_error option \<times> ('s, 'e) crd_run" where
  "applyCRDs C D W crds policy st =
     (case apply_loop C D policy crds (zero_CRDStats, [], st) of
        (Some e, stats, applied, st') \<Rightarrow> (stats, Some e, st')
      | (None, stats, applied, st') \<Rightarrow> established_loop C W applied stats st')"

text \<open>\<open>cfg\<close> is the client that a REST configuration gives, or the error of building it.\<close>

definition ApplyCRDs ::
  "('e, ('s, 'e) crd_client) result option \<Rightarrow> 'e crd_codec \<Rightarrow> 'e crd_clock \<Rightarrow> Object list \<Rightarrow> string \<Rightarrow> ('s, 'e) crd_run
     \<Rightarrow> CRDStats \<times> 'e crd_error option \<times> ('s, 'e) crd_run" where
  "ApplyCRDs cfg D W crds policy st =
     (if crds = [] then (zero_CRDStats, None, st)
      else case cfg of
        None \<Rightarrow> (zero_CRDStats, Some NoClusterConfig, st)
      | Some client \<Rightarrow>
          if policy \<noteq> PolicyCreate \<and> policy \<noteq> PolicyCreateReplace then (zero_CRDStats, Some (UnknownPolicy policy), st)
          else case client of
            Inl e \<Rightarrow> (zero_CRDStats, Some (BuildClient e), st)
          | Inr C \<Rightarrow> applyCRDs C D W crds policy st)"

section \<open>The trace\<close>

text \<open>
  A guarded trace: every write of a definition directly follows a lookup of the same one. With
  the policy \<open>create\<close> it is a creation after a miss; a server-side apply needs \<open>create-replace\<close>.
\<close>

fun guarded :: "string \<Rightarrow> 'e crd_event list \<Rightarrow> bool" where
  "guarded policy [] = True"
| "guarded policy (EvGet name r # tr) = guarded policy tr"
| "guarded policy (EvCreate name r # tr) =
     (policy \<noteq> PolicyCreateReplace \<and> (case tr of EvGet n (NoCRD _) # _ \<Rightarrow> n = name | _ \<Rightarrow> False) \<and> guarded policy tr)"
| "guarded policy (EvApply name patch r # tr) =
     (policy = PolicyCreateReplace
      \<and> (case tr of EvGet n (NoCRD _) # _ \<Rightarrow> n = name | EvGet n (GotCRD _ _) # _ \<Rightarrow> n = name | _ \<Rightarrow> False)
      \<and> guarded policy tr)"

text \<open>How many definitions a trace created and replaced: successful writes after a miss or a hit.\<close>

fun after_miss :: "'e crd_event list \<Rightarrow> bool" where
  "after_miss (EvGet n (NoCRD _) # tr) = True"
| "after_miss _ = False"

fun created_in :: "'e crd_event list \<Rightarrow> nat" where
  "created_in [] = 0"
| "created_in (EvCreate n None # tr) = (if after_miss tr then 1 else 0) + created_in tr"
| "created_in (EvApply n p None # tr) = (if after_miss tr then 1 else 0) + created_in tr"
| "created_in (_ # tr) = created_in tr"

fun replaced_in :: "'e crd_event list \<Rightarrow> nat" where
  "replaced_in [] = 0"
| "replaced_in (EvCreate n None # tr) = (if after_miss tr then 0 else 1) + replaced_in tr"
| "replaced_in (EvApply n p None # tr) = (if after_miss tr then 0 else 1) + replaced_in tr"
| "replaced_in (_ # tr) = replaced_in tr"

definition trace_ok :: "string \<Rightarrow> CRDStats \<Rightarrow> 'e crd_event list \<Rightarrow> bool" where
  "trace_ok policy stats tr =
     (guarded policy tr \<and> st_Created stats = created_in tr \<and> st_Replaced stats = replaced_in tr)"

lemma trace_ok_get [simp]: "trace_ok policy stats (EvGet n r # tr) = trace_ok policy stats tr"
  by (simp add: trace_ok_def)

lemma ssa_write_trace:
  assumes "ssa_write C D ob name err st = (r, st')" and "trace_ok PolicyCreateReplace stats (snd st)"
    and "snd st = EvGet name g # tr" and "\<And>e. g \<noteq> GetFault e"
  shows "trace_ok PolicyCreateReplace
           (if r \<noteq> None then stats
            else if after_miss (snd st) then stats\<lparr>st_Created := st_Created stats + 1\<rparr>
            else stats\<lparr>st_Replaced := st_Replaced stats + 1\<rparr>) (snd st')"
proof (cases "ssaPatchFromObject D ob")
  case (Inl e)
  with assms(1,2) show ?thesis by (auto simp: ssa_write_def)
next
  case (Inr patch)
  obtain o' s' where "cl_Apply C name patch (fst st) = (o', s')" by fastforce
  with assms(1) Inr have "snd st' = EvApply name patch o' # snd st" "(r = None) = (o' = None)"
    by (cases o'; auto simp: ssa_write_def crd_Apply_def)+
  with assms(2-4) show ?thesis
    by (cases o'; cases g) (auto simp: trace_ok_def)
qed

lemma create_write_trace:
  assumes "create_write C name st = (r, st')" and "trace_ok policy stats (snd st)" and "policy \<noteq> PolicyCreateReplace"
    and "snd st = EvGet name (NoCRD e) # tr"
  shows "trace_ok policy (if r = None then stats\<lparr>st_Created := st_Created stats + 1\<rparr> else stats) (snd st')"
proof -
  obtain o' s' where "cl_Create C name (fst st) = (o', s')" by fastforce
  with assms(1) have "snd st' = EvCreate name o' # snd st" "(r = None) = (o' = None)"
    by (cases o'; auto simp: create_write_def crd_Create_def)+
  with assms(2-4) show ?thesis by (cases o') (auto simp: trace_ok_def)
qed

lemma policies [simp]: "PolicyCreate \<noteq> PolicyCreateReplace" "PolicyCreateReplace \<noteq> PolicyCreate"
  by (simp_all add: PolicyCreate_def PolicyCreateReplace_def)

text \<open>The server returns the definition that was asked for.\<close>

definition echoes :: "('s, 'e) crd_client \<Rightarrow> bool" where
  "echoes C = (\<forall>name s n b. fst (cl_Get C name s) = GotCRD n b \<longrightarrow> n = name)"

lemma apply_one_trace:
  assumes "apply_one C D policy ob (stats, applied, st) = (r, stats', applied', st')"
    and "trace_ok policy stats (snd st)" and "policy \<in> {PolicyCreate, PolicyCreateReplace}"
  shows "trace_ok policy stats' (snd st') \<and> st_Ready stats' = st_Ready stats
         \<and> (r = None \<longrightarrow> echoes C \<longrightarrow> (\<exists>name. decodeCRD D ob = Inr name \<and> applied' = applied @ [name]))"
proof (cases "decodeCRD D ob")
  case (Inl e)
  with assms(1,2) show ?thesis by (auto simp: apply_one_def)
next
  case (Inr name)
  obtain g s1 where g: "cl_Get C name (fst st) = (g, s1)" by fastforce
  let ?st = "(s1, EvGet name g # snd st)"
  have get: "crd_Get C name st = (g, ?st)" by (simp add: crd_Get_def g)
  have ok: "trace_ok policy stats (snd ?st)" using assms(2) by simp
  show ?thesis
  proof (cases g)
    case (GetFault e)
    with assms(1) ok Inr get show ?thesis by (auto simp: apply_one_def)
  next
    case (NoCRD e)
    show ?thesis
    proof (cases "policy = PolicyCreateReplace")
      case True
      obtain w t where w: "ssa_write C D ob name ApplyCRD ?st = (w, t)" by (metis surj_pair)
      from ssa_write_trace [OF w ok [unfolded True]] NoCRD
      have "trace_ok PolicyCreateReplace (if w = None then stats\<lparr>st_Created := st_Created stats + 1\<rparr> else stats) (snd t)"
        by (simp split: if_splits)
      with assms(1) Inr get NoCRD True w show ?thesis by (cases w) (auto simp: apply_one_def)
    next
      case False
      obtain w t where w: "create_write C name ?st = (w, t)" by (metis surj_pair)
      from create_write_trace [OF w ok False] NoCRD
      have "trace_ok policy (if w = None then stats\<lparr>st_Created := st_Created stats + 1\<rparr> else stats) (snd t)" by simp
      with assms(1) Inr get NoCRD False w show ?thesis by (cases w) (auto simp: apply_one_def)
    qed
  next
    case (GotCRD existing est)
    have name: "echoes C \<Longrightarrow> existing = name" using g GotCRD by (metis echoes_def fst_conv)
    show ?thesis
    proof (cases "policy = PolicyCreate")
      case True
      with assms(1) Inr get GotCRD ok name show ?thesis by (auto simp: apply_one_def)
    next
      case False
      with assms(3) have p: "policy = PolicyCreateReplace" by simp
      obtain w t where w: "ssa_write C D ob name ReplaceCRD ?st = (w, t)" by (metis surj_pair)
      from ssa_write_trace [OF w ok [unfolded p]] GotCRD
      have "trace_ok PolicyCreateReplace (if w = None then stats\<lparr>st_Replaced := st_Replaced stats + 1\<rparr> else stats) (snd t)"
        by (simp split: if_splits)
      with assms(1) Inr get GotCRD p w show ?thesis by (cases w) (auto simp: apply_one_def)
    qed
  qed
qed

lemma apply_loop_trace:
  assumes "apply_loop C D policy obs (stats, applied, st) = (r, stats', applied', st')"
    and "trace_ok policy stats (snd st)" and "policy \<in> {PolicyCreate, PolicyCreateReplace}"
  shows "trace_ok policy stats' (snd st') \<and> st_Ready stats' = st_Ready stats
         \<and> (r = None \<longrightarrow> echoes C \<longrightarrow>
              (\<exists>names. applied' = applied @ names \<and> list_all2 (\<lambda>ob n. decodeCRD D ob = Inr n) obs names))"
  using assms(1,2)
proof (induction obs arbitrary: stats applied st)
  case (Cons ob obs)
  obtain r1 stats1 applied1 st1 where one: "apply_one C D policy ob (stats, applied, st) = (r1, stats1, applied1, st1)"
    by (metis prod_cases4)
  note t = apply_one_trace [OF one Cons.prems(2) assms(3)]
  show ?case
  proof (cases r1)
    case (Some e)
    with Cons.prems(1) one t show ?thesis by auto
  next
    case None
    with Cons.prems(1) one have "apply_loop C D policy obs (stats1, applied1, st1) = (r, stats', applied', st')" by simp
    note rest = Cons.IH [OF this conjunct1 [OF t]]
    show ?thesis using rest t None by (fastforce simp: list_all2_Cons1)
  qed
qed (auto intro!: exI [of _ "[]"])

text \<open>Waiting only looks definitions up.\<close>

fun is_get :: "'e crd_event \<Rightarrow> bool" where
  "is_get (EvGet n r) = True"
| "is_get _ = False"

lemma trace_ok_gets: "list_all is_get gets \<Longrightarrow> trace_ok policy stats (gets @ tr) = trace_ok policy stats tr"
proof (induction gets)
  case (Cons ev gets)
  then show ?case by (cases ev) simp_all
qed simp

lemma poll_established_trace:
  "poll_established C W name k st = (r, st') \<Longrightarrow>
     \<exists>gets. snd st' = gets @ snd st \<and> list_all is_get gets \<and> (r = None \<longrightarrow> (\<exists>n. EvGet name (GotCRD n True) \<in> set gets))"
proof (induction k arbitrary: st)
  case 0
  obtain g s1 where g: "cl_Get C name (fst st) = (g, s1)" by (metis surj_pair)
  with 0 show ?case
    by (intro exI [of _ "[EvGet name g]"], subst (asm) poll_established.simps)
      (auto simp: crd_Get_def split: crd_get.splits if_splits)
next
  case (Suc k)
  obtain g s1 where g: "cl_Get C name (fst st) = (g, s1)" by (metis surj_pair)
  show ?case
  proof (cases "\<exists>n. g = GotCRD n False")
    case True
    with Suc.prems g have "poll_established C W name k (s1, EvGet name g # snd st) = (r, st')"
      by (subst (asm) poll_established.simps) (auto simp: crd_Get_def)
    from Suc.IH [OF this] obtain gets where "snd st' = gets @ EvGet name g # snd st" "list_all is_get gets"
      "r = None \<longrightarrow> (\<exists>n. EvGet name (GotCRD n True) \<in> set gets)" by auto
    then show ?thesis by (intro exI [of _ "gets @ [EvGet name g]"]) auto
  next
    case False
    with Suc.prems g show ?thesis
      by (intro exI [of _ "[EvGet name g]"], subst (asm) poll_established.simps)
        (auto simp: crd_Get_def split: crd_get.splits if_splits)
  qed
qed

lemma established_loop_trace:
  "established_loop C W names stats st = (stats', r, st') \<Longrightarrow>
     (\<exists>gets. snd st' = gets @ snd st \<and> list_all is_get gets
        \<and> (r = None \<longrightarrow> (\<forall>name \<in> set names. \<exists>n. EvGet name (GotCRD n True) \<in> set gets)))
     \<and> st_Created stats' = st_Created stats \<and> st_Replaced stats' = st_Replaced stats
     \<and> (r = None \<longrightarrow> st_Ready stats' = st_Ready stats + length names)"
proof (induction names arbitrary: stats st)
  case (Cons name names)
  show ?case
  proof (cases "ck_Expired W (length (snd st))")
    case True
    with Cons.prems show ?thesis by auto
  next
    case False
    obtain w st1 where w: "waitEstablished C W name st = (w, st1)" by (metis surj_pair)
    obtain gets1 where g1: "snd st1 = gets1 @ snd st" "list_all is_get gets1"
      "w = None \<longrightarrow> (\<exists>n. EvGet name (GotCRD n True) \<in> set gets1)"
      using poll_established_trace w unfolding waitEstablished_def by metis
    show ?thesis
    proof (cases w)
      case (Some e)
      with Cons.prems False w g1 show ?thesis by auto
    next
      case None
      with Cons.prems False w have
        "established_loop C W names (stats\<lparr>st_Ready := st_Ready stats + 1\<rparr>) st1 = (stats', r, st')" by simp
      from Cons.IH [OF this] obtain gets where g: "snd st' = gets @ snd st1" "list_all is_get gets"
        "r = None \<longrightarrow> (\<forall>n \<in> set names. \<exists>m. EvGet n (GotCRD m True) \<in> set gets)"
        and s: "st_Created stats' = st_Created stats" "st_Replaced stats' = st_Replaced stats"
          "r = None \<longrightarrow> st_Ready stats' = st_Ready stats + 1 + length names"
        by auto
      have "\<exists>gets. snd st' = gets @ snd st \<and> list_all is_get gets
          \<and> (r = None \<longrightarrow> (\<forall>name \<in> set (name # names). \<exists>n. EvGet name (GotCRD n True) \<in> set gets))"
        using g g1 None by (intro exI [of _ "gets @ gets1"]) auto
      with s show ?thesis by simp
    qed
  qed
qed auto

lemma list_all2_mem: "list_all2 P xs ys \<Longrightarrow> x \<in> set xs \<Longrightarrow> \<exists>y \<in> set ys. P x y"
  by (induction rule: list_all2_induct) auto

section \<open>What applying does\<close>

lemma applyCRDs_phases:
  assumes "applyCRDs C D W crds policy st = (stats, r, st')"
  obtains (applying) e applied where "apply_loop C D policy crds (zero_CRDStats, [], st) = (Some e, stats, applied, st')" "r = Some e"
    | (waiting) stats1 applied st1 where
        "apply_loop C D policy crds (zero_CRDStats, [], st) = (None, stats1, applied, st1)"
        "established_loop C W applied stats1 st1 = (stats, r, st')"
proof -
  obtain r1 stats1 applied st1 where l: "apply_loop C D policy crds (zero_CRDStats, [], st) = (r1, stats1, applied, st1)"
    by (metis prod_cases4)
  then show thesis using assms applying waiting by (cases r1) (auto simp: applyCRDs_def)
qed

lemma trace_ok_stats:
  "st_Created stats' = st_Created stats \<Longrightarrow> st_Replaced stats' = st_Replaced stats \<Longrightarrow>
     trace_ok policy stats' tr = trace_ok policy stats tr"
  by (simp add: trace_ok_def)

lemma ApplyCRDs_cases:
  assumes "ApplyCRDs cfg D W crds policy st = (stats, r, st')"
  obtains (nothing) "stats = zero_CRDStats" "st' = st" "r = None \<longrightarrow> crds = []"
    | (run) C where "cfg = Some (Inr C)" "policy \<in> {PolicyCreate, PolicyCreateReplace}"
        "applyCRDs C D W crds policy st = (stats, r, st')"
  using assms that by (auto simp: ApplyCRDs_def split: if_splits option.splits sum.splits)

text \<open>
  C11: CRDs are never overwritten unless the policy says so. However a run ends and whatever the
  server answers, every write follows a lookup of the same definition; under the policy \<open>create\<close>
  the only writes are creations of definitions the lookup did not find; and the reported numbers
  of created and replaced definitions are those of the successful writes.
\<close>

theorem crd_writes_guarded:
  assumes "ApplyCRDs cfg D W crds policy (s, []) = (stats, r, (s', tr))"
  shows "guarded policy tr \<and> st_Created stats = created_in tr \<and> st_Replaced stats = replaced_in tr"
  using assms
proof (cases rule: ApplyCRDs_cases)
  case nothing
  then show ?thesis by (simp add: zero_CRDStats_def)
next
  case (run C)
  have init: "trace_ok policy zero_CRDStats (snd (s, []))" by (simp add: trace_ok_def zero_CRDStats_def)
  from run(3) have "trace_ok policy stats tr"
  proof (cases rule: applyCRDs_phases)
    case (applying e applied)
    from apply_loop_trace [OF applying(1) init run(2)] show ?thesis by simp
  next
    case (waiting stats1 applied st1)
    note w = established_loop_trace [OF waiting(2)]
    have "trace_ok policy stats1 (snd st1)" using apply_loop_trace [OF waiting(1) init run(2)] by simp
    with w show ?thesis using trace_ok_gets trace_ok_stats by (metis snd_conv)
  qed
  then show ?thesis by (simp add: trace_ok_def)
qed

text \<open>
  C32: a run that reports success made every definition of the bundle available: each was decoded
  to a name, was seen established under that name, and is counted as ready.
\<close>

theorem crd_success_established:
  assumes "ApplyCRDs cfg D W crds policy (s, []) = (stats, None, (s', tr))"
    and "\<And>C. cfg = Some (Inr C) \<Longrightarrow> echoes C"
  shows "st_Ready stats = length crds
         \<and> (\<forall>ob. ob \<in> set crds \<longrightarrow> (\<exists>name n. decodeCRD D ob = Inr name \<and> EvGet name (GotCRD n True) \<in> set tr))"
  using assms(1)
proof (cases rule: ApplyCRDs_cases)
  case nothing
  then show ?thesis by (simp add: zero_CRDStats_def)
next
  case (run C)
  have init: "trace_ok policy zero_CRDStats (snd (s, []))" by (simp add: trace_ok_def zero_CRDStats_def)
  from run(3) show ?thesis
  proof (cases rule: applyCRDs_phases)
    case (waiting stats1 applied st1)
    from apply_loop_trace [OF waiting(1) init run(2)] assms(2) [OF run(1)]
    have names: "list_all2 (\<lambda>ob n. decodeCRD D ob = Inr n) crds applied" and "st_Ready stats1 = 0"
      by (auto simp: zero_CRDStats_def)
    moreover note est = established_loop_trace [OF waiting(2)]
    ultimately have ready: "st_Ready stats = length crds" by (simp add: list_all2_lengthD)
    from est obtain gets where g: "snd (s', tr) = gets @ snd st1"
      "\<forall>name \<in> set applied. \<exists>n. EvGet name (GotCRD n True) \<in> set gets" by blast
    have seen: "\<exists>n. EvGet name (GotCRD n True) \<in> set tr" if "name \<in> set applied" for name
    proof -
      from g(2) that obtain n where "EvGet name (GotCRD n True) \<in> set gets" by blast
      with g(1) show ?thesis by (intro exI [of _ n]) simp
    qed
    have "\<exists>name n. decodeCRD D ob = Inr name \<and> EvGet name (GotCRD n True) \<in> set tr" if mem: "ob \<in> set crds" for ob
    proof -
      obtain name where "decodeCRD D ob = Inr name" "name \<in> set applied"
        using list_all2_mem [OF names mem] by blast
      with seen show ?thesis by blast
    qed
    with ready show ?thesis by blast
  qed simp
qed

text \<open>
  The body of a server-side apply has no status and no server-managed metadata; every other
  field is the one of the document.
\<close>

lemma get_fold_del: "gm_get (fold gm_del ks m) k = (if k \<in> set ks then None else gm_get m k)"
  by (induction ks arbitrary: m) auto

lemma ssa_patch_exact:
  assumes "cd_Map D (o_Raw ob) = Inr obj" and "ssaPatchFromObject D ob = Inr patch"
  shows "gm_get patch ''status'' = None"
    and "k \<noteq> ''status'' \<Longrightarrow> k \<noteq> ''metadata'' \<Longrightarrow> gm_get patch k = gm_get obj k"
    and "get_map obj ''metadata'' = Some meta \<Longrightarrow>
           \<exists>m. get_map patch ''metadata'' = Some m \<and> gm_get m f = (if f \<in> set server_managed then None else gm_get meta f)"
  using assms
  by (auto simp: ssaPatchFromObject_def Let_def get_map_def get_fold_del split: option.splits jval.splits)

section \<open>An example server\<close>

text \<open>The definitions that exist; one is established as soon as it exists.\<close>

definition ex_crd_client :: "(string list, string) crd_client" where
  "ex_crd_client =
     \<lparr>cl_Get = (\<lambda>name s. (if name \<in> set s then GotCRD name True else NoCRD ''not found'', s)),
      cl_Create = (\<lambda>name s. (None, name # s)),
      cl_Apply = (\<lambda>name patch s. (None, List.insert name s))\<rparr>"

definition ex_crd_codec :: "string crd_codec" where
  "ex_crd_codec = \<lparr>cd_Name = (\<lambda>raw. Inr raw), cd_Map = (\<lambda>raw. Inr [(''kind'', JStr raw), (''status'', JNull)])\<rparr>"

definition ex_crd_clock :: "string crd_clock" where
  "ex_crd_clock =
     \<lparr>ck_Expired = (\<lambda>_. False), ck_Polls = (\<lambda>_. 3), ck_End = (\<lambda>_. ''deadline exceeded''),
      ck_IsDeadline = (\<lambda>e. e = ''deadline exceeded''), ck_IsCanceled = (\<lambda>_. False)\<rparr>"

definition ex_crds :: "Object list" where
  "ex_crds = map (\<lambda>n. \<lparr>o_Path = n @ ''.yaml'', o_Raw = n, o_Obj = []\<rparr>) [''widgets.example.org'', ''gears.example.org'']"

lemma ex_apply_run:
  "ApplyCRDs (Some (Inr ex_crd_client)) ex_crd_codec ex_crd_clock ex_crds PolicyCreate ([''gears.example.org''], [])
     = (\<lparr>st_Created = 1, st_Replaced = 0, st_Ready = 2\<rparr>, None, [''widgets.example.org'', ''gears.example.org''],
        [EvGet ''gears.example.org'' (GotCRD ''gears.example.org'' True),
         EvGet ''widgets.example.org'' (GotCRD ''widgets.example.org'' True),
         EvGet ''gears.example.org'' (GotCRD ''gears.example.org'' True),
         EvCreate ''widgets.example.org'' None, EvGet ''widgets.example.org'' (NoCRD ''not found'')])"
  by code_simp

theorem crd_writes_guarded_witness:
  "\<exists>stats r s' tr. ApplyCRDs (Some (Inr ex_crd_client)) ex_crd_codec ex_crd_clock ex_crds PolicyCreate ([''gears.example.org''], [])
       = (stats, r, (s', tr)) \<and> guarded PolicyCreate tr \<and> created_in tr = 1"
  using crd_writes_guarded [OF ex_apply_run] ex_apply_run by auto

theorem crd_success_established_witness:
  "\<exists>stats s' tr. ApplyCRDs (Some (Inr ex_crd_client)) ex_crd_codec ex_crd_clock ex_crds PolicyCreate ([''gears.example.org''], [])
       = (stats, None, (s', tr)) \<and> st_Ready stats = length ex_crds"
proof -
  have "echoes ex_crd_client" by (auto simp: echoes_def ex_crd_client_def)
  then have "\<And>C. Some (Inr ex_crd_client) = Some (Inr C) \<Longrightarrow> echoes C" by simp
  from crd_success_established [OF ex_apply_run this] ex_apply_run show ?thesis by blast
qed

end
