(* ===== verification/Deploy.thy ===== *)
theory Deploy
  imports Resize Cluster_Checks Plan_Output Crds
begin

text \<open>
  The deploy command (\<open>internal/cmd/deploy/deploy.go\<close>): load and resolve the project, plan, show
  the plan, check the guards, ask, then apply the CRDs, grow the volumes and install the release.

  The steps are the definitions of the other theories. What the command gets from outside (files,
  Helm, the API server, the prompt, the clock) is the record \<open>deploy_env\<close>; what it changes is the
  record \<open>deploy_state\<close>: the cluster, the CRD server with the trace of its calls, and the log of
  what the command showed, asked and did, oldest first.
\<close>

section \<open>Options, environment and state\<close>

record Options =
  op_Environment :: string
  op_Explain :: bool
  op_ForceHostnameChange :: bool
  op_ResizeVolumes :: bool
  op_Yes :: bool
  op_Reapply :: bool
  op_CRDs :: string

text \<open>
  The command renders the chart twice and fetches the release history three times: the first
  argument of \<open>de_Render\<close> and \<open>de_History\<close> counts the calls.
\<close>

record ('q, 'e, 's) deploy_env =
  de_K8sLib :: "'q k8s_lib"
  de_PlanLib :: "'e plan_lib"
  de_ObjLib :: "'e obj_lib"
  de_CertLib :: "'e cert_lib"
  de_Codec :: "'e crd_codec"
  de_Clock :: "'e crd_clock"
  de_World :: "'q world"
  de_Files :: "'e file_sys"
  de_SpecPath :: string
  de_RawSpec :: "('e, 'q Spec) result"
  de_Platform :: "('e, 'q PlatformConfig option) result"
  de_Load :: "'q PlatformConfig option \<Rightarrow> ('e, 'q Spec) result"
  de_Timeout :: int
  de_KubeContext :: string
  de_AllowMismatch :: bool
  de_Target :: "('e, string \<times> string) result"
  de_Fallback :: "string option"
  de_HelmError :: "'e option"
  de_ReachError :: "'e option"
  de_K8sError :: "'e option"
  de_Secrets :: "string \<Rightarrow> 'e secret_get"
  de_Now :: int
  de_Mapper :: "('e, gvk \<Rightarrow> bool option) result option"
  de_CRDConfig :: "('e, ('e, ('s, 'e) crd_client) result) result"
  de_Render :: "nat \<Rightarrow> 'q ResolvedSpec option \<Rightarrow> Object list option \<Rightarrow> ('e, RenderResult) result"
  de_History :: "nat \<Rightarrow> 'e history"
  de_Chart :: "Release \<Rightarrow> jval gomap option"
  de_OutError :: "'e option"
  de_Style :: "token \<Rightarrow> string \<Rightarrow> string"
  de_Groups :: "('e, string list) result"
  de_Version :: "('e, string \<times> string) result"
  de_Pods :: "('e, pod list) result"
  de_Confirm :: "bool \<Rightarrow> string \<Rightarrow> ('e, bool) result"
  de_Install :: "'q ResolvedSpec option \<Rightarrow> Object list option \<Rightarrow> 'e option"
  de_Watched :: "ComponentStatus list"

datatype effect =
    Explained "string list"
  | ContextWarning string string
  | FallbackWarning string
  | PlanShown "string list"
  | HostnameWarning "(string \<times> string \<times> string) list"
  | WorkloadWarning "(string \<times> workload_warning) list"
  | Asked string bool
  | Aborted
  | CRDsApplied
  | VolumesResized "persistenceResize list"
  | AppInstalled
  | Succeeded string
  | Readiness string

record ('q, 'e, 's) deploy_state =
  ds_Cluster :: "('q, 'e) cluster"
  ds_CRDs :: "('s, 'e) crd_run"
  ds_Log :: "effect list"

definition logged :: "effect list \<Rightarrow> ('q, 'e, 's) deploy_state \<Rightarrow> ('q, 'e, 's) deploy_state" where
  "logged es s = s\<lparr>ds_Log := ds_Log s @ es\<rparr>"

datatype ('q, 'e) deploy_error =
    ParseManifest 'e
  | PlatformFile 'e
  | LoadSpec 'e
  | PlatformMissing
  | ResolutionFailed "ErrCode option" "'q resolve_error"
  | TaskWeights hook_error
  | HookTimeouts "(string \<times> terr) list"
  | TargetCluster 'e
  | HelmClient 'e
  | Unreachable 'e
  | TLSFailed "'e tls_error"
  | LoadExtras "'e + 'e extras_error"
  | PlanFailed "'e plan_error"
  | RenderPlan 'e
  | HostnameGuard "'e hostname_error"
  | PreviousRelease 'e
  | WorkloadGuard "(string \<times> guard_error) list"
  | ResizeFlag "(string \<times> string \<times> string) list" bool
  | MissingCapability "'e capability_error"
  | ServerTooOld "'e version_error"
  | ConfirmFailed 'e
  | VerifyRender 'e
  | ManifestsChanged
  | CRDRestConfig 'e
  | CRDsFailed "'e crd_error"
  | ResizeNoClient 'e
  | ResizeFailed string "'e resize_error"
  | InstallFailed 'e

section \<open>Messages\<close>

definition warnContextMismatch :: "string \<Rightarrow> bool \<Rightarrow> 'q PlatformConfig option \<Rightarrow> string \<Rightarrow> effect list" where
  "warnContextMismatch kubeCtxOverride silenced platform envName =
     (if kubeCtxOverride = [] \<or> silenced then []
      else let platformCtx = PlatformEnvContext platform envName in
           if platformCtx \<noteq> [] \<and> platformCtx \<noteq> kubeCtxOverride
           then [ContextWarning kubeCtxOverride platformCtx] else [])"

text \<open>\<open>fallback\<close> is the current context when the kubeconfig decides, \<open>None\<close> when a context is configured.\<close>

definition WarnContextFallback :: "string option \<Rightarrow> string \<Rightarrow> effect list" where
  "WarnContextFallback fallback env =
     (case fallback of
        None \<Rightarrow> []
      | Some current \<Rightarrow>
          let target = (if current \<noteq> [] then ''the current kubeconfig context '' @ [CHR 0x22] @ current @ [CHR 0x22]
                        else ''the kubeconfig's current context'');
              source = (if env \<noteq> [] then ''environment '' @ [CHR 0x22] @ env @ [CHR 0x22] @ '' has no context in the platform file and no --context was given''
                        else ''no context is configured (platform file or --context)'')
          in [FallbackWarning (source @ ''; using '' @ target)])"

definition printExplain :: "'q ResolvedSpec \<Rightarrow> string list" where
  "printExplain resolved =
     [''--- Resolution Report ---'', ''Environment: '' @ Original (rs_Env resolved)]
     @ (if rs_KubeContext resolved \<noteq> [] then [''Context:     '' @ rs_KubeContext resolved] else [])
     @ List.map_filter (\<lambda>(name, rc). if rc_FQDN rc = [] then None
          else Some (''  '' @ name @ '': hostname='' @ rc_FQDN rc @ '' tls='' @ rc_TLSMode rc)) (rs_Components resolved)
     @ [''--- End Report ---'']"

definition HasExposeComponents :: "'q Spec option \<Rightarrow> bool" where
  "HasExposeComponents m = (case m of None \<Rightarrow> False | Some s \<Rightarrow> list_ex (\<lambda>(_, c). c_Expose c \<noteq> None) (s_Components s))"

definition crdNoun :: "nat \<Rightarrow> string" where
  "crdNoun n = (if n = 1 then ''CRD'' else ''CRDs'')"

definition crd_parts :: "CRDStats \<Rightarrow> string" where
  "crd_parts stats =
     str_Join ((if st_Created stats > 0 then [Itoa (st_Created stats) @ '' created''] else [])
               @ (if st_Replaced stats > 0 then [Itoa (st_Replaced stats) @ '' replaced''] else [])) '', ''"

definition crdIdleSuccessMessage :: "CRDStats \<Rightarrow> string \<Rightarrow> int \<Rightarrow> string" where
  "crdIdleSuccessMessage stats release revision =
     (let suffix = ''Release '' @ release @ '' unchanged (revision '' @ fmt_d revision @ '').'' in
      if st_Created stats = 0 \<and> st_Replaced stats = 0
      then ''CRDs ready ('' @ Itoa (st_Ready stats) @ '' already present). '' @ suffix
      else ''Applied '' @ Itoa (st_Ready stats) @ '' '' @ crdNoun (st_Ready stats) @ '' ('' @ crd_parts stats @ ''). '' @ suffix)"

definition crdApplySuffix :: "CRDStats \<Rightarrow> string" where
  "crdApplySuffix stats =
     (if st_Created stats = 0 \<and> st_Replaced stats = 0 then []
      else let n = st_Created stats + st_Replaced stats in
           ''; applied '' @ Itoa n @ '' '' @ crdNoun n @ '' ('' @ crd_parts stats @ '')'')"

definition buildSummaryMsg :: "ComponentStatus list option \<Rightarrow> string" where
  "buildSummaryMsg w =
     (case w of None \<Rightarrow> [] | Some statuses \<Rightarrow>
        let summary = readiness_Summary statuses in if summary = [] then [] else '' ('' @ summary @ '')'')"

definition resizeFailureHint :: "persistenceResize list \<Rightarrow> string" where
  "resizeFailureHint resizes =
     (if hasStatefulResize resizes
      then ''resize volumes failed (PVCs may already be patched; StatefulSets may have been orphan-deleted; pods/PVCs should still be running; re-run deploy with --resize-volumes after fixing the cause)''
      else ''resize volumes failed (PVCs may already be patched; re-run deploy with --resize-volumes after fixing the cause)'')"

section \<open>Preparation\<close>

text \<open>From the files to the resolved project; nothing of it touches the cluster.\<close>

definition resolve_project ::
  "('q, 'e, 's) deploy_env \<Rightarrow> Options \<Rightarrow> 'q Spec \<Rightarrow> 'q PlatformConfig option \<Rightarrow> 'q Spec
     \<Rightarrow> (('q, 'e) deploy_error, 'q ResolvedSpec option) result" where
  "resolve_project E opts rawSpec platform manifest =
     (case platform of
        None \<Rightarrow> Inr None
      | Some p \<Rightarrow>
          (case Resolve (de_K8sLib E) manifest (Some p) (NormalizeEnv (op_Environment opts)) (PrescanSubstitutionReport rawSpec) of
             Inl (report, e) \<Rightarrow> Inl (ResolutionFailed (rep_ErrorCode report) e)
           | Inr (resolved, report) \<Rightarrow> Inr (Some resolved)))"

definition check_timeouts ::
  "('q, 'e, 's) deploy_env \<Rightarrow> Options \<Rightarrow> 'q Spec \<Rightarrow> 'q ResolvedSpec option \<Rightarrow> ('q, 'e) deploy_error check" where
  "check_timeouts E opts manifest resolved =
     (case EffectiveTasks (de_K8sLib E) (Some manifest) (op_Environment opts) (map_option rs_Tasks resolved) of
        Inl e \<Rightarrow> Some (TaskWeights e)
      | Inr effective \<Rightarrow>
          (case CheckHookTaskTimeouts (gm_map rt_Task effective) (de_Timeout E) of
             [] \<Rightarrow> None
           | errs \<Rightarrow> Some (HookTimeouts errs)))"

definition load_project ::
  "('q, 'e, 's) deploy_env \<Rightarrow> Options
     \<Rightarrow> (('q, 'e) deploy_error, 'q Spec \<times> 'q PlatformConfig option \<times> 'q ResolvedSpec option) result" where
  "load_project E opts =
     (case de_RawSpec E of
        Inl e \<Rightarrow> Inl (ParseManifest e)
      | Inr rawSpec \<Rightarrow>
          (case de_Platform E of
             Inl e \<Rightarrow> Inl (PlatformFile e)
           | Inr platform \<Rightarrow>
               (case de_Load E platform of
                  Inl e \<Rightarrow> Inl (LoadSpec e)
                | Inr manifest \<Rightarrow>
                    if platform = None \<and> HasExposeComponents (Some manifest) then Inl PlatformMissing
                    else bindE (resolve_project E opts rawSpec platform manifest) (\<lambda>resolved.
                         case check_timeouts E opts manifest resolved of
                           Some e \<Rightarrow> Inl e
                         | None \<Rightarrow> Inr (manifest, platform, resolved)))))"

text \<open>The target: the namespace and the context, once Helm can reach the cluster.\<close>

definition connect :: "('q, 'e, 's) deploy_env \<Rightarrow> (('q, 'e) deploy_error, string \<times> string) result" where
  "connect E =
     (case de_Target E of
        Inl e \<Rightarrow> Inl (TargetCluster e)
      | Inr target \<Rightarrow>
          (case de_HelmError E of
             Some e \<Rightarrow> Inl (HelmClient e)
           | None \<Rightarrow> (case de_ReachError E of Some e \<Rightarrow> Inl (Unreachable e) | None \<Rightarrow> Inr target)))"

definition materialize_tls ::
  "('q, 'e, 's) deploy_env \<Rightarrow> 'q ResolvedSpec option \<Rightarrow> (('q, 'e) deploy_error, 'q ResolvedSpec option) result" where
  "materialize_tls E resolved =
     (case resolved of
        None \<Rightarrow> Inr None
      | Some rs \<Rightarrow>
          (case cmdopts_MaterializeSelfSignedTLS (de_CertLib E) (de_Now E)
                  (case de_K8sError E of None \<Rightarrow> Inr (de_Secrets E) | Some e \<Rightarrow> Inl e) (rs_Components rs) of
             Inl e \<Rightarrow> Inl (TLSFailed e)
           | Inr rcs \<Rightarrow> Inr (Some (rs\<lparr>rs_Components := rcs\<rparr>))))"

record 'q prepared =
  pr_Manifest :: "'q Spec"
  pr_Platform :: "'q PlatformConfig option"
  pr_Resolved :: "'q ResolvedSpec option"
  pr_Namespace :: string
  pr_Context :: string
  pr_Bundle :: Bundle
  pr_Diff :: Plan
  pr_Result :: RenderResult

definition computePlan ::
  "('q, 'e, 's) deploy_env \<Rightarrow> Options \<Rightarrow> 'q Spec \<Rightarrow> string \<Rightarrow> 'q ResolvedSpec option \<Rightarrow> Object list option
     \<Rightarrow> (('q, 'e) deploy_error, Plan \<times> RenderResult) result" where
  "computePlan E opts manifest context resolved postRenderer =
     (case BuildPlan (de_PlanLib E) (de_K8sLib E) (de_Render E 0 resolved postRenderer) (de_History E 0) manifest
             (op_Environment opts) context (map_option rs_Tasks resolved) of
        Inl e \<Rightarrow> Inl (PlanFailed e)
      | Inr p \<Rightarrow> Inr p)"

definition prepare :: "('q, 'e, 's) deploy_env \<Rightarrow> Options \<Rightarrow> (('q, 'e) deploy_error, 'q prepared) result" where
  "prepare E opts =
     bindE (load_project E opts) (\<lambda>(manifest, platform, resolved0).
     bindE (connect E) (\<lambda>(namespace, context).
     bindE (materialize_tls E resolved0) (\<lambda>resolved.
     case LoadFromSpec (de_ObjLib E) (de_Files E) (de_SpecPath E) manifest platform (op_Environment opts) namespace (de_Mapper E) of
       Inl e \<Rightarrow> Inl (LoadExtras e)
     | Inr bundle \<Rightarrow>
         bindE (computePlan E opts manifest context resolved (PostRendererFor (Some bundle))) (\<lambda>(diff, res).
           Inr \<lparr>pr_Manifest = manifest, pr_Platform = platform, pr_Resolved = resolved, pr_Namespace = namespace,
                pr_Context = context, pr_Bundle = bundle, pr_Diff = diff, pr_Result = res\<rparr>))))"

text \<open>What the command has printed by the time the plan is computed or preparation failed.\<close>

definition prepare_notes :: "('q, 'e, 's) deploy_env \<Rightarrow> Options \<Rightarrow> effect list" where
  "prepare_notes E opts =
     (case (de_RawSpec E, de_Platform E) of
        (Inr rawSpec, Inr platform) \<Rightarrow>
          (case de_Load E platform of
             Inl _ \<Rightarrow> []
           | Inr manifest \<Rightarrow>
               if platform = None \<and> HasExposeComponents (Some manifest) then []
               else
                 (if platform = None then [] else warnContextMismatch (de_KubeContext E) (de_AllowMismatch E) platform (op_Environment opts))
                 @ (case resolve_project E opts rawSpec platform manifest of
                      Inl _ \<Rightarrow> []
                    | Inr resolved \<Rightarrow>
                        (case resolved of Some rs \<Rightarrow> if op_Explain opts then [Explained (printExplain rs)] else [] | None \<Rightarrow> [])
                        @ (if check_timeouts E opts manifest resolved = None \<and> is_ok (connect E)
                           then WarnContextFallback (de_Fallback E) (op_Environment opts) else [])))
      | _ \<Rightarrow> [])"

section \<open>Guards and preconditions\<close>

text \<open>
  After the plan is shown: the effects printed and, unless a guard fails, the volumes to grow.
\<close>

definition check_guards ::
  "('q, 'e, 's) deploy_env \<Rightarrow> Options \<Rightarrow> 'q prepared
     \<Rightarrow> effect list \<times> (('q, 'e) deploy_error, persistenceResize list) result" where
  "check_guards E opts P =
     (case (case pr_Resolved P of
              None \<Rightarrow> Inr []
            | Some rs \<Rightarrow> checkHostnameGuard (de_History E 1) (de_Chart E) rs (op_ForceHostnameChange opts)) of
        Inl e \<Rightarrow> ([], Inl (HostnameGuard e))
      | Inr changed \<Rightarrow>
          let ns = (if changed = [] then [] else [HostnameWarning changed]) in
          (case loadPreviousResolvedComponents (de_History E 2) (de_Chart E) of
             Inl e \<Rightarrow> (ns, Inl (PreviousRelease e))
           | Inr prev \<Rightarrow>
               (case checkWorkloadGuards (de_K8sLib E) (pr_Manifest P) (op_Environment opts) prev of
                  [] \<Rightarrow>
                    let warnings = emitWorkloadWarnings (pr_Manifest P) (op_Environment opts) prev;
                        ns = ns @ (if warnings = [] then [] else [WorkloadWarning warnings]);
                        resizes = detectPersistenceResizes (de_K8sLib E) (pr_Manifest P) (op_Environment opts) (pr_Resolved P) prev
                    in (ns, case requireResizeFlag resizes (op_ResizeVolumes opts) of
                                 Some (lines, stateful) \<Rightarrow> Inl (ResizeFlag lines stateful)
                               | None \<Rightarrow> Inr resizes)
                | errs \<Rightarrow> (ns, Inl (WorkloadGuard errs)))))"

definition skipWhenIdle :: "bool \<Rightarrow> nat \<Rightarrow> bool" where
  "skipWhenIdle helmIdle crdCount = (helmIdle \<and> crdCount = 0)"

text \<open>The API and version checks; skipped when Helm is idle or without a Kubernetes client.\<close>

definition preflight :: "('q, 'e, 's) deploy_env \<Rightarrow> Options \<Rightarrow> 'q prepared \<Rightarrow> bool \<Rightarrow> ('q, 'e) deploy_error check" where
  "preflight E opts P helmIdle =
     (if helmIdle \<or> de_K8sError E \<noteq> None then None
      else
        let reqs = filterCoveredAPIs (RequiredAPIs (pr_Manifest P) (op_Environment opts) (map_option rs_Components (pr_Resolved P)))
                     (GroupVersionsFromCRDs (b_CRDs (pr_Bundle P)))
        in case (if reqs = [] then None else CheckAPIRequirements (de_Groups E) reqs) of
             Some e \<Rightarrow> Some (MissingCapability e)
           | None \<Rightarrow>
               if hasStatefulWithPersistence (pr_Manifest P) (op_Environment opts)
               then map_option ServerTooOld (CheckMinimumVersion (de_Version E) MinStatefulMajor MinStatefulMinor)
               else None)"

section \<open>Applying\<close>

type_synonym ('q, 'e, 's) outcome = "('q, 'e) deploy_error check \<times> ('q, 'e, 's) deploy_state"

definition printReadiness :: "('q, 'e, 's) deploy_env \<Rightarrow> RenderResult \<Rightarrow> effect list" where
  "printReadiness E res =
     (if de_K8sError E \<noteq> None then []
      else case Poll (rr_ReleaseName res) (de_Pods E) of
             Inl _ \<Rightarrow> []
           | Inr statuses \<Rightarrow>
               let summary = readiness_Summary statuses in if summary = [] then [] else [Readiness summary])"

definition skipDeploy ::
  "('q, 'e, 's) deploy_env \<Rightarrow> 'q prepared \<Rightarrow> ('q, 'e, 's) deploy_state \<Rightarrow> ('q, 'e, 's) outcome" where
  "skipDeploy E P s =
     (None, logged ([Succeeded (''No changes. Release '' @ h_Release (p_Header (pr_Diff P)) @ '' unchanged (revision ''
                       @ fmt_d (h_Revision (p_Header (pr_Diff P))) @ '').'')] @ printReadiness E (pr_Result P)) s)"

definition applyBundleCRDs ::
  "('q, 'e, 's) deploy_env \<Rightarrow> Options \<Rightarrow> Bundle \<Rightarrow> ('q, 'e, 's) deploy_state
     \<Rightarrow> (('q, 'e) deploy_error, CRDStats) result \<times> ('q, 'e, 's) deploy_state" where
  "applyBundleCRDs E opts bundle s =
     (if b_CRDs bundle = [] then (Inr zero_CRDStats, s)
      else case de_CRDConfig E of
        Inl e \<Rightarrow> (Inl (CRDRestConfig e), s)
      | Inr cfg \<Rightarrow>
          (case ApplyCRDs (Some cfg) (de_Codec E) (de_Clock E) (b_CRDs bundle) (op_CRDs opts) (ds_CRDs s) of
             (stats, err, run) \<Rightarrow>
               (case err of Some e \<Rightarrow> Inl (CRDsFailed e) | None \<Rightarrow> Inr stats,
                logged [CRDsApplied] (s\<lparr>ds_CRDs := run\<rparr>))))"

definition applyCRDsOnly ::
  "('q, 'e, 's) deploy_env \<Rightarrow> Options \<Rightarrow> 'q prepared \<Rightarrow> ('q, 'e, 's) deploy_state \<Rightarrow> ('q, 'e, 's) outcome" where
  "applyCRDsOnly E opts P s =
     (case applyBundleCRDs E opts (pr_Bundle P) s of
        (Inl e, s) \<Rightarrow> (Some e, s)
      | (Inr stats, s) \<Rightarrow>
          (None, logged ([Succeeded (crdIdleSuccessMessage stats (h_Release (p_Header (pr_Diff P))) (h_Revision (p_Header (pr_Diff P))))]
                         @ printReadiness E (pr_Result P)) s))"

definition grow_volumes ::
  "('q, 'e, 's) deploy_env \<Rightarrow> RenderResult \<Rightarrow> persistenceResize list \<Rightarrow> ('q, 'e, 's) deploy_state
     \<Rightarrow> ('q, 'e, 's) outcome option" where
  "grow_volumes E res resizes s =
     (if resizes = [] then Some (None, s)
      else case de_K8sError E of
        Some e \<Rightarrow> Some (Some (ResizeNoClient e), s)
      | None \<Rightarrow>
          (case resizeVolumes (de_K8sLib E) (de_World E) True (rr_ReleaseName res) resizes (ds_Cluster s) of
             None \<Rightarrow> None
           | Some (r, cl) \<Rightarrow>
               Some (case r of Inl e \<Rightarrow> Some (ResizeFailed (resizeFailureHint resizes) e) | Inr _ \<Rightarrow> None,
                     logged [VolumesResized resizes] (s\<lparr>ds_Cluster := cl\<rparr>))))"

definition install ::
  "('q, 'e, 's) deploy_env \<Rightarrow> 'q prepared \<Rightarrow> CRDStats \<Rightarrow> ('q, 'e, 's) deploy_state \<Rightarrow> ('q, 'e, 's) outcome" where
  "install E P stats s =
     (let s = logged [AppInstalled] s in
      case de_Install E (pr_Resolved P) (PostRendererFor (Some (pr_Bundle P))) of
        Some e \<Rightarrow> (Some (InstallFailed e), s)
      | None \<Rightarrow>
          (None, logged [Succeeded (''Deployed''
             @ buildSummaryMsg (if de_K8sError E = None then Some (de_Watched E) else None) @ crdApplySuffix stats)] s))"

definition applyDeploy ::
  "('q, 'e, 's) deploy_env \<Rightarrow> Options \<Rightarrow> 'q prepared \<Rightarrow> persistenceResize list \<Rightarrow> ('q, 'e, 's) deploy_state
     \<Rightarrow> ('q, 'e, 's) outcome option" where
  "applyDeploy E opts P resizes s =
     (case de_Render E 1 (pr_Resolved P) (PostRendererFor (Some (pr_Bundle P))) of
        Inl e \<Rightarrow> Some (Some (VerifyRender e), s)
      | Inr verify \<Rightarrow>
          if rr_Manifest verify \<noteq> rr_Manifest (pr_Result P) then Some (Some ManifestsChanged, s)
          else
            (case applyBundleCRDs E opts (pr_Bundle P) s of
               (Inl e, s) \<Rightarrow> Some (Some e, s)
             | (Inr stats, s) \<Rightarrow>
                 (case grow_volumes E (pr_Result P) resizes s of
                    None \<Rightarrow> None
                  | Some (Some e, s) \<Rightarrow> Some (Some e, s)
                  | Some (None, s) \<Rightarrow> Some (install E P stats s))))"

section \<open>The command\<close>

definition confirmApply :: "('q, 'e, 's) deploy_env \<Rightarrow> Options \<Rightarrow> string \<Rightarrow> ('e, bool) result" where
  "confirmApply E opts prompt = de_Confirm E (op_Yes opts) prompt"

definition apply_prompt :: "bool \<Rightarrow> nat \<Rightarrow> string" where
  "apply_prompt helmIdle n =
     (if helmIdle then ''Helm release is unchanged. Apply '' @ Itoa n @ '' '' @ crdNoun n @ ''?'' else ''Apply these changes?'')"

definition confirm_and_apply ::
  "('q, 'e, 's) deploy_env \<Rightarrow> Options \<Rightarrow> 'q prepared \<Rightarrow> bool \<Rightarrow> persistenceResize list \<Rightarrow> ('q, 'e, 's) deploy_state
     \<Rightarrow> ('q, 'e, 's) outcome option" where
  "confirm_and_apply E opts P helmIdle resizes s =
     (let prompt = apply_prompt helmIdle (length (b_CRDs (pr_Bundle P))) in
      case confirmApply E opts prompt of
        Inl e \<Rightarrow> Some (Some (ConfirmFailed e), s)
      | Inr proceed \<Rightarrow>
          let s = logged [Asked prompt proceed] s in
          if \<not> proceed then Some (None, logged [Aborted] s)
          else if helmIdle then Some (applyCRDsOnly E opts P s)
          else applyDeploy E opts P resizes s)"

definition helm_idle :: "Options \<Rightarrow> 'q prepared \<Rightarrow> bool" where
  "helm_idle opts P = (\<not> HasChanges (Some (pr_Diff P)) \<and> \<not> op_Reapply opts)"

definition runDeploy ::
  "('q, 'e, 's) deploy_env \<Rightarrow> Options \<Rightarrow> ('q, 'e, 's) deploy_state \<Rightarrow> ('q, 'e, 's) outcome option" where
  "runDeploy E opts s =
     (let s = logged (prepare_notes E opts) s in
      case prepare E opts of
        Inl e \<Rightarrow> Some (Some e, s)
      | Inr P \<Rightarrow>
          (case de_OutError E of
             Some e \<Rightarrow> Some (Some (RenderPlan e), s)
           | None \<Rightarrow>
               let s = logged [PlanShown (RenderText (pr_Diff P) \<lparr>o_Mode = ModeCompact, o_ShowSecrets = False, o_Style = de_Style E\<rparr>)] s in
               (case check_guards E opts P of
                  (ns, Inl e) \<Rightarrow> Some (Some e, logged ns s)
                | (ns, Inr resizes) \<Rightarrow>
                    let s = logged ns s in
                    if skipWhenIdle (helm_idle opts P) (length (b_CRDs (pr_Bundle P))) then Some (skipDeploy E P s)
                    else case preflight E opts P (helm_idle opts P) of
                           Some e \<Rightarrow> Some (Some e, s)
                         | None \<Rightarrow> confirm_and_apply E opts P (helm_idle opts P) resizes s)))"

section \<open>What the command does\<close>

text \<open>The effects that change the cluster.\<close>

fun is_write :: "effect \<Rightarrow> bool" where
  "is_write CRDsApplied = True"
| "is_write (VolumesResized _) = True"
| "is_write AppInstalled = True"
| "is_write _ = False"

lemma logged_sel [simp]:
  "ds_Log (logged es s) = ds_Log s @ es" "ds_Cluster (logged es s) = ds_Cluster s" "ds_CRDs (logged es s) = ds_CRDs s"
  "logged fs (logged es s) = logged (es @ fs) s"
  by (simp_all add: logged_def)

text \<open>
  What a step may do: it extends the log by \<open>es\<close>, and changes the cluster and the CRDs only
  with an effect that says so.
\<close>

definition step_ok :: "effect list \<Rightarrow> ('q, 'e, 's) deploy_state \<Rightarrow> ('q, 'e, 's) deploy_state \<Rightarrow> bool" where
  "step_ok es s s' =
     (ds_Log s' = ds_Log s @ es
      \<and> (ds_Cluster s' = ds_Cluster s \<or> (\<exists>zs. VolumesResized zs \<in> set es))
      \<and> (ds_CRDs s' = ds_CRDs s \<or> CRDsApplied \<in> set es))"

lemma step_ok_logged [simp]: "step_ok es s (logged es s)"
  by (simp add: step_ok_def)

lemma step_ok_refl [simp]: "step_ok [] s s"
  by (simp add: step_ok_def)

lemma step_ok_trans: "step_ok es s t \<Longrightarrow> step_ok fs t u \<Longrightarrow> step_ok (es @ fs) s u"
  by (auto simp: step_ok_def)

lemma no_writes_messages [simp]:
  "list_all (\<lambda>e. \<not> is_write e) (printReadiness E res)"
  "list_all (\<lambda>e. \<not> is_write e) (warnContextMismatch k b p env)"
  "list_all (\<lambda>e. \<not> is_write e) (WarnContextFallback f env)"
  by (auto simp: printReadiness_def warnContextMismatch_def WarnContextFallback_def Let_def split: sum.splits option.splits)

lemma no_writes_notes: "list_all (\<lambda>e. \<not> is_write e) (prepare_notes E opts)"
  by (simp add: prepare_notes_def split: sum.splits option.splits)

lemma no_writes_guards: "check_guards E opts P = (ns, r) \<Longrightarrow> list_all (\<lambda>e. \<not> is_write e) ns"
  by (auto simp: check_guards_def Let_def split: sum.splits option.splits list.splits)

text \<open>Nor do these ask anything.\<close>

fun is_question :: "effect \<Rightarrow> bool" where
  "is_question (Asked _ _) = True"
| "is_question _ = False"

lemma no_questions_messages [simp]:
  "list_all (\<lambda>e. \<not> is_question e) (printReadiness E res)"
  "list_all (\<lambda>e. \<not> is_question e) (warnContextMismatch k b p env)"
  "list_all (\<lambda>e. \<not> is_question e) (WarnContextFallback f env)"
  by (auto simp: printReadiness_def warnContextMismatch_def WarnContextFallback_def Let_def split: sum.splits option.splits)

lemma no_questions_notes: "list_all (\<lambda>e. \<not> is_question e) (prepare_notes E opts)"
  by (simp add: prepare_notes_def split: sum.splits option.splits)

lemma no_questions_guards: "check_guards E opts P = (ns, r) \<Longrightarrow> list_all (\<lambda>e. \<not> is_question e) ns"
  by (auto simp: check_guards_def Let_def split: sum.splits option.splits list.splits)

lemma no_writes_filter: "list_all (\<lambda>e. \<not> is_write e) es \<Longrightarrow> filter is_write es = []"
  by (simp add: list_all_iff filter_empty_conv)

lemma applyBundleCRDs_step:
  assumes "applyBundleCRDs E opts bundle s = (r, s')"
  obtains es where "step_ok es s s'" "es = [] \<or> es = [CRDsApplied]" "is_ok r \<longrightarrow> es = (if b_CRDs bundle = [] then [] else [CRDsApplied])"
proof (cases "b_CRDs bundle = [] \<or> \<not> is_ok (de_CRDConfig E)")
  case True
  then show thesis using that [of "[]"] assms by (auto simp: applyBundleCRDs_def split: if_splits sum.splits)
next
  case False
  then show thesis using that [of "[CRDsApplied]"] assms
    by (auto simp: applyBundleCRDs_def step_ok_def split: if_splits sum.splits prod.splits)
qed

lemma grow_volumes_step:
  assumes "grow_volumes E res resizes s = Some (r, s')"
  obtains es where "step_ok es s s'" "es = [] \<or> es = [VolumesResized resizes]"
    "r = None \<longrightarrow> es = (if resizes = [] then [] else [VolumesResized resizes])"
proof (cases "resizes = [] \<or> de_K8sError E \<noteq> None")
  case True
  then show thesis using that [of "[]"] assms by (auto simp: grow_volumes_def split: if_splits option.splits)
next
  case False
  then show thesis using that [of "[VolumesResized resizes]"] assms
    by (auto simp: grow_volumes_def step_ok_def split: if_splits sum.splits prod.splits option.splits)
qed

lemma install_step:
  assumes "install E P stats s = (r, s')"
  obtains msgs where "step_ok (AppInstalled # msgs) s s'" "filter is_write msgs = []"
    "r = map_option InstallFailed (de_Install E (pr_Resolved P) (PostRendererFor (Some (pr_Bundle P))))"
proof (cases "de_Install E (pr_Resolved P) (PostRendererFor (Some (pr_Bundle P)))")
  case None
  with assms show thesis using that [of "[Succeeded (''Deployed''
      @ buildSummaryMsg (if de_K8sError E = None then Some (de_Watched E) else None) @ crdApplySuffix stats)]"]
    by (auto simp: install_def)
next
  case (Some e)
  with assms show thesis using that [of "[]"] by (auto simp: install_def)
qed

text \<open>The writes of an application, in order: the CRDs, the volumes, the release.\<close>

lemma applyDeploy_step:
  assumes "applyDeploy E opts P resizes s = Some (r, s')"
  obtains es where "step_ok es s s'"
    "AppInstalled \<in> set es \<longrightarrow>
       filter is_write es = (if b_CRDs (pr_Bundle P) = [] then [] else [CRDsApplied])
         @ (if resizes = [] then [] else [VolumesResized resizes]) @ [AppInstalled]
       \<and> (\<exists>v. de_Render E 1 (pr_Resolved P) (PostRendererFor (Some (pr_Bundle P))) = Inr v \<and> rr_Manifest v = rr_Manifest (pr_Result P))
       \<and> r = map_option InstallFailed (de_Install E (pr_Resolved P) (PostRendererFor (Some (pr_Bundle P))))"
proof (cases "\<exists>v. de_Render E 1 (pr_Resolved P) (PostRendererFor (Some (pr_Bundle P))) = Inr v \<and> rr_Manifest v = rr_Manifest (pr_Result P)")
  case False
  then have "s' = s" using assms by (auto simp: applyDeploy_def split: sum.splits if_splits)
  with that [of "[]"] show thesis by simp
next
  case True
  obtain c s1 where crds: "applyBundleCRDs E opts (pr_Bundle P) s = (c, s1)" by (metis surj_pair)
  obtain es1 where e1: "step_ok es1 s s1" "es1 = [] \<or> es1 = [CRDsApplied]" "is_ok c \<longrightarrow> es1 = (if b_CRDs (pr_Bundle P) = [] then [] else [CRDsApplied])"
    using applyBundleCRDs_step [OF crds] .
  show thesis
  proof (cases c)
    case (Inl e)
    with assms True crds have "s' = s1" by (auto simp: applyDeploy_def)
    with e1(1,2) that [of es1] show thesis by auto
  next
    case (Inr stats)
    with assms True crds obtain g s2 where grow: "grow_volumes E (pr_Result P) resizes s1 = Some (g, s2)"
      by (auto simp: applyDeploy_def split: option.splits)
    obtain es2 where e2: "step_ok es2 s1 s2" "es2 = [] \<or> es2 = [VolumesResized resizes]"
      "g = None \<longrightarrow> es2 = (if resizes = [] then [] else [VolumesResized resizes])" using grow_volumes_step [OF grow] .
    note e12 = step_ok_trans [OF e1(1) e2(1)]
    show thesis
    proof (cases g)
      case (Some e)
      with assms True crds Inr grow have "s' = s2" by (auto simp: applyDeploy_def)
      with e12 e1(2) e2(2) that [of "es1 @ es2"] show thesis by auto
    next
      case None
      with assms True crds Inr grow have "install E P stats s2 = (r, s')" by (auto simp: applyDeploy_def)
      then obtain msgs where e3: "step_ok (AppInstalled # msgs) s2 s'" "filter is_write msgs = []"
        "r = map_option InstallFailed (de_Install E (pr_Resolved P) (PostRendererFor (Some (pr_Bundle P))))" by (rule install_step)
      from step_ok_trans [OF e12 e3(1)] e1(2,3) e2(2,3) e3(2,3) None Inr True that [of "(es1 @ es2) @ AppInstalled # msgs"]
      show thesis by auto
    qed
  qed
qed

definition shown :: "('q, 'e, 's) deploy_env \<Rightarrow> 'q prepared \<Rightarrow> effect" where
  "shown E P = PlanShown (RenderText (pr_Diff P) \<lparr>o_Mode = ModeCompact, o_ShowSecrets = False, o_Style = de_Style E\<rparr>)"

text \<open>Either the command ends without a write, or everything passed and the question was answered with yes.\<close>

lemma runDeploy_phases:
  assumes "runDeploy E opts s = Some (r, s')"
  obtains (quiet) es where "s' = logged es s" "list_all (\<lambda>e. \<not> is_write e) es"
    | (applied) P ns resizes prompt where "prepare E opts = Inr P" "check_guards E opts P = (ns, Inr resizes)"
        "preflight E opts P (helm_idle opts P) = None" "de_Confirm E (op_Yes opts) prompt = Inr True"
        "\<not> skipWhenIdle (helm_idle opts P) (length (b_CRDs (pr_Bundle P)))"
        "(if helm_idle opts P then Some (applyCRDsOnly E opts P (logged (prepare_notes E opts @ shown E P # ns @ [Asked prompt True]) s))
          else applyDeploy E opts P resizes (logged (prepare_notes E opts @ shown E P # ns @ [Asked prompt True]) s)) = Some (r, s')"
proof (cases "prepare E opts")
  case (Inl e)
  with assms have "s' = logged (prepare_notes E opts) s" by (simp add: runDeploy_def Let_def)
  with no_writes_notes quiet show thesis by blast
next
  case (Inr P)
  show thesis
  proof (cases "de_OutError E")
    case (Some e)
    with Inr assms have "s' = logged (prepare_notes E opts) s" by (simp add: runDeploy_def Let_def)
    with no_writes_notes quiet show thesis by blast
  next
    case None
    obtain ns g where g: "check_guards E opts P = (ns, g)" by (metis surj_pair)
    let ?pre = "prepare_notes E opts @ shown E P # ns"
    have pre: "list_all (\<lambda>e. \<not> is_write e) ?pre" using no_writes_notes no_writes_guards [OF g] by (simp add: shown_def)
    show thesis
    proof (cases g)
      case (Inl e)
      with Inr None g assms have "s' = logged ?pre s" by (simp add: runDeploy_def Let_def shown_def)
      with pre quiet show thesis by blast
    next
      case rs: (Inr resizes)
      let ?idle = "helm_idle opts P"
      have chain: "logged ns (logged [shown E P] (logged (prepare_notes E opts) s)) = logged ?pre s" by simp
      have run: "(if skipWhenIdle ?idle (length (b_CRDs (pr_Bundle P))) then Some (skipDeploy E P (logged ?pre s))
          else case preflight E opts P ?idle of Some e \<Rightarrow> Some (Some e, logged ?pre s)
             | None \<Rightarrow> confirm_and_apply E opts P ?idle resizes (logged ?pre s)) = Some (r, s')"
        using assms unfolding runDeploy_def Let_def Inr None g rs sum.case option.case prod.case shown_def [symmetric] chain .
      show thesis
      proof (cases "skipWhenIdle ?idle (length (b_CRDs (pr_Bundle P)))")
        case True
        with run have "s' = logged (?pre @ [Succeeded (''No changes. Release '' @ h_Release (p_Header (pr_Diff P)) @ '' unchanged (revision ''
                       @ fmt_d (h_Revision (p_Header (pr_Diff P))) @ '').'')] @ printReadiness E (pr_Result P)) s"
          by (simp add: skipDeploy_def)
        with pre quiet show thesis by simp
      next
        case busy: False
        show thesis
        proof (cases "preflight E opts P ?idle")
          case (Some e)
          with run busy have "s' = logged ?pre s" by simp
          with pre quiet show thesis by blast
        next
          case ok: None
          with run busy have ca: "confirm_and_apply E opts P ?idle resizes (logged ?pre s) = Some (r, s')" by simp
          let ?prompt = "apply_prompt ?idle (length (b_CRDs (pr_Bundle P)))"
          consider (no) e where "de_Confirm E (op_Yes opts) ?prompt = Inl e" | (abort) "de_Confirm E (op_Yes opts) ?prompt = Inr False"
            | (yes) "de_Confirm E (op_Yes opts) ?prompt = Inr True"
            by (cases "de_Confirm E (op_Yes opts) ?prompt") auto
          then show thesis
          proof cases
            case no
            with ca have "s' = logged ?pre s" by (simp add: confirm_and_apply_def confirmApply_def)
            with pre quiet show thesis by blast
          next
            case abort
            with ca have "s' = logged (?pre @ [Asked ?prompt False, Aborted]) s" by (simp add: confirm_and_apply_def confirmApply_def)
            with pre quiet show thesis by simp
          next
            case yes
            with ca applied [OF Inr g [unfolded rs] ok yes busy] show thesis
              by (simp add: confirm_and_apply_def confirmApply_def Let_def)
          qed
        qed
      qed
    qed
  qed
qed

lemma check_guards_passed:
  assumes "check_guards E opts P = (ns, Inr resizes)"
  shows "\<exists>prev. loadPreviousResolvedComponents (de_History E 2) (de_Chart E) = Inr prev
           \<and> checkWorkloadGuards (de_K8sLib E) (pr_Manifest P) (op_Environment opts) prev = []
           \<and> resizes = detectPersistenceResizes (de_K8sLib E) (pr_Manifest P) (op_Environment opts) (pr_Resolved P) prev"
    and "\<forall>rs. pr_Resolved P = Some rs \<longrightarrow> is_ok (checkHostnameGuard (de_History E 1) (de_Chart E) rs (op_ForceHostnameChange opts))"
    and "resizes \<noteq> [] \<longrightarrow> op_ResizeVolumes opts"
proof -
  show "\<exists>prev. loadPreviousResolvedComponents (de_History E 2) (de_Chart E) = Inr prev
           \<and> checkWorkloadGuards (de_K8sLib E) (pr_Manifest P) (op_Environment opts) prev = []
           \<and> resizes = detectPersistenceResizes (de_K8sLib E) (pr_Manifest P) (op_Environment opts) (pr_Resolved P) prev"
    and "\<forall>rs. pr_Resolved P = Some rs \<longrightarrow> is_ok (checkHostnameGuard (de_History E 1) (de_Chart E) rs (op_ForceHostnameChange opts))"
    using assms by (auto simp: check_guards_def Let_def split: sum.splits option.splits list.splits)
  have "requireResizeFlag resizes (op_ResizeVolumes opts) = None"
    using assms by (auto simp: check_guards_def Let_def split: sum.splits option.splits list.splits)
  then show "resizes \<noteq> [] \<longrightarrow> op_ResizeVolumes opts" by (auto simp: requireResizeFlag_def split: if_splits)
qed

text \<open>The API groups the render needs and the CRDs of the project do not bring.\<close>

definition missing_apis :: "Options \<Rightarrow> 'q prepared \<Rightarrow> APIRequirement list" where
  "missing_apis opts P =
     filterCoveredAPIs (RequiredAPIs (pr_Manifest P) (op_Environment opts) (map_option rs_Components (pr_Resolved P)))
       (GroupVersionsFromCRDs (b_CRDs (pr_Bundle P)))"

lemma preflight_passed:
  assumes "preflight E opts P False = None" and "de_K8sError E = None"
  shows "missing_apis opts P = [] \<or> CheckAPIRequirements (de_Groups E) (missing_apis opts P) = None"
    and "hasStatefulWithPersistence (pr_Manifest P) (op_Environment opts) \<longrightarrow> CheckMinimumVersion (de_Version E) MinStatefulMajor MinStatefulMinor = None"
  using assms by (auto simp: preflight_def missing_apis_def Let_def split: option.splits if_splits)

lemma applyCRDsOnly_step:
  assumes "applyCRDsOnly E opts P s = (r, s')"
  obtains es where "step_ok es s s'" "filter is_write es \<in> {[], [CRDsApplied]}"
proof -
  obtain c s1 where crds: "applyBundleCRDs E opts (pr_Bundle P) s = (c, s1)" by (metis surj_pair)
  obtain es1 where e1: "step_ok es1 s s1" "es1 = [] \<or> es1 = [CRDsApplied]" using applyBundleCRDs_step [OF crds] by metis
  show thesis
  proof (cases c)
    case (Inl e)
    with assms crds e1 that [of es1] show thesis by (auto simp: applyCRDsOnly_def)
  next
    case (Inr stats)
    let ?m = "[Succeeded (crdIdleSuccessMessage stats (h_Release (p_Header (pr_Diff P))) (h_Revision (p_Header (pr_Diff P))))]
                @ printReadiness E (pr_Result P)"
    have s': "s' = logged ?m s1" using assms crds Inr by (simp add: applyCRDsOnly_def)
    have "filter is_write ?m = []" by (intro no_writes_filter) simp
    with e1(2) have "filter is_write (es1 @ ?m) \<in> {[], [CRDsApplied]}" by auto
    with that step_ok_trans [OF e1(1) step_ok_logged [of ?m]] show thesis unfolding s' by blast
  qed
qed

text \<open>
  C1: the cluster changes only with consent. Whatever the options, the answers of the cluster and
  the point where the command stops: as long as nothing was written, the cluster and its CRDs are
  as they were; and if anything was written, then before the first write the plan was shown,
  the question was asked and answered with yes, in this order.
\<close>

theorem deploy_needs_consent:
  assumes "runDeploy E opts s = Some (r, s')"
  shows "\<exists>es. ds_Log s' = ds_Log s @ es
     \<and> (filter is_write es = [] \<longrightarrow> ds_Cluster s' = ds_Cluster s \<and> ds_CRDs s' = ds_CRDs s)
     \<and> (filter is_write es \<noteq> [] \<longrightarrow>
          (\<exists>pre txt mid prompt post. es = pre @ PlanShown txt # mid @ Asked prompt True # post
             \<and> filter is_write (pre @ mid) = [] \<and> de_Confirm E (op_Yes opts) prompt = Inr True))"
  using assms
proof (cases rule: runDeploy_phases)
  case (quiet es)
  then show ?thesis by (intro exI [of _ es]) (simp add: no_writes_filter)
next
  case (applied P ns resizes prompt)
  let ?t = "logged (prepare_notes E opts @ shown E P # ns @ [Asked prompt True]) s"
  have "\<exists>post. step_ok post ?t s'"
  proof (cases "helm_idle opts P")
    case True
    with applied(6) have "applyCRDsOnly E opts P ?t = (r, s')" by simp
    then show ?thesis by (rule applyCRDsOnly_step) blast
  next
    case False
    with applied(6) have "applyDeploy E opts P resizes ?t = Some (r, s')" by simp
    then show ?thesis by (rule applyDeploy_step) blast
  qed
  then obtain post where post: "step_ok post ?t s'" ..
  let ?es = "prepare_notes E opts @ shown E P # ns @ Asked prompt True # post"
  have log: "ds_Log s' = ds_Log s @ ?es" using post by (simp add: step_ok_def)
  have "filter is_write ?es = [] \<longrightarrow> ds_Cluster s' = ds_Cluster s \<and> ds_CRDs s' = ds_CRDs s"
    using post by (auto simp: step_ok_def filter_empty_conv)
  moreover have "filter is_write (prepare_notes E opts @ ns) = []"
    using no_writes_filter [OF no_writes_notes] no_writes_filter [OF no_writes_guards [OF applied(2)]] by simp
  ultimately show ?thesis using log applied(4) unfolding shown_def by blast
qed


text \<open>
  C29: deploying what is already there is harmless. When the plan has no changes, the project has no
  CRDs and the release is not to be applied again, the command asks no question and performs no write, no
  installation in particular: the cluster and its CRDs stay as they are, and it reports success unless
  a guard objects or the plan cannot be printed.
\<close>

theorem deploy_idle_writes_nothing:
  assumes "prepare E opts = Inr P" and "\<not> HasChanges (Some (pr_Diff P))" and "\<not> op_Reapply opts" and "b_CRDs (pr_Bundle P) = []"
  shows "\<exists>r s' es. runDeploy E opts s = Some (r, s') \<and> ds_Cluster s' = ds_Cluster s \<and> ds_CRDs s' = ds_CRDs s
           \<and> ds_Log s' = ds_Log s @ es \<and> list_all (\<lambda>e. \<not> is_write e) es \<and> list_all (\<lambda>e. \<not> is_question e) es
           \<and> (r = None \<longleftrightarrow> de_OutError E = None \<and> is_ok (snd (check_guards E opts P)))"
proof -
  obtain ns g where g: "check_guards E opts P = (ns, g)" by (metis surj_pair)
  moreover have "skipWhenIdle (helm_idle opts P) (length (b_CRDs (pr_Bundle P)))"
    using assms(2-4) by (simp add: skipWhenIdle_def helm_idle_def)
  moreover note no_writes_notes [of E opts] no_questions_notes [of E opts] no_writes_guards [OF g] no_questions_guards [OF g]
  ultimately show ?thesis using assms(1)
    by (cases "de_OutError E"; cases g) (simp_all add: runDeploy_def Let_def skipDeploy_def)
qed

text \<open>
  C33: the command ends. When every wait for a volume meets its deadline at some poll, the command
  returns a result, whatever the cluster answers.
\<close>

theorem deploy_terminates:
  assumes "\<forall>start. \<exists>k \<ge> start. w_TimedOut (de_World E) start k"
  shows "\<exists>r s'. runDeploy E opts s = Some (r, s')"
proof -
  have "\<exists>r s'. grow_volumes E res resizes t = Some (r, s')" for res resizes t
    using resizeVolumes_ends [OF assms, of "de_K8sLib E" True "rr_ReleaseName res" resizes "ds_Cluster t"]
    by (auto simp: grow_volumes_def split: option.splits)
  then have "grow_volumes E res resizes t \<noteq> None" for res resizes t by (metis option.distinct(1))
  then have "applyDeploy E opts P resizes t \<noteq> None" for P resizes t
    by (simp add: applyDeploy_def del: not_None_eq split: sum.splits prod.splits option.splits)
  then have "confirm_and_apply E opts P idle resizes t \<noteq> None" for P idle resizes t
    by (simp add: confirm_and_apply_def Let_def del: not_None_eq split: sum.splits)
  then have "runDeploy E opts s \<noteq> None"
    by (simp add: runDeploy_def Let_def del: not_None_eq split: sum.splits prod.splits option.splits)
  then show ?thesis by (metis not_Some_eq surj_pair)
qed

section \<open>An example deployment\<close>

text \<open>A project with a database whose volume grows, deployed over an earlier release.\<close>

definition ex_deploy_env :: "string \<Rightarrow> (int, unit, unit) deploy_env" where
  "ex_deploy_env rendered =
     \<lparr>de_K8sLib = int_lib, de_PlanLib = ex_plan_lib, de_ObjLib = ex_obj_lib, de_CertLib = ex_certs,
      de_Codec = \<lparr>cd_Name = (\<lambda>raw. Inr raw), cd_Map = (\<lambda>raw. Inr [])\<rparr>,
      de_Clock = \<lparr>ck_Expired = (\<lambda>_. False), ck_Polls = (\<lambda>_. 3), ck_End = (\<lambda>_. ()), ck_IsDeadline = (\<lambda>_. True), ck_IsCanceled = (\<lambda>_. False)\<rparr>,
      de_World = ex_world, de_Files = \<lparr>fs_ReadDir = (\<lambda>_. Inl NotExist), fs_ReadFile = (\<lambda>_. Inl ())\<rparr>,
      de_SpecPath = ''deployah.yaml'', de_RawSpec = Inr ex_db_spec, de_Platform = Inr None, de_Load = (\<lambda>_. Inr ex_db_spec),
      de_Timeout = 600000000000, de_KubeContext = [], de_AllowMismatch = False, de_Target = Inr (''shop'', ''kind''), de_Fallback = None,
      de_HelmError = None, de_ReachError = None, de_K8sError = None, de_Secrets = (\<lambda>_. SecretNotFound), de_Now = 0,
      de_Mapper = None, de_CRDConfig = Inl (),
      de_Render = (\<lambda>_ _ _. Inr \<lparr>rr_ReleaseName = ''shop-prod'', rr_Namespace = ''shop'', rr_ChartPath = [], rr_Manifest = rendered,
                          rr_Hooks = [], rr_IsUpgrade = True, rr_Revision = 2\<rparr>),
      de_History = (\<lambda>_. HistoryOk [\<lparr>r_Version = 1, r_Status = ''deployed'', r_Manifest = ''old'', r_Hooks = []\<rparr>]),
      de_Chart = (\<lambda>_. Some [(''deployah'', JObj [(''resolved'', JObj [(''components'', JObj [(''db'', JObj (ex_db_prev ''1Gi''))])])])]),
      de_OutError = None, de_Style = (\<lambda>_ s. s), de_Groups = Inr [], de_Version = Inr (''1'', ''33''), de_Pods = Inr [],
      de_Confirm = (\<lambda>yes _. Inr yes), de_Install = (\<lambda>_ _. None), de_Watched = []\<rparr>"

definition ex_options :: Options where
  "ex_options = \<lparr>op_Environment = ''prod'', op_Explain = False, op_ForceHostnameChange = False, op_ResizeVolumes = True,
     op_Yes = True, op_Reapply = False, op_CRDs = PolicyCreate\<rparr>"

definition ex_deploy_state :: "(int, unit, unit) deploy_state" where
  "ex_deploy_state = \<lparr>ds_Cluster = ex_cluster, ds_CRDs = ((), []), ds_Log = []\<rparr>"

lemma ex_deploy_run:
  "\<exists>s'. runDeploy (ex_deploy_env ''new'') ex_options ex_deploy_state = Some (None, s')
     \<and> filter is_write (ds_Log s') = [VolumesResized [\<lparr>z_Component = ''db'', z_PreviousSize = ''1Gi'', z_NewSize = ''10Gi'',
          z_StorageClass = [], z_Stateful = True\<rparr>], AppInstalled]"
proof -
  have "(case runDeploy (ex_deploy_env ''new'') ex_options ex_deploy_state of
     None \<Rightarrow> False
   | Some (r, s') \<Rightarrow> r = None \<and> filter is_write (ds_Log s') = [VolumesResized [\<lparr>z_Component = ''db'', z_PreviousSize = ''1Gi'', z_NewSize = ''10Gi'',
          z_StorageClass = [], z_Stateful = True\<rparr>], AppInstalled])" by code_simp
  then show ?thesis by (auto split: option.splits)
qed

theorem deploy_needs_consent_witness:
  "\<exists>s' es pre txt mid prompt post. runDeploy (ex_deploy_env ''new'') ex_options ex_deploy_state = Some (None, s') \<and> ds_Log s' = es
     \<and> es = pre @ PlanShown txt # mid @ Asked prompt True # post \<and> filter is_write (pre @ mid) = []"
proof -
  obtain s' where s': "runDeploy (ex_deploy_env ''new'') ex_options ex_deploy_state = Some (None, s')" "filter is_write (ds_Log s') \<noteq> []"
    using ex_deploy_run by auto
  have "ds_Log ex_deploy_state = []" by (simp add: ex_deploy_state_def)
  with deploy_needs_consent [OF s'(1)] s' show ?thesis by (metis append_Nil)
qed


theorem deploy_idle_writes_nothing_witness:
  "\<exists>s'. runDeploy (ex_deploy_env ''old'') ex_options ex_deploy_state = Some (None, s') \<and> ds_Cluster s' = ex_cluster
     \<and> list_all (\<lambda>e. \<not> is_write e) (ds_Log s') \<and> list_all (\<lambda>e. \<not> is_question e) (ds_Log s')"
proof -
  let ?E = "ex_deploy_env ''old''"
  have "(case prepare ?E ex_options of Inl _ \<Rightarrow> False
      | Inr P \<Rightarrow> \<not> HasChanges (Some (pr_Diff P)) \<and> b_CRDs (pr_Bundle P) = [] \<and> is_ok (snd (check_guards ?E ex_options P)))"
    by code_simp
  then obtain P where P: "prepare ?E ex_options = Inr P" "\<not> HasChanges (Some (pr_Diff P))" "b_CRDs (pr_Bundle P) = []"
    "is_ok (snd (check_guards ?E ex_options P))" by (auto split: sum.splits)
  moreover have "\<not> op_Reapply ex_options" "de_OutError ?E = None" "ds_Cluster ex_deploy_state = ex_cluster" "ds_Log ex_deploy_state = []"
    by (simp_all add: ex_options_def ex_deploy_env_def ex_deploy_state_def)
  ultimately show ?thesis using deploy_idle_writes_nothing [of ?E ex_options P ex_deploy_state] by auto
qed

theorem deploy_terminates_witness:
  "\<exists>r s'. runDeploy (ex_deploy_env ''new'') ex_options ex_deploy_state = Some (r, s')"
proof -
  have "\<exists>k \<ge> start. w_TimedOut (de_World (ex_deploy_env ''new'')) start k" for start
    by (intro exI [of _ "start + 150"]) (simp add: ex_deploy_env_def ex_world_def)
  then show ?thesis by (intro deploy_terminates) blast
qed

end
