(* ===== verification/Chart_Values.thy ===== *)
theory Chart_Values
  imports Resize Extras
begin

text \<open>
  The values of the generated chart (\<open>internal/helm/generate.go\<close>, \<open>internal/helm/task.go\<close>): what the
  chart templates get for every component and hook task of the environment, and the block
  \<open>deployah.resolved\<close> that the guards of the next deployment read back.

  Values are decoded JSON (\<open>jval\<close>). The image parser, the text of a quantity, and the JSON form of
  the Kubernetes structs (\<open>toValuesMap\<close> and \<open>toValuesSlice\<close> encode and decode them) are parameters.
\<close>

section \<open>Parameters and constants\<close>

datatype probe_handler = ExecAction "string list" | HTTPGetAction string string | TCPSocketAction string

text \<open>The fields of a \<open>corev1.Probe\<close> that the code sets; the numbers are int32.\<close>

record probe =
  pb_Handler :: probe_handler
  pb_PeriodSeconds :: int
  pb_FailureThreshold :: int
  pb_TimeoutSeconds :: int

record ('q, 'e) chart_lib =
  ch_ParseImage :: "string \<Rightarrow> (string \<times> string option \<times> string option) option"
  ch_QString :: "'q \<Rightarrow> string"
  ch_ProbeMap :: "probe \<Rightarrow> ('e, jval gomap) result"
  ch_StructMap :: "rstruct \<Rightarrow> ('e, jval gomap) result"
  ch_Slice :: "jval list \<Rightarrow> ('e, jval list) result"

definition IdentityPortName :: string where "IdentityPortName = ''identity''"
definition IdentityPortNumber :: int where "IdentityPortNumber = 9"
definition MetricsPortName :: string where "MetricsPortName = ''metrics''"
definition SourceSpec :: string where "SourceSpec = ''spec''"
definition DefaultStartupProbePeriod :: int where "DefaultStartupProbePeriod = 5"
definition DefaultStartupProbeFailureThreshold :: int where "DefaultStartupProbeFailureThreshold = 36"
definition DefaultStartupProbeTimeout :: int where "DefaultStartupProbeTimeout = 3"
definition DefaultReadinessProbePeriod :: int where "DefaultReadinessProbePeriod = 5"
definition DefaultReadinessProbeFailureThreshold :: int where "DefaultReadinessProbeFailureThreshold = 3"
definition DefaultReadinessProbeTimeout :: int where "DefaultReadinessProbeTimeout = 3"
definition DefaultLivenessProbePeriod :: int where "DefaultLivenessProbePeriod = 10"
definition DefaultLivenessProbeTimeout :: int where "DefaultLivenessProbeTimeout = 3"
definition DefaultLivenessRestartAfterSec :: int where "DefaultLivenessRestartAfterSec = 60"
definition DefaultLivenessRestartAfter :: string where "DefaultLivenessRestartAfter = ''60s''"
definition resolvedSchemaVersion :: string where "resolvedSchemaVersion = ''1''"
definition hookDeletePolicy :: string where "hookDeletePolicy = ''before-hook-creation,hook-succeeded''"

datatype 'e chart_error =
    TLSNotMaterialized string
  | ProbesError string 'e
  | ShutdownTimeoutError string duration_error
  | MetricsError string 'e
  | ProfileError string 'e
  | TaskWeightsError hook_error
  | TaskJobError string terr
  | TaskProfileError string 'e

definition string_map :: "string gomap \<Rightarrow> jval" where
  "string_map m = JObj (gm_map JStr m)"

definition string_list :: "string list \<Rightarrow> jval" where
  "string_list xs = JArr (map JStr xs)"

definition put_if :: "bool \<Rightarrow> string \<Rightarrow> jval \<Rightarrow> jval gomap \<Rightarrow> jval gomap" where
  "put_if b k v m = (if b then gm_put k v m else m)"

section \<open>Images and resources\<close>

definition parseContainerImage :: "('q, 'e) chart_lib \<Rightarrow> string \<Rightarrow> string \<times> string" where
  "parseContainerImage H imageRef =
     (if imageRef = [] then ([], [])
      else case ch_ParseImage H imageRef of
        None \<Rightarrow> (imageRef, [])
      | Some (repo, digest, tag) \<Rightarrow>
          (repo, case digest of Some d \<Rightarrow> d | None \<Rightarrow> (case tag of Some t \<Rightarrow> t | None \<Rightarrow> [])))"

definition image_values :: "string \<times> string \<Rightarrow> jval" where
  "image_values img =
     (let (repository, tag) = img in
      JObj ((''repository'', JStr repository)
            # (if HasPrefix tag ''sha256:'' then [(''digest'', JStr tag)] else if tag \<noteq> [] then [(''tag'', JStr tag)] else [])))"

definition request :: "'q k8s_lib \<Rightarrow> ('q, 'e) chart_lib \<Rightarrow> string \<Rightarrow> 'q option \<Rightarrow> jval gomap" where
  "request K H name q = (if quantitySet K q then [(name, JStr (ch_QString H (the q)))] else [])"

definition resource_values :: "'q k8s_lib \<Rightarrow> ('q, 'e) chart_lib \<Rightarrow> 'q Resources \<Rightarrow> jval" where
  "resource_values K H r =
     (let requests = request K H ''cpu'' (CPU r) @ request K H ''memory'' (Memory r)
                     @ request K H ''ephemeral-storage'' (EphemeralStorage r)
      in JObj (if requests = [] then [] else [(''requests'', JObj requests)]))"

definition common_labels :: "string \<Rightarrow> string \<Rightarrow> string \<Rightarrow> string gomap" where
  "common_labels project name environment =
     [(LabelProject, project), (LabelComponent, name), (LabelEnvironment, K8sSafe (NormalizeEnv environment))]"

definition common_annotations :: "string \<Rightarrow> string gomap" where
  "common_annotations project = [(AnnotationSource, SourceSpec), (AnnotationProject, project)]"

section \<open>Persistence, ingress, autoscaling\<close>

definition resolved_of :: "'q ResolvedSpec option \<Rightarrow> string \<Rightarrow> 'q ResolvedComponent option" where
  "resolved_of resolved name = (case resolved of None \<Rightarrow> None | Some r \<Rightarrow> gm_get (rs_Components r) name)"

definition persistence_values :: "'q Component \<Rightarrow> 'q ResolvedComponent option \<Rightarrow> Persistence \<Rightarrow> jval gomap" where
  "persistence_values c rc p =
     [(''enabled'', JBool True), (''mountPath'', JStr (p_MountPath p)), (''size'', JStr (p_Size p)),
      (''accessModes'', string_list [if c_Kind c = ComponentKindStateful then ''ReadWriteOncePod'' else ''ReadWriteOnce''])]
     @ (case rc of Some r \<Rightarrow> if rc_StorageClass r \<noteq> [] then [(''storageClass'', JStr (rc_StorageClass r))] else [] | None \<Rightarrow> [])"

definition retention_values :: "'q ResolvedComponent option \<Rightarrow> jval" where
  "retention_values rc =
     (let policy = (case rc of Some r \<Rightarrow> (case rc_MergedProfile r of Some p \<Rightarrow> pp_PVCRetentionPolicy p | None \<Rightarrow> None) | None \<Rightarrow> None);
          pick = (\<lambda>f. case policy of Some p \<Rightarrow> if f p \<noteq> [] then f p else ''Retain'' | None \<Rightarrow> ''Retain'')
      in JObj [(''whenDeleted'', JStr (pick WhenDeleted)), (''whenScaled'', JStr (pick WhenScaled))])"

definition stateful_values :: "'q Component \<Rightarrow> 'q ResolvedComponent option \<Rightarrow> jval" where
  "stateful_values c rc =
     JObj ([(''updateStrategy'', JObj [(''type'', JStr ''RollingUpdate'')]), (''podManagementPolicy'', JStr ''OrderedReady'')]
           @ (if c_Persistence c \<noteq> None then [(''persistentVolumeClaimRetentionPolicy'', retention_values rc)] else []))"

text \<open>The ingress values, and whether the component has a host name.\<close>

definition tls_values :: "string \<Rightarrow> 'q ResolvedComponent \<Rightarrow> ('e chart_error, jval gomap) result" where
  "tls_values name rc =
     (if rc_TLSMode rc = TLSModeSelfSigned then
        (if rc_TLSCertPEM rc = [] \<or> rc_TLSKeyPEM rc = [] then Inl (TLSNotMaterialized name)
         else Inr [(''tls'', JBool True),
                   (''secrets'', JArr [JObj [(''name'', JStr (rc_FQDN rc @ ''-tls'')), (''certificate'', JStr (rc_TLSCertPEM rc)),
                                            (''key'', JStr (rc_TLSKeyPEM rc))]])])
      else if rc_TLSMode rc = TLSModeSecretName
      then Inr [(''tls'', JBool True), (''existingSecret'', JStr (rc_TLSSecretName rc))]
      else if rc_TLSMode rc = TLSModeCertManager
      then Inr [(''tls'', JBool True), (''annotations'', string_map [(''cert-manager.io/cluster-issuer'', rc_TLSIssuer rc)])]
      else Inr [(''tls'', JBool False)])"

definition has_host :: "'q Component \<Rightarrow> 'q ResolvedComponent option \<Rightarrow> bool" where
  "has_host c rc = (c_Expose c \<noteq> None \<and> (case rc of Some r \<Rightarrow> rc_FQDN r \<noteq> [] | None \<Rightarrow> False))"

definition ingress_values :: "string \<Rightarrow> 'q Component \<Rightarrow> 'q ResolvedComponent option \<Rightarrow> ('e chart_error, jval gomap) result" where
  "ingress_values name c rc =
     (if \<not> has_host c rc then Inr [(''enabled'', JBool True)]
      else bindE (tls_values name (the rc)) (\<lambda>tls.
        Inr ([(''enabled'', JBool True), (''hostname'', JStr (rc_FQDN (the rc)))] @ tls)))"

definition buildAutoscalingValues :: "Autoscaling \<Rightarrow> jval gomap" where
  "buildAutoscalingValues a =
     fold (\<lambda>m v. if mt_Type m = MetricTypeCPU then gm_put ''targetCPU'' (JNum (mt_Target m)) v
                 else if mt_Type m = MetricTypeMemory then gm_put ''targetMemory'' (JNum (mt_Target m)) v
                 else v)
       (as_Metrics a)
       [(''enabled'', JBool True), (''minReplicas'', JNum (as_MinReplicas a)), (''maxReplicas'', JNum (as_MaxReplicas a))]"

section \<open>Ports\<close>

definition container_port :: "string \<Rightarrow> int \<Rightarrow> jval" where
  "container_port name port = JObj [(''name'', JStr name), (''containerPort'', JNum port), (''protocol'', JStr ''TCP'')]"

definition service_port :: "string \<Rightarrow> int \<Rightarrow> string \<Rightarrow> jval" where
  "service_port name port target =
     JObj [(''name'', JStr name), (''protocol'', JStr ''TCP''), (''port'', JNum port), (''targetPort'', JStr target)]"

definition metrics_port :: "'q Component \<Rightarrow> int" where
  "metrics_port c = (case c_Metrics c of None \<Rightarrow> 0 | Some m \<Rightarrow> m_Port m)"

definition applyPortsAndService :: "jval gomap \<Rightarrow> 'q Component \<Rightarrow> jval gomap" where
  "applyPortsAndService v c =
     (if IsWorker (c_Role c) then
        let ports = (if c_Kind c = ComponentKindStateful then [container_port IdentityPortName IdentityPortNumber] else [])
                    @ (if IsEnabled (c_Metrics c) \<and> metrics_port c > 0 then [container_port MetricsPortName (metrics_port c)] else []);
            servicePorts = (if c_Kind c = ComponentKindStateful
                            then [service_port IdentityPortName IdentityPortNumber IdentityPortName] else [])
        in gm_put ''ports'' (if ports = [] then JNull else JArr ports)
             (gm_put ''service'' (JObj ([(''enabled'', JBool False)] @ (if servicePorts = [] then [] else [(''ports'', JArr servicePorts)]))) v)
      else if \<not> ListensOnPort c then v
      else
        let mp = (if metrics_port c = 0 then c_Port c else metrics_port c);
            extra = (IsEnabled (c_Metrics c) \<and> mp \<noteq> c_Port c);
            ports = container_port ''http'' (c_Port c) # (if extra then [container_port MetricsPortName mp] else []);
            servicePorts = service_port ''http'' 80 ''http'' # (if extra then [service_port MetricsPortName mp MetricsPortName] else [])
        in gm_put ''service'' (JObj [(''enabled'', JBool True), (''ports'', JArr servicePorts)]) (gm_put ''ports'' (JArr ports) v))"

definition applyShutdownTimeout :: "jval gomap \<Rightarrow> 'q Component \<Rightarrow> (duration_error, jval gomap) result" where
  "applyShutdownTimeout v c =
     bindE (ParseDuration (c_ShutdownTimeout c)) (\<lambda>sec. Inr (gm_put ''terminationGracePeriodSeconds'' (JNum sec) v))"

section \<open>Metrics\<close>

definition copyMonitorProfile :: "('q, 'e) chart_lib \<Rightarrow> jval gomap \<Rightarrow> 'q PlatformProfile \<Rightarrow> ('e, jval gomap) result" where
  "copyMonitorProfile H monitor profile =
     (case pp_Metrics profile of
        None \<Rightarrow> Inr monitor
      | Some m \<Rightarrow>
          let v = put_if (pm_MonitorLabels m \<noteq> []) ''labels'' (string_map (pm_MonitorLabels m)) monitor;
              v = put_if (pm_MonitorNamespace m \<noteq> []) ''namespace'' (JStr (pm_MonitorNamespace m)) v;
              v = put_if (pm_Interval m \<noteq> []) ''interval'' (JStr (pm_Interval m)) v;
              v = put_if (pm_ScrapeTimeout m \<noteq> []) ''scrapeTimeout'' (JStr (pm_ScrapeTimeout m)) v;
              v = put_if (pm_JobLabel m \<noteq> []) ''jobLabel'' (JStr (pm_JobLabel m)) v;
              v = (case pm_HonorLabels m of Some b \<Rightarrow> gm_put ''honorLabels'' (JBool b) v | None \<Rightarrow> v);
              v = put_if (pm_Annotations m \<noteq> []) ''annotations'' (string_map (pm_Annotations m)) v
          in bindE (if pm_Relabelings m = [] then Inr v
                    else bindE (ch_Slice H (pm_Relabelings m)) (\<lambda>vals. Inr (gm_put ''relabelings'' (JArr vals) v))) (\<lambda>v.
             if pm_MetricRelabelings m = [] then Inr v
             else bindE (ch_Slice H (pm_MetricRelabelings m)) (\<lambda>vals. Inr (gm_put ''metricRelabelings'' (JArr vals) v))))"

definition applyMetricsValues ::
  "('q, 'e) chart_lib \<Rightarrow> jval gomap \<Rightarrow> 'q Component \<Rightarrow> 'q PlatformProfile option \<Rightarrow> ('e, jval gomap) result" where
  "applyMetricsValues H v c profile =
     (case c_Metrics c of
        None \<Rightarrow> Inr v
      | Some m \<Rightarrow>
          if \<not> IsEnabled (Some m) then Inr v
          else
            let monitorPort = (if IsWorker (c_Role c) \<or> (m_Port m > 0 \<and> m_Port m \<noteq> c_Port c) then MetricsPortName else ''http'');
                monitor = [(''enabled'', JBool True), (''port'', JStr monitorPort), (''path'', JStr (m_Path m))]
            in bindE (case profile of None \<Rightarrow> Inr monitor | Some p \<Rightarrow> copyMonitorProfile H monitor p) (\<lambda>monitor.
               let monitor = put_if (m_Interval m \<noteq> []) ''interval'' (JStr (m_Interval m)) monitor;
                   monitor = put_if (m_ScrapeTimeout m \<noteq> []) ''scrapeTimeout'' (JStr (m_ScrapeTimeout m)) monitor
               in Inr (gm_put (if IsWorker (c_Role c) then ''podMonitor'' else ''serviceMonitor'') (JObj monitor) v)))"

section \<open>Probes\<close>

text \<open>The conversion \<open>int32(n)\<close> keeps the low 32 bits.\<close>

definition int32 :: "int \<Rightarrow> int" where
  "int32 n = sint (word_of_int n :: 32 word)"

definition hasExecAlive :: "'q Component \<Rightarrow> bool" where
  "hasExecAlive c =
     (case c_Health c of
        None \<Rightarrow> False
      | Some h \<Rightarrow> (case h_Alive h of None \<Rightarrow> False | Some a \<Rightarrow> \<not> ha_Disabled a \<and> ha_Exec a \<noteq> []))"

definition probeHandler :: "string list \<Rightarrow> string \<Rightarrow> probe_handler" where
  "probeHandler exec path =
     (if exec \<noteq> [] then ExecAction exec
      else if path \<noteq> [] then HTTPGetAction path ''http''
      else TCPSocketAction ''http'')"

definition probeValues :: "('q, 'e) chart_lib \<Rightarrow> probe \<Rightarrow> ('e, jval gomap) result" where
  "probeValues H pr = bindE (ch_ProbeMap H pr) (\<lambda>m. Inr (gm_put ''enabled'' (JBool True) m))"

definition startup_probe :: "string \<Rightarrow> probe" where
  "startup_probe path =
     \<lparr>pb_Handler = probeHandler [] path, pb_PeriodSeconds = int32 DefaultStartupProbePeriod,
      pb_FailureThreshold = int32 DefaultStartupProbeFailureThreshold, pb_TimeoutSeconds = int32 DefaultStartupProbeTimeout\<rparr>"

definition readiness_probe :: "string \<Rightarrow> probe" where
  "readiness_probe path =
     \<lparr>pb_Handler = probeHandler [] path, pb_PeriodSeconds = int32 DefaultReadinessProbePeriod,
      pb_FailureThreshold = int32 DefaultReadinessProbeFailureThreshold, pb_TimeoutSeconds = int32 DefaultReadinessProbeTimeout\<rparr>"

text \<open>
  The duration of a string in seconds, or a default where it is not positive. The code rounds the
  quotient of the two with \<open>math.Ceil\<close> on float64; seconds of a \<open>time.Duration\<close> are below \<open>2 ^ 34\<close>,
  for which the rounded quotient has the ceiling of the exact one.
\<close>

definition seconds_or :: "int \<Rightarrow> string \<Rightarrow> int" where
  "seconds_or z s = (case ParseDuration s of Inl _ \<Rightarrow> z | Inr n \<Rightarrow> if n \<le> 0 then z else n)"

definition liveness_interval :: "string \<Rightarrow> int" where
  "liveness_interval interval =
     seconds_or DefaultLivenessProbePeriod (if interval = [] then DefaultLivenessInterval else interval)"

definition liveness_restart :: "string \<Rightarrow> int" where
  "liveness_restart restartAfter =
     seconds_or DefaultLivenessRestartAfterSec (if restartAfter = [] then DefaultLivenessRestartAfter else restartAfter)"

definition failure_threshold :: "int \<Rightarrow> int \<Rightarrow> int" where
  "failure_threshold restartSec intervalSec = min (max (- ((- restartSec) div intervalSec)) 1) (2 ^ 31 - 1)"

definition liveness_probe :: "string list \<Rightarrow> string \<Rightarrow> string \<Rightarrow> string \<Rightarrow> probe" where
  "liveness_probe exec path interval restartAfter =
     \<lparr>pb_Handler = probeHandler exec path, pb_PeriodSeconds = int32 (liveness_interval interval),
      pb_FailureThreshold = int32 (failure_threshold (liveness_restart restartAfter) (liveness_interval interval)),
      pb_TimeoutSeconds = int32 DefaultLivenessProbeTimeout\<rparr>"

definition buildStartupProbe :: "('q, 'e) chart_lib \<Rightarrow> string \<Rightarrow> ('e, jval gomap) result" where
  "buildStartupProbe H path = probeValues H (startup_probe path)"

definition buildReadinessProbe :: "('q, 'e) chart_lib \<Rightarrow> string \<Rightarrow> ('e, jval gomap) result" where
  "buildReadinessProbe H path = probeValues H (readiness_probe path)"

definition buildLivenessProbe ::
  "('q, 'e) chart_lib \<Rightarrow> string list \<Rightarrow> string \<Rightarrow> string \<Rightarrow> string \<Rightarrow> ('e, jval gomap) result" where
  "buildLivenessProbe H exec path interval restartAfter = probeValues H (liveness_probe exec path interval restartAfter)"

definition ready_of :: "'q Component \<Rightarrow> HealthReady option" where
  "ready_of c = (case c_Health c of None \<Rightarrow> None | Some h \<Rightarrow> h_Ready h)"

definition alive_of :: "'q Component \<Rightarrow> HealthAlive option" where
  "alive_of c = (case c_Health c of None \<Rightarrow> None | Some h \<Rightarrow> h_Alive h)"

definition buildProbeValues :: "('q, 'e) chart_lib \<Rightarrow> 'q Component \<Rightarrow> ('e, jval gomap) result" where
  "buildProbeValues H c =
     (let readyDisabled = (case ready_of c of Some r \<Rightarrow> hr_Disabled r | None \<Rightarrow> False);
          aliveDisabled = (case alive_of c of Some a \<Rightarrow> ha_Disabled a | None \<Rightarrow> False);
          interval = (case alive_of c of Some a \<Rightarrow> ha_Interval a | None \<Rightarrow> []);
          restartAfter = (case alive_of c of Some a \<Rightarrow> ha_RestartAfter a | None \<Rightarrow> [])
      in if IsWorker (c_Role c) then
           (if aliveDisabled \<or> \<not> hasExecAlive c then Inr []
            else bindE (buildLivenessProbe H (ha_Exec (the (alive_of c))) [] interval restartAfter) (\<lambda>liveness.
                   Inr [(''livenessProbe'', JObj liveness)]))
         else if readyDisabled \<and> aliveDisabled then Inr []
         else
           let readyPath = (case ready_of c of Some r \<Rightarrow> if hr_Disabled r then [] else hr_Path r | None \<Rightarrow> []);
               alivePath = (case alive_of c of Some a \<Rightarrow> if ha_Disabled a then [] else ha_Path a | None \<Rightarrow> []);
               aliveExec = (case alive_of c of Some a \<Rightarrow> if ha_Disabled a then [] else ha_Exec a | None \<Rightarrow> [])
           in bindE (buildStartupProbe H readyPath) (\<lambda>startup.
              bindE (if readyDisabled then Inr [] else bindE (buildReadinessProbe H readyPath) (\<lambda>p. Inr [(''readinessProbe'', JObj p)])) (\<lambda>readiness.
              bindE (if aliveDisabled then Inr []
                     else bindE (buildLivenessProbe H aliveExec alivePath interval restartAfter) (\<lambda>p. Inr [(''livenessProbe'', JObj p)])) (\<lambda>liveness.
                Inr ((''startupProbe'', JObj startup) # readiness @ liveness)))))"

section \<open>Profiles\<close>

definition enabled_struct :: "('q, 'e) chart_lib \<Rightarrow> string \<Rightarrow> rstruct option \<Rightarrow> jval gomap \<Rightarrow> ('e, jval gomap) result" where
  "enabled_struct H key s v =
     (case s of
        None \<Rightarrow> Inr v
      | Some r \<Rightarrow> bindE (ch_StructMap H r) (\<lambda>m. Inr (gm_put key (JObj (gm_put ''enabled'' (JBool True) m)) v)))"

definition string_values_of :: "jval option \<Rightarrow> string gomap" where
  "string_values_of v = (case v of Some (JObj m) \<Rightarrow> string_values m | _ \<Rightarrow> [])"

definition applyMergedProfile :: "('q, 'e) chart_lib \<Rightarrow> jval gomap \<Rightarrow> 'q PlatformProfile option \<Rightarrow> ('e, jval gomap) result" where
  "applyMergedProfile H v profile =
     (case profile of
        None \<Rightarrow> Inr v
      | Some p \<Rightarrow>
          let v = put_if (pp_NodeSelector p \<noteq> []) ''nodeSelector'' (string_map (pp_NodeSelector p)) v in
          bindE (if pp_Tolerations p = [] then Inr v
                 else bindE (ch_Slice H (pp_Tolerations p)) (\<lambda>vals. Inr (gm_put ''tolerations'' (JArr vals) v))) (\<lambda>v.
          let v = (if pp_PodLabels p = [] then v
                   else gm_put ''podLabels'' (string_map (pp_PodLabels p))
                          (gm_put ''commonLabels'' (string_map (gm_copy (string_values_of (gm_get v ''commonLabels'')) (pp_PodLabels p))) v));
              v = put_if (pp_PodAnnotations p \<noteq> []) ''podAnnotations'' (string_map (pp_PodAnnotations p)) v
          in bindE (enabled_struct H ''podSecurityContext'' (pp_SecurityContext p) v)
               (enabled_struct H ''containerSecurityContext'' (pp_ContainerSecurityContext p))))"

section \<open>Components\<close>

text \<open>The body of the loop over the components: the values and the entry of the resolved block.\<close>

definition base_values ::
  "'q k8s_lib \<Rightarrow> ('q, 'e) chart_lib \<Rightarrow> string \<Rightarrow> string \<Rightarrow> string \<Rightarrow> 'q Component \<Rightarrow> 'q ResolvedComponent option \<Rightarrow> jval gomap" where
  "base_values K H project environment name c rc =
     (let v = [(''commonLabels'', string_map (common_labels project name environment)),
               (''commonAnnotations'', string_map (common_annotations project)),
               (''resources'', resource_values K H (c_Resources c)), (''workloadKind'', JStr (wantKind c))];
          v = (case c_Replicas c of Some n \<Rightarrow> gm_put ''replicaCount'' (JNum n) v | None \<Rightarrow> v);
          v = (case c_Persistence c of
                 None \<Rightarrow> v
               | Some p \<Rightarrow>
                   put_if (c_Kind c \<noteq> ComponentKindStateful) ''updateStrategy'' (JObj [(''type'', JStr ''Recreate'')])
                     (gm_put ''persistence'' (JObj (persistence_values c rc p)) v))
      in put_if (c_Kind c = ComponentKindStateful) ''statefulSet'' (stateful_values c rc) v)"

definition component_entry :: "'q Component \<Rightarrow> 'q ResolvedComponent option \<Rightarrow> jval gomap" where
  "component_entry c rc =
     (if has_host c rc then [(''fqdn'', JStr (rc_FQDN (the rc))), (''tlsMode'', JStr (rc_TLSMode (the rc)))] else [])
     @ [(''workloadKind'', JStr (wantKind c)), (''role'', JStr (c_Role c))]
     @ (case c_Persistence c of None \<Rightarrow> []
        | Some p \<Rightarrow> [(''persistenceMountPath'', JStr (p_MountPath p)), (''persistenceSize'', JStr (p_Size p))])
     @ (case rc of None \<Rightarrow> []
        | Some r \<Rightarrow> (if rc_Profiles r \<noteq> [] then [(''profiles'', string_list (rc_Profiles r))] else [])
                     @ (if rc_StorageClass r \<noteq> [] then [(''storageClass'', JStr (rc_StorageClass r))] else []))"

definition component_values ::
  "'q k8s_lib \<Rightarrow> ('q, 'e) chart_lib \<Rightarrow> string \<Rightarrow> string \<Rightarrow> string \<Rightarrow> 'q Component \<Rightarrow> 'q ResolvedComponent option
     \<Rightarrow> ('e chart_error, jval gomap) result" where
  "component_values K H project environment name c rc =
     (let v = base_values K H project environment name c rc;
          profile = (case rc of None \<Rightarrow> None | Some r \<Rightarrow> rc_MergedProfile r) in
      bindE (if c_Expose c = None then Inr v
             else bindE (ingress_values name c rc) (\<lambda>ing. Inr (gm_put ''ingress'' (JObj ing) v))) (\<lambda>v.
      let v = (case c_Autoscaling c of
                 Some a \<Rightarrow> put_if (as_Enabled a) ''autoscaling'' (JObj (buildAutoscalingValues a)) v
               | None \<Rightarrow> v);
          v = gm_put ''image'' (image_values (parseContainerImage H (c_Image c))) v;
          v = put_if (c_Command c \<noteq> []) ''command'' (string_list (c_Command c)) v;
          v = put_if (c_Args c \<noteq> []) ''args'' (string_list (c_Args c)) v;
          v = applyPortsAndService v c in
      bindE (if IsService (c_Role c) \<or> hasExecAlive c
             then (case buildProbeValues H c of Inl e \<Rightarrow> Inl (ProbesError name e) | Inr probes \<Rightarrow> Inr (gm_copy v probes))
             else Inr v) (\<lambda>v.
      bindE (case applyShutdownTimeout v c of Inl e \<Rightarrow> Inl (ShutdownTimeoutError name e) | Inr v \<Rightarrow> Inr v) (\<lambda>v.
      bindE (case applyMetricsValues H v c profile of Inl e \<Rightarrow> Inl (MetricsError name e) | Inr v \<Rightarrow> Inr v) (\<lambda>v.
      case applyMergedProfile H v profile of Inl e \<Rightarrow> Inl (ProfileError name e) | Inr v \<Rightarrow> Inr v)))))"

definition componentActiveInEnvironment :: "'q Component \<Rightarrow> string \<Rightarrow> bool" where
  "componentActiveInEnvironment c desiredEnvironment =
     (if c_Environments c = [] then True else matchEnvKey desiredEnvironment (c_Environments c) \<noteq> None)"

definition activeComponentNames :: "'q Spec \<Rightarrow> string \<Rightarrow> string list" where
  "activeComponentNames manifest desiredEnvironment =
     sort (map fst (filter (\<lambda>(_, c). componentActiveInEnvironment c desiredEnvironment) (s_Components manifest)))"

fun map_components ::
  "'q k8s_lib \<Rightarrow> ('q, 'e) chart_lib \<Rightarrow> string \<Rightarrow> string \<Rightarrow> 'q ResolvedSpec option \<Rightarrow> 'q Component gomap
     \<Rightarrow> jval gomap \<times> jval gomap \<Rightarrow> ('e chart_error, jval gomap \<times> jval gomap) result" where
  "map_components K H project environment resolved [] acc = Inr acc"
| "map_components K H project environment resolved ((name, c) # cs) acc =
     (if \<not> componentActiveInEnvironment c environment then map_components K H project environment resolved cs acc
      else bindE (component_values K H project environment name c (resolved_of resolved name)) (\<lambda>v.
           map_components K H project environment resolved cs
             (gm_put name (JObj v) (fst acc), gm_put name (JObj (component_entry c (resolved_of resolved name))) (snd acc))))"

section \<open>Tasks\<close>

definition hookTasksForChart ::
  "'q k8s_lib \<Rightarrow> 'q Spec \<Rightarrow> string \<Rightarrow> 'q ResolvedSpec option \<Rightarrow> (hook_error, 'q ResolvedTask gomap) result" where
  "hookTasksForChart K m environment resolved =
     bindE (EffectiveTasks K (Some m) environment (map_option rs_Tasks resolved)) (\<lambda>all.
       Inr (filter (\<lambda>(_, rt). IsHook (t_On (rt_Task rt))) all))"

definition hookTaskNames ::
  "'q k8s_lib \<Rightarrow> 'q Spec \<Rightarrow> string \<Rightarrow> 'q ResolvedSpec option \<Rightarrow> (hook_error, string list) result" where
  "hookTaskNames K m environment resolved =
     bindE (hookTasksForChart K m environment resolved) (\<lambda>hooks. Inr (sort (map fst hooks)))"

definition job_values :: "'q ResolvedTask \<Rightarrow> 'q TaskJobSpec \<Rightarrow> jval" where
  "job_values rt fs =
     JObj ([(''enabled'', JBool True), (''hook'', JStr (HelmHookEvents (rt_Task rt))), (''hookWeight'', JNum (rt_HookWeight rt)),
            (''hookDeletePolicy'', JStr hookDeletePolicy), (''completions'', JNum (sint (Completions fs))),
            (''parallelism'', JNum (sint (Parallelism fs))), (''backoffLimit'', JNum (sint (BackoffLimit fs)))]
           @ (case ActiveDeadlineSeconds fs of Some d \<Rightarrow> [(''activeDeadlineSeconds'', JNum (sint d))] | None \<Rightarrow> [])
           @ (case TTLSecondsAfterFinished fs of Some d \<Rightarrow> [(''ttlSecondsAfterFinished'', JNum (sint d))] | None \<Rightarrow> []))"

definition mapTaskToChartValues ::
  "'q k8s_lib \<Rightarrow> ('q, 'e) chart_lib \<Rightarrow> string \<Rightarrow> string \<Rightarrow> 'q ResolvedTask \<Rightarrow> string \<Rightarrow> ('e chart_error, jval gomap) result" where
  "mapTaskToChartValues K H project name rt environment =
     (case NewTaskJobSpec (rt_Task rt) 0 0 of
        Inl e \<Rightarrow> Inl (TaskJobError name e)
      | Inr fs \<Rightarrow>
          let v = [(''commonLabels'', string_map (common_labels project name environment)),
                   (''commonAnnotations'', string_map (common_annotations project)),
                   (''image'', image_values (parseContainerImage H (j_Image fs))),
                   (''resources'', resource_values K H (j_Resources fs)),
                   (''job'', job_values rt fs), (''service'', JObj [(''enabled'', JBool False)])];
              v = put_if (j_Command fs \<noteq> []) ''command'' (string_list (j_Command fs)) v;
              v = put_if (j_Args fs \<noteq> []) ''args'' (string_list (j_Args fs)) v;
              v = put_if (j_Env fs \<noteq> []) ''envVars'' (string_map (j_Env fs)) v
          in case applyMergedProfile H v (rt_MergedProfile rt) of Inl e \<Rightarrow> Inl (TaskProfileError name e) | Inr v \<Rightarrow> Inr v)"

definition task_entry :: "'q ResolvedTask \<Rightarrow> jval" where
  "task_entry rt =
     JObj [(''on'', JStr (t_On (rt_Task rt))), (''hookWeight'', JNum (rt_HookWeight rt)), (''timeout'', JStr (t_Timeout (rt_Task rt)))]"

fun map_tasks ::
  "'q k8s_lib \<Rightarrow> ('q, 'e) chart_lib \<Rightarrow> string \<Rightarrow> string \<Rightarrow> 'q ResolvedTask gomap \<Rightarrow> jval gomap \<times> jval gomap
     \<Rightarrow> ('e chart_error, jval gomap \<times> jval gomap) result" where
  "map_tasks K H project environment [] acc = Inr acc"
| "map_tasks K H project environment ((name, rt) # ts) acc =
     bindE (mapTaskToChartValues K H project name rt environment) (\<lambda>v.
       map_tasks K H project environment ts (gm_put name (JObj v) (fst acc), gm_put name (task_entry rt) (snd acc)))"

definition applyTaskChartValues ::
  "'q k8s_lib \<Rightarrow> ('q, 'e) chart_lib \<Rightarrow> jval gomap \<Rightarrow> 'q Spec \<Rightarrow> string \<Rightarrow> 'q ResolvedSpec option
     \<Rightarrow> ('e chart_error, jval gomap \<times> jval gomap) result" where
  "applyTaskChartValues K H values m environment resolved =
     (case hookTasksForChart K m environment resolved of
        Inl e \<Rightarrow> Inl (TaskWeightsError e)
      | Inr hooks \<Rightarrow> map_tasks K H (s_Project m) environment hooks (values, []))"

section \<open>The values of a chart\<close>

definition MapSpecToChartValues ::
  "'q k8s_lib \<Rightarrow> ('q, 'e) chart_lib \<Rightarrow> 'q Spec \<Rightarrow> string \<Rightarrow> 'q ResolvedSpec option \<Rightarrow> ('e chart_error, jval gomap) result" where
  "MapSpecToChartValues K H m desiredEnvironment resolved =
     bindE (map_components K H (s_Project m) desiredEnvironment resolved (s_Components m) ([], [])) (\<lambda>(values, resolvedComponents).
     bindE (applyTaskChartValues K H values m desiredEnvironment resolved) (\<lambda>(values, resolvedTasks).
       Inr (put_if (resolvedComponents \<noteq> [] \<or> resolvedTasks \<noteq> []) ''deployah''
              (JObj [(''resolved'', JObj [(''schemaVersion'', JStr resolvedSchemaVersion), (''components'', JObj resolvedComponents),
                                          (''tasks'', JObj resolvedTasks)])]) values)))"

definition GenerateReleaseName :: "string \<Rightarrow> string \<Rightarrow> string" where
  "GenerateReleaseName projectName environmentName = projectName @ ''-'' @ K8sSafe (NormalizeEnv environmentName)"

section \<open>What the next deployment reads back\<close>

lemma gm_get_append: "gm_get (m @ m') k = (case gm_get m k of None \<Rightarrow> gm_get m' k | Some v \<Rightarrow> Some v)"
  by (induction m) (auto simp: gm_get_Cons)

lemma active_env_agree: "componentActiveInEnv c environment = componentActiveInEnvironment c environment"
  by (simp add: componentActiveInEnv_def componentActiveInEnvironment_def)

text \<open>The entry of a component that is active in the environment, and nothing for the others.\<close>

definition entry_of :: "string \<Rightarrow> 'q ResolvedSpec option \<Rightarrow> 'q Component gomap \<Rightarrow> string \<Rightarrow> jval gomap option" where
  "entry_of environment resolved cs name =
     (case gm_get cs name of
        Some c \<Rightarrow> if componentActiveInEnvironment c environment then Some (component_entry c (resolved_of resolved name)) else None
      | None \<Rightarrow> None)"

lemma entry_of_Cons:
  "entry_of environment resolved ((n, c) # cs) name =
     (if name = n then if componentActiveInEnvironment c environment then Some (component_entry c (resolved_of resolved n)) else None
      else entry_of environment resolved cs name)"
  by (simp add: entry_of_def gm_get_Cons)

lemma map_components_ConsE:
  assumes "map_components K H project environment resolved ((n, c) # cs) acc = Inr out"
  obtains "\<not> componentActiveInEnvironment c environment" and "map_components K H project environment resolved cs acc = Inr out"
  | v where "componentActiveInEnvironment c environment"
      and "map_components K H project environment resolved cs
             (gm_put n (JObj v) (fst acc), gm_put n (JObj (component_entry c (resolved_of resolved n))) (snd acc)) = Inr out"
  using assms by (cases "componentActiveInEnvironment c environment") auto

lemma map_components_entries:
  assumes "gm_wf cs" and "map_components K H project environment resolved cs acc = Inr out"
  shows "gm_get (snd out) name =
           (case entry_of environment resolved cs name of Some e \<Rightarrow> Some (JObj e) | None \<Rightarrow> gm_get (snd acc) name)"
  using assms
proof (induction cs arbitrary: acc)
  case (Cons p cs)
  obtain n c where p: "p = (n, c)" by (cases p)
  from Cons.prems have wf: "gm_wf cs" and "n \<notin> fst ` set cs" by (auto simp: p gm_wf_Cons)
  then have "gm_get cs n = None" by (simp add: gm_get_None_keys)
  then have none: "entry_of environment resolved cs n = None" by (simp add: entry_of_def)
  from Cons.prems(2) [unfolded p] show ?case
  proof (cases rule: map_components_ConsE)
    case 1
    with none show ?thesis by (simp add: p entry_of_Cons Cons.IH [OF wf])
  next
    case (2 v)
    from Cons.IH [OF wf this(2)] this(1) none show ?thesis by (simp add: p entry_of_Cons split: option.split)
  qed
qed (simp add: entry_of_def)

lemma map_components_wf:
  assumes "map_components K H project environment resolved cs acc = Inr out" and "gm_wf (fst acc)" and "gm_wf (snd acc)"
  shows "gm_wf (fst out) \<and> gm_wf (snd out)"
  using assms by (induction cs arbitrary: acc) (auto split: if_splits)

lemma map_components_keys:
  assumes "map_components K H project environment resolved cs acc = Inr out"
  shows "fst ` set (fst out) = fst ` set (fst acc) \<union> {n. \<exists>c. (n, c) \<in> set cs \<and> componentActiveInEnvironment c environment}
       \<and> fst ` set (snd out) = fst ` set (snd acc) \<union> {n. \<exists>c. (n, c) \<in> set cs \<and> componentActiveInEnvironment c environment}"
  using assms
proof (induction cs arbitrary: acc)
  case (Cons p cs)
  obtain n c where p: "p = (n, c)" by (cases p)
  from Cons.prems [unfolded p] show ?case
  proof (cases rule: map_components_ConsE)
    case 1
    with Cons.IH show ?thesis by (auto simp: p)
  next
    case (2 v)
    from Cons.IH [OF this(2)] this(1) show ?thesis by (auto simp: p keys_put)
  qed
qed simp

lemma map_tasks_keys:
  assumes "map_tasks K H project environment ts acc = Inr out"
  shows "fst ` set (fst out) = fst ` set (fst acc) \<union> fst ` set ts \<and> fst ` set (snd out) = fst ` set (snd acc) \<union> fst ` set ts"
  using assms
proof (induction ts arbitrary: acc)
  case (Cons p ts)
  obtain n rt where p: "p = (n, rt)" by (cases p)
  from Cons.prems obtain acc' where rest: "map_tasks K H project environment ts acc' = Inr out"
    and "fst ` set (fst acc') = insert n (fst ` set (fst acc))" and "fst ` set (snd acc') = insert n (fst ` set (snd acc))"
    by (fastforce simp: p keys_put)
  with Cons.IH [OF rest] show ?case by (auto simp: p)
qed simp

lemma previous_get:
  assumes "components_block values = Some block" and "gm_wf block"
  shows "gm_get (previousResolvedComponents values) name = get_map block name"
proof -
  have "gm_get (fold (\<lambda>(name, raw) out. case raw of JObj m \<Rightarrow> gm_put name m out | _ \<Rightarrow> out) block d) name =
          (case gm_get block name of Some (JObj m) \<Rightarrow> Some m | _ \<Rightarrow> gm_get d name)" for d
    using assms(2)
  proof (induction block arbitrary: d)
    case (Cons p block)
    obtain n v where p: "p = (n, v)" by (cases p)
    from Cons.prems have wf: "gm_wf block" and "gm_get block n = None" by (auto simp: p gm_wf_Cons gm_get_None_keys)
    then show ?case using Cons.IH [OF wf] by (auto simp: p gm_get_Cons split: jval.splits option.splits)
  qed simp
  from this [of "[]"] assms(1) show ?thesis
    by (simp add: previousResolvedComponents_def get_map_def split: option.splits jval.splits)
qed

definition resolved_block :: "jval gomap \<Rightarrow> jval gomap \<Rightarrow> jval" where
  "resolved_block components tasks =
     JObj [(''resolved'', JObj [(''schemaVersion'', JStr resolvedSchemaVersion), (''components'', JObj components), (''tasks'', JObj tasks)])]"

lemma MapSpecToChartValuesE:
  assumes "MapSpecToChartValues K H m environment resolved = Inr values"
  obtains values1 block hooks values2 tasks where
    "map_components K H (s_Project m) environment resolved (s_Components m) ([], []) = Inr (values1, block)"
    "hookTasksForChart K m environment resolved = Inr hooks"
    "map_tasks K H (s_Project m) environment hooks (values1, []) = Inr (values2, tasks)"
    "values = put_if (block \<noteq> [] \<or> tasks \<noteq> []) ''deployah'' (resolved_block block tasks) values2"
  using assms
  by (cases "hookTasksForChart K m environment resolved")
     (auto simp: MapSpecToChartValues_def applyTaskChartValues_def resolved_block_def)

text \<open>Without components and tasks there are no values at all.\<close>

lemma no_values:
  assumes "map_components K H project environment resolved cs ([], []) = Inr (values1, [])"
    and "map_tasks K H project environment hooks (values1, []) = Inr (values2, [])"
  shows "values2 = []"
proof -
  have "fst ` set values2 = {}" using map_tasks_keys [OF assms(2)] map_components_keys [OF assms(1)] by auto
  then show ?thesis by simp
qed

text \<open>The block of the resolved components, where the values have one, holds exactly those entries.\<close>

lemma values_block:
  assumes wf: "gm_wf (s_Components m)" and "MapSpecToChartValues K H m environment resolved = Inr values"
  obtains "components_block values = None"
  | block where "components_block values = Some block" and "gm_wf block"
      and "\<And>name. get_map block name = entry_of environment resolved (s_Components m) name"
  using assms(2)
proof (cases rule: MapSpecToChartValuesE)
  case (1 values1 block hooks values2 tasks)
  note v = 1(4)
  show thesis
  proof (cases "block \<noteq> [] \<or> tasks \<noteq> []")
    case True
    then have "components_block values = Some block"
      by (simp add: v put_if_def components_block_def get_map_def gm_get_Cons resolved_block_def)
    moreover have "gm_wf block" using map_components_wf [OF 1(1)] by simp
    moreover have "get_map block name = entry_of environment resolved (s_Components m) name" for name
      using map_components_entries [OF wf 1(1), of name] by (simp add: get_map_def split: option.splits)
    ultimately show thesis by (rule that(2))
  next
    case False
    then have "values = []" using no_values 1 by (fastforce simp: put_if_def)
    then show thesis using that(1) by (simp add: components_block_def get_map_def)
  qed
qed

lemma component_entry_gets:
  "get_str (component_entry c rc) ''workloadKind'' = Some (wantKind c)"
  "get_str (component_entry c rc) ''role'' = Some (c_Role c)"
  "get_str (component_entry c rc) ''persistenceSize'' = map_option p_Size (c_Persistence c)"
  "get_str (component_entry c rc) ''persistenceMountPath'' = map_option p_MountPath (c_Persistence c)"
  "get_str (component_entry c rc) ''fqdn'' = (if has_host c rc then Some (rc_FQDN (the rc)) else None)"
  by (simp_all add: get_str_def component_entry_def gm_get_append gm_get_Cons string_list_def split: option.split)

definition sizes_readable :: "'q k8s_lib \<Rightarrow> 'q Component gomap \<Rightarrow> bool" where
  "sizes_readable L cs =
     list_all (\<lambda>(_, c). case c_Persistence c of None \<Rightarrow> True | Some p \<Rightarrow> p_Size p \<noteq> [] \<and> q_Parse L (p_Size p) \<noteq> None) cs"

lemma sizes_readableD:
  "sizes_readable L cs \<Longrightarrow> (n, c) \<in> set cs \<Longrightarrow> c_Persistence c = Some p \<Longrightarrow> p_Size p \<noteq> [] \<and> (\<exists>q. q_Parse L (p_Size p) = Some q)"
  by (auto simp: sizes_readable_def list_all_iff split: option.splits)

lemma size_not_decreased:
  assumes "quantity_laws L" and "q_Parse L s = Some q"
  shows "persistenceSizeDecreased L s s = Inr False"
proof -
  have "0 \<le> q_Cmp L q q" using assms(1) by (auto simp: quantity_laws_def) (meson linear)
  then show ?thesis by (simp add: persistenceSizeDecreased_def assms(2))
qed

lemma entry_passes_guards:
  assumes "quantity_laws L" and "sizes_readable L cs" and "(n, c) \<in> set cs"
  shows "component_guards L c (component_entry c rc) = []"
proof (cases "c_Persistence c")
  case None
  then show ?thesis by (simp add: component_guards_def Let_def component_entry_gets prevRole_def wantRole_def str_or_def)
next
  case (Some p)
  from sizes_readableD [OF assms(2,3) Some] obtain q where "p_Size p \<noteq> []" and "q_Parse L (p_Size p) = Some q" by blast
  with Some size_not_decreased [OF assms(1)] show ?thesis
    by (simp add: component_guards_def Let_def component_entry_gets prevRole_def wantRole_def str_or_def)
qed

lemma previous_entries:
  assumes "gm_wf (s_Components m)" and "MapSpecToChartValues K H m environment resolved = Inr values"
    and "(n, c) \<in> set (s_Components m)" and "gm_get (previousResolvedComponents values) n = Some prev"
  shows "prev = component_entry c (resolved_of resolved n)"
proof -
  from assms(1,3) have get: "gm_get (s_Components m) n = Some c" by (simp add: gm_get_wf_iff)
  from assms(1,2) show ?thesis
  proof (cases rule: values_block)
    case 1
    with assms(4) show ?thesis by (simp add: previousResolvedComponents_def)
  next
    case (2 block)
    with assms(4) previous_get have "entry_of environment resolved (s_Components m) n = Some prev" by metis
    with get show ?thesis by (simp add: entry_of_def split: if_splits)
  qed
qed

lemma no_resize_again:
  assumes "gm_wf (s_Components m)" and "MapSpecToChartValues K H m environment resolved = Inr values" and "(n, c) \<in> set (s_Components m)"
  shows "component_resize L r (previousResolvedComponents values) n c = []"
proof (cases "c_Persistence c")
  case (Some p)
  show ?thesis
  proof (cases "gm_get (previousResolvedComponents values) n")
    case (Some prev)
    with previous_entries [OF assms] \<open>c_Persistence c = Some p\<close> show ?thesis by (simp add: component_resize_def component_entry_gets)
  qed (simp add: component_resize_def Some)
qed (simp add: component_resize_def)

lemma no_hostname_changes:
  assumes "gm_wf (s_Components m)" and "gm_wf (rs_Components r)" and "MapSpecToChartValues K H m environment (Some r) = Inr values"
  shows "hostnameChanges values r = []"
  using assms(1,3)
proof (cases rule: values_block)
  case (2 block)
  have "rc_FQDN rc = host" if "(n, rc) \<in> set (rs_Components r)" and "get_map block n = Some prev"
    and "get_str prev ''fqdn'' = Some host" for n rc prev host
  proof -
    have "gm_get (rs_Components r) n = Some rc" using that(1) assms(2) by (simp add: gm_get_wf_iff)
    moreover have "entry_of environment (Some r) (s_Components m) n = Some prev" using 2 that(2) by simp
    ultimately show ?thesis using that(3)
      by (auto simp: entry_of_def resolved_of_def component_entry_gets split: option.splits if_splits)
  qed
  then show ?thesis by (auto simp: hostnameChanges_def 2(1) split: option.splits)
qed (simp add: hostnameChanges_def)

text \<open>
  C3: a spec that was deployed can be deployed again. When the values of a chart are generated for
  a spec, the block \<open>deployah.resolved\<close> they carry makes every guard of the next deployment of the
  same spec pass: the workload guards report nothing, no volume is to grow, no mount path is
  reported as changed, and no host name has changed. The component names are distinct keys, and
  the sizes of the persistence blocks are quantities.
\<close>

theorem redeploy_passes_guards:
  assumes "quantity_laws K" and "gm_wf (s_Components m)" and "gm_wf (rs_Components r)" and "sizes_readable K (s_Components m)"
    and "MapSpecToChartValues K H m environment (Some r) = Inr values"
  shows "checkWorkloadGuards K m environment (previousResolvedComponents values) = []
     \<and> detectPersistenceResizes K m environment (Some r) (previousResolvedComponents values) = []
     \<and> (\<forall>name old new. (name, MountPathChanged old new) \<notin> set (emitWorkloadWarnings m environment (previousResolvedComponents values)))
     \<and> hostnameChanges values r = []"
proof (intro conjI allI notI)
  note prev = previous_entries [OF assms(2,5)]
  show "checkWorkloadGuards K m environment (previousResolvedComponents values) = []"
    unfolding checkWorkloadGuards_Nil using prev entry_passes_guards [OF assms(1,4)] by fastforce
  have "z \<notin> set (detectPersistenceResizes K m environment (Some r) (previousResolvedComponents values))" for z
    using no_resize_again [OF assms(2,5)] unfolding detect_mem by fastforce
  then show "detectPersistenceResizes K m environment (Some r) (previousResolvedComponents values) = []"
    by (metis list.set_intros(1) neq_Nil_conv)
  show "hostnameChanges values r = []" by (rule no_hostname_changes [OF assms(2,3,5)])
next
  fix name old new
  assume "(name, MountPathChanged old new) \<in> set (emitWorkloadWarnings m environment (previousResolvedComponents values))"
  then obtain c where c: "(name, c) \<in> set (s_Components m)"
    and w: "MountPathChanged old new \<in> set (component_warnings c (gm_get (previousResolvedComponents values) name))"
    by (auto simp: emitWorkloadWarnings_def split: if_splits)
  show False
  proof (cases "gm_get (previousResolvedComponents values) name")
    case (Some prev)
    with previous_entries [OF assms(2,5) c Some] w show False
      by (auto simp: component_warnings_def Let_def component_entry_gets str_or_def split: option.splits if_splits)
  qed (use w in \<open>auto simp: component_warnings_def split: option.splits if_splits\<close>)
qed

section \<open>Probes\<close>

lemma int32_id: "- (2 ^ 31) \<le> n \<Longrightarrow> n < 2 ^ 31 \<Longrightarrow> int32 n = n"
  by (simp add: int32_def sint_sbintrunc' signed_take_bit_int_eq_self)

lemma ceil_div:
  fixes r i :: int
  assumes "1 \<le> i"
  shows "r \<le> i * - ((- r) div i)" and "i * - ((- r) div i) < r + i"
proof -
  have "- r = i * ((- r) div i) + (- r) mod i" by simp
  moreover have "0 \<le> (- r) mod i" "(- r) mod i < i" using assms by simp_all
  ultimately show "r \<le> i * - ((- r) div i)" and "i * - ((- r) div i) < r + i" by linarith+
qed

lemma failure_threshold_bounds:
  assumes "1 \<le> i" and "i \<le> r" and "r < 2 ^ 31"
  shows "r \<le> i * failure_threshold r i" and "i * failure_threshold r i < r + i"
    and "1 \<le> failure_threshold r i" and "failure_threshold r i < 2 ^ 31"
proof -
  let ?t = "- ((- r) div i)"
  note c = ceil_div [OF assms(1), of r]
  have pos: "1 \<le> ?t"
  proof (rule ccontr)
    assume "\<not> 1 \<le> ?t"
    then have "i * ?t \<le> i * 0" using assms(1) by (intro mult_left_mono) auto
    with c assms show False by simp
  qed
  have "?t \<le> r"
  proof (rule ccontr)
    assume "\<not> ?t \<le> r"
    then have "i * (r + 1) \<le> i * ?t" using assms(1) by (intro mult_left_mono) auto
    moreover have "1 * r \<le> i * r" using assms by (intro mult_right_mono) auto
    ultimately show False using c by (simp add: distrib_left)
  qed
  with pos assms(3) have t: "failure_threshold r i = ?t" by (simp add: failure_threshold_def)
  show "r \<le> i * failure_threshold r i" "i * failure_threshold r i < r + i"
    "1 \<le> failure_threshold r i" "failure_threshold r i < 2 ^ 31"
    using c pos \<open>?t \<le> r\<close> assms(3) unfolding t by simp_all
qed

text \<open>
  C4: the restart window is never shorter than the spec asks. For a component whose health check
  is valid, with the alive check on and a restart time, of fewer than \<open>2 ^ 31\<close> seconds, the probe
  that is generated fails after at least \<open>restartAfter\<close> seconds (its period times its failure
  threshold) and less than one interval later; period and threshold are positive and survive the
  conversion to int32.
\<close>

theorem liveness_window_respected:
  assumes "ValidateComponentHealth c = None" and "c_Health c = Some h" and "h_Alive h = Some a"
    and "\<not> ha_Disabled a" and "ha_RestartAfter a \<noteq> []" and "ParseDuration (ha_RestartAfter a) = Inr r" and "r < 2 ^ 31"
  shows "let p = liveness_probe exec path (ha_Interval a) (ha_RestartAfter a) in
           1 \<le> pb_PeriodSeconds p \<and> 1 \<le> pb_FailureThreshold p
         \<and> pb_PeriodSeconds p = liveness_interval (ha_Interval a)
         \<and> r \<le> pb_PeriodSeconds p * pb_FailureThreshold p
         \<and> pb_PeriodSeconds p * pb_FailureThreshold p < r + pb_PeriodSeconds p"
proof -
  from validated_liveness_window [OF assms(1-5)] assms(6) obtain i
    where i: "ParseDuration (if ha_Interval a = [] then DefaultLivenessInterval else ha_Interval a) = Inr i"
    and "1 \<le> i" and "i \<le> r" by auto
  then have li: "liveness_interval (ha_Interval a) = i" and lr: "liveness_restart (ha_RestartAfter a) = r"
    using assms(5,6) by (simp_all add: liveness_interval_def liveness_restart_def seconds_or_def)
  note b = failure_threshold_bounds [OF \<open>1 \<le> i\<close> \<open>i \<le> r\<close> assms(7)]
  have "int32 i = i" "int32 (failure_threshold r i) = failure_threshold r i"
    using b \<open>1 \<le> i\<close> \<open>i \<le> r\<close> assms(7) by (simp_all add: int32_id)
  with b \<open>1 \<le> i\<close> show ?thesis by (simp add: liveness_probe_def li lr)
qed

theorem liveness_window_respected_witness:
  "pb_PeriodSeconds (liveness_probe [] ''/live'' ''7s'' ''1m'') = 7 \<and> pb_FailureThreshold (liveness_probe [] ''/live'' ''7s'' ''1m'') = 9
   \<and> (60 :: int) \<le> pb_PeriodSeconds (liveness_probe [] ''/live'' ''7s'' ''1m'') * pb_FailureThreshold (liveness_probe [] ''/live'' ''7s'' ''1m'')"
proof -
  let ?a = "\<lparr>ha_Disabled = False, ha_Path = ''/live'', ha_Exec = [], ha_Interval = ''7s'', ha_RestartAfter = ''1m''\<rparr>"
  let ?h = "\<lparr>h_Ready = None, h_Alive = Some ?a\<rparr>"
  let ?c = "zero_Component\<lparr>c_Health := Some ?h\<rparr> :: int Component"
  have v: "ValidateComponentHealth ?c = None" and "ParseDuration ''1m'' = Inr 60" by code_simp+
  then have "(60 :: int) \<le> pb_PeriodSeconds (liveness_probe [] ''/live'' ''7s'' ''1m'') * pb_FailureThreshold (liveness_probe [] ''/live'' ''7s'' ''1m'')"
    using liveness_window_respected [OF v, of ?h ?a 60 "[]" "''/live''"] unfolding Let_def by auto
  moreover have "pb_PeriodSeconds (liveness_probe [] ''/live'' ''7s'' ''1m'') = 7" "pb_FailureThreshold (liveness_probe [] ''/live'' ''7s'' ''1m'') = 9"
    by code_simp+
  ultimately show ?thesis by blast
qed

text \<open>
  The interval itself is not clamped: an interval that \<open>ParseDuration\<close> accepts and the health
  check validates can wrap to a negative probe period.
\<close>

lemma liveness_interval_wraps:
  "let a = \<lparr>ha_Disabled = False, ha_Path = [], ha_Exec = [], ha_Interval = ''600000h'', ha_RestartAfter = ''600000h''\<rparr>;
       c = zero_Component\<lparr>c_Health := Some \<lparr>h_Ready = None, h_Alive = Some a\<rparr>\<rparr> :: int Component
   in ValidateComponentHealth c = None \<and> pb_PeriodSeconds (liveness_probe [] [] (ha_Interval a) (ha_RestartAfter a)) < 0"
  unfolding Let_def by (rule conjI) code_simp+

section \<open>Names\<close>

lemma map_components_others:
  assumes "map_components K H project environment resolved cs acc = Inr out" and "n \<notin> fst ` set cs"
  shows "gm_get (fst out) n = gm_get (fst acc) n"
  using assms
proof (induction cs arbitrary: acc)
  case (Cons p cs)
  obtain n' c where p: "p = (n', c)" by (cases p)
  with Cons.prems have n: "n \<noteq> n'" "n \<notin> fst ` set cs" by auto
  from Cons.prems(1) [unfolded p] show ?case
    by (cases rule: map_components_ConsE) (simp_all add: Cons.IH n)
qed simp

lemma map_components_get:
  assumes "gm_wf cs" and "map_components K H project environment resolved cs acc = Inr out"
    and "(n, c) \<in> set cs" and "componentActiveInEnvironment c environment"
  shows "\<exists>v. component_values K H project environment n c (resolved_of resolved n) = Inr v \<and> gm_get (fst out) n = Some (JObj v)"
  using assms(1-3)
proof (induction cs arbitrary: acc)
  case (Cons p cs)
  obtain n' c' where p: "p = (n', c')" by (cases p)
  from Cons.prems(1) have wf: "gm_wf cs" and fresh: "n' \<notin> fst ` set cs" by (auto simp: p gm_wf_Cons)
  show ?case
  proof (cases "(n, c) \<in> set cs")
    case True
    from Cons.prems(2) [unfolded p] show ?thesis
      by (cases rule: map_components_ConsE) (rule Cons.IH [OF wf _ True], assumption)+
  next
    case False
    with Cons.prems(3) have nc: "n' = n" "c' = c" by (auto simp: p)
    with Cons.prems(2) assms(4) obtain v where v: "component_values K H project environment n c (resolved_of resolved n) = Inr v"
      and rest: "map_components K H project environment resolved cs
          (gm_put n (JObj v) (fst acc), gm_put n (JObj (component_entry c (resolved_of resolved n))) (snd acc)) = Inr out"
      by (auto simp: p)
    from map_components_others [OF rest] fresh v show ?thesis by (simp add: nc)
  qed
qed simp

lemma map_tasks_others:
  assumes "map_tasks K H project environment ts acc = Inr out" and "n \<notin> fst ` set ts"
  shows "gm_get (fst out) n = gm_get (fst acc) n"
  using assms
proof (induction ts arbitrary: acc)
  case (Cons p ts)
  obtain n' rt where p: "p = (n', rt)" by (cases p)
  with Cons.prems obtain acc' where "map_tasks K H project environment ts acc' = Inr out"
    and "gm_get (fst acc') n = gm_get (fst acc) n" by fastforce
  with Cons.IH Cons.prems(2) show ?case by simp
qed simp

text \<open>
  C8: the chart has exactly the components and tasks of the environment. Apart from the key \<open>deployah\<close>,
  which holds the resolved block, the keys of the generated values are the components that are active
  in the environment and its hook tasks, the names for which the chart has subcharts. Every active
  component has the values that were computed for it, unless it is called \<open>deployah\<close> or like a hook task:
  then the resolved block or the values of the task stand under its name.
\<close>

theorem chart_values_names:
  assumes "gm_wf (s_Components m)" and "MapSpecToChartValues K H m environment resolved = Inr values"
    and "hookTaskNames K m environment resolved = Inr hooks"
  shows "fst ` set values - {''deployah''} = (set (activeComponentNames m environment) \<union> set hooks) - {''deployah''}
     \<and> (\<forall>(n, c) \<in> set (s_Components m). componentActiveInEnvironment c environment \<and> n \<notin> set hooks \<and> n \<noteq> ''deployah'' \<longrightarrow>
          (\<exists>v. component_values K H (s_Project m) environment n c (resolved_of resolved n) = Inr v \<and> gm_get values n = Some (JObj v)))"
proof -
  from assms(2) obtain values1 block hs values2 tasks where
    mc: "map_components K H (s_Project m) environment resolved (s_Components m) ([], []) = Inr (values1, block)"
    and hs: "hookTasksForChart K m environment resolved = Inr hs"
    and ts: "map_tasks K H (s_Project m) environment hs (values1, []) = Inr (values2, tasks)"
    and v: "values = put_if (block \<noteq> [] \<or> tasks \<noteq> []) ''deployah'' (resolved_block block tasks) values2"
    by (rule MapSpecToChartValuesE)
  from assms(3) hs have hooks: "set hooks = fst ` set hs" by (force simp: hookTaskNames_def)
  have act: "set (activeComponentNames m environment) = {n. \<exists>c. (n, c) \<in> set (s_Components m) \<and> componentActiveInEnvironment c environment}"
    by (force simp: activeComponentNames_def)
  have keys: "fst ` set values - {''deployah''} = fst ` set values2 - {''deployah''}"
    by (auto simp: v put_if_def keys_put)
  have "\<exists>v. component_values K H (s_Project m) environment n c (resolved_of resolved n) = Inr v \<and> gm_get values n = Some (JObj v)"
    if "(n, c) \<in> set (s_Components m)" and "componentActiveInEnvironment c environment" and "n \<notin> set hooks" and "n \<noteq> ''deployah''" for n c
  proof -
    from map_components_get [OF assms(1) mc that(1,2)] obtain w
      where w: "component_values K H (s_Project m) environment n c (resolved_of resolved n) = Inr w" "gm_get values1 n = Some (JObj w)" by auto
    from map_tasks_others [OF ts, of n] that(3) hooks have "gm_get values2 n = gm_get values1 n" by simp
    then have "gm_get values n = gm_get values1 n" using that(4) by (simp add: v put_if_def)
    with w show ?thesis by simp
  qed
  moreover have "fst ` set values2 = set (activeComponentNames m environment) \<union> set hooks"
    using map_tasks_keys [OF ts] map_components_keys [OF mc] by (simp add: hooks act)
  ultimately show ?thesis unfolding keys by blast
qed

text \<open>
  the name \<open>deployah\<close> is not reserved. A component or task of that name is active, yet the
  values under its name are the resolved block alone: it has no image, no resources, nothing of what
  was computed for it.
\<close>

theorem deployah_values_overwritten:
  assumes "MapSpecToChartValues K H m environment resolved = Inr values" and "gm_get values ''deployah'' = Some v"
  shows "\<exists>r. v = JObj [(''resolved'', r)]"
  using assms(1)
proof (cases rule: MapSpecToChartValuesE)
  case (1 values1 block hooks values2 tasks)
  show ?thesis
  proof (cases "block \<noteq> [] \<or> tasks \<noteq> []")
    case True
    with assms(2) show ?thesis by (auto simp: 1(4) put_if_def resolved_block_def)
  next
    case False
    then have "values = []" using no_values 1 by (fastforce simp: put_if_def)
    with assms(2) show ?thesis by simp
  qed
qed

section \<open>Examples\<close>

definition ex_chart_lib :: "(int, unit) chart_lib" where
  "ex_chart_lib =
     \<lparr>ch_ParseImage = \<lambda>s. Some (s, None, Some ''latest''), ch_QString = \<lambda>_. ''1'',
      ch_ProbeMap = \<lambda>p. Inr [(''periodSeconds'', JNum (pb_PeriodSeconds p)), (''failureThreshold'', JNum (pb_FailureThreshold p))],
      ch_StructMap = \<lambda>_. Inr [], ch_Slice = Inr\<rparr>"

definition ex_chart_spec :: "string \<Rightarrow> int Spec" where
  "ex_chart_spec name =
     \<lparr>s_APIVersion = [], s_Project = ''shop'', s_Environments = [],
      s_Components = [(name, ex_db\<lparr>c_Image := ''postgres'', c_ShutdownTimeout := ''30s''\<rparr>)], s_Tasks = []\<rparr>"

definition ex_chart_values :: "string \<Rightarrow> jval gomap" where
  "ex_chart_values name =
     (case MapSpecToChartValues int_lib ex_chart_lib (ex_chart_spec name) ''prod'' (Some (ex_db_resolved ''db.example.com'')) of
        Inr v \<Rightarrow> v | Inl _ \<Rightarrow> [])"

lemma ex_chart_ok:
  "MapSpecToChartValues int_lib ex_chart_lib (ex_chart_spec ''db'') ''prod'' (Some (ex_db_resolved ''db.example.com'')) = Inr (ex_chart_values ''db'')"
  by code_simp

lemma ex_chart_wf: "gm_wf (s_Components (ex_chart_spec ''db''))" "gm_wf (rs_Components (ex_db_resolved ''db.example.com''))"
  by code_simp+

theorem redeploy_passes_guards_witness:
  "checkWorkloadGuards int_lib (ex_chart_spec ''db'') ''prod'' (previousResolvedComponents (ex_chart_values ''db'')) = []
   \<and> gm_has (previousResolvedComponents (ex_chart_values ''db'')) ''db''"
proof -
  have "sizes_readable int_lib (s_Components (ex_chart_spec ''db''))"
    and "gm_has (previousResolvedComponents (ex_chart_values ''db'')) ''db''" by code_simp+
  with redeploy_passes_guards [OF int_lib_laws(1) ex_chart_wf _ ex_chart_ok] show ?thesis by blast
qed

theorem chart_values_names_witness:
  "fst ` set (ex_chart_values ''db'') - {''deployah''} = {''db''}"
proof -
  have "hookTaskNames int_lib (ex_chart_spec ''db'') ''prod'' (Some (ex_db_resolved ''db.example.com'')) = Inr []"
    and "activeComponentNames (ex_chart_spec ''db'') ''prod'' = [''db'']" by code_simp+
  with chart_values_names [OF ex_chart_wf(1) ex_chart_ok] show ?thesis by simp
qed

end
