(* ===== verification/Releases.thy ===== *)
theory Releases
  imports Chart_Values "HOL-Library.Product_Lexorder"
begin

text \<open>
  Label selectors (\<open>internal/k8s/selectors.go\<close>), the Helm client (\<open>internal/helm/helm.go\<close>) and the
  queries on releases (\<open>internal/action/\<close>). The Helm SDK is a parameter: its actions act on a state
  of their own. What is relied on of them is named in \<open>helm_laws\<close>.
\<close>

section \<open>Label selectors\<close>

text \<open>
  A selector is the list of its equality requirements. \<open>labels.NewRequirement\<close> rejects a value that is
  no label value; the test is a parameter.
\<close>

type_synonym label_selector = "(string \<times> string) list"

datatype selector_error = InvalidLabelValue string string

definition ProjectLabel :: string where "ProjectLabel = ''deployah.dev/project''"
definition ComponentLabel :: string where "ComponentLabel = ''deployah.dev/component''"
definition EnvironmentLabel :: string where "EnvironmentLabel = ''deployah.dev/environment''"
definition ManagedByLabel :: string where "ManagedByLabel = ''deployah.dev/managed-by''"
definition ManagedByValue :: string where "ManagedByValue = ''deployah''"

definition NewRequirement :: "(string \<Rightarrow> bool) \<Rightarrow> string \<Rightarrow> string \<Rightarrow> (selector_error, string \<times> string) result" where
  "NewRequirement V key v = (if V v then Inr (key, v) else Inl (InvalidLabelValue key v))"

definition selector_matches :: "label_selector \<Rightarrow> string gomap \<Rightarrow> bool" where
  "selector_matches sel ls = list_all (\<lambda>(k, v). gm_get ls k = Some v) sel"

definition WithProject :: "(string \<Rightarrow> bool) \<Rightarrow> label_selector \<Rightarrow> string \<Rightarrow> (selector_error, label_selector) result" where
  "WithProject V sb project =
     (if project = [] then Inr sb else bindE (NewRequirement V ProjectLabel project) (\<lambda>req. Inr (sb @ [req])))"

definition WithComponent :: "(string \<Rightarrow> bool) \<Rightarrow> label_selector \<Rightarrow> string \<Rightarrow> (selector_error, label_selector) result" where
  "WithComponent V sb component =
     (if component = [] then Inr sb else bindE (NewRequirement V ComponentLabel component) (\<lambda>req. Inr (sb @ [req])))"

definition WithEnvironment :: "(string \<Rightarrow> bool) \<Rightarrow> label_selector \<Rightarrow> string \<Rightarrow> (selector_error, label_selector) result" where
  "WithEnvironment V sb environment =
     (if environment = [] then Inr sb
      else bindE (NewRequirement V EnvironmentLabel (K8sSafe (NormalizeEnv environment))) (\<lambda>req. Inr (sb @ [req])))"

definition BuildSelector ::
  "(string \<Rightarrow> bool) \<Rightarrow> string \<Rightarrow> string \<Rightarrow> string \<Rightarrow> (selector_error, label_selector) result" where
  "BuildSelector V project component environment =
     bindE (WithProject V [] project) (\<lambda>builder.
     bindE (WithComponent V builder component) (\<lambda>builder.
     WithEnvironment V builder environment))"

definition BuildProjectSelector :: "(string \<Rightarrow> bool) \<Rightarrow> string \<Rightarrow> (selector_error, label_selector) result" where
  "BuildProjectSelector V project = BuildSelector V project [] []"

definition BuildComponentSelector :: "(string \<Rightarrow> bool) \<Rightarrow> string \<Rightarrow> string \<Rightarrow> (selector_error, label_selector) result" where
  "BuildComponentSelector V project component = BuildSelector V project component []"

definition BuildLabelSelector :: "(string \<Rightarrow> bool) \<Rightarrow> string \<Rightarrow> string \<Rightarrow> (selector_error, label_selector) result" where
  "BuildLabelSelector V project environment =
     bindE (if project = [] then Inr [] else bindE (NewRequirement V ProjectLabel project) (\<lambda>req. Inr [req])) (\<lambda>sel.
     if environment = [] then Inr sel
     else bindE (NewRequirement V EnvironmentLabel (K8sSafe (NormalizeEnv environment))) (\<lambda>req. Inr (sel @ [req])))"

section \<open>Helm errors\<close>

datatype api_reason = NoReason | ReasonNotFound | ReasonAlreadyExists | ReasonForbidden | ReasonUnauthorized
  | ReasonTimeout | ReasonServerTimeout | ReasonInvalid | ReasonBadRequest | OtherReason

text \<open>What the code asks of an error: the sentinels of the storage driver, the reason of an API error, a network error, its text.\<close>

record helm_error =
  he_ReleaseNotFound :: bool
  he_ReleaseExists :: bool
  he_Reason :: api_reason
  he_NetOp :: bool
  he_Text :: string

datatype client_error =
    ErrReleaseNotFound string helm_error
  | ErrReleaseAlreadyExists string helm_error
  | InsufficientPermissions string string helm_error
  | OperationTimedOut string helm_error
  | UnableToConnect helm_error
  | HelmFailed string string helm_error
  | ErrReleasePending string
  | EmptyProjectOrEnvironment
  | EmptyReleaseName
  | UnsupportedReleaseType
  | SelectorInvalid selector_error
  | PrepareChartFailed
  | LoadChartFailed
  | RenderFailed

definition wrapHelmError :: "string \<Rightarrow> string \<Rightarrow> helm_error \<Rightarrow> client_error" where
  "wrapHelmError operation releaseName err =
     (if he_ReleaseNotFound err then ErrReleaseNotFound releaseName err
      else if he_ReleaseExists err then ErrReleaseAlreadyExists releaseName err
      else if he_Reason err = ReasonNotFound then ErrReleaseNotFound releaseName err
      else if he_Reason err = ReasonAlreadyExists then ErrReleaseAlreadyExists releaseName err
      else if he_Reason err = ReasonForbidden \<or> he_Reason err = ReasonUnauthorized
      then InsufficientPermissions operation releaseName err
      else if he_Reason err = ReasonTimeout \<or> he_Reason err = ReasonServerTimeout then OperationTimedOut releaseName err
      else if he_NetOp err then UnableToConnect err
      else if str_Contains (he_Text err) ''not found'' then ErrReleaseNotFound releaseName err
      else if str_Contains (he_Text err) ''connection refused'' \<or> str_Contains (he_Text err) ''dial'' then UnableToConnect err
      else if str_Contains (he_Text err) ''already exists'' then ErrReleaseAlreadyExists releaseName err
      else HelmFailed operation releaseName err)"

section \<open>Releases of the SDK\<close>

text \<open>\<open>st_Status\<close> is absent where the release has no \<open>Info\<close>.\<close>

record stored =
  st_Name :: string
  st_Namespace :: string
  st_Version :: int
  st_Status :: "string option"
  st_LastDeployed :: "string option"
  st_Manifest :: string
  st_Labels :: "string gomap"

datatype releaser = V1Pointer stored | V1Value stored | OtherRelease

definition releaserToV1 :: "releaser \<Rightarrow> (client_error, stored) result" where
  "releaserToV1 r = (case r of V1Pointer rel \<Rightarrow> Inr rel | V1Value rel \<Rightarrow> Inr rel | OtherRelease \<Rightarrow> Inl UnsupportedReleaseType)"

text \<open>A nil entry is kept.\<close>

fun releaserListToV1 :: "releaser option list \<Rightarrow> (client_error, stored option list) result" where
  "releaserListToV1 [] = Inr []"
| "releaserListToV1 (None # rs) = bindE (releaserListToV1 rs) (\<lambda>out. Inr (None # out))"
| "releaserListToV1 (Some r # rs) =
     bindE (releaserToV1 r) (\<lambda>rel. bindE (releaserListToV1 rs) (\<lambda>out. Inr (Some rel # out)))"

text \<open>Newest first, nil entries last.\<close>

definition newer_key :: "stored option \<Rightarrow> nat \<times> int" where
  "newer_key r = (case r of None \<Rightarrow> (1, 0) | Some rel \<Rightarrow> (0, - st_Version rel))"

definition newestRelease :: "stored option list \<Rightarrow> stored option" where
  "newestRelease releases = (if releases = [] then None else hd (sort_key newer_key releases))"

definition IsPending :: "string \<Rightarrow> bool" where
  "IsPending status = (status \<in> {''pending-install'', ''pending-upgrade'', ''pending-rollback''})"

datatype wait_strategy = StatusWatcherStrategy | LegacyStrategy | HookOnlyStrategy

text \<open>The settings of an uninstall that the client chooses.\<close>

record uninstall =
  un_IgnoreNotFound :: bool
  un_KeepHistory :: bool
  un_Wait :: wait_strategy
  un_Propagation :: string

text \<open>The actions of the SDK on a state \<open>'s\<close>; \<open>'c\<close> is a loaded chart.\<close>

record ('s, 'c) helm_sdk =
  sdk_History :: "'s \<Rightarrow> string \<Rightarrow> (helm_error, releaser option list) result"
  sdk_Get :: "'s \<Rightarrow> string \<Rightarrow> (helm_error, releaser) result"
  sdk_List :: "'s \<Rightarrow> label_selector \<Rightarrow> (helm_error, releaser option list) result"
  sdk_Install :: "'s \<Rightarrow> string \<Rightarrow> string gomap \<Rightarrow> 'c \<Rightarrow> (helm_error, unit) result \<times> 's"
  sdk_Upgrade :: "'s \<Rightarrow> string \<Rightarrow> string gomap \<Rightarrow> 'c \<Rightarrow> (helm_error, unit) result \<times> 's"
  sdk_Uninstall :: "'s \<Rightarrow> string \<Rightarrow> uninstall \<Rightarrow> (helm_error, unit) result \<times> 's"
  sdk_Rollback :: "'s \<Rightarrow> string \<Rightarrow> int \<Rightarrow> (helm_error, unit) result \<times> 's"

section \<open>The client\<close>

definition wrap :: "string \<Rightarrow> string \<Rightarrow> (helm_error, 'a) result \<Rightarrow> (client_error, 'a) result" where
  "wrap operation releaseName r = (case r of Inl e \<Rightarrow> Inl (wrapHelmError operation releaseName e) | Inr x \<Rightarrow> Inr x)"

definition release_labels :: "'q Spec \<Rightarrow> string \<Rightarrow> string gomap" where
  "release_labels manifest environment =
     [(''deployah.dev/project'', s_Project manifest), (''deployah.dev/environment'', environment),
      (''deployah.dev/managed-by'', ''deployah''), (''deployah.dev/version'', s_APIVersion manifest)]"

definition pending_release :: "stored option list \<Rightarrow> bool" where
  "pending_release rels =
     (case newestRelease rels of
        None \<Rightarrow> False
      | Some rel \<Rightarrow> (case st_Status rel of None \<Rightarrow> False | Some status \<Rightarrow> IsPending status))"

text \<open>
  \<open>render\<close>, \<open>prepare\<close> and \<open>load\<close> stand for \<open>RenderManifests\<close>, \<open>PrepareChart\<close> and the chart loader;
  the render is only taken by a dry run.
\<close>

definition install_or_upgrade ::
  "('s, 'c) helm_sdk \<Rightarrow> 'p option \<Rightarrow> ('p \<Rightarrow> 'c option) \<Rightarrow> 's \<Rightarrow> string \<Rightarrow> string gomap \<Rightarrow> bool \<Rightarrow> (client_error, unit) result \<times> 's" where
  "install_or_upgrade S prepare load s releaseName ls upgradeExisting =
     (case prepare of
        None \<Rightarrow> (Inl PrepareChartFailed, s)
      | Some chartPath \<Rightarrow>
          (case load chartPath of
             None \<Rightarrow> (Inl LoadChartFailed, s)
           | Some ch \<Rightarrow>
               if \<not> upgradeExisting
               then apfst (wrap ''install'' releaseName) (sdk_Install S s releaseName ls ch)
               else apfst (wrap ''upgrade'' releaseName) (sdk_Upgrade S s releaseName ls ch)))"

definition InstallApp ::
  "('s, 'c) helm_sdk \<Rightarrow> bool \<Rightarrow> 'p option \<Rightarrow> ('p \<Rightarrow> 'c option) \<Rightarrow> 's \<Rightarrow> 'q Spec \<Rightarrow> string \<Rightarrow> bool \<Rightarrow> (client_error, unit) result \<times> 's" where
  "InstallApp S render prepare load s manifest environment dryRun =
     (if dryRun then (if render then Inr () else Inl RenderFailed, s)
      else
        let releaseName = GenerateReleaseName (s_Project manifest) environment;
            ls = release_labels manifest environment
        in case sdk_History S s releaseName of
             Inl _ \<Rightarrow> install_or_upgrade S prepare load s releaseName ls False
           | Inr histRels \<Rightarrow>
               (case releaserListToV1 histRels of
                  Inl e \<Rightarrow> (Inl e, s)
                | Inr rels \<Rightarrow>
                    if pending_release rels then (Inl (ErrReleasePending releaseName), s)
                    else install_or_upgrade S prepare load s releaseName ls True))"

definition ListReleases ::
  "('s, 'c) helm_sdk \<Rightarrow> (string \<Rightarrow> bool) \<Rightarrow> 's \<Rightarrow> label_selector \<Rightarrow> (client_error, stored option list) result" where
  "ListReleases S V s selector =
     (case NewRequirement V ManagedByLabel ManagedByValue of
        Inl e \<Rightarrow> Inl (SelectorInvalid e)
      | Inr req \<Rightarrow> bindE (wrap ''list'' [] (sdk_List S s (selector @ [req]))) releaserListToV1)"

definition GetRelease :: "('s, 'c) helm_sdk \<Rightarrow> 's \<Rightarrow> string \<Rightarrow> string \<Rightarrow> (client_error, stored) result" where
  "GetRelease S s project environment =
     (let releaseName = GenerateReleaseName project environment in
      bindE (wrap ''get'' releaseName (sdk_Get S s releaseName)) releaserToV1)"

definition uninstall_options :: "bool \<Rightarrow> uninstall" where
  "uninstall_options wait =
     \<lparr>un_IgnoreNotFound = True, un_KeepHistory = False,
      un_Wait = (if wait then LegacyStrategy else HookOnlyStrategy), un_Propagation = (if wait then ''foreground'' else [])\<rparr>"

definition DeleteRelease :: "('s, 'c) helm_sdk \<Rightarrow> 's \<Rightarrow> string \<Rightarrow> string \<Rightarrow> bool \<Rightarrow> (client_error, unit) result \<times> 's" where
  "DeleteRelease S s project environment wait =
     (if project = [] \<or> environment = [] then (Inl EmptyProjectOrEnvironment, s)
      else
        let releaseName = GenerateReleaseName project environment;
            (r, s') = sdk_Uninstall S s releaseName (uninstall_options wait)
        in (wrap ''uninstall'' releaseName r, s'))"

definition GetReleaseHistory :: "('s, 'c) helm_sdk \<Rightarrow> 's \<Rightarrow> string \<Rightarrow> string \<Rightarrow> (client_error, stored option list) result" where
  "GetReleaseHistory S s project environment =
     (if project = [] \<or> environment = [] then Inl EmptyProjectOrEnvironment
      else
        let releaseName = GenerateReleaseName project environment in
        bindE (wrap ''history'' releaseName (sdk_History S s releaseName)) releaserListToV1)"

definition RollbackRelease :: "('s, 'c) helm_sdk \<Rightarrow> 's \<Rightarrow> string \<Rightarrow> int \<Rightarrow> (client_error, unit) result \<times> 's" where
  "RollbackRelease S s releaseName revision =
     (if releaseName = [] then (Inl EmptyReleaseName, s)
      else let (r, s') = sdk_Rollback S s releaseName revision in (wrap ''rollback'' releaseName r, s'))"

section \<open>Queries\<close>

datatype query_error =
    QuerySelector selector_error
  | QueryList client_error
  | NoReleases string string
  | NilDereference

definition List_Run ::
  "('s, 'c) helm_sdk \<Rightarrow> (string \<Rightarrow> bool) \<Rightarrow> 's \<Rightarrow> string \<Rightarrow> string \<Rightarrow> (query_error, stored list) result" where
  "List_Run S V s project environment =
     (case BuildLabelSelector V project environment of
        Inl e \<Rightarrow> Inl (QuerySelector e)
      | Inr selector \<Rightarrow>
          (case ListReleases S V s selector of
             Inl e \<Rightarrow> Inl (QueryList e)
           | Inr releases \<Rightarrow> Inr (List.map_filter (\<lambda>r. r) releases)))"

text \<open>
  The comparison of the sort reads the names of both releases: with two entries or more every entry
  is read, and a nil entry panics.
\<close>

definition Status_Run ::
  "('s, 'c) helm_sdk \<Rightarrow> (string \<Rightarrow> bool) \<Rightarrow> 's \<Rightarrow> string \<Rightarrow> string \<Rightarrow> (query_error, stored option list) result" where
  "Status_Run S V s project environment =
     (case BuildLabelSelector V project environment of
        Inl e \<Rightarrow> Inl (QuerySelector e)
      | Inr selector \<Rightarrow>
          (case ListReleases S V s selector of
             Inl e \<Rightarrow> Inl (QueryList e)
           | Inr releases \<Rightarrow>
               if releases = [] then Inl (NoReleases project environment)
               else if length releases \<ge> 2 \<and> None \<in> set releases then Inl NilDereference
               else Inr (sort_key (\<lambda>r. case r of None \<Rightarrow> [] | Some rel \<Rightarrow> st_Name rel) releases)))"

section \<open>Selectors\<close>

text \<open>
  a selector selects exactly what it was built from: the objects whose project, component
  and environment labels have the given values, an empty argument meaning any value, the
  environment in its label-safe form. The selector of the queries and of the Jobs is that of
  \<open>BuildSelector\<close> without a component.
\<close>

theorem selector_exact:
  "(\<forall>sel. BuildSelector V project component environment = Inr sel \<longrightarrow>
      selector_matches sel ls = ((project = [] \<or> gm_get ls ProjectLabel = Some project)
        \<and> (component = [] \<or> gm_get ls ComponentLabel = Some component)
        \<and> (environment = [] \<or> gm_get ls EnvironmentLabel = Some (K8sSafe (NormalizeEnv environment)))))
   \<and> BuildLabelSelector V project environment = BuildSelector V project [] environment"
proof (intro conjI allI impI)
  fix sel
  assume "BuildSelector V project component environment = Inr sel"
  then show "selector_matches sel ls = ((project = [] \<or> gm_get ls ProjectLabel = Some project)
        \<and> (component = [] \<or> gm_get ls ComponentLabel = Some component)
        \<and> (environment = [] \<or> gm_get ls EnvironmentLabel = Some (K8sSafe (NormalizeEnv environment))))"
    by (auto simp: BuildSelector_def WithProject_def WithComponent_def WithEnvironment_def NewRequirement_def selector_matches_def split: if_splits)
qed (simp add: BuildSelector_def BuildLabelSelector_def WithProject_def WithComponent_def WithEnvironment_def NewRequirement_def)

theorem selector_exact_witness:
  "\<exists>sel. BuildSelector (\<lambda>v. CHR ''/'' \<notin> set v) ''shop'' [] ''review/pr-9'' = Inr sel
     \<and> selector_matches sel [(ProjectLabel, ''shop''), (EnvironmentLabel, ''review-pr-9'')] \<and> \<not> selector_matches sel [(ProjectLabel, ''shop''), (EnvironmentLabel, ''prod'')]"
proof -
  let ?V = "\<lambda>v. CHR ''/'' \<notin> set (v :: string)"
  have "is_ok (BuildSelector ?V ''shop'' [] ''review/pr-9'')" by code_simp
  then obtain sel where sel: "BuildSelector ?V ''shop'' [] ''review/pr-9'' = Inr sel" by (auto simp: is_ok_iff)
  have "gm_get [(ProjectLabel, ''shop''), (EnvironmentLabel, ''review-pr-9'')] ProjectLabel = Some ''shop''"
    "gm_get [(ProjectLabel, ''shop''), (EnvironmentLabel, ''review-pr-9'')] EnvironmentLabel = Some (K8sSafe (NormalizeEnv ''review/pr-9''))"
    "gm_get [(ProjectLabel, ''shop''), (EnvironmentLabel, ''prod'')] EnvironmentLabel \<noteq> Some (K8sSafe (NormalizeEnv ''review/pr-9''))"
    by code_simp+
  with sel selector_exact [of ?V "''shop''" "[]" "''review/pr-9''"] show ?thesis by auto
qed

section \<open>Installing\<close>

lemma hd_sort_key:
  assumes "xs \<noteq> []"
  shows "hd (sort_key f xs) \<in> set xs" and "\<And>y. y \<in> set xs \<Longrightarrow> f (hd (sort_key f xs)) \<le> f y"
proof -
  have set: "set (sort_key f xs) = set xs" by simp
  then have "sort_key f xs \<noteq> []" using assms by (metis set_empty)
  then obtain x ys where ys: "sort_key f xs = x # ys" by (metis neq_Nil_conv)
  show "hd (sort_key f xs) \<in> set xs" using set unfolding ys by auto
  show "f (hd (sort_key f xs)) \<le> f y" if mem: "y \<in> set xs" for y
  proof -
    have "sorted (map f (x # ys))" unfolding ys [symmetric] by (rule sorted_sort_key)
    moreover have "y \<in> set (x # ys)" using mem set unfolding ys by simp
    ultimately show ?thesis unfolding ys by auto
  qed
qed

lemma newestRelease_newest:
  assumes "Some q \<in> set rels"
  obtains r where "newestRelease rels = Some r" and "Some r \<in> set rels" and "st_Version q \<le> st_Version r"
proof -
  have ne: "rels \<noteq> []" using assms by auto
  note h = hd_sort_key [OF ne, where f = newer_key]
  from h(2) [OF assms] obtain r where r: "hd (sort_key newer_key rels) = Some r" and "st_Version q \<le> st_Version r"
    by (cases "hd (sort_key newer_key rels)") (auto simp: newer_key_def)
  with h(1) ne that [of r] show thesis by (simp add: newestRelease_def)
qed

text \<open>
  C17: an installation never interferes with another one. When the newest revision of the
  release is pending, whatever the order in which the history lists the revisions and whatever
  older ones say, nothing is installed or upgraded and the state of Helm is unchanged; a dry run
  changes nothing either. Otherwise an existing release is upgraded and a missing one installed,
  never both.
\<close>

theorem install_respects_pending:
  assumes "sdk_History S s (GenerateReleaseName (s_Project manifest) environment) = Inr hist" and "releaserListToV1 hist = Inr rels"
    and "Some r \<in> set rels" and "\<forall>q. Some q \<in> set rels \<longrightarrow> q = r \<or> st_Version q < st_Version r"
  shows "(st_Status r = Some status \<and> IsPending status \<longrightarrow>
            InstallApp S render prepare load s manifest environment False
              = (Inl (ErrReleasePending (GenerateReleaseName (s_Project manifest) environment)), s))
       \<and> ((\<forall>status. st_Status r = Some status \<longrightarrow> \<not> IsPending status) \<and> prepare = Some p \<and> load p = Some ch \<longrightarrow>
            InstallApp S render prepare load s manifest environment False
              = apfst (wrap ''upgrade'' (GenerateReleaseName (s_Project manifest) environment))
                  (sdk_Upgrade S s (GenerateReleaseName (s_Project manifest) environment) (release_labels manifest environment) ch))
       \<and> snd (InstallApp S render prepare load s manifest environment True) = s"
proof -
  obtain q where "newestRelease rels = Some q" "Some q \<in> set rels" "st_Version r \<le> st_Version q"
    by (rule newestRelease_newest [OF assms(3)])
  with assms(4) have n: "newestRelease rels = Some r" by fastforce
  let ?name = "GenerateReleaseName (s_Project manifest) environment"
  have pend: "pending_release rels = (case st_Status r of None \<Rightarrow> False | Some status \<Rightarrow> IsPending status)"
    by (simp add: pending_release_def n)
  show ?thesis
  proof (intro conjI impI)
    assume "st_Status r = Some status \<and> IsPending status"
    then show "InstallApp S render prepare load s manifest environment False = (Inl (ErrReleasePending ?name), s)"
      by (simp add: InstallApp_def Let_def assms(1,2) pend)
  next
    assume "(\<forall>status. st_Status r = Some status \<longrightarrow> \<not> IsPending status) \<and> prepare = Some p \<and> load p = Some ch"
    then have "\<not> pending_release rels" "prepare = Some p" "load p = Some ch" by (auto simp: pend split: option.splits)
    then show "InstallApp S render prepare load s manifest environment False
        = apfst (wrap ''upgrade'' ?name) (sdk_Upgrade S s ?name (release_labels manifest environment) ch)"
      by (simp add: InstallApp_def install_or_upgrade_def assms(1,2) Let_def)
  qed (simp add: InstallApp_def)
qed

section \<open>Finding a release again\<close>

text \<open>
  What is relied on of the SDK: \<open>labels_of\<close> gives the labels of the latest release of a name. A successful
  installation stores its labels, an upgrade overrides the old ones with its own, and a listing has
  exactly the releases whose labels the selector selects.
\<close>

definition helm_laws :: "('s, 'c) helm_sdk \<Rightarrow> ('s \<Rightarrow> string \<Rightarrow> string gomap option) \<Rightarrow> bool" where
  "helm_laws S labels_of =
     ((\<forall>s n ls ch s'. sdk_Install S s n ls ch = (Inr (), s') \<longrightarrow> labels_of s' n = Some ls)
      \<and> (\<forall>s n ls ch s'. sdk_Upgrade S s n ls ch = (Inr (), s') \<longrightarrow>
            (\<exists>ls'. labels_of s' n = Some ls' \<and> (\<forall>k v. gm_get ls k = Some v \<longrightarrow> gm_get ls' k = Some v)))
      \<and> (\<forall>s sel rs. sdk_List S s sel = Inr rs \<longrightarrow>
            (\<forall>r \<in> set rs. r \<noteq> Some OtherRelease)
            \<and> (\<forall>n. (\<exists>r. (Some (V1Pointer r) \<in> set rs \<or> Some (V1Value r) \<in> set rs) \<and> st_Name r = n)
                   = (\<exists>ls. labels_of s n = Some ls \<and> selector_matches sel ls))))"

lemma helm_laws_install: "helm_laws S labels_of \<Longrightarrow> sdk_Install S s n ls ch = (Inr (), s') \<Longrightarrow> labels_of s' n = Some ls"
  unfolding helm_laws_def by (elim conjE) blast

lemma helm_laws_upgrade:
  "helm_laws S labels_of \<Longrightarrow> sdk_Upgrade S s n ls ch = (Inr (), s') \<Longrightarrow>
     \<exists>ls'. labels_of s' n = Some ls' \<and> (\<forall>k v. gm_get ls k = Some v \<longrightarrow> gm_get ls' k = Some v)"
  unfolding helm_laws_def by (elim conjE) blast

lemma helm_laws_list:
  "helm_laws S labels_of \<Longrightarrow> sdk_List S s sel = Inr rs \<Longrightarrow>
     (\<exists>r. (Some (V1Pointer r) \<in> set rs \<or> Some (V1Value r) \<in> set rs) \<and> st_Name r = n)
       = (\<exists>ls. labels_of s n = Some ls \<and> selector_matches sel ls)"
  unfolding helm_laws_def by (elim conjE) blast

lemma releaserListToV1_set:
  "releaserListToV1 rs = Inr out \<Longrightarrow> Some r \<in> set out \<longleftrightarrow> Some (V1Pointer r) \<in> set rs \<or> Some (V1Value r) \<in> set rs"
  by (induction rs arbitrary: out rule: releaserListToV1.induct) (auto simp: releaserToV1_def split: releaser.splits)

lemma apfst_wrap_ok: "apfst (wrap op n) u = (Inr (), s') \<Longrightarrow> u = (Inr (), s')"
  by (cases u; cases "fst u") (simp_all add: wrap_def)

lemma install_or_upgrade_ok:
  "install_or_upgrade S prepare load s n ls up = (Inr (), s') \<Longrightarrow>
     \<exists>ch. sdk_Install S s n ls ch = (Inr (), s') \<or> sdk_Upgrade S s n ls ch = (Inr (), s')"
  by (auto simp: install_or_upgrade_def dest: apfst_wrap_ok split: option.splits if_splits)

lemma InstallApp_ok:
  assumes "InstallApp S render prepare load s manifest environment False = (Inr (), s')"
  shows "\<exists>up. install_or_upgrade S prepare load s (GenerateReleaseName (s_Project manifest) environment)
                (release_labels manifest environment) up = (Inr (), s')"
  using assms by (auto simp: InstallApp_def Let_def split: sum.splits if_splits)

lemma InstallApp_labels:
  assumes "helm_laws S labels_of" and "InstallApp S render prepare load s manifest environment False = (Inr (), s')"
  obtains ls where "labels_of s' (GenerateReleaseName (s_Project manifest) environment) = Some ls"
    and "gm_get ls ProjectLabel = Some (s_Project manifest)" and "gm_get ls EnvironmentLabel = Some environment"
    and "gm_get ls ManagedByLabel = Some ManagedByValue"
proof -
  let ?name = "GenerateReleaseName (s_Project manifest) environment"
  let ?ls = "release_labels manifest environment"
  obtain up where "install_or_upgrade S prepare load s ?name ?ls up = (Inr (), s')" using InstallApp_ok [OF assms(2)] by auto
  from install_or_upgrade_ok [OF this]
  obtain ch where "sdk_Install S s ?name ?ls ch = (Inr (), s') \<or> sdk_Upgrade S s ?name ?ls ch = (Inr (), s')" by auto
  then obtain ls where ls: "labels_of s' ?name = Some ls" and sub: "\<And>k v. gm_get ?ls k = Some v \<Longrightarrow> gm_get ls k = Some v"
    using helm_laws_install [OF assms(1)] helm_laws_upgrade [OF assms(1)] by metis
  have "gm_get ?ls ProjectLabel = Some (s_Project manifest)" "gm_get ?ls EnvironmentLabel = Some environment"
    "gm_get ?ls ManagedByLabel = Some ManagedByValue"
    by (simp_all add: release_labels_def gm_get_Cons ProjectLabel_def EnvironmentLabel_def ManagedByLabel_def ManagedByValue_def)
  from sub [OF this(1)] sub [OF this(2)] sub [OF this(3)] ls show thesis by (intro that)
qed

text \<open>
  C19: a deployed release is listed under its environment exactly when the name of the environment
  is its own label-safe form. Releases are labelled with the environment as it was given, but queries
  select the label-safe form: after a deployment to an environment such as \<open>review/pr-9\<close>, which is
  no label value, listing that environment does not show the release.
\<close>

theorem release_listed_iff_plain:
  assumes "helm_laws S labels_of" and "InstallApp S render prepare load s manifest environment False = (Inr (), s')"
    and "environment \<noteq> []" and "List_Run S V s' (s_Project manifest) environment = Inr rels"
  shows "(\<exists>r \<in> set rels. st_Name r = GenerateReleaseName (s_Project manifest) environment)
           \<longleftrightarrow> environment = K8sSafe (NormalizeEnv environment)"
proof -
  obtain ls where ls: "labels_of s' (GenerateReleaseName (s_Project manifest) environment) = Some ls"
    "gm_get ls ProjectLabel = Some (s_Project manifest)" "gm_get ls EnvironmentLabel = Some environment"
    "gm_get ls ManagedByLabel = Some ManagedByValue"
    by (rule InstallApp_labels [OF assms(1,2)])
  from assms(4) obtain sel out where sel: "BuildLabelSelector V (s_Project manifest) environment = Inr sel"
    and l: "ListReleases S V s' sel = Inr out" and rels: "rels = List.map_filter (\<lambda>r. r) out"
    by (auto simp: List_Run_def split: sum.splits)
  from l obtain rs where rs: "sdk_List S s' (sel @ [(ManagedByLabel, ManagedByValue)]) = Inr rs" and out: "releaserListToV1 rs = Inr out"
    by (auto simp: ListReleases_def NewRequirement_def wrap_def split: sum.splits if_splits)
  let ?name = "GenerateReleaseName (s_Project manifest) environment"
  have mem: "r \<in> set rels \<longleftrightarrow> Some r \<in> set out" for r by (force simp: rels List.map_filter_def)
  have "(\<exists>r \<in> set rels. st_Name r = ?name) = (\<exists>r. (Some (V1Pointer r) \<in> set rs \<or> Some (V1Value r) \<in> set rs) \<and> st_Name r = ?name)"
    using releaserListToV1_set [OF out] mem by blast
  also have "\<dots> = (\<exists>ls. labels_of s' ?name = Some ls \<and> selector_matches (sel @ [(ManagedByLabel, ManagedByValue)]) ls)"
    by (rule helm_laws_list [OF assms(1) rs])
  also have "\<dots> = selector_matches (sel @ [(ManagedByLabel, ManagedByValue)]) ls" by (simp add: ls(1))
  also have "\<dots> = (environment = K8sSafe (NormalizeEnv environment))"
    using sel assms(3) ls(2-4)
    by (auto simp: selector_matches_def BuildLabelSelector_def NewRequirement_def split: if_splits)
  finally show ?thesis .
qed

section \<open>Examples\<close>

definition ex_stored :: "string \<Rightarrow> string gomap \<Rightarrow> stored" where
  "ex_stored name ls = \<lparr>st_Name = name, st_Namespace = ''default'', st_Version = 1, st_Status = Some ''deployed'',
     st_LastDeployed = None, st_Manifest = [], st_Labels = ls\<rparr>"

definition ex_listing :: "string gomap gomap \<Rightarrow> label_selector \<Rightarrow> releaser option list" where
  "ex_listing s sel = map (\<lambda>n. Some (V1Pointer (ex_stored n (gm_get_or [] s n)))) (filter (\<lambda>n. selector_matches sel (gm_get_or [] s n)) (map fst s))"

text \<open>A storage that keeps the labels of every release; \<open>history\<close> is what it says of every release.\<close>

definition ex_sdk :: "releaser option list option \<Rightarrow> (string gomap gomap, unit) helm_sdk" where
  "ex_sdk history =
     \<lparr>sdk_History = \<lambda>_ _. case history of
        None \<Rightarrow> Inl \<lparr>he_ReleaseNotFound = True, he_ReleaseExists = False, he_Reason = NoReason, he_NetOp = False, he_Text = []\<rparr>
      | Some rs \<Rightarrow> Inr rs,
      sdk_Get = \<lambda>s n. case gm_get s n of
        None \<Rightarrow> Inl \<lparr>he_ReleaseNotFound = True, he_ReleaseExists = False, he_Reason = NoReason, he_NetOp = False, he_Text = []\<rparr>
      | Some ls \<Rightarrow> Inr (V1Pointer (ex_stored n ls)),
      sdk_List = \<lambda>s sel. Inr (ex_listing s sel),
      sdk_Install = \<lambda>s n ls _. (Inr (), gm_put n ls s),
      sdk_Upgrade = \<lambda>s n ls _. (Inr (), gm_put n ls s),
      sdk_Uninstall = \<lambda>s n _. (Inr (), gm_del n s),
      sdk_Rollback = \<lambda>s n _. (Inr (), s)\<rparr>"

definition ex_manifest :: "int Spec" where
  "ex_manifest = \<lparr>s_APIVersion = ''v1'', s_Project = ''shop'', s_Environments = [], s_Components = [], s_Tasks = []\<rparr>"

lemma gm_get_or_get: "gm_get m k = Some v \<Longrightarrow> gm_get_or d m k = v"
  by (simp add: gm_get_or_def)

theorem install_respects_pending_witness:
  "InstallApp (ex_sdk (Some [Some (V1Pointer ((ex_stored ''shop-prod'' [])\<lparr>st_Version := 1\<rparr>)),
       Some (V1Pointer ((ex_stored ''shop-prod'' [])\<lparr>st_Version := 2, st_Status := Some ''pending-upgrade''\<rparr>))]))
     True (Some ()) Some [] ex_manifest ''prod'' False = (Inl (ErrReleasePending ''shop-prod''), [])"
proof -
  let ?a = "(ex_stored ''shop-prod'' [])\<lparr>st_Version := 1\<rparr>"
  let ?b = "(ex_stored ''shop-prod'' [])\<lparr>st_Version := 2, st_Status := Some ''pending-upgrade''\<rparr>"
  let ?S = "ex_sdk (Some [Some (V1Pointer ?a), Some (V1Pointer ?b)])"
  have n: "GenerateReleaseName (s_Project ex_manifest) ''prod'' = ''shop-prod''" by code_simp
  have "sdk_History ?S [] (GenerateReleaseName (s_Project ex_manifest) ''prod'') = Inr [Some (V1Pointer ?a), Some (V1Pointer ?b)]"
    by (simp add: ex_sdk_def)
  moreover have "releaserListToV1 [Some (V1Pointer ?a), Some (V1Pointer ?b)] = Inr [Some ?a, Some ?b]" by (simp add: releaserToV1_def)
  moreover have "Some ?b \<in> set [Some ?a, Some ?b]" by simp
  moreover have "\<forall>q. Some q \<in> set [Some ?a, Some ?b] \<longrightarrow> q = ?b \<or> st_Version q < st_Version ?b" by (simp add: ex_stored_def)
  moreover have "st_Status ?b = Some ''pending-upgrade'' \<and> IsPending ''pending-upgrade''" by (simp add: IsPending_def)
  ultimately show ?thesis
    using install_respects_pending [of ?S "[]" ex_manifest "''prod''" "[Some (V1Pointer ?a), Some (V1Pointer ?b)]" "[Some ?a, Some ?b]" ?b
        "''pending-upgrade''" True "Some ()" Some] unfolding n by blast
qed

lemma ex_listing_exact:
  "(\<exists>r. (Some (V1Pointer r) \<in> set (ex_listing s sel) \<or> Some (V1Value r) \<in> set (ex_listing s sel)) \<and> st_Name r = n)
     = (\<exists>ls. gm_get s n = Some ls \<and> selector_matches sel ls)" (is "?l = ?r")
proof -
  have keys: "n \<in> set (map fst s) \<longleftrightarrow> (\<exists>ls. gm_get s n = Some ls)" by (metis gm_get_None_keys not_None_eq set_map)
  have "?l \<longleftrightarrow> (\<exists>m \<in> set (filter (\<lambda>n. selector_matches sel (gm_get_or [] s n)) (map fst s)). st_Name (ex_stored m (gm_get_or [] s m)) = n)"
    unfolding ex_listing_def set_map by blast
  also have "\<dots> \<longleftrightarrow> n \<in> set (filter (\<lambda>n. selector_matches sel (gm_get_or [] s n)) (map fst s))" by (simp add: ex_stored_def)
  also have "\<dots> \<longleftrightarrow> ?r" using keys by (auto simp: gm_get_or_get)
  finally show ?thesis .
qed

lemma ex_sdk_laws: "helm_laws (ex_sdk history) gm_get"
proof -
  have "r \<noteq> Some OtherRelease" if "r \<in> set (ex_listing s sel)" for r s sel using that by (auto simp: ex_listing_def)
  then show ?thesis unfolding helm_laws_def by (simp add: ex_sdk_def ex_listing_exact)
qed

theorem release_listed_iff_plain_witness:
  "List_Run (ex_sdk None) (\<lambda>v. CHR ''/'' \<notin> set v) (snd (InstallApp (ex_sdk None) True (Some ()) Some [] ex_manifest ''review/pr-9'' False)) ''shop'' ''review/pr-9''
     = Inr []"
proof -
  let ?s = "snd (InstallApp (ex_sdk None) True (Some ()) Some [] ex_manifest ''review/pr-9'' False)"
  let ?V = "\<lambda>v. CHR ''/'' \<notin> set (v :: string)"
  have i: "InstallApp (ex_sdk None) True (Some ()) Some [] ex_manifest ''review/pr-9'' False = (Inr (), ?s)" by code_simp
  have l: "List_Run (ex_sdk None) ?V ?s (s_Project ex_manifest) ''review/pr-9'' = Inr []" by code_simp
  have "''review/pr-9'' \<noteq> K8sSafe (NormalizeEnv ''review/pr-9'')" by code_simp
  with release_listed_iff_plain [OF ex_sdk_laws i _ l] l show ?thesis by (simp add: ex_manifest_def)
qed

end
