(* ===== verification/Jobs.thy ===== *)
theory Jobs
  imports Releases
begin

text \<open>
  Task Jobs (\<open>internal/k8s/jobs.go\<close>) and the command that runs one (\<open>internal/cmd/run/run.go\<close>): building
  the Job of a task, creating it, waiting for it, and listing and deleting the Jobs of a project and
  environment. The API server is modelled by the Jobs it holds and the faults its next calls meet;
  what a poll of a Job sees, and when the context is over, is a parameter.
\<close>

section \<open>Jobs\<close>

record 'q container =
  ct_Name :: string
  ct_Image :: string
  ct_Env :: "(string \<times> string) list"
  ct_Command :: "string list"
  ct_Args :: "string list"
  ct_Requests :: "'q gomap"
  ct_SecurityContext :: "rstruct option"

record 'q pod_spec =
  po_RestartPolicy :: string
  po_AutomountServiceAccountToken :: bool
  po_NodeSelector :: "string gomap"
  po_Tolerations :: "jval list"
  po_SecurityContext :: "rstruct option"
  po_Containers :: "'q container list"

record 'q job =
  jb_Name :: string
  jb_GenerateName :: string
  jb_Namespace :: string
  jb_Labels :: "string gomap"
  jb_Annotations :: "string gomap"
  jb_CompletionMode :: string
  jb_Completions :: "32 word"
  jb_Parallelism :: "32 word"
  jb_BackoffLimit :: "32 word"
  jb_TTLSecondsAfterFinished :: "32 word"
  jb_ActiveDeadlineSeconds :: "64 word option"
  jb_PodLabels :: "string gomap"
  jb_PodAnnotations :: "string gomap"
  jb_Pod :: "'q pod_spec"

record 'q TaskJobOptions =
  jo_Project :: string
  jo_Environment :: string
  jo_Namespace :: string
  jo_TaskName :: string
  jo_Task :: "'q Task"
  jo_Count :: int
  jo_Parallelism :: int
  jo_Profile :: "'q PlatformProfile option"

definition jobGenerateNameMax :: nat where "jobGenerateNameMax = 57"
definition jobNotFoundLimit :: nat where "jobNotFoundLimit = 5"
definition DefaultCLIJobTTLSeconds :: int where "DefaultCLIJobTTLSeconds = 7 * 24 * 60 * 60"
definition LabelManagedBy :: string where "LabelManagedBy = LabelPrefix @ ''/managed-by''"

definition jobGenerateName :: "string \<Rightarrow> string \<Rightarrow> string" where
  "jobGenerateName release task =
     (let prefix = release @ ''-'' @ task @ ''-'' in
      if length prefix > jobGenerateNameMax then take jobGenerateNameMax prefix else prefix)"

definition resourceList :: "'q k8s_lib \<Rightarrow> 'q Resources \<Rightarrow> 'q gomap" where
  "resourceList L res =
     (if quantitySet L (CPU res) then [(''cpu'', the (CPU res))] else [])
     @ (if quantitySet L (Memory res) then [(''memory'', the (Memory res))] else [])
     @ (if quantitySet L (EphemeralStorage res) then [(''ephemeral-storage'', the (EphemeralStorage res))] else [])"

text \<open>The pod, its labels and its annotations with a profile applied.\<close>

definition applyProfileToPod ::
  "'q pod_spec \<Rightarrow> string gomap \<Rightarrow> string gomap \<Rightarrow> 'q PlatformProfile option \<Rightarrow> 'q pod_spec \<times> string gomap \<times> string gomap" where
  "applyProfileToPod pod ls annotations profile =
     (case profile of
        None \<Rightarrow> (pod, ls, annotations)
      | Some p \<Rightarrow>
          let pod = (if pp_NodeSelector p \<noteq> [] then pod\<lparr>po_NodeSelector := pp_NodeSelector p\<rparr> else pod);
              pod = (if pp_Tolerations p \<noteq> [] then pod\<lparr>po_Tolerations := pp_Tolerations p\<rparr> else pod);
              ls = (if pp_PodLabels p \<noteq> [] then gm_copy ls (pp_PodLabels p) else ls);
              annotations = (if pp_PodAnnotations p \<noteq> [] then pp_PodAnnotations p else annotations);
              pod = (case pp_SecurityContext p of Some sc \<Rightarrow> pod\<lparr>po_SecurityContext := Some sc\<rparr> | None \<Rightarrow> pod);
              pod = (case (pp_ContainerSecurityContext p, po_Containers pod) of
                       (Some sc, c # cs) \<Rightarrow> pod\<lparr>po_Containers := c\<lparr>ct_SecurityContext := Some sc\<rparr> # cs\<rparr>
                     | _ \<Rightarrow> pod)
          in (pod, ls, annotations))"

definition task_labels :: "'q TaskJobOptions \<Rightarrow> string gomap" where
  "task_labels opts =
     [(LabelProject, jo_Project opts), (LabelComponent, jo_TaskName opts),
      (LabelEnvironment, K8sSafe (NormalizeEnv (jo_Environment opts))), (LabelManagedBy, ManagedByValue)]"

definition BuildTaskJob :: "'q k8s_lib \<Rightarrow> 'q TaskJobOptions \<Rightarrow> (terr, 'q job) result" where
  "BuildTaskJob L opts =
     bindE (NewTaskJobSpec (jo_Task opts) (jo_Count opts) (jo_Parallelism opts)) (\<lambda>fs.
     let envName = K8sSafe (NormalizeEnv (jo_Environment opts));
         release = jo_Project opts @ ''-'' @ envName;
         ttl = (case TTLSecondsAfterFinished fs of Some t \<Rightarrow> t | None \<Rightarrow> word_of_int DefaultCLIJobTTLSeconds);
         container =
           \<lparr>ct_Name = jo_TaskName opts, ct_Image = j_Image fs,
            ct_Env = map (\<lambda>k. (k, gm_get_or [] (j_Env fs) k)) (sorted_keys (j_Env fs)),
            ct_Command = j_Command fs, ct_Args = j_Args fs,
            ct_Requests = resourceList L (j_Resources fs), ct_SecurityContext = None\<rparr>;
         pod = \<lparr>po_RestartPolicy = ''OnFailure'', po_AutomountServiceAccountToken = False, po_NodeSelector = [],
                po_Tolerations = [], po_SecurityContext = None, po_Containers = [container]\<rparr>;
         (pod, podLabels, podAnnotations) = applyProfileToPod pod (task_labels opts) [] (jo_Profile opts)
     in Inr \<lparr>jb_Name = [], jb_GenerateName = jobGenerateName release (jo_TaskName opts), jb_Namespace = jo_Namespace opts,
             jb_Labels = task_labels opts,
             jb_Annotations = [(AnnotationSource, SourceSpec), (AnnotationProject, jo_Project opts)],
             jb_CompletionMode = ''Indexed'', jb_Completions = Completions fs, jb_Parallelism = Parallelism fs,
             jb_BackoffLimit = BackoffLimit fs, jb_TTLSecondsAfterFinished = ttl,
             jb_ActiveDeadlineSeconds = ActiveDeadlineSeconds fs,
             jb_PodLabels = podLabels, jb_PodAnnotations = podAnnotations, jb_Pod = pod\<rparr>)"

section \<open>The API server\<close>

text \<open>
  The head of the faults is the outcome of the next call: nothing, or a failure. A failed call was
  refused, or it took effect and its answer was lost, as on a timeout. A DELETE that takes effect
  removes the Job; the code asks for background propagation, which adds no finalizer.
  \<open>ja_Suffix\<close> gives the suffix that the server appends to the name prefix of the next Job.
\<close>

datatype call_fault = Refused (fault_reason: api_reason) | Lost (fault_reason: api_reason)

record 'q jobs_api =
  ja_Jobs :: "'q job list"
  ja_Faults :: "call_fault option list"
  ja_Suffix :: "nat \<Rightarrow> string"

definition next_fault :: "'q jobs_api \<Rightarrow> call_fault option \<times> 'q jobs_api" where
  "next_fault k = (case ja_Faults k of [] \<Rightarrow> (None, k) | f # fs \<Rightarrow> (f, k\<lparr>ja_Faults := fs\<rparr>))"

text \<open>What a write with outcome \<open>f\<close> leaves, when it would leave \<open>k'\<close> with success.\<close>

definition after_write :: "call_fault option \<Rightarrow> 'q jobs_api \<Rightarrow> 'q jobs_api \<Rightarrow> 'q jobs_api" where
  "after_write f k k' = (case f of Some (Refused _) \<Rightarrow> k | _ \<Rightarrow> k')"

definition CreateTaskJob :: "'q job \<Rightarrow> 'q jobs_api \<Rightarrow> (api_reason, 'q job) result \<times> 'q jobs_api" where
  "CreateTaskJob job k =
     (let (f, k) = next_fault k;
          created = job\<lparr>jb_Name := jb_GenerateName job @ ja_Suffix k (length (ja_Jobs k))\<rparr>
      in (case f of Some e \<Rightarrow> Inl (fault_reason e) | None \<Rightarrow> Inr created,
          after_write f k (k\<lparr>ja_Jobs := ja_Jobs k @ [created]\<rparr>)))"

datatype jobs_error = JobSelector selector_error | JobList api_reason | JobDelete "(string \<times> api_reason) list"

definition selected_job :: "string \<Rightarrow> label_selector \<Rightarrow> 'q job \<Rightarrow> bool" where
  "selected_job namespace sel j = (jb_Namespace j = namespace \<and> selector_matches sel (jb_Labels j))"

definition ListJobs ::
  "(string \<Rightarrow> bool) \<Rightarrow> string \<Rightarrow> string \<Rightarrow> string \<Rightarrow> 'q jobs_api \<Rightarrow> (jobs_error, 'q job list) result \<times> 'q jobs_api" where
  "ListJobs V namespace project environment k =
     (case BuildLabelSelector V project environment of
        Inl e \<Rightarrow> (Inl (JobSelector e), k)
      | Inr sel \<Rightarrow>
          let (f, k) = next_fault k in
          case f of Some e \<Rightarrow> (Inl (JobList (fault_reason e)), k) | None \<Rightarrow> (Inr (filter (selected_job namespace sel) (ja_Jobs k)), k))"

definition is_job :: "string \<Rightarrow> string \<Rightarrow> 'q job \<Rightarrow> bool" where
  "is_job namespace name j = (jb_Namespace j = namespace \<and> jb_Name j = name)"

definition delete_job :: "string \<Rightarrow> string \<Rightarrow> 'q jobs_api \<Rightarrow> api_reason option \<times> 'q jobs_api" where
  "delete_job namespace name k =
     (let (f, k) = next_fault k;
          k' = after_write f k (k\<lparr>ja_Jobs := filter (\<lambda>j. \<not> is_job namespace name j) (ja_Jobs k)\<rparr>)
      in case f of
           Some e \<Rightarrow> (Some (fault_reason e), k')
         | None \<Rightarrow> (if list_ex (is_job namespace name) (ja_Jobs k) then None else Some ReasonNotFound, k'))"

fun delete_each :: "string \<Rightarrow> string list \<Rightarrow> 'q jobs_api \<Rightarrow> (string \<times> api_reason) list \<times> 'q jobs_api" where
  "delete_each namespace [] k = ([], k)"
| "delete_each namespace (name # names) k =
     (let (f, k) = delete_job namespace name k;
          (errs, k) = delete_each namespace names k
      in (case f of Some e \<Rightarrow> if e = ReasonNotFound then errs else (name, e) # errs | None \<Rightarrow> errs, k))"

definition DeleteJobs ::
  "(string \<Rightarrow> bool) \<Rightarrow> string \<Rightarrow> string \<Rightarrow> string \<Rightarrow> 'q jobs_api \<Rightarrow> (jobs_error, unit) result \<times> 'q jobs_api" where
  "DeleteJobs V namespace project environment k =
     (case ListJobs V namespace project environment k of
        (Inl e, k) \<Rightarrow> (Inl e, k)
      | (Inr jobs, k) \<Rightarrow>
          let (errs, k) = delete_each namespace (map jb_Name jobs) k
          in (if errs = [] then Inr () else Inl (JobDelete errs), k))"

section \<open>Waiting\<close>

text \<open>
  What the poll of a Job finds: its completions, how many copies succeeded, and the message or
  reason of its failed condition where it is true; or the reason of a failed call.
\<close>

datatype job_poll = JobSeen "int option" int "(string \<times> string) option" | GetFailed api_reason

text \<open>\<open>jw_Over\<close>: the context is over before a poll; \<open>jw_OverDuring\<close>: it is over when the call of that poll returns.\<close>

record job_world =
  jw_Poll :: "nat \<Rightarrow> job_poll"
  jw_Over :: "nat \<Rightarrow> bool"
  jw_OverDuring :: "nat \<Rightarrow> bool"

datatype wait_error = ContextOver | JobGet api_reason | JobFailed string

definition isPermanentJobGet :: "api_reason \<Rightarrow> bool" where
  "isPermanentJobGet e = (e \<in> {ReasonForbidden, ReasonUnauthorized, ReasonInvalid, ReasonBadRequest})"

definition want_completions :: "int option \<Rightarrow> int" where
  "want_completions c = (case c of None \<Rightarrow> 1 | Some n \<Rightarrow> n)"

datatype poll_decision = Decided "(wait_error, unit) result" | Continue nat

definition poll_step :: "job_world \<Rightarrow> nat \<Rightarrow> nat \<Rightarrow> poll_decision" where
  "poll_step W n notFound =
     (case jw_Poll W n of
        GetFailed e \<Rightarrow>
          if jw_OverDuring W n then Decided (Inl (JobGet e))
          else if e = ReasonNotFound then
            (if Suc notFound \<ge> jobNotFoundLimit then Decided (Inl (JobGet e)) else Continue (Suc notFound))
          else if isPermanentJobGet e then Decided (Inl (JobGet e))
          else Continue 0
      | JobSeen completions succeeded failed \<Rightarrow>
          if succeeded \<ge> want_completions completions then Decided (Inr ())
          else case failed of
                 Some (msg, reason) \<Rightarrow> Decided (Inl (JobFailed (if msg = [] then reason else msg)))
               | None \<Rightarrow> Continue 0)"

partial_function (option) wait_job :: "job_world \<Rightarrow> nat \<Rightarrow> nat \<Rightarrow> (wait_error, unit) result option" where
  "wait_job W n notFound =
     (if jw_Over W n then Some (Inl ContextOver)
      else case poll_step W n notFound of Decided r \<Rightarrow> Some r | Continue notFound' \<Rightarrow> wait_job W (Suc n) notFound')"

declare wait_job.simps [code]

definition WaitForJob :: "job_world \<Rightarrow> (wait_error, unit) result option" where
  "WaitForJob W = wait_job W 0 0"

section \<open>Running a task\<close>

datatype ('q, 'e) run_error =
    NegativeOverride
  | ParallelismTooLarge
  | ParallelismAboveCount
  | LoadPlatform 'e
  | LoadSpec 'e
  | RunResolve "'q resolve_error"
  | TaskSkipped string string
  | UnknownTask string
  | ProfilesWithoutPlatform string
  | RunTimeout terr
  | ConfirmFailed 'e
  | TargetCluster 'e
  | KubernetesClient 'e
  | BuildJob terr
  | CreateJob api_reason
  | WaitJob wait_error

record RunOptions =
  ro_Task :: string
  ro_Environment :: string
  ro_Detach :: bool
  ro_Count :: int
  ro_Parallelism :: int
  ro_Yes :: bool

text \<open>What the session and the prompt answer; the question is asked with whether \<open>--yes\<close> was given.\<close>

record ('q, 'e) run_env =
  re_Platform :: "('e, 'q PlatformConfig option) result"
  re_Spec :: "'q PlatformConfig option \<Rightarrow> ('e, 'q Spec) result"
  re_Timeout :: int
  re_Confirm :: "bool \<Rightarrow> string \<Rightarrow> string \<Rightarrow> ('e, bool) result"
  re_Target :: "('e, string) result"
  re_Kubernetes :: "'e option"
  re_World :: job_world

definition resolveRunTask ::
  "'q k8s_lib \<Rightarrow> 'q Spec \<Rightarrow> 'q PlatformConfig option \<Rightarrow> string \<Rightarrow> string \<Rightarrow> (('q, 'e) run_error, 'q ResolvedTask) result" where
  "resolveRunTask L manifest platform environment name =
     (case platform of
        Some p \<Rightarrow>
          (case Resolve.Resolve L manifest (Some p) (NormalizeEnv environment) [] of
             Inl (_, e) \<Rightarrow> Inl (RunResolve e)
           | Inr (resolved, _) \<Rightarrow>
               (case gm_get (rs_Tasks resolved) name of
                  Some rt \<Rightarrow> Inr rt
                | None \<Rightarrow> if gm_has (s_Tasks manifest) name then Inl (TaskSkipped name environment) else Inl (UnknownTask name)))
      | None \<Rightarrow>
          (case MergedTask L manifest name of
             None \<Rightarrow> Inl (UnknownTask name)
           | Some merged \<Rightarrow>
               if (case t_Profiles merged of None \<Rightarrow> False | Some ps \<Rightarrow> ps \<noteq> []) then Inl (ProfilesWithoutPlatform name)
               else if t_Environments merged \<noteq> [] \<and> matchEnvKey environment (t_Environments merged) = None
               then Inl (TaskSkipped name environment)
               else Inr \<lparr>rt_Task = merged, rt_HookWeight = 0, rt_Profiles = [], rt_MergedProfile = None\<rparr>))"

text \<open>The outcome of a run that did not fail.\<close>

datatype run_outcome = RunCancelled | RunDetached string | RunCompleted string

definition executeRun ::
  "job_world \<Rightarrow> 'q job \<Rightarrow> bool \<Rightarrow> 'q jobs_api \<Rightarrow> ((('q, 'e) run_error, run_outcome) result \<times> 'q jobs_api) option" where
  "executeRun W job detach k =
     (case CreateTaskJob job k of
        (Inl e, k) \<Rightarrow> Some (Inl (CreateJob e), k)
      | (Inr created, k) \<Rightarrow>
          if detach then Some (Inr (RunDetached (jb_Name created)), k)
          else (case WaitForJob W of
                  None \<Rightarrow> None
                | Some (Inl e) \<Rightarrow> Some (Inl (WaitJob e), k)
                | Some (Inr _) \<Rightarrow> Some (Inr (RunCompleted (jb_Name created)), k)))"

definition check_overrides :: "RunOptions \<Rightarrow> ('q, 'e) run_error check" where
  "check_overrides opts =
     (if ro_Count opts < 0 \<or> ro_Parallelism opts < 0 then Some NegativeOverride
      else if ro_Parallelism opts > MaxFanoutParallelism then Some ParallelismTooLarge
      else if ro_Count opts > 0 \<and> ro_Parallelism opts > ro_Count opts then Some ParallelismAboveCount
      else None)"

definition ask :: "(('e, 'a) result) \<Rightarrow> ('e \<Rightarrow> 'f) \<Rightarrow> ('f, 'a) result" where
  "ask r err = (case r of Inl e \<Rightarrow> Inl (err e) | Inr x \<Rightarrow> Inr x)"

text \<open>The checks before the question, with the task to run.\<close>

definition prepare_run ::
  "'q k8s_lib \<Rightarrow> ('q, 'e) run_env \<Rightarrow> RunOptions \<Rightarrow> (('q, 'e) run_error, 'q Spec \<times> 'q ResolvedTask) result" where
  "prepare_run L E opts =
     (case check_overrides opts of
        Some e \<Rightarrow> Inl e
      | None \<Rightarrow>
          bindE (ask (re_Platform E) LoadPlatform) (\<lambda>platform.
          bindE (ask (re_Spec E platform) LoadSpec) (\<lambda>manifest.
          bindE (resolveRunTask L manifest platform (ro_Environment opts) (ro_Task opts)) (\<lambda>rt.
          case (if ro_Detach opts then None else CheckTaskTimeout (ro_Task opts) (rt_Task rt) (re_Timeout E)) of
            Some e \<Rightarrow> Inl (RunTimeout e)
          | None \<Rightarrow> Inr (manifest, rt)))))"

definition runTask ::
  "'q k8s_lib \<Rightarrow> ('q, 'e) run_env \<Rightarrow> RunOptions \<Rightarrow> 'q jobs_api \<Rightarrow> ((('q, 'e) run_error, run_outcome) result \<times> 'q jobs_api) option" where
  "runTask L E opts k =
     (case prepare_run L E opts of
        Inl e \<Rightarrow> Some (Inl e, k)
      | Inr (manifest, rt) \<Rightarrow>
          (case re_Confirm E (ro_Yes opts) (ro_Task opts) (ro_Environment opts) of
             Inl e \<Rightarrow> Some (Inl (ConfirmFailed e), k)
           | Inr False \<Rightarrow> Some (Inr RunCancelled, k)
           | Inr True \<Rightarrow>
               (case (re_Target E, re_Kubernetes E) of
                  (Inl e, _) \<Rightarrow> Some (Inl (TargetCluster e), k)
                | (Inr _, Some e) \<Rightarrow> Some (Inl (KubernetesClient e), k)
                | (Inr namespace, None) \<Rightarrow>
                    (case BuildTaskJob L \<lparr>jo_Project = s_Project manifest, jo_Environment = ro_Environment opts, jo_Namespace = namespace,
                         jo_TaskName = ro_Task opts, jo_Task = rt_Task rt, jo_Count = ro_Count opts, jo_Parallelism = ro_Parallelism opts,
                         jo_Profile = rt_MergedProfile rt\<rparr> of
                       Inl e \<Rightarrow> Some (Inl (BuildJob e), k)
                     | Inr job \<Rightarrow> executeRun (re_World E) job (ro_Detach opts) k))))"

section \<open>Deleting\<close>

lemma next_fault_jobs:
  assumes "next_fault k = (f, k')"
  shows "ja_Jobs k' = ja_Jobs k" and "set (ja_Faults k') \<subseteq> set (ja_Faults k)" and "f = Some e \<Longrightarrow> Some e \<in> set (ja_Faults k)"
  using assms by (auto simp: next_fault_def split: list.splits)

definition honest :: "'q jobs_api \<Rightarrow> bool" where
  "honest k = (\<forall>e. Some e \<in> set (ja_Faults k) \<longrightarrow> fault_reason e \<noteq> ReasonNotFound)"

lemma honest_code [code]: "honest k = list_all (\<lambda>f. case f of Some e \<Rightarrow> fault_reason e \<noteq> ReasonNotFound | None \<Rightarrow> True) (ja_Faults k)"
  by (auto simp: honest_def list_all_iff split: option.splits)

lemma honest_next: "next_fault k = (f, k') \<Longrightarrow> honest k \<Longrightarrow> honest k' \<and> (\<forall>e. f = Some e \<longrightarrow> fault_reason e \<noteq> ReasonNotFound)"
  using next_fault_jobs(2,3) by (fastforce simp: honest_def)

text \<open>A failed DELETE may or may not have removed its Job; any other has.\<close>

lemma delete_job_cases:
  assumes "delete_job namespace name k = (f, k')" and "honest k"
  obtains e where "f = Some e" and "e \<noteq> ReasonNotFound" and "ja_Jobs k' = ja_Jobs k \<or> ja_Jobs k' = filter (\<lambda>j. \<not> is_job namespace name j) (ja_Jobs k)"
      and "honest k'"
  | "f = None \<or> f = Some ReasonNotFound" and "ja_Jobs k' = filter (\<lambda>j. \<not> is_job namespace name j) (ja_Jobs k)" and "honest k'"
proof -
  obtain g k1 where g: "next_fault k = (g, k1)" by (metis surj_pair)
  note h = honest_next [OF g assms(2)] and j = next_fault_jobs(1) [OF g]
  have honest_jobs: "honest (k1\<lparr>ja_Jobs := js\<rparr>)" for js using h by (simp add: honest_def)
  show thesis
  proof (cases g)
    case None
    with g assms(1) j honest_jobs show thesis by (intro that(2)) (auto simp: delete_job_def after_write_def split: if_splits)
  next
    case (Some e)
    with g assms(1) h j honest_jobs show thesis by (cases e; intro that(1)) (auto simp: delete_job_def after_write_def)
  qed
qed

lemma delete_each_jobs:
  assumes "delete_each namespace names k = (errs, k')" and "distinct names" and "honest k"
  shows "fst ` set errs \<subseteq> set names
     \<and> (\<exists>gone. set names - fst ` set errs \<subseteq> gone \<and> gone \<subseteq> set names
          \<and> ja_Jobs k' = filter (\<lambda>j. \<not> (jb_Namespace j = namespace \<and> jb_Name j \<in> gone)) (ja_Jobs k))"
  using assms
proof (induction names arbitrary: k errs)
  case Nil
  then show ?case by auto
next
  case (Cons name names)
  obtain f k1 where f: "delete_job namespace name k = (f, k1)" by (metis surj_pair)
  obtain errs1 k2 where d: "delete_each namespace names k1 = (errs1, k2)" by (metis surj_pair)
  from Cons.prems(1) f d have k2: "k' = k2" and errs: "errs = (case f of Some e \<Rightarrow> if e = ReasonNotFound then errs1 else (name, e) # errs1 | None \<Rightarrow> errs1)"
    by auto
  from Cons.prems(2) have n: "name \<notin> set names" "distinct names" by auto
  have one: "honest k1" using delete_job_cases [OF f Cons.prems(3)] by metis
  from Cons.IH [OF d [folded k2] n(2) one] obtain gone where sub: "fst ` set errs1 \<subseteq> set names"
    and gone: "set names - fst ` set errs1 \<subseteq> gone" "gone \<subseteq> set names"
    and jobs: "ja_Jobs k' = filter (\<lambda>j. \<not> (jb_Namespace j = namespace \<and> jb_Name j \<in> gone)) (ja_Jobs k1)" by blast
  have more: "filter (\<lambda>j. \<not> (jb_Namespace j = namespace \<and> jb_Name j \<in> gone)) (filter (\<lambda>j. \<not> is_job namespace name j) js)
      = filter (\<lambda>j. \<not> (jb_Namespace j = namespace \<and> jb_Name j \<in> insert name gone)) js" for js :: "'a job list"
    by (auto simp: is_job_def intro!: filter_cong)
  from f Cons.prems(3) show ?case
  proof (cases rule: delete_job_cases)
    case (1 e)
    have e: "fst ` set errs = insert name (fst ` set errs1)" using 1(1,2) by (simp add: errs)
    from 1(3) show ?thesis
    proof
      assume "ja_Jobs k1 = ja_Jobs k"
      with sub gone jobs show ?thesis unfolding e by (intro conjI exI [of _ gone]) auto
    next
      assume "ja_Jobs k1 = filter (\<lambda>j. \<not> is_job namespace name j) (ja_Jobs k)"
      with sub gone jobs more show ?thesis unfolding e by (intro conjI exI [of _ "insert name gone"]) auto
    qed
  next
    case 2
    then have e: "errs = errs1" by (auto simp: errs)
    from 2(2) sub gone jobs more show ?thesis unfolding e by (intro conjI exI [of _ "insert name gone"]) auto
  qed
qed

lemma DeleteJobs_spec:
  assumes "DeleteJobs V namespace project environment k = (r, k')" and "BuildLabelSelector V project environment = Inr sel"
    and "distinct (map (\<lambda>j. (jb_Namespace j, jb_Name j)) (ja_Jobs k))" and "honest k"
  shows "filter (\<lambda>j. \<not> selected_job namespace sel j) (ja_Jobs k') = filter (\<lambda>j. \<not> selected_job namespace sel j) (ja_Jobs k)
     \<and> (r = Inr () \<longrightarrow> filter (selected_job namespace sel) (ja_Jobs k') = [])
     \<and> (\<forall>errs. r = Inl (JobDelete errs) \<longrightarrow>
          jb_Name ` set (filter (selected_job namespace sel) (ja_Jobs k')) \<subseteq> fst ` set errs
          \<and> fst ` set errs \<subseteq> jb_Name ` set (filter (selected_job namespace sel) (ja_Jobs k)))"
proof -
  obtain f k1 where f: "next_fault k = (f, k1)" by (metis surj_pair)
  note j1 = next_fault_jobs(1) [OF f] and h1 = honest_next [OF f assms(4)]
  show ?thesis
  proof (cases f)
    case (Some e)
    then have "r = Inl (JobList (fault_reason e))" "k' = k1" using assms(1,2) f by (auto simp: DeleteJobs_def ListJobs_def)
    then show ?thesis by (simp add: j1)
  next
    case None
    let ?sel = "filter (selected_job namespace sel) (ja_Jobs k)"
    have list: "ListJobs V namespace project environment k = (Inr ?sel, k1)" using None f assms(2) by (simp add: ListJobs_def j1)
    obtain errs k2 where d: "delete_each namespace (map jb_Name ?sel) k1 = (errs, k2)" by (metis surj_pair)
    from assms(1) list d have r: "r = (if errs = [] then Inr () else Inl (JobDelete errs))" and k': "k' = k2" by (auto simp: DeleteJobs_def)
    have ns: "map (\<lambda>j. (jb_Namespace j, jb_Name j)) ?sel = map (Pair namespace \<circ> jb_Name) ?sel"
      by (simp add: selected_job_def)
    have "distinct (map (\<lambda>j. (jb_Namespace j, jb_Name j)) ?sel)" using assms(3) by (rule distinct_map_filter)
    then have "distinct (map jb_Name ?sel)" unfolding ns by (simp add: distinct_map inj_on_def)
    from delete_each_jobs [OF d this] h1 obtain gone where sub: "fst ` set errs \<subseteq> jb_Name ` set ?sel"
      and gone: "jb_Name ` set ?sel - fst ` set errs \<subseteq> gone" "gone \<subseteq> jb_Name ` set ?sel"
      and jobs: "ja_Jobs k' = filter (\<lambda>j. \<not> (jb_Namespace j = namespace \<and> jb_Name j \<in> gone)) (ja_Jobs k)"
      by (auto simp: k' j1)
    have uniq: "selected_job namespace sel j" if "j \<in> set (ja_Jobs k)" "jb_Namespace j = namespace" "jb_Name j \<in> gone" for j
    proof -
      from that(3) gone(2) obtain i where i: "i \<in> set (ja_Jobs k)" "selected_job namespace sel i" "jb_Name j = jb_Name i" by auto
      have "inj_on (\<lambda>j. (jb_Namespace j, jb_Name j)) (set (ja_Jobs k))" using assms(3) by (simp add: distinct_map)
      then have "j = i" using that(1,2) i by (auto simp: selected_job_def dest: inj_onD)
      with i show ?thesis by simp
    qed
    have left: "jb_Name j \<in> fst ` set errs" if "j \<in> set (filter (selected_job namespace sel) (ja_Jobs k'))" for j
    proof -
      from that have j: "j \<in> set ?sel" "jb_Namespace j = namespace" "jb_Name j \<notin> gone" by (auto simp: jobs selected_job_def)
      with gone(1) show ?thesis by blast
    qed
    have "filter (\<lambda>j. \<not> selected_job namespace sel j) (ja_Jobs k') = filter (\<lambda>j. \<not> selected_job namespace sel j) (ja_Jobs k)"
      unfolding jobs filter_filter using uniq by (intro filter_cong) auto
    moreover have "filter (selected_job namespace sel) (ja_Jobs k') = []" if "r = Inr ()"
    proof -
      from that r have "errs = []" by (simp split: if_splits)
      with left have "set (filter (selected_job namespace sel) (ja_Jobs k')) = {}" by fastforce
      then show ?thesis by (simp only: set_empty)
    qed
    moreover have "es = errs" if "r = Inl (JobDelete es)" for es using that r by (simp split: if_splits)
    ultimately show ?thesis using left sub by blast
  qed
qed


section \<open>Waiting\<close>

definition done_at :: "job_world \<Rightarrow> nat \<Rightarrow> bool" where
  "done_at W k = (case jw_Poll W k of JobSeen completions succeeded _ \<Rightarrow> succeeded \<ge> want_completions completions | GetFailed _ \<Rightarrow> False)"

definition not_found_at :: "job_world \<Rightarrow> nat \<Rightarrow> bool" where
  "not_found_at W k = (jw_Poll W k = GetFailed ReasonNotFound)"

text \<open>What poll \<open>k\<close> must have seen for the wait to end with \<open>r\<close>.\<close>

definition explains :: "job_world \<Rightarrow> nat \<Rightarrow> (wait_error, unit) result \<Rightarrow> bool" where
  "explains W k r =
     (case r of
        Inr _ \<Rightarrow> done_at W k
      | Inl ContextOver \<Rightarrow> jw_Over W k
      | Inl (JobFailed m) \<Rightarrow> \<not> done_at W k \<and> (\<exists>c n msg reason. jw_Poll W k = JobSeen c n (Some (msg, reason)) \<and> m = (if msg = [] then reason else msg))
      | Inl (JobGet e) \<Rightarrow> jw_Poll W k = GetFailed e
          \<and> (jw_OverDuring W k \<or> isPermanentJobGet e
             \<or> (e = ReasonNotFound \<and> jobNotFoundLimit \<le> Suc k \<and> (\<forall>i. Suc k \<le> i + jobNotFoundLimit \<and> i \<le> k \<longrightarrow> not_found_at W i))))"

text \<open>The counter: how many polls in a row, up to the last, found no Job.\<close>

definition counted :: "job_world \<Rightarrow> nat \<Rightarrow> nat \<Rightarrow> bool" where
  "counted W n notFound = (notFound \<le> n \<and> notFound < jobNotFoundLimit \<and> (\<forall>i. n \<le> i + notFound \<and> i < n \<longrightarrow> not_found_at W i))"

lemma counted_Suc: "counted W n nf \<Longrightarrow> not_found_at W n \<Longrightarrow> n \<le> i + nf \<Longrightarrow> i \<le> n \<Longrightarrow> not_found_at W i"
  by (cases "i = n") (auto simp: counted_def)

lemma counted_0 [simp]: "counted W n 0"
  by (auto simp: counted_def jobNotFoundLimit_def)

lemma explains_simps:
  "explains W k (Inr ()) = done_at W k"
  "explains W k (Inl ContextOver) = jw_Over W k"
  "explains W k (Inl (JobFailed m)) =
     (\<not> done_at W k \<and> (\<exists>c n msg reason. jw_Poll W k = JobSeen c n (Some (msg, reason)) \<and> m = (if msg = [] then reason else msg)))"
  "explains W k (Inl (JobGet e)) =
     (jw_Poll W k = GetFailed e \<and> (jw_OverDuring W k \<or> isPermanentJobGet e
        \<or> (e = ReasonNotFound \<and> jobNotFoundLimit \<le> Suc k \<and> (\<forall>i. Suc k \<le> i + jobNotFoundLimit \<and> i \<le> k \<longrightarrow> not_found_at W i))))"
  by (simp_all add: explains_def)

lemma poll_step_Decided:
  assumes "poll_step W n notFound = Decided r" and "counted W n notFound"
  shows "explains W n r"
proof (cases "jw_Poll W n")
  case (JobSeen c m f)
  note seen = this
  show ?thesis
  proof (cases "want_completions c \<le> m")
    case True
    with seen assms(1) have "r = Inr ()" by (simp add: poll_step_def)
    with True seen show ?thesis by (simp add: explains_simps done_at_def)
  next
    case False
    with seen assms(1) obtain msg reason where "f = Some (msg, reason)" "r = Inl (JobFailed (if msg = [] then reason else msg))"
      by (cases f) (auto simp: poll_step_def)
    with False seen show ?thesis by (auto simp: explains_simps done_at_def)
  qed
next
  case (GetFailed e)
  show ?thesis
  proof (cases "jw_OverDuring W n \<or> isPermanentJobGet e")
    case True
    then have "r = Inl (JobGet e)"
      using GetFailed assms(1) by (cases "e = ReasonNotFound") (auto simp: poll_step_def isPermanentJobGet_def split: if_splits)
    with True GetFailed show ?thesis by (auto simp: explains_simps)
  next
    case False
    with GetFailed assms(1) have e: "e = ReasonNotFound" and r: "r = Inl (JobGet e)" and lim: "jobNotFoundLimit \<le> Suc notFound"
      by (auto simp: poll_step_def split: if_splits)
    have nf: "not_found_at W n" using GetFailed e by (simp add: not_found_at_def)
    have le: "notFound \<le> n" "notFound < jobNotFoundLimit" using assms(2) by (auto simp: counted_def)
    have "not_found_at W i" if "Suc n \<le> i + jobNotFoundLimit" "i \<le> n" for i
      by (rule counted_Suc [OF assms(2) nf _ that(2)]) (use that le lim in linarith)
    moreover have "jobNotFoundLimit \<le> Suc n" using lim le by linarith
    ultimately show ?thesis using GetFailed e unfolding r explains_simps by blast
  qed
qed

lemma poll_step_Continue:
  assumes "poll_step W n notFound = Continue notFound'" and "counted W n notFound"
  shows "\<not> done_at W n \<and> counted W (Suc n) notFound'"
proof (cases "jw_Poll W n")
  case (JobSeen c m f)
  then show ?thesis
    using assms(1) by (cases f) (auto simp: poll_step_def done_at_def split: if_splits)
next
  case (GetFailed e)
  then have nd: "\<not> done_at W n" by (simp add: done_at_def)
  show ?thesis
  proof (cases "e = ReasonNotFound")
    case True
    then have nf: "not_found_at W n" using GetFailed by (simp add: not_found_at_def)
    from True GetFailed assms(1) have n': "notFound' = Suc notFound" "Suc notFound < jobNotFoundLimit"
      by (auto simp: poll_step_def split: if_splits)
    have "counted W (Suc n) notFound'"
      using counted_Suc [OF assms(2) nf] assms(2) n' by (auto simp: counted_def)
    with nd show ?thesis by simp
  next
    case False
    with nd GetFailed assms(1) show ?thesis by (auto simp: poll_step_def split: if_splits)
  qed
qed

lemma wait_job_explained:
  assumes "wait_job W n notFound = Some r" and "counted W n notFound"
  shows "\<exists>k \<ge> n. explains W k r \<and> (\<forall>i. n \<le> i \<and> i < k \<longrightarrow> \<not> done_at W i \<and> \<not> jw_Over W i)"
proof -
  let ?P = "\<lambda>W n notFound r. counted W n notFound \<longrightarrow>
    (\<exists>k \<ge> n. explains W k r \<and> (\<forall>i. n \<le> i \<and> i < k \<longrightarrow> \<not> done_at W i \<and> \<not> jw_Over W i))"
  have "?P W n notFound r"
  proof (rule wait_job.raw_induct [where P = ?P, OF _ assms(1)])
    fix rec_wait W n notFound r
    assume IH: "\<And>W n notFound r. rec_wait W n notFound = Some r \<Longrightarrow> ?P W n notFound r"
      and body: "(if jw_Over W n then Some (Inl ContextOver)
        else case poll_step W n notFound of Decided r \<Rightarrow> Some r | Continue notFound' \<Rightarrow> rec_wait W (Suc n) notFound') = Some r"
    show "?P W n notFound r"
    proof (intro impI, cases "jw_Over W n")
      case True
      then have "explains W n r" using body by (auto simp: explains_simps)
      then show "\<exists>k \<ge> n. explains W k r \<and> (\<forall>i. n \<le> i \<and> i < k \<longrightarrow> \<not> done_at W i \<and> \<not> jw_Over W i)" by (intro exI [of _ n]) auto
    next
      assume c: "counted W n notFound"
      case False
      show "\<exists>k \<ge> n. explains W k r \<and> (\<forall>i. n \<le> i \<and> i < k \<longrightarrow> \<not> done_at W i \<and> \<not> jw_Over W i)"
      proof (cases "poll_step W n notFound")
        case (Decided r')
        with body False poll_step_Decided [OF Decided c] show ?thesis by (intro exI [of _ n]) auto
      next
        case (Continue nf)
        note st = poll_step_Continue [OF Continue c]
        from body False Continue have "rec_wait W (Suc n) nf = Some r" by simp
        from IH [OF this] st obtain k where k: "Suc n \<le> k" "explains W k r"
          "\<And>i. Suc n \<le> i \<Longrightarrow> i < k \<Longrightarrow> \<not> done_at W i \<and> \<not> jw_Over W i" by auto
        have "\<not> done_at W i \<and> \<not> jw_Over W i" if "n \<le> i" "i < k" for i
          using that k(3) [of i] st False by (cases "i = n") auto
        with k show ?thesis by (intro exI [of _ k]) auto
      qed
    qed
  qed
  with assms(2) show ?thesis by simp
qed

lemma wait_job_ends:
  assumes "jw_Over W k" and "n \<le> k"
  shows "\<exists>r. wait_job W n notFound = Some r"
  using assms(2)
proof (induction "k - n" arbitrary: n notFound rule: less_induct)
  case less
  show ?case
  proof (cases "jw_Over W n")
    case True
    then show ?thesis by (simp add: wait_job.simps [of W n])
  next
    case False
    then have "n < k" using assms(1) less.prems by (cases "n = k") auto
    then have "\<exists>r. wait_job W (Suc n) nf = Some r" for nf using less.hyps [of "Suc n"] by simp
    with False show ?thesis by (simp add: wait_job.simps [of W n] split: poll_decision.split)
  qed
qed

text \<open>
  C13: the wait for a Job ends, and says what happened. With a context that ends, waiting
  returns. It succeeds at the first poll that sees enough successful copies, and only then; it
  reports a failed Job only when a poll saw the failed condition and not enough successes; it gives
  up on a missing Job only after five polls in a row that found none, so that a server that lags
  behind the creation is tolerated; no poll before saw the Job done.
\<close>

theorem wait_for_job_outcome:
  assumes "jw_Over W k"
  shows "\<exists>r j. WaitForJob W = Some r \<and> explains W j r \<and> j \<le> k \<and> (\<forall>i < j. \<not> done_at W i \<and> \<not> jw_Over W i)"
proof -
  obtain r where r: "wait_job W 0 0 = Some r" using wait_job_ends [OF assms, of 0 0] by auto
  from wait_job_explained [OF r] obtain j where "explains W j r" "\<forall>i < j. \<not> done_at W i \<and> \<not> jw_Over W i" by auto
  moreover have "j \<le> k" using calculation(2) assms by (meson not_le)
  ultimately show ?thesis using r by (auto simp: WaitForJob_def)
qed

section \<open>Labels\<close>

lemma jobGenerateName_prefix:
  "length (jobGenerateName release task) \<le> 57 \<and> (\<exists>rest. release @ ''-'' @ task @ ''-'' = jobGenerateName release task @ rest)"
proof -
  define p where "p = release @ ''-'' @ task @ ''-''"
  have "p = take 57 p @ drop 57 p" by simp
  then have "\<exists>rest. p = (if length p > 57 then take 57 p else p) @ rest" by (metis append_Nil2)
  then show ?thesis unfolding jobGenerateName_def Let_def jobGenerateNameMax_def p_def [symmetric] by simp
qed

lemma label_names: "LabelProject = ProjectLabel" "LabelComponent = ComponentLabel" "LabelEnvironment = EnvironmentLabel"
  by code_simp+

text \<open>
  a Job is found again by the labels it was built with. The Job of a task carries the
  labels that \<open>ListJobs\<close>, \<open>DeleteJobs\<close> and a component selector of the same project, task and
  environment select, whatever profile is applied to its pods; its name prefix leaves room for the
  suffix of the server within the 63 characters of a label value; it runs as many copies as the task
  and the overrides ask.
\<close>

theorem task_job_found:
  assumes "BuildTaskJob L opts = Inr job" and "BuildSelector V (jo_Project opts) component (jo_Environment opts) = Inr sel"
    and "component \<in> {[], jo_TaskName opts}"
  shows "selected_job (jo_Namespace opts) sel job
     \<and> length (jb_GenerateName job) \<le> 57
     \<and> (\<exists>rest. jo_Project opts @ ''-'' @ K8sSafe (NormalizeEnv (jo_Environment opts)) @ ''-'' @ jo_TaskName opts @ ''-'' = jb_GenerateName job @ rest)"
proof -
  from assms(1) have job: "jb_Namespace job = jo_Namespace opts" "jb_Labels job = task_labels opts"
    "jb_GenerateName job = jobGenerateName (jo_Project opts @ ''-'' @ K8sSafe (NormalizeEnv (jo_Environment opts))) (jo_TaskName opts)"
    by (auto simp: BuildTaskJob_def Let_def case_prod_beta)
  have "gm_get (task_labels opts) ProjectLabel = Some (jo_Project opts)"
    "gm_get (task_labels opts) ComponentLabel = Some (jo_TaskName opts)"
    "gm_get (task_labels opts) EnvironmentLabel = Some (K8sSafe (NormalizeEnv (jo_Environment opts)))"
    by (simp_all add: task_labels_def label_names gm_get_Cons ProjectLabel_def ComponentLabel_def EnvironmentLabel_def)
  with assms(2,3) have "selected_job (jo_Namespace opts) sel job"
    by (auto simp: selected_job_def job BuildSelector_def WithProject_def WithComponent_def WithEnvironment_def NewRequirement_def
        selector_matches_def split: if_splits)
  with jobGenerateName_prefix [of "jo_Project opts @ ''-'' @ K8sSafe (NormalizeEnv (jo_Environment opts))" "jo_TaskName opts"]
  show ?thesis by (simp add: job)
qed

section \<open>Running\<close>

lemma executeRun_jobs:
  assumes "executeRun W job detach k = Some (r, k')"
  shows "ja_Jobs k' = ja_Jobs k \<or> (\<exists>suffix. ja_Jobs k' = ja_Jobs k @ [job\<lparr>jb_Name := jb_GenerateName job @ suffix\<rparr>])"
proof -
  obtain f k1 where f: "next_fault k = (f, k1)" by (metis surj_pair)
  obtain c k2 where c: "CreateTaskJob job k = (c, k2)" by (metis surj_pair)
  have "ja_Jobs k2 = ja_Jobs k \<or> (\<exists>suffix. ja_Jobs k2 = ja_Jobs k @ [job\<lparr>jb_Name := jb_GenerateName job @ suffix\<rparr>])"
    using c f next_fault_jobs(1) [OF f] by (auto simp: CreateTaskJob_def Let_def after_write_def split: option.splits call_fault.splits)
  moreover have "k' = k2" using assms c by (auto simp: executeRun_def split: if_splits option.splits sum.splits)
  ultimately show ?thesis by simp
qed

text \<open>
  C18: a run creates at most one Job, and only when asked. Whatever the answers of the session,
  the prompt and the server, \<open>runTask\<close> leaves every Job there is as it was; it adds a Job only
  after the question was answered with yes, for a task that resolves and whose timeout fits the
  session; and the Job it adds is the one built for that task.
\<close>

theorem run_task_creates_one:
  assumes "runTask L E opts k = Some (r, k')"
  shows "ja_Jobs k' = ja_Jobs k
    \<or> (\<exists>manifest rt namespace job. prepare_run L E opts = Inr (manifest, rt)
         \<and> re_Confirm E (ro_Yes opts) (ro_Task opts) (ro_Environment opts) = Inr True
         \<and> BuildTaskJob L \<lparr>jo_Project = s_Project manifest, jo_Environment = ro_Environment opts, jo_Namespace = namespace,
              jo_TaskName = ro_Task opts, jo_Task = rt_Task rt, jo_Count = ro_Count opts, jo_Parallelism = ro_Parallelism opts,
              jo_Profile = rt_MergedProfile rt\<rparr> = Inr job
         \<and> (\<exists>suffix. ja_Jobs k' = ja_Jobs k @ [job\<lparr>jb_Name := jb_GenerateName job @ suffix\<rparr>]))"
proof (cases "prepare_run L E opts")
  case (Inl e)
  with assms show ?thesis by (simp add: runTask_def)
next
  case (Inr p)
  obtain manifest rt where p: "p = (manifest, rt)" by (cases p)
  let ?c = "re_Confirm E (ro_Yes opts) (ro_Task opts) (ro_Environment opts)"
  show ?thesis
  proof (cases "?c = Inr True \<and> (\<exists>namespace. re_Target E = Inr namespace) \<and> re_Kubernetes E = None")
    case False
    with assms Inr p show ?thesis by (auto simp: runTask_def split: sum.splits bool.splits option.splits)
  next
    case True
    then obtain namespace where ns: "re_Target E = Inr namespace" by blast
    let ?o = "\<lparr>jo_Project = s_Project manifest, jo_Environment = ro_Environment opts, jo_Namespace = namespace,
              jo_TaskName = ro_Task opts, jo_Task = rt_Task rt, jo_Count = ro_Count opts, jo_Parallelism = ro_Parallelism opts,
              jo_Profile = rt_MergedProfile rt\<rparr>"
    show ?thesis
    proof (cases "BuildTaskJob L ?o")
      case (Inl e)
      with True ns assms Inr p show ?thesis by (simp add: runTask_def)
    next
      case (Inr job)
      with True ns assms \<open>prepare_run L E opts = Inr p\<close> p have "executeRun (re_World E) job (ro_Detach opts) k = Some (r, k')"
        by (simp add: runTask_def)
      from executeRun_jobs [OF this] Inr True \<open>prepare_run L E opts = Inr p\<close> p show ?thesis by blast
    qed
  qed
qed

section \<open>Examples\<close>

definition ex_opts :: "int TaskJobOptions" where
  "ex_opts = \<lparr>jo_Project = ''shop'', jo_Environment = ''review/pr-9'', jo_Namespace = ''default'', jo_TaskName = ''backfill'',
     jo_Task = ex_migrate, jo_Count = 2, jo_Parallelism = 0, jo_Profile = None\<rparr>"

definition plain_value :: "string \<Rightarrow> bool" where
  "plain_value v = (CHR ''/'' \<notin> set v)"

theorem task_job_found_witness:
  "\<exists>job sel. BuildTaskJob int_lib ex_opts = Inr job \<and> BuildSelector plain_value ''shop'' [] ''review/pr-9'' = Inr sel
     \<and> selected_job ''default'' sel job"
proof -
  have "is_ok (BuildTaskJob int_lib ex_opts)" "is_ok (BuildSelector plain_value ''shop'' [] ''review/pr-9'')" by code_simp+
  then obtain job sel where b: "BuildTaskJob int_lib ex_opts = Inr job" "BuildSelector plain_value ''shop'' [] ''review/pr-9'' = Inr sel"
    by (auto simp: is_ok_iff)
  with task_job_found [OF b(1), of plain_value "[]" sel] show ?thesis by (auto simp: ex_opts_def)
qed

definition ex_job :: "string \<Rightarrow> string \<Rightarrow> int job" where
  "ex_job name project = (case BuildTaskJob int_lib (ex_opts\<lparr>jo_Project := project\<rparr>) of Inr j \<Rightarrow> j\<lparr>jb_Name := name\<rparr>)"

definition ex_jobs :: "int jobs_api" where
  "ex_jobs = \<lparr>ja_Jobs = [ex_job ''a'' ''shop'', ex_job ''b'' ''blog'', ex_job ''c'' ''shop''],
     ja_Faults = [None, Some (Refused ReasonForbidden)], ja_Suffix = \<lambda>_. ''x''\<rparr>"


definition ex_job_world :: job_world where
  "ex_job_world =
     \<lparr>jw_Poll = \<lambda>n. if n < 3 then GetFailed ReasonNotFound else if n < 5 then JobSeen (Some 2) 1 None else JobSeen (Some 2) 2 None,
      jw_Over = \<lambda>n. n > 100, jw_OverDuring = \<lambda>_. False\<rparr>"

theorem wait_for_job_outcome_witness:
  "WaitForJob ex_job_world = Some (Inr ()) \<and> (\<exists>j \<le> 101. done_at ex_job_world j)"
proof -
  have w: "WaitForJob ex_job_world = Some (Inr ())" by code_simp
  have "jw_Over ex_job_world 101" by code_simp
  from wait_for_job_outcome [OF this] w show ?thesis by (auto simp: explains_simps)
qed

definition ex_run_env :: "bool \<Rightarrow> (int, unit) run_env" where
  "ex_run_env answer =
     \<lparr>re_Platform = Inr None, re_Spec = \<lambda>_. Inr ex_task_spec, re_Timeout = 600 * 10 ^ 9, re_Confirm = \<lambda>_ _ _. Inr answer,
      re_Target = Inr ''default'', re_Kubernetes = None, re_World = ex_job_world\<rparr>"

definition ex_run_options :: RunOptions where
  "ex_run_options = \<lparr>ro_Task = ''migrate'', ro_Environment = ''review/pr-9'', ro_Detach = False, ro_Count = 0, ro_Parallelism = 0, ro_Yes = False\<rparr>"

definition ex_run :: "((int, unit) run_error, run_outcome) result \<times> int jobs_api" where
  "ex_run = (case runTask int_lib (ex_run_env True) ex_run_options ex_jobs of Some x \<Rightarrow> x | None \<Rightarrow> (Inl NegativeOverride, ex_jobs))"

theorem run_task_creates_one_witness:
  "fst ex_run = Inr (RunCompleted ''shop-review-pr-9-migrate-x'') \<and> (\<exists>job. ja_Jobs (snd ex_run) = ja_Jobs ex_jobs @ [job])"
proof -
  have o: "fst ex_run = Inr (RunCompleted ''shop-review-pr-9-migrate-x'')" and n: "length (ja_Jobs (snd ex_run)) \<noteq> length (ja_Jobs ex_jobs)"
    by code_simp+
  from o have "runTask int_lib (ex_run_env True) ex_run_options ex_jobs = Some (fst ex_run, snd ex_run)"
    by (auto simp: ex_run_def split: option.splits)
  from run_task_creates_one [OF this] n have "\<exists>job. ja_Jobs (snd ex_run) = ja_Jobs ex_jobs @ [job]" by metis
  with o show ?thesis by blast
qed

end
