(* ===== verification/Delete.thy ===== *)
theory Delete
  imports Jobs Plan_Output
begin

text \<open>
  The delete command (\<open>internal/cmd/delete/delete.go\<close>, \<open>internal/action/delete.go\<close>): what it finds, the
  preview of a dry run, the question, and the removal of the release and of the leftover Jobs. It runs
  on the state of Helm and the Jobs of the API server; the session and the prompt are parameters, and
  so is the decoding of the YAML documents of a manifest.
\<close>

section \<open>Options and preview\<close>

record DeleteOptions =
  do_Project :: string
  do_Environment :: string
  do_Yes :: bool
  do_DryRun :: bool
  do_ShowResources :: bool
  do_Output :: string
  do_Wait :: bool
  do_AllowMissingPlatform :: bool

record ResourceInfo =
  ri_APIVersion :: string
  ri_Kind :: string
  ri_Name :: string
  ri_Detail :: string

record DeletePreview =
  dp_Project :: string
  dp_Environment :: string
  dp_Release :: string
  dp_Namespace :: string
  dp_Status :: string
  dp_Revision :: int
  dp_LastDeployed :: string
  dp_Resources :: "ResourceInfo list"
  dp_Jobs :: "string list"

text \<open>What decoding a document into each of the structs of the code gives; nothing where it fails.\<close>

record doc_lib =
  dl_Base :: "string \<Rightarrow> (string \<times> string \<times> string) option"
  dl_Replicas :: "string \<Rightarrow> int option option"
  dl_Service :: "string \<Rightarrow> (string \<times> int list) option"
  dl_Hosts :: "string \<Rightarrow> string list option"
  dl_SecretType :: "string \<Rightarrow> string option"
  dl_Requests :: "string \<Rightarrow> string gomap option"

definition extractDetail :: "doc_lib \<Rightarrow> string \<Rightarrow> string \<Rightarrow> string" where
  "extractDetail D kind doc =
     (if kind \<in> {''Deployment'', ''StatefulSet'', ''DaemonSet'', ''ReplicaSet''} then
        (case dl_Replicas D doc of Some (Some n) \<Rightarrow> ''replicas: '' @ fmt_d n | _ \<Rightarrow> [])
      else if kind = ''Service'' then
        (case dl_Service D doc of
           None \<Rightarrow> []
         | Some (svcType, ports) \<Rightarrow>
             let svcType = (if svcType = [] then ''ClusterIP'' else svcType) in
             (case ports of [] \<Rightarrow> svcType | p # _ \<Rightarrow> svcType @ '', port: '' @ fmt_d p))
      else if kind = ''Ingress'' then
        (case dl_Hosts D doc of Some (h # _) \<Rightarrow> if h \<noteq> [] then ''host: '' @ h else [] | _ \<Rightarrow> [])
      else if kind = ''Secret'' then
        (case dl_SecretType D doc of Some t \<Rightarrow> if t \<noteq> [] then t else ''Opaque'' | None \<Rightarrow> ''Opaque'')
      else if kind = ''PersistentVolumeClaim'' then
        (case dl_Requests D doc of
           None \<Rightarrow> []
         | Some reqs \<Rightarrow> (case gm_get reqs ''storage'' of Some storage \<Rightarrow> ''storage: '' @ storage | None \<Rightarrow> []))
      else [])"

text \<open>\<open>strings.SplitSeq\<close> with a separator that is not empty: the leftmost separators, without overlap.\<close>

function split_at :: "string \<Rightarrow> string \<Rightarrow> string \<Rightarrow> string list" where
  "split_at sep cur s =
     (if s = [] then [rev cur]
      else if sep \<noteq> [] \<and> HasPrefix s sep then rev cur # split_at sep [] (drop (length sep) s)
      else split_at sep (hd s # cur) (tl s))"
  by pat_completeness auto

termination
  by (relation "measure (\<lambda>(sep, cur, s). length s)") auto

declare split_at.simps [simp del]

definition str_SplitSeq :: "string \<Rightarrow> string \<Rightarrow> string list" where
  "str_SplitSeq s sep = split_at sep [] s"

definition doc_resource :: "doc_lib \<Rightarrow> string \<Rightarrow> ResourceInfo list" where
  "doc_resource D doc =
     (let doc = TrimSpace doc in
      if doc = [] then []
      else case dl_Base D doc of
             None \<Rightarrow> []
           | Some (apiVersion, kind, name) \<Rightarrow>
               if kind = [] then []
               else [\<lparr>ri_APIVersion = apiVersion, ri_Kind = kind, ri_Name = name, ri_Detail = extractDetail D kind doc\<rparr>])"

definition delete_parseResources :: "doc_lib \<Rightarrow> string \<Rightarrow> ResourceInfo list" where
  "delete_parseResources D manifest = concat (map (doc_resource D) (str_SplitSeq manifest ''---''))"

definition buildPreview ::
  "doc_lib \<Rightarrow> string \<Rightarrow> string \<Rightarrow> stored option \<Rightarrow> string list \<Rightarrow> bool \<Rightarrow> DeletePreview" where
  "buildPreview D project environment release jobs showResources =
     (case release of
        None \<Rightarrow>
          \<lparr>dp_Project = project, dp_Environment = environment, dp_Release = [], dp_Namespace = [], dp_Status = ''not found'',
           dp_Revision = 0, dp_LastDeployed = ''unknown'', dp_Resources = [], dp_Jobs = jobs\<rparr>
      | Some rel \<Rightarrow>
          \<lparr>dp_Project = project, dp_Environment = environment, dp_Release = st_Name rel, dp_Namespace = st_Namespace rel,
           dp_Status = (case st_Status rel of Some status \<Rightarrow> status | None \<Rightarrow> ''unknown''),
           dp_Revision = (if st_Version rel > 0 then st_Version rel else 0),
           dp_LastDeployed = (case (st_Status rel, st_LastDeployed rel) of (Some _, Some t) \<Rightarrow> t | _ \<Rightarrow> ''unknown''),
           dp_Resources = (if showResources \<and> st_Manifest rel \<noteq> [] then delete_parseResources D (st_Manifest rel) else []),
           dp_Jobs = jobs\<rparr>)"

definition nothingToDelete :: "stored option \<Rightarrow> string list \<Rightarrow> bool" where
  "nothingToDelete release jobs = (release = None \<and> jobs = [])"

definition deleteConfirmPrompt :: "string \<Rightarrow> string \<Rightarrow> string \<Rightarrow> stored option \<Rightarrow> string list \<Rightarrow> string" where
  "deleteConfirmPrompt project environment targetCtx release jobs =
     (if release \<noteq> None then ''Delete project '' @ [CHR 0x27] @ project @ [CHR 0x27] @ '' in environment '' @ [CHR 0x27] @ environment @ [CHR 0x27]
      else ''Delete leftover Jobs for project '' @ [CHR 0x27] @ project @ [CHR 0x27] @ '' in environment '' @ [CHR 0x27] @ environment @ [CHR 0x27]
           @ '': '' @ str_Join jobs '', '')
     @ (if targetCtx \<noteq> [] then '' (context: '' @ targetCtx @ '')'' else []) @ ''?''"

section \<open>The tree of a preview\<close>

datatype tree_node = TreeNode string "tree_node list"

definition resource_label :: "ResourceInfo \<Rightarrow> string" where
  "resource_label r = (if ri_Detail r \<noteq> [] then ri_Name r @ '' ('' @ ri_Detail r @ '')'' else ri_Name r)"

text \<open>The kinds in the order of their first appearance, and the resources of each.\<close>

definition add_to_group :: "ResourceInfo \<Rightarrow> string list \<times> ResourceInfo list gomap \<Rightarrow> string list \<times> ResourceInfo list gomap" where
  "add_to_group r acc =
     (let (order, grouped) = acc in
      (if gm_has grouped (ri_Kind r) then order else order @ [ri_Kind r],
       gm_put (ri_Kind r) (gm_get_or [] grouped (ri_Kind r) @ [r]) grouped))"

definition group_by_kind :: "ResourceInfo list \<Rightarrow> string list \<times> ResourceInfo list gomap" where
  "group_by_kind resources = fold add_to_group resources ([], [])"

definition buildResourceNodes :: "ResourceInfo list \<Rightarrow> tree_node" where
  "buildResourceNodes resources =
     (let (order, grouped) = group_by_kind resources in
      TreeNode (''Resources ('' @ Itoa (length resources) @ '')'')
        (map (\<lambda>kind. TreeNode kind (map (\<lambda>r. TreeNode (resource_label r) []) (gm_get_or [] grouped kind))) order))"

definition renderTree :: "string \<Rightarrow> string \<Rightarrow> DeletePreview \<Rightarrow> tree_node" where
  "renderTree project environment preview =
     TreeNode (project @ '' ('' @ environment @ '')'')
       ((if dp_Release preview \<noteq> [] then
           map (\<lambda>v. TreeNode v []) [''Release: '' @ dp_Release preview, ''Namespace: '' @ dp_Namespace preview, ''Status: '' @ dp_Status preview,
             ''Revision: '' @ fmt_d (dp_Revision preview), ''Last Deployed: '' @ dp_LastDeployed preview]
         else [TreeNode ''Helm release: not found'' []])
        @ (if dp_Resources preview \<noteq> [] then [buildResourceNodes (dp_Resources preview)] else [])
        @ (if dp_Jobs preview \<noteq> []
           then [TreeNode (''Leftover Jobs ('' @ Itoa (length (dp_Jobs preview)) @ '')'') (map (\<lambda>n. TreeNode n []) (dp_Jobs preview))]
           else []))"

section \<open>The command\<close>

datatype 'e delete_error =
    DeletePlatform 'e
  | NoPlatformFile
  | DeleteTarget 'e
  | HelmClient 'e
  | CheckStatus client_error
  | ListLeftover jobs_error
  | DeleteConfirm 'e
  | DeleteReleaseFailed client_error
  | DeleteLeftover jobs_error

datatype preview_output = PreviewJSON DeletePreview | PreviewYAML DeletePreview | PreviewTree tree_node | PreviewNothing

datatype delete_outcome = DryRunShown preview_output | NothingDeleted | DeleteCancelled | Deleted

text \<open>
  What the session and the prompt answer: whether there is a platform file, the namespace of the
  target, its context and the current context where it falls back to that, and the errors of the two
  clients. The question is asked with whether \<open>--yes\<close> was given.
\<close>

record 'e delete_env =
  dv_Platform :: "('e, bool) result"
  dv_Target :: "('e, string) result"
  dv_Context :: string
  dv_Fallback :: "string option"
  dv_Helm :: "'e option"
  dv_Kubernetes :: "'e option"
  dv_Confirm :: "string \<Rightarrow> bool \<Rightarrow> ('e, bool) result"

definition listLabeledJobNames ::
  "'e delete_env \<Rightarrow> (string \<Rightarrow> bool) \<Rightarrow> string \<Rightarrow> string \<Rightarrow> string \<Rightarrow> 'q jobs_api \<Rightarrow> (jobs_error, string list) result \<times> 'q jobs_api" where
  "listLabeledJobNames E V namespace project environment k =
     (case dv_Kubernetes E of
        Some _ \<Rightarrow> (Inr [], k)
      | None \<Rightarrow> apfst (\<lambda>r. bindE r (\<lambda>jobs. Inr (sort (map jb_Name jobs)))) (ListJobs V namespace project environment k))"

definition deleteLabeledJobs ::
  "'e delete_env \<Rightarrow> (string \<Rightarrow> bool) \<Rightarrow> string \<Rightarrow> string \<Rightarrow> string \<Rightarrow> 'q jobs_api \<Rightarrow> (jobs_error, unit) result \<times> 'q jobs_api" where
  "deleteLabeledJobs E V namespace project environment k =
     (case dv_Kubernetes E of Some _ \<Rightarrow> (Inr (), k) | None \<Rightarrow> DeleteJobs V namespace project environment k)"

definition renderDryRunPreview ::
  "doc_lib \<Rightarrow> string \<Rightarrow> string \<Rightarrow> stored option \<Rightarrow> string list \<Rightarrow> bool \<Rightarrow> string \<Rightarrow> preview_output" where
  "renderDryRunPreview D project environment release jobs showResources format =
     (if nothingToDelete release jobs then PreviewNothing
      else
        let preview = buildPreview D project environment release jobs showResources in
        if format = ''json'' then PreviewJSON preview
        else if format = ''yaml'' then PreviewYAML preview
        else PreviewTree (renderTree project environment preview))"

definition platform_check :: "'e delete_env \<Rightarrow> DeleteOptions \<Rightarrow> 'e delete_error check" where
  "platform_check E opts =
     (if do_AllowMissingPlatform opts then None
      else case dv_Platform E of Inl e \<Rightarrow> Some (DeletePlatform e) | Inr found \<Rightarrow> if found then None else Some NoPlatformFile)"

text \<open>The release that there is to delete: none where Helm does not find it.\<close>

definition find_release :: "('s, 'c) helm_sdk \<Rightarrow> DeleteOptions \<Rightarrow> 's \<Rightarrow> ('e delete_error, stored option) result" where
  "find_release S opts s =
     (case GetRelease S s (do_Project opts) (do_Environment opts) of
        Inr rel \<Rightarrow> Inr (Some rel)
      | Inl e \<Rightarrow> (case e of ErrReleaseNotFound _ _ \<Rightarrow> Inr None | _ \<Rightarrow> Inl (CheckStatus e)))"

definition target_context :: "'e delete_env \<Rightarrow> string" where
  "target_context E = (case dv_Fallback E of Some current \<Rightarrow> current | None \<Rightarrow> dv_Context E)"

text \<open>The removal, once the question was answered with yes.\<close>

definition delete_all ::
  "'e delete_env \<Rightarrow> ('s, 'c) helm_sdk \<Rightarrow> (string \<Rightarrow> bool) \<Rightarrow> DeleteOptions \<Rightarrow> string \<Rightarrow> stored option \<Rightarrow> 's \<times> 'q jobs_api
     \<Rightarrow> ('e delete_error, delete_outcome) result \<times> 's \<times> 'q jobs_api" where
  "delete_all E S V opts namespace release st =
     (let (s, k) = st;
          (r, s) = (if release = None then (Inr (), s) else DeleteRelease S s (do_Project opts) (do_Environment opts) (do_Wait opts))
      in case r of
           Inl e \<Rightarrow> (Inl (DeleteReleaseFailed e), s, k)
         | Inr _ \<Rightarrow>
             (case deleteLabeledJobs E V namespace (do_Project opts) (do_Environment opts) k of
                (Inl e, k) \<Rightarrow> (Inl (DeleteLeftover e), s, k)
              | (Inr _, k) \<Rightarrow> (Inr Deleted, s, k)))"

definition confirm_delete ::
  "'e delete_env \<Rightarrow> ('s, 'c) helm_sdk \<Rightarrow> (string \<Rightarrow> bool) \<Rightarrow> DeleteOptions \<Rightarrow> string \<Rightarrow> stored option \<Rightarrow> string list \<Rightarrow> 's \<times> 'q jobs_api
     \<Rightarrow> ('e delete_error, delete_outcome) result \<times> 's \<times> 'q jobs_api" where
  "confirm_delete E S V opts namespace release jobs st =
     (if nothingToDelete release jobs then (Inr NothingDeleted, st)
      else case dv_Confirm E (deleteConfirmPrompt (do_Project opts) (do_Environment opts) (target_context E) release jobs) (do_Yes opts) of
             Inl e \<Rightarrow> (Inl (DeleteConfirm e), st)
           | Inr confirmed \<Rightarrow> if confirmed then delete_all E S V opts namespace release st else (Inr DeleteCancelled, st))"

text \<open>Showing the resources implies a dry run.\<close>

definition effective_options :: "DeleteOptions \<Rightarrow> DeleteOptions" where
  "effective_options opts = (if do_ShowResources opts then opts\<lparr>do_DryRun := True\<rparr> else opts)"

definition runDelete ::
  "'e delete_env \<Rightarrow> ('s, 'c) helm_sdk \<Rightarrow> (string \<Rightarrow> bool) \<Rightarrow> doc_lib \<Rightarrow> DeleteOptions \<Rightarrow> 's \<times> 'q jobs_api
     \<Rightarrow> ('e delete_error, delete_outcome) result \<times> 's \<times> 'q jobs_api" where
  "runDelete E S V D opts st =
     (let opts = effective_options opts in
      case platform_check E opts of
        Some e \<Rightarrow> (Inl e, st)
      | None \<Rightarrow>
          (case (dv_Target E, dv_Helm E) of
             (Inl e, _) \<Rightarrow> (Inl (DeleteTarget e), st)
           | (Inr _, Some e) \<Rightarrow> (Inl (HelmClient e), st)
           | (Inr namespace, None) \<Rightarrow>
               (case find_release S opts (fst st) of
                  Inl e \<Rightarrow> (Inl e, st)
                | Inr release \<Rightarrow>
                    (case listLabeledJobNames E V namespace (do_Project opts) (do_Environment opts) (snd st) of
                       (Inl e, k) \<Rightarrow> (Inl (ListLeftover e), fst st, k)
                     | (Inr jobs, k) \<Rightarrow>
                         if do_DryRun opts
                         then (Inr (DryRunShown (renderDryRunPreview D (do_Project opts) (do_Environment opts) release jobs
                                 (do_ShowResources opts) (do_Output opts))), fst st, k)
                         else confirm_delete E S V opts namespace release jobs (fst st, k)))))"

section \<open>The action of the library\<close>

record DeleteResult =
  dr_Release :: "stored option"
  dr_NotFound :: bool

definition Delete_Check :: "('s, 'c) helm_sdk \<Rightarrow> 's \<Rightarrow> string \<Rightarrow> string \<Rightarrow> bool \<Rightarrow> (client_error, DeleteResult) result" where
  "Delete_Check S s project environment yes =
     (case GetRelease S s project environment of
        Inr rel \<Rightarrow> Inr \<lparr>dr_Release = Some rel, dr_NotFound = False\<rparr>
      | Inl (ErrReleaseNotFound n e) \<Rightarrow>
          if \<not> yes then Inl (ErrReleaseNotFound n e) else Inr \<lparr>dr_Release = None, dr_NotFound = True\<rparr>
      | Inl e \<Rightarrow> Inl e)"

definition Delete_Execute :: "('s, 'c) helm_sdk \<Rightarrow> 's \<Rightarrow> string \<Rightarrow> string \<Rightarrow> bool \<Rightarrow> (client_error, unit) result \<times> 's" where
  "Delete_Execute S s project environment wait = DeleteRelease S s project environment wait"

section \<open>What a deletion needs\<close>

lemma ListJobs_jobs:
  assumes "ListJobs V namespace project environment k = (r, k')"
  shows "ja_Jobs k' = ja_Jobs k \<and> (honest k \<longrightarrow> honest k')"
proof -
  obtain f k1 where f: "next_fault k = (f, k1)" by (metis surj_pair)
  have "k' = k \<or> k' = k1" using assms f by (auto simp: ListJobs_def split: sum.splits option.splits)
  then show ?thesis using next_fault_jobs(1) [OF f] honest_next [OF f] by auto
qed

lemma listLabeledJobNames_jobs:
  assumes "listLabeledJobNames E V namespace project environment k = (r, k')"
  shows "ja_Jobs k' = ja_Jobs k \<and> (honest k \<longrightarrow> honest k')"
proof (cases "dv_Kubernetes E")
  case None
  obtain x k1 where x: "ListJobs V namespace project environment k = (x, k1)" by (metis surj_pair)
  with None assms have "k' = k1" by (simp add: listLabeledJobNames_def)
  with ListJobs_jobs [OF x] show ?thesis by simp
qed (use assms in \<open>simp add: listLabeledJobNames_def\<close>)

text \<open>The state in which the removal starts, and what had to hold for it to start.\<close>

definition removal_due ::
  "'e delete_env \<Rightarrow> ('s, 'c) helm_sdk \<Rightarrow> (string \<Rightarrow> bool) \<Rightarrow> DeleteOptions \<Rightarrow> string \<Rightarrow> stored option \<Rightarrow> 's \<Rightarrow> 'q jobs_api \<Rightarrow> 'q jobs_api \<Rightarrow> bool" where
  "removal_due E S V opts namespace release s k k1 =
     (\<not> do_DryRun opts \<and> \<not> do_ShowResources opts \<and> (do_AllowMissingPlatform opts \<or> dv_Platform E = Inr True)
      \<and> dv_Target E = Inr namespace \<and> find_release S opts s = (Inr release :: ('e delete_error, stored option) result)
      \<and> (\<exists>jobs. listLabeledJobNames E V namespace (do_Project opts) (do_Environment opts) k = (Inr jobs, k1)
           \<and> \<not> nothingToDelete release jobs
           \<and> dv_Confirm E (deleteConfirmPrompt (do_Project opts) (do_Environment opts) (target_context E) release jobs) (do_Yes opts) = Inr True))"

lemma removal_dueD:
  assumes "removal_due (E :: 'e delete_env) S V opts namespace release s k k1"
  shows "\<not> do_DryRun opts" and "\<not> do_ShowResources opts" and "do_AllowMissingPlatform opts \<or> dv_Platform E = Inr True"
    and "dv_Target E = Inr namespace" and "find_release S opts s = (Inr release :: ('e delete_error, stored option) result)"
  using assms by (simp_all add: removal_due_def)

lemma removal_due_jobs:
  assumes "removal_due (E :: 'e delete_env) S V opts namespace release s k k1"
  obtains jobs where "listLabeledJobNames E V namespace (do_Project opts) (do_Environment opts) k = (Inr jobs, k1)"
    and "\<not> nothingToDelete release jobs"
    and "dv_Confirm E (deleteConfirmPrompt (do_Project opts) (do_Environment opts) (target_context E) release jobs) (do_Yes opts) = Inr True"
  using assms by (auto simp: removal_due_def)

lemma effective_options_simps [simp]:
  "do_Project (effective_options opts) = do_Project opts" "do_Environment (effective_options opts) = do_Environment opts"
  "do_DryRun (effective_options opts) = (do_DryRun opts \<or> do_ShowResources opts)"
  "do_ShowResources (effective_options opts) = do_ShowResources opts"
  "platform_check E (effective_options opts) = platform_check E opts"
  "find_release S (effective_options opts) s = find_release S opts s"
  by (simp_all add: effective_options_def platform_check_def find_release_def)

lemma effective_options_id: "\<not> do_ShowResources opts \<Longrightarrow> effective_options opts = opts"
  by (simp add: effective_options_def)

lemma platform_check_None: "platform_check E opts = None \<longleftrightarrow> do_AllowMissingPlatform opts \<or> dv_Platform E = Inr True"
  by (auto simp: platform_check_def split: sum.splits if_splits)

lemma confirm_delete_cases:
  assumes "confirm_delete E S V opts namespace release jobs st = (r, st')"
  shows "(st' = st \<and> r \<noteq> Inr Deleted)
    \<or> (\<not> nothingToDelete release jobs
       \<and> dv_Confirm E (deleteConfirmPrompt (do_Project opts) (do_Environment opts) (target_context E) release jobs) (do_Yes opts) = Inr True
       \<and> delete_all E S V opts namespace release st = (r, st'))"
  using assms by (auto simp: confirm_delete_def split: if_splits sum.splits)

lemma runDelete_cases:
  fixes E :: "'e delete_env"
  assumes "runDelete E S V D opts (s, k) = (r, s', k')"
  obtains "s' = s" and "ja_Jobs k' = ja_Jobs k" and "r \<noteq> Inr Deleted"
  | namespace release k1 where "removal_due E S V opts namespace release s k k1"
      and "delete_all E S V opts namespace release (s, k1) = (r, s', k')"
proof (cases "platform_check E opts")
  case (Some e)
  with assms that(1) show thesis by (auto simp: runDelete_def)
next
  case None
  note run = assms [unfolded runDelete_def Let_def effective_options_simps None option.case]
  show thesis
  proof (cases "dv_Target E")
    case (Inl e)
    with run that(1) show thesis by auto
  next
    case (Inr namespace)
    note target = this
    show thesis
    proof (cases "dv_Helm E")
      case (Some e)
      with run target that(1) show thesis by auto
    next
      case None
      note helm = this
      show thesis
      proof (cases "find_release S opts s :: ('e delete_error, stored option) result")
        case (Inl e)
        with run target helm that(1) show thesis by auto
      next
        case (Inr release)
        note rel = this
        obtain x k1 where l: "listLabeledJobNames E V namespace (do_Project opts) (do_Environment opts) k = (x, k1)" by (metis surj_pair)
        note j = listLabeledJobNames_jobs [OF l]
        show thesis
        proof (cases x)
          case (Inl e)
          with run target helm rel l j that(1) show thesis by auto
        next
          case (Inr jobs)
          show thesis
          proof (cases "do_DryRun opts \<or> do_ShowResources opts")
            case True
            with run target helm rel l Inr j that(1) show thesis by auto
          next
            case False
            then have "confirm_delete E S V opts namespace release jobs (s, k1) = (r, s', k')"
              using run target helm rel l Inr by (simp add: effective_options_id)
            from confirm_delete_cases [OF this] show thesis
            proof (elim disjE conjE)
              assume "(s', k') = (s, k1)" "r \<noteq> Inr Deleted"
              with j that(1) show thesis by simp
            next
              assume c: "\<not> nothingToDelete release jobs"
                "dv_Confirm E (deleteConfirmPrompt (do_Project opts) (do_Environment opts) (target_context E) release jobs) (do_Yes opts) = Inr True"
                "delete_all E S V opts namespace release (s, k1) = (r, s', k')"
              have "removal_due E S V opts namespace release s k k1"
                unfolding removal_due_def using False target rel l Inr c(1,2) \<open>platform_check E opts = None\<close> [unfolded platform_check_None]
                by blast
              with c(3) show thesis by (intro that(2))
            qed
          qed
        qed
      qed
    qed
  qed
qed

text \<open>
  C6: nothing is deleted without consent. When the command changed the state of Helm or the Jobs,
  it was no dry run (and showing the resources makes it one), there was a platform file or its
  absence was accepted, there was something to delete, and the question that names the project, the
  environment and the context was answered with yes; the question was asked for what was found in
  that very state.
\<close>

theorem delete_needs_consent:
  fixes E :: "'e delete_env"
  assumes "runDelete E S V D opts (s, k) = (r, s', k')" and "s' \<noteq> s \<or> ja_Jobs k' \<noteq> ja_Jobs k \<or> r = Inr Deleted"
  shows "\<not> do_DryRun opts \<and> \<not> do_ShowResources opts \<and> (do_AllowMissingPlatform opts \<or> dv_Platform E = Inr True)
    \<and> (\<exists>namespace release jobs. dv_Target E = Inr namespace \<and> find_release S opts s = (Inr release :: ('e delete_error, stored option) result)
         \<and> fst (listLabeledJobNames E V namespace (do_Project opts) (do_Environment opts) k) = Inr jobs
         \<and> \<not> nothingToDelete release jobs
         \<and> dv_Confirm E (deleteConfirmPrompt (do_Project opts) (do_Environment opts) (target_context E) release jobs) (do_Yes opts) = Inr True)"
  using assms(1)
proof (cases rule: runDelete_cases)
  case 1
  with assms(2) show ?thesis by simp
next
  case (2 namespace release k1)
  obtain jobs where "listLabeledJobNames E V namespace (do_Project opts) (do_Environment opts) k = (Inr jobs, k1)"
    "\<not> nothingToDelete release jobs"
    "dv_Confirm E (deleteConfirmPrompt (do_Project opts) (do_Environment opts) (target_context E) release jobs) (do_Yes opts) = Inr True"
    by (rule removal_due_jobs [OF 2(1)])
  with removal_dueD [OF 2(1)] show ?thesis by (intro conjI exI [of _ namespace] exI [of _ release] exI [of _ jobs]) simp_all
qed

lemma DeleteRelease_state:
  assumes "DeleteRelease S s project environment wait = (r, s')"
  shows "s' = s \<or> s' = snd (sdk_Uninstall S s (GenerateReleaseName project environment) (uninstall_options wait))"
    and "r = Inr () \<Longrightarrow> sdk_Uninstall S s (GenerateReleaseName project environment) (uninstall_options wait) = (Inr (), s')"
  using assms by (auto simp: DeleteRelease_def Let_def case_prod_beta wrap_def prod_eq_iff split: if_splits sum.splits)

lemma delete_all_parts:
  assumes "delete_all E S V opts namespace release (s, k) = (r, s', k')"
  shows "(s' = s \<or> release \<noteq> None \<and> s' = snd (sdk_Uninstall S s (GenerateReleaseName (do_Project opts) (do_Environment opts)) (uninstall_options (do_Wait opts))))
    \<and> (k' = k \<and> r \<noteq> Inr Deleted \<or> (\<exists>x. deleteLabeledJobs E V namespace (do_Project opts) (do_Environment opts) k = (x, k') \<and> (r = Inr Deleted \<longrightarrow> x = Inr ())))
    \<and> (r = Inr Deleted \<longrightarrow> (if release = None then s' = s
         else sdk_Uninstall S s (GenerateReleaseName (do_Project opts) (do_Environment opts)) (uninstall_options (do_Wait opts)) = (Inr (), s')))"
proof -
  obtain x s1 where x: "(if release = None then (Inr (), s) else DeleteRelease S s (do_Project opts) (do_Environment opts) (do_Wait opts)) = (x, s1)"
    by (metis surj_pair)
  obtain y k1 where y: "deleteLabeledJobs E V namespace (do_Project opts) (do_Environment opts) k = (y, k1)" by (metis surj_pair)
  have s1: "s1 = s \<or> release \<noteq> None \<and> s1 = snd (sdk_Uninstall S s (GenerateReleaseName (do_Project opts) (do_Environment opts)) (uninstall_options (do_Wait opts)))"
    using x DeleteRelease_state(1) [of S s "do_Project opts" "do_Environment opts" "do_Wait opts" x s1] by (auto split: if_splits)
  have fin: "if release = None then s1 = s
      else sdk_Uninstall S s (GenerateReleaseName (do_Project opts) (do_Environment opts)) (uninstall_options (do_Wait opts)) = (Inr (), s1)" if "x = Inr ()"
    using x that DeleteRelease_state(2) [of S s "do_Project opts" "do_Environment opts" "do_Wait opts" x s1] by (cases release) simp_all
  show ?thesis
  proof (cases x)
    case (Inl e)
    with assms x s1 show ?thesis by (auto simp: delete_all_def)
  next
    case (Inr u)
    with assms x y have "s' = s1" "k' = k1" "r = (case y of Inl e \<Rightarrow> Inl (DeleteLeftover e) | Inr _ \<Rightarrow> Inr Deleted)"
      by (auto simp: delete_all_def split: sum.splits)
    with s1 fin y Inr show ?thesis by (cases y) simp_all
  qed
qed

text \<open>
  The documented behaviour of the uninstall action of Helm: without \<open>KeepHistory\<close>, once it succeeds
  the release is not found any more; and it touches no release of another name.
\<close>

definition uninstall_law :: "('s, 'c) helm_sdk \<Rightarrow> bool" where
  "uninstall_law S = (\<forall>s name un.
     (fst (sdk_Uninstall S s name un) = Inr () \<and> \<not> un_KeepHistory un \<longrightarrow>
        (\<exists>e. sdk_Get S (snd (sdk_Uninstall S s name un)) name = Inl e \<and> he_ReleaseNotFound e))
     \<and> (\<forall>other. other \<noteq> name \<longrightarrow> sdk_Get S (snd (sdk_Uninstall S s name un)) other = sdk_Get S s other))"

lemma uninstalled_not_found:
  assumes "uninstall_law S"
    and "sdk_Uninstall S s (GenerateReleaseName (do_Project opts) (do_Environment opts)) (uninstall_options wait) = (Inr (), s')"
  shows "find_release S opts s' = Inr None"
proof -
  have "\<not> un_KeepHistory (uninstall_options wait)" by (simp add: uninstall_options_def)
  with assms obtain e where "sdk_Get S s' (GenerateReleaseName (do_Project opts) (do_Environment opts)) = Inl e" "he_ReleaseNotFound e"
    unfolding uninstall_law_def by (metis fst_conv snd_conv)
  then show ?thesis by (simp add: find_release_def GetRelease_def wrap_def wrapHelmError_def)
qed

lemma uninstall_other:
  assumes "uninstall_law S" and "GenerateReleaseName project environment \<noteq> name"
  shows "GetRelease S (snd (sdk_Uninstall S s name un)) project environment = GetRelease S s project environment"
  using assms by (simp add: uninstall_law_def GetRelease_def)

text \<open>
  C7: a deletion removes what it names and nothing else. Whatever the answers and failures, the
  only change to Helm is the uninstallation of the release of the project and environment, and only
  where it was found, so that by the law of Helm every release of another name stays as it was; Jobs
  outside the target namespace or without the labels of the project and environment are untouched.
  When it reports success, the state of Helm is the one after the successful uninstallation (the old
  one where no release was found), in which the release is not found any more, and, with a client for
  the cluster, no Job with these labels is left. Without such a client the Jobs are left alone, and
  the command still succeeds.
\<close>

theorem delete_scope:
  fixes E :: "'e delete_env"
  assumes "runDelete E S V D opts (s, k) = (r, s', k')" and "dv_Target E = Inr namespace"
    and "BuildLabelSelector V (do_Project opts) (do_Environment opts) = Inr sel"
    and "distinct (map (\<lambda>j. (jb_Namespace j, jb_Name j)) (ja_Jobs k))" and "honest k" and "uninstall_law S"
  shows "(s' = s \<or> (\<exists>rel. find_release S opts s = (Inr (Some rel) :: ('e delete_error, stored option) result))
              \<and> s' = snd (sdk_Uninstall S s (GenerateReleaseName (do_Project opts) (do_Environment opts)) (uninstall_options (do_Wait opts))))
     \<and> (\<forall>project environment. GenerateReleaseName project environment \<noteq> GenerateReleaseName (do_Project opts) (do_Environment opts) \<longrightarrow>
          GetRelease S s' project environment = GetRelease S s project environment)
     \<and> filter (\<lambda>j. \<not> selected_job namespace sel j) (ja_Jobs k') = filter (\<lambda>j. \<not> selected_job namespace sel j) (ja_Jobs k)
     \<and> (r = Inr Deleted \<longrightarrow>
          (case find_release S opts s :: ('e delete_error, stored option) result of
             Inl e \<Rightarrow> False
           | Inr None \<Rightarrow> s' = s
           | Inr (Some rel) \<Rightarrow>
               sdk_Uninstall S s (GenerateReleaseName (do_Project opts) (do_Environment opts)) (uninstall_options (do_Wait opts)) = (Inr (), s'))
          \<and> find_release S opts s' = (Inr None :: ('e delete_error, stored option) result))
     \<and> (r = Inr Deleted \<and> dv_Kubernetes E = None \<longrightarrow> filter (selected_job namespace sel) (ja_Jobs k') = [])
     \<and> (dv_Kubernetes E \<noteq> None \<longrightarrow> ja_Jobs k' = ja_Jobs k)"
  using assms(1)
proof (cases rule: runDelete_cases)
  case 1
  then show ?thesis by simp
next
  case (2 ns release k1)
  note due = removal_dueD [OF 2(1)]
  from due(4) assms(2) have ns: "ns = namespace" by simp
  obtain jobs where "listLabeledJobNames E V ns (do_Project opts) (do_Environment opts) k = (Inr jobs, k1)"
    by (rule removal_due_jobs [OF 2(1)])
  from listLabeledJobNames_jobs [OF this] assms(5) have k1: "ja_Jobs k1 = ja_Jobs k" "honest k1" by simp_all
  note rel = due(5)
  note parts = delete_all_parts [OF 2(2)]
  let ?un = "sdk_Uninstall S s (GenerateReleaseName (do_Project opts) (do_Environment opts)) (uninstall_options (do_Wait opts))"
  have jobs: "filter (\<lambda>j. \<not> selected_job namespace sel j) (ja_Jobs k') = filter (\<lambda>j. \<not> selected_job namespace sel j) (ja_Jobs k)
     \<and> (r = Inr Deleted \<and> dv_Kubernetes E = None \<longrightarrow> filter (selected_job namespace sel) (ja_Jobs k') = [])
     \<and> (dv_Kubernetes E \<noteq> None \<longrightarrow> ja_Jobs k' = ja_Jobs k)"
  proof (cases "k' = k1 \<and> r \<noteq> Inr Deleted")
    case True
    then show ?thesis by (simp add: k1)
  next
    case False
    with parts obtain x where x: "deleteLabeledJobs E V ns (do_Project opts) (do_Environment opts) k1 = (x, k')" and ok: "r = Inr Deleted \<longrightarrow> x = Inr ()" by blast
    show ?thesis
    proof (cases "dv_Kubernetes E")
      case None
      with x have "DeleteJobs V namespace (do_Project opts) (do_Environment opts) k1 = (x, k')" by (simp add: deleteLabeledJobs_def ns)
      from DeleteJobs_spec [OF this assms(3)] assms(4) k1 ok None show ?thesis by simp
    next
      case (Some e)
      with x have "k' = k1" by (simp add: deleteLabeledJobs_def)
      with Some show ?thesis by (simp add: k1)
    qed
  qed
  from parts rel have helm: "s' = s \<or> (\<exists>rel. find_release S opts s = (Inr (Some rel) :: ('e delete_error, stored option) result)) \<and> s' = snd ?un"
    by auto
  with uninstall_other [OF assms(6)] have other: "\<forall>project environment.
      GenerateReleaseName project environment \<noteq> GenerateReleaseName (do_Project opts) (do_Environment opts) \<longrightarrow>
      GetRelease S s' project environment = GetRelease S s project environment"
    by metis
  have gone: "(case release of None \<Rightarrow> s' = s | Some rel \<Rightarrow> ?un = (Inr (), s'))
      \<and> find_release S opts s' = (Inr None :: ('e delete_error, stored option) result)" if "r = Inr Deleted"
  proof (cases release)
    case None
    with parts that rel show ?thesis by simp
  next
    case (Some rel')
    with parts that have "?un = (Inr (), s')" by simp
    with uninstalled_not_found [OF assms(6) this] Some show ?thesis by simp
  qed
  from helm other jobs gone show ?thesis unfolding rel sum.case by blast
qed

section \<open>The preview\<close>

lemma group_by_kind_snoc: "group_by_kind (rs @ [r]) = add_to_group r (group_by_kind rs)"
  by (simp add: group_by_kind_def)

lemma group_by_kind_spec:
  "fst (group_by_kind rs) = first_seen (map ri_Kind rs)
   \<and> (\<forall>kind. gm_get (snd (group_by_kind rs)) kind = (let g = filter (\<lambda>r. ri_Kind r = kind) rs in if g = [] then None else Some g))"
proof (induction rs rule: rev_induct)
  case Nil
  then show ?case by (simp add: group_by_kind_def first_seen_def)
next
  case (snoc r rs)
  let ?g = "snd (group_by_kind rs)"
  have get: "gm_get ?g kind = (if filter (\<lambda>r. ri_Kind r = kind) rs = [] then None else Some (filter (\<lambda>r. ri_Kind r = kind) rs))" for kind
    using snoc.IH by (simp add: Let_def)
  have has: "gm_has ?g (ri_Kind r) \<longleftrightarrow> ri_Kind r \<in> set (map ri_Kind rs)"
    by (auto simp: gm_has_def get filter_empty_conv) (metis imageI)
  have old: "gm_get_or [] ?g kind = filter (\<lambda>r. ri_Kind r = kind) rs" for kind by (simp add: gm_get_or_def get)
  have fst: "fst (group_by_kind (rs @ [r])) = first_seen (map ri_Kind (rs @ [r]))"
    using snoc.IH has by (simp add: group_by_kind_snoc add_to_group_def case_prod_beta first_seen_snoc)
  have "gm_get (snd (group_by_kind (rs @ [r]))) kind = (if filter (\<lambda>r. ri_Kind r = kind) (rs @ [r]) = [] then None else Some (filter (\<lambda>r. ri_Kind r = kind) (rs @ [r])))" for kind
    by (simp add: group_by_kind_snoc add_to_group_def case_prod_beta get old)
  with fst show ?case by (simp add: Let_def)
qed

text \<open>
  C38: the tree of a preview is the list of resources grouped by kind: the kinds in the order in
  which they first appear, each once, and under each the resources of that kind in their order, so
  that every resource that would be deleted is shown exactly once.
\<close>

theorem preview_tree_exact:
  "buildResourceNodes resources =
     TreeNode (''Resources ('' @ Itoa (length resources) @ '')'')
       (map (\<lambda>kind. TreeNode kind (map (\<lambda>r. TreeNode (resource_label r) []) (filter (\<lambda>r. ri_Kind r = kind) resources)))
         (rev (remdups (rev (map ri_Kind resources)))))"
proof -
  have "gm_get_or [] (snd (group_by_kind resources)) kind = filter (\<lambda>r. ri_Kind r = kind) resources" for kind
    using group_by_kind_spec [of resources] by (simp add: gm_get_or_def Let_def)
  then show ?thesis
    using group_by_kind_spec [of resources] by (simp add: buildResourceNodes_def case_prod_beta first_seen_def)
qed

definition plain_doc :: "string \<Rightarrow> bool" where
  "plain_doc d = (\<not> str_Contains d ''---'' \<and> (d = [] \<or> last d \<noteq> CHR ''-''))"

lemma plain_doc_Cons: "plain_doc (c # d) \<Longrightarrow> plain_doc d"
  by (auto simp: plain_doc_def)

lemma plain_doc_head:
  assumes "plain_doc (c # d)"
  shows "\<not> HasPrefix (c # d @ rest) ''---''"
proof (cases d)
  case Nil
  with assms show ?thesis by (auto simp: plain_doc_def HasPrefix_def)
next
  case (Cons x d')
  then show ?thesis using assms by (cases d') (auto simp: plain_doc_def HasPrefix_def)
qed

lemma split_at_plain: "plain_doc d \<Longrightarrow> split_at ''---'' cur (d @ ''---'' @ rest) = (rev cur @ d) # split_at ''---'' [] rest"
proof (induction d arbitrary: cur)
  case Nil
  have "HasPrefix (''---'' @ rest) ''---''" by (rule HasPrefix_append)
  then show ?case by (simp add: split_at.simps [of _ cur])
next
  case (Cons c d)
  have "\<not> HasPrefix (c # d @ ''---'' @ rest) ''---''" by (rule plain_doc_head [OF Cons.prems])
  with Cons.IH [OF plain_doc_Cons [OF Cons.prems], of "c # cur"] show ?case by (simp add: split_at.simps [of _ cur])
qed

lemma split_at_end: "plain_doc d \<Longrightarrow> split_at ''---'' cur d = [rev cur @ d]"
proof (induction d arbitrary: cur)
  case Nil
  then show ?case by (simp add: split_at.simps)
next
  case (Cons c d)
  have "\<not> HasPrefix (c # d) ''---''" using plain_doc_head [OF Cons.prems, of "[]"] by simp
  with Cons.IH [OF plain_doc_Cons [OF Cons.prems], of "c # cur"] show ?case by (simp add: split_at.simps [of _ cur])
qed

text \<open>
  the preview of a manifest lists the resource of every document, in order, provided that no
  document has three dashes inside and none ends in a dash: the manifest is cut wherever three
  dashes stand, so a document that holds a PEM block is cut apart.
\<close>

theorem preview_lists_documents:
  assumes "docs \<noteq> []" and "list_all plain_doc docs"
  shows "delete_parseResources D (str_Join docs ''---'') = concat (map (doc_resource D) docs)"
proof -
  have "split_at ''---'' [] (str_Join docs ''---'') = docs" using assms
  proof (induction docs rule: induct_list012)
    case (2 d)
    then show ?case using split_at_end [of d "[]"] by simp
  next
    case (3 d e docs)
    then show ?case using split_at_plain [of d "[]"] by simp
  qed simp
  then show ?thesis by (simp add: delete_parseResources_def str_SplitSeq_def)
qed

section \<open>Examples\<close>

text \<open>A decoder that reads \<open>kind/name\<close>.\<close>

definition ex_doc_lib :: doc_lib where
  "ex_doc_lib =
     \<lparr>dl_Base = \<lambda>d. (let (kind, name, ok) = str_Cut (CHR ''/'') d in if ok then Some (''v1'', kind, name) else None),
      dl_Replicas = \<lambda>_. Some (Some 2), dl_Service = \<lambda>_. Some ([], [80]), dl_Hosts = \<lambda>_. None, dl_SecretType = \<lambda>_. None, dl_Requests = \<lambda>_. None\<rparr>"

theorem preview_lists_documents_witness:
  "map ri_Name (delete_parseResources ex_doc_lib (str_Join ['' Deployment/api '', ''Secret/tls''] ''---'')) = [''api'', ''tls'']
   \<and> map ri_Detail (delete_parseResources ex_doc_lib (str_Join ['' Deployment/api '', ''Secret/tls''] ''---'')) = [''replicas: 2'', ''Opaque'']
   \<and> length (delete_parseResources ex_doc_lib ''Secret/a -----BEGIN/b----- '') = 2"
proof -
  have "list_all plain_doc ['' Deployment/api '', ''Secret/tls'']" by code_simp
  with preview_lists_documents [of "['' Deployment/api '', ''Secret/tls'']" ex_doc_lib]
  have "delete_parseResources ex_doc_lib (str_Join ['' Deployment/api '', ''Secret/tls''] ''---'') = concat (map (doc_resource ex_doc_lib) ['' Deployment/api '', ''Secret/tls''])"
    by blast
  moreover have "map ri_Name (concat (map (doc_resource ex_doc_lib) ['' Deployment/api '', ''Secret/tls''])) = [''api'', ''tls'']"
    "map ri_Detail (concat (map (doc_resource ex_doc_lib) ['' Deployment/api '', ''Secret/tls''])) = [''replicas: 2'', ''Opaque'']"
    "length (delete_parseResources ex_doc_lib ''Secret/a -----BEGIN/b----- '') = 2" by code_simp+
  ultimately show ?thesis by simp
qed

definition ex_delete_env :: "unit delete_env" where
  "ex_delete_env =
     \<lparr>dv_Platform = Inr True, dv_Target = Inr ''default'', dv_Context = ''kind'', dv_Fallback = None, dv_Helm = None, dv_Kubernetes = None,
      dv_Confirm = \<lambda>_ _. Inr True\<rparr>"

definition ex_delete_options :: DeleteOptions where
  "ex_delete_options =
     \<lparr>do_Project = ''shop'', do_Environment = ''review/pr-9'', do_Yes = False, do_DryRun = False, do_ShowResources = False, do_Output = ''tree'',
      do_Wait = False, do_AllowMissingPlatform = False\<rparr>"

definition ex_delete_state :: "string gomap gomap \<times> int jobs_api" where
  "ex_delete_state = ([(''shop-review-pr-9'', []), (''shop-prod'', [])], ex_jobs\<lparr>ja_Faults := []\<rparr>)"

definition ex_delete :: "(unit delete_error, delete_outcome) result \<times> string gomap gomap \<times> int jobs_api" where
  "ex_delete = runDelete ex_delete_env (ex_sdk None) plain_value ex_doc_lib ex_delete_options ex_delete_state"

lemma ex_delete_run:
  "runDelete ex_delete_env (ex_sdk None) plain_value ex_doc_lib ex_delete_options (fst ex_delete_state, snd ex_delete_state)
     = (fst ex_delete, fst (snd ex_delete), snd (snd ex_delete))"
  by (simp add: ex_delete_def)

lemma ex_deleted:
  "fst ex_delete = Inr Deleted" "map fst (fst (snd ex_delete)) = [''shop-prod'']" "map jb_Name (ja_Jobs (snd (snd ex_delete))) = [''b'']"
proof -
  have "(case ex_delete of (r, s, k) \<Rightarrow> r = Inr Deleted \<and> map fst s = [''shop-prod''] \<and> map jb_Name (ja_Jobs k) = [''b''])" by code_simp
  then show "fst ex_delete = Inr Deleted" "map fst (fst (snd ex_delete)) = [''shop-prod'']" "map jb_Name (ja_Jobs (snd (snd ex_delete))) = [''b'']"
    by (simp_all add: case_prod_beta)
qed

lemma ex_sdk_uninstall: "uninstall_law (ex_sdk history)"
  by (simp add: uninstall_law_def ex_sdk_def)

theorem delete_needs_consent_witness:
  "fst ex_delete = Inr Deleted \<and> map fst (fst (snd ex_delete)) = [''shop-prod''] \<and> \<not> do_DryRun ex_delete_options"
proof -
  from delete_needs_consent [OF ex_delete_run] ex_deleted(1) have "\<not> do_DryRun ex_delete_options" by blast
  with ex_deleted show ?thesis by blast
qed

theorem delete_scope_witness:
  "map jb_Name (ja_Jobs (snd (snd ex_delete))) = [''b'']
   \<and> filter (selected_job ''default'' [(ProjectLabel, ''shop''), (EnvironmentLabel, ''review-pr-9'')]) (ja_Jobs (snd (snd ex_delete))) = []
   \<and> find_release (ex_sdk None) ex_delete_options (fst (snd ex_delete)) = (Inr None :: (unit delete_error, stored option) result)"
proof -
  have t: "dv_Target ex_delete_env = Inr ''default''"
    and k: "dv_Kubernetes ex_delete_env = None"
    and s: "BuildLabelSelector plain_value (do_Project ex_delete_options) (do_Environment ex_delete_options)
      = Inr [(ProjectLabel, ''shop''), (EnvironmentLabel, ''review-pr-9'')]"
    and d: "distinct (map (\<lambda>j. (jb_Namespace j, jb_Name j)) (ja_Jobs (snd ex_delete_state)))" and h: "honest (snd ex_delete_state)" by code_simp+
  from delete_scope [OF ex_delete_run t s d h ex_sdk_uninstall] ex_deleted(1) k
  have "filter (selected_job ''default'' [(ProjectLabel, ''shop''), (EnvironmentLabel, ''review-pr-9'')]) (ja_Jobs (snd (snd ex_delete))) = []
    \<and> find_release (ex_sdk None) ex_delete_options (fst (snd ex_delete)) = (Inr None :: (unit delete_error, stored option) result)" by blast
  with ex_deleted(3) show ?thesis by blast
qed

end
