(* ===== verification/Chart_Cache.thy ===== *)
theory Chart_Cache
  imports Chart_Values
begin

text \<open>
  The chart on disk and its cache (\<open>internal/helm/cache.go\<close>, \<open>PrepareChart\<close> of \<open>generate.go\<close>, the
  sub-charts of \<open>generate.go\<close> and \<open>task.go\<close>). A directory is the map from the paths of its files to
  their contents; temporary directories have fresh names. The embedded files, the template engine and
  the encoders are parameters. Time is an integer number of nanoseconds; the head of the faults says
  whether the next operation on the disk fails. The cache itself is never nil here, and a failure to
  remove an expired directory, which the code only logs, is not told from success. The contract of the cache is the locale \<open>memo_table\<close>.
\<close>

section \<open>State and parameters\<close>

type_synonym dir = "string gomap"

record chartCacheEntry =
  ce_path :: string
  ce_createdAt :: int

record chart_state =
  ca_entries :: "chartCacheEntry gomap"
  ca_ttl :: int
  ca_Dirs :: "dir gomap"
  ca_Temp :: "nat \<Rightarrow> string"
  ca_Next :: nat
  ca_Now :: int
  ca_Faults :: "bool list"

record ChartData =
  cd_Name :: string
  cd_Version :: string
  cd_ComponentNames :: "string list"
  cd_TaskNames :: "string list"

text \<open>The embedded files in the order of the walk, the rendering of a template, and the encoders.\<close>

record 'q chart_src =
  cs_Files :: "(string \<times> string) list"
  cs_Template :: "string \<Rightarrow> string \<Rightarrow> ChartData \<Rightarrow> string option"
  cs_JSONSpec :: "'q Spec \<Rightarrow> string option"
  cs_JSONResolved :: "'q ResolvedSpec \<Rightarrow> string option"
  cs_YAML :: "jval gomap \<Rightarrow> string option"

datatype 'e prepare_error =
    PrepareCancelled
  | MarshalSpec
  | TaskNames hook_error
  | TempDir
  | TemplateFailed string
  | WriteFailed
  | ValuesFailed "'e chart_error"
  | MarshalValues
  | CopyFailed

definition defaultChartCacheTTL :: int where "defaultChartCacheTTL = 3600 * 10 ^ 9"

section \<open>Keys\<close>

definition embeddedChartHash :: "(string \<times> string) list \<Rightarrow> string" where
  "embeddedChartHash files = hex_bytes (Sum256 (concat (map (\<lambda>(path, data). path @ data) files)))"

definition combined_data :: "string \<Rightarrow> string \<Rightarrow> string \<Rightarrow> string" where
  "combined_data input environment chartHash = hex_bytes (Sum256 input) @ ''-'' @ environment @ ''-'' @ chartHash"

definition GenerateKey ::
  "'q chart_src \<Rightarrow> 'q Spec \<Rightarrow> string \<Rightarrow> 'q ResolvedSpec option \<Rightarrow> ('e prepare_error, string) result" where
  "GenerateKey C manifest environment resolved =
     (case (case resolved of Some r \<Rightarrow> cs_JSONResolved C r | None \<Rightarrow> cs_JSONSpec C manifest) of
        None \<Rightarrow> Inl MarshalSpec
      | Some input \<Rightarrow> Inr (hex_bytes (Sum256 (combined_data input environment (embeddedChartHash (cs_Files C))))))"

section \<open>The cache\<close>

definition NewChartCache :: "int \<Rightarrow> chart_state \<Rightarrow> chart_state" where
  "NewChartCache ttl st = st\<lparr>ca_entries := [], ca_ttl := (if ttl \<le> 0 then defaultChartCacheTTL else ttl)\<rparr>"

definition cache_get :: "chart_state \<Rightarrow> string \<Rightarrow> string option" where
  "cache_get st cacheKey =
     (case gm_get (ca_entries st) cacheKey of
        None \<Rightarrow> None
      | Some entry \<Rightarrow>
          if ca_Now st - ce_createdAt entry > ca_ttl st then None
          else if \<not> gm_has (ca_Dirs st) (ce_path entry) then None
          else Some (ce_path entry))"

definition cache_set :: "string \<Rightarrow> string \<Rightarrow> chart_state \<Rightarrow> chart_state" where
  "cache_set cacheKey chartPath st =
     st\<lparr>ca_entries := gm_put cacheKey \<lparr>ce_path = chartPath, ce_createdAt = ca_Now st\<rparr> (ca_entries st)\<rparr>"

definition entryCount :: "chart_state \<Rightarrow> nat" where
  "entryCount st = length (ca_entries st)"

definition cache_expired :: "chart_state \<Rightarrow> chartCacheEntry \<Rightarrow> bool" where
  "cache_expired st entry = (ca_Now st - ce_createdAt entry > ca_ttl st)"

definition cleanupExpired :: "chart_state \<Rightarrow> chart_state" where
  "cleanupExpired st =
     st\<lparr>ca_Dirs := fold gm_del (map (ce_path \<circ> snd) (filter (\<lambda>(_, e). cache_expired st e) (ca_entries st))) (ca_Dirs st),
        ca_entries := filter (\<lambda>(_, e). \<not> cache_expired st e) (ca_entries st)\<rparr>"

section \<open>Directories\<close>

definition next_io :: "chart_state \<Rightarrow> bool \<times> chart_state" where
  "next_io st = (case ca_Faults st of [] \<Rightarrow> (False, st) | f # fs \<Rightarrow> (f, st\<lparr>ca_Faults := fs\<rparr>))"

definition MkdirTemp :: "chart_state \<Rightarrow> string option \<times> chart_state" where
  "MkdirTemp st =
     (let (failed, st) = next_io st in
      if failed then (None, st)
      else (Some (ca_Temp st (ca_Next st)), st\<lparr>ca_Dirs := gm_put (ca_Temp st (ca_Next st)) [] (ca_Dirs st), ca_Next := Suc (ca_Next st)\<rparr>))"

definition createChartCopy :: "string \<Rightarrow> chart_state \<Rightarrow> ('e prepare_error, string) result \<times> chart_state" where
  "createChartCopy sourcePath st =
     (case MkdirTemp st of
        (None, st) \<Rightarrow> (Inl TempDir, st)
      | (Some tmpDir, st) \<Rightarrow>
          let (failed, st) = next_io st in
          case (if failed then None else gm_get (ca_Dirs st) sourcePath) of
            Some files \<Rightarrow> (Inr tmpDir, st\<lparr>ca_Dirs := gm_put tmpDir files (ca_Dirs st)\<rparr>)
          | None \<Rightarrow> (Inl CopyFailed, st\<lparr>ca_Dirs := gm_del tmpDir (ca_Dirs st)\<rparr>))"

section \<open>Expanding the chart\<close>

definition chart_base :: "string \<Rightarrow> string" where
  "chart_base path = last (str_Split (CHR ''/'') path)"

text \<open>Where an embedded file goes, and with which contents.\<close>

definition expand_file :: "'q chart_src \<Rightarrow> ChartData \<Rightarrow> string \<times> string \<Rightarrow> ('e prepare_error, string \<times> string) result" where
  "expand_file C data file =
     (let (path, text) = file;
          rel = fst (CutPrefix (fst (CutPrefix path ''chart'')) ''/'')
      in if HasSuffix path ''.gotmpl'' then
           (case cs_Template C (chart_base path) text data of
              None \<Rightarrow> Inl (TemplateFailed path)
            | Some out \<Rightarrow> Inr (fst (CutSuffix rel ''.gotmpl''), out))
         else if str_Contains path ''charts/'' \<and> str_Contains path ''templates/'' then
           let ext = path_Ext (chart_base path);
               base = fst (CutSuffix (chart_base path) ext)
           in Inr (if ext \<in> {''.yaml'', ''.tpl'', ''.txt''} then path_Join [path_Dir rel, ''_'' @ base @ ext] else rel, text)
         else Inr (rel, text))"

fun expand_files :: "'q chart_src \<Rightarrow> ChartData \<Rightarrow> (string \<times> string) list \<Rightarrow> dir \<Rightarrow> ('e prepare_error, dir) result" where
  "expand_files C data [] d = Inr d"
| "expand_files C data (file # files) d =
     bindE (expand_file C data file) (\<lambda>(path, text). expand_files C data files (gm_put path text d))"

definition createComponentChartYAML :: "string \<Rightarrow> string \<Rightarrow> dir \<Rightarrow> dir" where
  "createComponentChartYAML chartDir componentName =
     gm_put (path_Join [chartDir, ''Chart.yaml''])
       (''apiVersion: v2'' @ [CHR 0x0A] @ ''name: '' @ componentName @ [CHR 0x0A] @ ''type: application'' @ [CHR 0x0A] @ ''version: 0.1.0'' @ [CHR 0x0A])"

definition createComponentAppTemplate :: "string \<Rightarrow> dir \<Rightarrow> dir" where
  "createComponentAppTemplate templatesDir = gm_put (path_Join [templatesDir, ''app.yaml'']) ''{{- include \"deployah.app\" . -}}''"

definition createTaskJobTemplate :: "string \<Rightarrow> dir \<Rightarrow> dir" where
  "createTaskJobTemplate templatesDir = gm_put (path_Join [templatesDir, ''job.yaml'']) ''{{- include \"deployah.job\" . -}}''"

definition createComponentSubCharts :: "string list \<Rightarrow> dir \<Rightarrow> dir" where
  "createComponentSubCharts componentNames =
     fold (\<lambda>name d. createComponentAppTemplate (path_Join [''charts'', name, ''templates''])
                      (createComponentChartYAML (path_Join [''charts'', name]) name d)) componentNames"

definition createTaskSubCharts :: "string list \<Rightarrow> dir \<Rightarrow> dir" where
  "createTaskSubCharts taskNames =
     fold (\<lambda>name d. createTaskJobTemplate (path_Join [''charts'', name, ''templates''])
                      (createComponentChartYAML (path_Join [''charts'', name]) name d)) taskNames"

text \<open>The contents of the chart, once the names of its sub-charts are known.\<close>

definition write_chart ::
  "'q chart_src \<Rightarrow> 'q k8s_lib \<Rightarrow> ('q, 'e) chart_lib \<Rightarrow> 'q Spec \<Rightarrow> string \<Rightarrow> 'q ResolvedSpec option \<Rightarrow> string list
     \<Rightarrow> ('e prepare_error, dir) result" where
  "write_chart C K H manifest desiredEnvironment resolved taskNames =
     (let componentNames = activeComponentNames manifest desiredEnvironment;
          data = \<lparr>cd_Name = s_Project manifest, cd_Version = ''0.1.0'', cd_ComponentNames = componentNames, cd_TaskNames = taskNames\<rparr>
      in bindE (expand_files C data (cs_Files C) []) (\<lambda>d.
         let d = createTaskSubCharts taskNames (createComponentSubCharts componentNames d) in
         case MapSpecToChartValues K H manifest desiredEnvironment resolved of
           Inl e \<Rightarrow> Inl (ValuesFailed e)
         | Inr values \<Rightarrow>
             (case cs_YAML C values of
                None \<Rightarrow> Inl MarshalValues
              | Some valuesYAML \<Rightarrow> Inr (gm_put ''values.yaml'' valuesYAML d))))"

text \<open>A miss: the chart is written to a new directory, that directory enters the cache and a copy is returned.\<close>

definition prepare_miss ::
  "'q chart_src \<Rightarrow> 'q k8s_lib \<Rightarrow> ('q, 'e) chart_lib \<Rightarrow> 'q Spec \<Rightarrow> string \<Rightarrow> 'q ResolvedSpec option \<Rightarrow> string \<Rightarrow> chart_state
     \<Rightarrow> ('e prepare_error, string) result \<times> chart_state" where
  "prepare_miss C K H manifest desiredEnvironment resolved cacheKey st =
     (case hookTaskNames K manifest desiredEnvironment resolved of
        Inl e \<Rightarrow> (Inl (TaskNames e), st)
      | Inr taskNames \<Rightarrow>
          (case MkdirTemp st of
             (None, st) \<Rightarrow> (Inl TempDir, st)
           | (Some tmpDir, st) \<Rightarrow>
               (case write_chart C K H manifest desiredEnvironment resolved taskNames of
                  Inl e \<Rightarrow> (Inl e, st)
                | Inr files \<Rightarrow>
                    let (failed, st) = next_io st in
                    if failed then (Inl WriteFailed, st)
                    else createChartCopy tmpDir (cache_set cacheKey tmpDir (st\<lparr>ca_Dirs := gm_put tmpDir files (ca_Dirs st)\<rparr>)))))"

text \<open>
  \<open>cancelled\<close>: the context is over. \<open>cleanup\<close>: the background cleanup, where one is started, runs
  before the chart is prepared; it can also run later, between two calls.
\<close>

definition PrepareChart ::
  "'q chart_src \<Rightarrow> 'q k8s_lib \<Rightarrow> ('q, 'e) chart_lib \<Rightarrow> bool \<Rightarrow> bool \<Rightarrow> 'q Spec \<Rightarrow> string \<Rightarrow> 'q ResolvedSpec option \<Rightarrow> chart_state
     \<Rightarrow> ('e prepare_error, string) result \<times> chart_state" where
  "PrepareChart C K H cancelled cleanup manifest desiredEnvironment resolved st =
     (if cancelled then (Inl PrepareCancelled, st)
      else case GenerateKey C manifest desiredEnvironment resolved of
             Inl e \<Rightarrow> (Inl e, st)
           | Inr cacheKey \<Rightarrow>
               (case cache_get st cacheKey of
                  Some cachedPath \<Rightarrow> createChartCopy cachedPath st
                | None \<Rightarrow>
                    prepare_miss C K H manifest desiredEnvironment resolved cacheKey
                      (if entryCount st > 0 \<and> entryCount st mod 10 = 0 \<and> cleanup then cleanupExpired st else st)))"

section \<open>Keys are faithful\<close>

lemma hex_digit_inj:
  assumes "0 \<le> a" "a < 16" "0 \<le> b" "b < 16" and "hex_digit a = hex_digit b"
  shows "a = b"
proof -
  have "distinct ''0123456789abcdef''" by simp
  with assms have "nat a = nat b" unfolding hex_digit_def by (subst (asm) nth_eq_iff_index_eq) auto
  with assms show ?thesis by simp
qed

lemma hex_bytes_inj:
  assumes "\<forall>b \<in> set bs. 0 \<le> b \<and> b < 256" "\<forall>b \<in> set cs. 0 \<le> b \<and> b < 256" and "hex_bytes bs = hex_bytes cs"
  shows "bs = cs"
  using assms
proof (induction bs arbitrary: cs)
  case Nil
  then show ?case by (cases cs) (simp_all add: hex_bytes_def)
next
  case (Cons b bs)
  from Cons.prems(3) obtain c cs' where cs: "cs = c # cs'" by (cases cs) (simp_all add: hex_bytes_def)
  with Cons.prems have e: "hex_digit (b div 16) = hex_digit (c div 16)" "hex_digit (b mod 16) = hex_digit (c mod 16)"
    and r: "hex_bytes bs = hex_bytes cs'" by (simp_all add: hex_bytes_def)
  from Cons.prems cs have "b div 16 = c div 16" "b mod 16 = c mod 16" by (auto intro: hex_digit_inj [OF _ _ _ _ e(1)] hex_digit_inj [OF _ _ _ _ e(2)])
  then have "b = c" by (metis div_mult_mod_eq)
  with Cons.IH [of cs'] Cons.prems cs r show ?case by simp
qed

lemma hex_Sum256_inj: "hex_bytes (Sum256 x) = hex_bytes (Sum256 y) \<Longrightarrow> Sum256 x = Sum256 y"
  by (rule hex_bytes_inj) (use Sum256_bytes in blast)+

lemma combined_data_inj:
  assumes "combined_data input environment h = combined_data input' environment' h'" and "length h = length h'"
  shows "Sum256 input = Sum256 input' \<and> environment = environment' \<and> h = h'"
proof -
  have "hex_bytes (Sum256 input) = hex_bytes (Sum256 input')"
    and rest: "''-'' @ environment @ ''-'' @ h = ''-'' @ environment' @ ''-'' @ h'"
    using assms(1) unfolding combined_data_def by (simp_all add: append_eq_append_conv)
  then have "Sum256 input = Sum256 input'" by (intro hex_Sum256_inj)
  moreover from rest have "(environment @ ''-'') @ h = (environment' @ ''-'') @ h'" by simp
  then have "environment = environment' \<and> h = h'" using assms(2) by (subst (asm) append_eq_append_conv) auto
  ultimately show ?thesis by simp
qed

text \<open>What the key is computed from: the encoded input and the environment.\<close>

definition key_input :: "'q chart_src \<Rightarrow> 'q Spec \<Rightarrow> 'q ResolvedSpec option \<Rightarrow> string option" where
  "key_input C manifest resolved = (case resolved of Some r \<Rightarrow> cs_JSONResolved C r | None \<Rightarrow> cs_JSONSpec C manifest)"

lemma GenerateKey_collision:
  assumes "key_input C m resolved = Some x" and "key_input C m' resolved' = Some y"
    and "GenerateKey C m environment resolved = (Inr key :: ('e prepare_error, string) result)"
    and "GenerateKey C m' environment' resolved' = (Inr key :: ('e prepare_error, string) result)"
  shows "(x = y \<and> environment = environment')
    \<or> (x \<noteq> y \<and> Sum256 x = Sum256 y)
    \<or> (let h = embeddedChartHash (cs_Files C); a = combined_data x environment h; b = combined_data y environment' h
       in a \<noteq> b \<and> Sum256 a = Sum256 b)"
proof -
  let ?h = "embeddedChartHash (cs_Files C)"
  have "key = hex_bytes (Sum256 (combined_data x environment ?h))" "key = hex_bytes (Sum256 (combined_data y environment' ?h))"
    using assms by (simp_all add: GenerateKey_def key_input_def)
  then have "Sum256 (combined_data x environment ?h) = Sum256 (combined_data y environment' ?h)" by (intro hex_Sum256_inj) simp
  moreover have "Sum256 x = Sum256 y \<and> environment = environment'" if "combined_data x environment ?h = combined_data y environment' ?h"
    using combined_data_inj [OF that] by simp
  ultimately show ?thesis unfolding Let_def by blast
qed

section \<open>The cache as a memo table\<close>

text \<open>
  The contract of a table of computed values: a lookup finds what was stored last or what was there
  before, and forgetting only forgets. Values that agree with a relation keep agreeing.
\<close>

locale memo_table =
  fixes lookup :: "'s \<Rightarrow> 'k \<Rightarrow> 'v option"
    and store :: "'k \<Rightarrow> 'v \<Rightarrow> 's \<Rightarrow> 's"
    and forget :: "'s \<Rightarrow> 's"
    and ok :: "'s \<Rightarrow> bool"
  assumes lookup_store: "ok s \<Longrightarrow> lookup (store k v s) k' = Some w \<Longrightarrow> (k' = k \<and> w = v) \<or> lookup s k' = Some w"
    and lookup_forget: "ok s \<Longrightarrow> lookup (forget s) k = Some w \<Longrightarrow> lookup s k = Some w"
    and ok_store: "ok s \<Longrightarrow> ok (store k v s)"
    and ok_forget: "ok s \<Longrightarrow> ok (forget s)"
begin

definition agrees :: "('k \<Rightarrow> 'v \<Rightarrow> bool) \<Rightarrow> 's \<Rightarrow> bool" where
  "agrees R s = (\<forall>k v. lookup s k = Some v \<longrightarrow> R k v)"

lemma agrees_store: "ok s \<Longrightarrow> agrees R s \<Longrightarrow> R k v \<Longrightarrow> agrees R (store k v s)"
  unfolding agrees_def using lookup_store by blast

lemma agrees_forget: "ok s \<Longrightarrow> agrees R s \<Longrightarrow> agrees R (forget s)"
  unfolding agrees_def using lookup_forget by blast

end

definition stored_content :: "chart_state \<Rightarrow> string \<Rightarrow> dir option" where
  "stored_content st key = (case gm_get (ca_entries st) key of None \<Rightarrow> None | Some e \<Rightarrow> gm_get (ca_Dirs st) (ce_path e))"

definition fresh_path :: "chart_state \<Rightarrow> string \<Rightarrow> bool" where
  "fresh_path st p = (\<not> gm_has (ca_Dirs st) p \<and> (\<forall>(_, e) \<in> set (ca_entries st). ce_path e \<noteq> p))"

definition cache_wf :: "chart_state \<Rightarrow> bool" where
  "cache_wf st = (inj (ca_Temp st) \<and> gm_wf (ca_entries st) \<and> (\<forall>n \<ge> ca_Next st. fresh_path st (ca_Temp st n)))"

definition store_chart :: "string \<Rightarrow> dir \<Rightarrow> chart_state \<Rightarrow> chart_state" where
  "store_chart key files st =
     cache_set key (ca_Temp st (ca_Next st)) (st\<lparr>ca_Dirs := gm_put (ca_Temp st (ca_Next st)) files (ca_Dirs st), ca_Next := Suc (ca_Next st)\<rparr>)"

lemma gm_get_fold_del: "gm_get (fold gm_del ps d) p = (if p \<in> set ps then None else gm_get d p)"
  by (induction ps arbitrary: d) auto

lemma gm_has_get: "gm_has m k \<longleftrightarrow> gm_get m k \<noteq> None"
  by (auto simp: gm_has_def)

lemma cache_wfD:
  assumes "cache_wf st" and "ca_Next st \<le> n"
  shows "gm_get (ca_Dirs st) (ca_Temp st n) = None" and "(k, e) \<in> set (ca_entries st) \<Longrightarrow> ce_path e \<noteq> ca_Temp st n"
  using assms by (auto simp: cache_wf_def fresh_path_def gm_has_get)

lemma cleanup_get:
  assumes "cache_wf st" and "gm_get (ca_entries (cleanupExpired st)) k = Some e"
  shows "gm_get (ca_entries st) k = Some e"
  using gm_get_SomeD [OF assms(2)] assms(1) by (auto simp: cleanupExpired_def gm_get_wf_iff cache_wf_def)

lemma store_chart_wf:
  assumes "cache_wf st"
  shows "cache_wf (store_chart k v st)"
proof -
  let ?t = "ca_Temp st (ca_Next st)"
  have "fresh_path (store_chart k v st) (ca_Temp st n)" if "Suc (ca_Next st) \<le> n" for n
  proof -
    have "ca_Temp st n \<noteq> ?t" using assms that by (auto simp: cache_wf_def dest: injD)
    moreover have "set (ca_entries (store_chart k v st)) \<subseteq> insert (k, \<lparr>ce_path = ?t, ce_createdAt = ca_Now st\<rparr>) (set (ca_entries st))"
      using set_gm_put by (simp add: store_chart_def cache_set_def)
    ultimately show ?thesis
      using cache_wfD [OF assms, of n] that by (fastforce simp: fresh_path_def gm_has_get store_chart_def cache_set_def)
  qed
  then show ?thesis using assms by (simp add: cache_wf_def store_chart_def cache_set_def)
qed

lemma cleanupExpired_wf:
  assumes "cache_wf st"
  shows "cache_wf (cleanupExpired st)"
proof -
  have "gm_wf (ca_entries (cleanupExpired st))"
    using assms by (simp add: cache_wf_def cleanupExpired_def gm_wf_def distinct_map_filter)
  moreover have "fresh_path (cleanupExpired st) (ca_Temp st n)" if "ca_Next st \<le> n" for n
    using cache_wfD [OF assms that] by (auto simp: fresh_path_def gm_has_get gm_get_fold_del cleanupExpired_def)
  ultimately show ?thesis using assms by (simp add: cache_wf_def cleanupExpired_def)
qed

interpretation charts: memo_table stored_content store_chart cleanupExpired cache_wf
proof
  fix st k v k' w
  assume wf: "cache_wf st" and "stored_content (store_chart k v st) k' = Some w"
  then show "(k' = k \<and> w = v) \<or> stored_content st k' = Some w"
    using cache_wfD(2) [OF wf order_refl] gm_get_SomeD
    by (fastforce simp: stored_content_def store_chart_def cache_set_def split: option.splits if_splits)
next
  fix st k w
  assume wf: "cache_wf st" and s: "stored_content (cleanupExpired st) k = Some w"
  then obtain e where e: "gm_get (ca_entries (cleanupExpired st)) k = Some e" and d: "gm_get (ca_Dirs (cleanupExpired st)) (ce_path e) = Some w"
    by (auto simp: stored_content_def split: option.splits)
  from d have "gm_get (ca_Dirs st) (ce_path e) = Some w" by (simp add: cleanupExpired_def gm_get_fold_del split: if_splits)
  with cleanup_get [OF wf e] show "stored_content st k = Some w" by (simp add: stored_content_def)
qed (simp_all add: store_chart_wf cleanupExpired_wf)

section \<open>A prepared chart is the chart\<close>

definition chart_contents ::
  "'q chart_src \<Rightarrow> 'q k8s_lib \<Rightarrow> ('q, 'e) chart_lib \<Rightarrow> 'q Spec \<times> string \<times> 'q ResolvedSpec option \<Rightarrow> dir option" where
  "chart_contents C K H i =
     (let (m, environment, resolved) = i in
      case hookTaskNames K m environment resolved of
        Inl _ \<Rightarrow> None
      | Inr taskNames \<Rightarrow> (case write_chart C K H m environment resolved taskNames of Inl _ \<Rightarrow> None | Inr files \<Rightarrow> Some files))"

definition key_of :: "'q chart_src \<Rightarrow> 'q Spec \<times> string \<times> 'q ResolvedSpec option \<Rightarrow> string option" where
  "key_of C i = (let (m, environment, resolved) = i in case GenerateKey C m environment resolved of Inl (_ :: unit prepare_error) \<Rightarrow> None | Inr key \<Rightarrow> Some key)"

text \<open>What the cache may hold under a key, for the requests of a set \<open>U\<close>: the chart of one that has this key.\<close>

definition right_chart ::
  "'q chart_src \<Rightarrow> 'q k8s_lib \<Rightarrow> ('q, 'e) chart_lib \<Rightarrow> ('q Spec \<times> string \<times> 'q ResolvedSpec option) set \<Rightarrow> string \<Rightarrow> dir \<Rightarrow> bool" where
  "right_chart C K H U key files = (\<exists>i \<in> U. key_of C i = Some key \<and> chart_contents C K H i = Some files)"

lemma next_io_state: "next_io st = (f, st') \<Longrightarrow> \<exists>fs. st' = st\<lparr>ca_Faults := fs\<rparr>"
  by (cases st) (auto simp: next_io_def split: list.splits)

lemma faults_irrelevant [simp]:
  "cache_wf (st\<lparr>ca_Faults := fs\<rparr>) = cache_wf st" "stored_content (st\<lparr>ca_Faults := fs\<rparr>) = stored_content st"
  "fresh_path (st\<lparr>ca_Faults := fs\<rparr>) = fresh_path st" "charts.agrees R (st\<lparr>ca_Faults := fs\<rparr>) = charts.agrees R st"
  by (auto simp: cache_wf_def stored_content_def fresh_path_def charts.agrees_def fun_eq_iff split: option.splits)

definition temp_dir :: "chart_state \<Rightarrow> string" where
  "temp_dir st = ca_Temp st (ca_Next st)"

lemma MkdirTemp_cases:
  assumes "MkdirTemp st = (r, st')"
  obtains fs where "r = None" and "st' = st\<lparr>ca_Faults := fs\<rparr>"
  | fs where "r = Some (temp_dir st)" and "st' = st\<lparr>ca_Faults := fs, ca_Dirs := gm_put (temp_dir st) [] (ca_Dirs st), ca_Next := Suc (ca_Next st)\<rparr>"
proof -
  obtain f st1 where f: "next_io st = (f, st1)" by (metis surj_pair)
  from next_io_state [OF f] obtain fs where "st1 = st\<lparr>ca_Faults := fs\<rparr>" by auto
  with f assms that show thesis by (cases f) (auto simp: MkdirTemp_def temp_dir_def)
qed

text \<open>A step that uses the next temporary directory and touches no other.\<close>

definition temp_step :: "chart_state \<Rightarrow> chart_state \<Rightarrow> bool" where
  "temp_step st st' =
     (ca_entries st' = ca_entries st \<and> ca_Temp st' = ca_Temp st \<and> (ca_Next st' = Suc (ca_Next st) \<or> ca_Next st' = ca_Next st \<and> ca_Dirs st' = ca_Dirs st)
      \<and> (\<forall>p. p \<noteq> temp_dir st \<longrightarrow> gm_get (ca_Dirs st') p = gm_get (ca_Dirs st) p))"

lemma temp_fresh:
  assumes "cache_wf st"
  shows "fresh_path st (temp_dir st)" and "(k, e) \<in> set (ca_entries st) \<Longrightarrow> ce_path e \<noteq> temp_dir st"
  using assms cache_wfD(2) [OF assms order_refl] by (auto simp: cache_wf_def temp_dir_def)

lemma temp_step_content:
  assumes "cache_wf st" and "temp_step st st'"
  shows "stored_content st' = stored_content st"
proof
  fix k
  show "stored_content st' k = stored_content st k"
  proof (cases "gm_get (ca_entries st) k")
    case (Some e)
    have "ce_path e \<noteq> temp_dir st" by (rule temp_fresh(2) [OF assms(1) gm_get_SomeD [OF Some]])
    with Some assms(2) show ?thesis by (simp add: stored_content_def temp_step_def)
  qed (use assms(2) in \<open>simp add: stored_content_def temp_step_def\<close>)
qed

lemma temp_step_wf:
  assumes "cache_wf st" and "temp_step st st'"
  shows "cache_wf st'"
proof -
  have st: "ca_entries st' = ca_entries st" "ca_Temp st' = ca_Temp st" using assms(2) by (auto simp: temp_step_def)
  have "fresh_path st' (ca_Temp st n)" if n: "ca_Next st' \<le> n" for n
  proof -
    have old: "fresh_path st (ca_Temp st n)" using assms n by (auto simp: cache_wf_def temp_step_def)
    have "gm_get (ca_Dirs st') (ca_Temp st n) = gm_get (ca_Dirs st) (ca_Temp st n)"
    proof (cases "ca_Temp st n = temp_dir st")
      case True
      then have "n = ca_Next st" using assms(1) by (auto simp: cache_wf_def temp_dir_def dest: injD)
      with assms(2) n show ?thesis by (auto simp: temp_step_def)
    qed (use assms(2) in \<open>simp add: temp_step_def\<close>)
    with old show ?thesis by (simp add: fresh_path_def gm_has_get st)
  qed
  with assms(1) show ?thesis by (simp add: cache_wf_def st)
qed

lemma createChartCopy_spec:
  assumes "createChartCopy src st = (r, st')"
  shows "temp_step st st'"
    and "r = Inr p \<Longrightarrow> gm_has (ca_Dirs st) src \<Longrightarrow> cache_wf st \<Longrightarrow> p = temp_dir st \<and> gm_get (ca_Dirs st') p = gm_get (ca_Dirs st) src"
proof -
  obtain m st1 where m: "MkdirTemp st = (m, st1)" by (metis surj_pair)
  obtain f st2 where f: "next_io st1 = (f, st2)" by (metis surj_pair)
  from next_io_state [OF f] obtain fs2 where st2: "st2 = st1\<lparr>ca_Faults := fs2\<rparr>" by auto
  from m have "temp_step st st' \<and> (r = Inr p \<and> gm_has (ca_Dirs st) src \<and> cache_wf st \<longrightarrow> p = temp_dir st \<and> gm_get (ca_Dirs st') p = gm_get (ca_Dirs st) src)"
  proof (cases rule: MkdirTemp_cases)
    case (1 fs)
    with assms m show ?thesis by (auto simp: createChartCopy_def temp_step_def)
  next
    case (2 fs)
    have step: "(r, st') = (case (if f then None else gm_get (ca_Dirs st2) src) of
        Some files \<Rightarrow> (Inr (temp_dir st), st2\<lparr>ca_Dirs := gm_put (temp_dir st) files (ca_Dirs st2)\<rparr>)
      | None \<Rightarrow> (Inl CopyFailed, st2\<lparr>ca_Dirs := gm_del (temp_dir st) (ca_Dirs st2)\<rparr>))"
      using assms [symmetric] unfolding createChartCopy_def m 2(1) by (simp add: f)
    have dirs: "ca_Dirs st2 = gm_put (temp_dir st) [] (ca_Dirs st)" and same: "ca_entries st2 = ca_entries st" "ca_Temp st2 = ca_Temp st" "ca_Next st2 = Suc (ca_Next st)"
      by (simp_all add: st2 2(2))
    show ?thesis
    proof (cases "if f then None else gm_get (ca_Dirs st2) src")
      case None
      then have "r = Inl CopyFailed" and "st' = st2\<lparr>ca_Dirs := gm_del (temp_dir st) (ca_Dirs st2)\<rparr>"
        using step by simp_all
      then show ?thesis by (simp add: temp_step_def dirs same)
    next
      case (Some files)
      then have r: "r = Inr (temp_dir st)" and st': "st' = st2\<lparr>ca_Dirs := gm_put (temp_dir st) files (ca_Dirs st2)\<rparr>"
        using step by simp_all
      have "gm_get (ca_Dirs st) src = Some files" if "gm_has (ca_Dirs st) src" "cache_wf st"
      proof -
        have "src \<noteq> temp_dir st" using that temp_fresh(1) by (auto simp: fresh_path_def)
        with Some show ?thesis by (simp add: dirs split: if_splits)
      qed
      then show ?thesis by (auto simp: r st' temp_step_def dirs same)
    qed
  qed
  then show "temp_step st st'" and "r = Inr p \<Longrightarrow> gm_has (ca_Dirs st) src \<Longrightarrow> cache_wf st \<Longrightarrow> p = temp_dir st \<and> gm_get (ca_Dirs st') p = gm_get (ca_Dirs st) src"
    by blast+
qed

lemma gm_put_put [simp]: "gm_put k v (gm_put k w m) = gm_put k v m"
  unfolding gm_put_def by (induction m) auto

lemma agrees_content: "stored_content st' = stored_content st \<Longrightarrow> charts.agrees R st' = charts.agrees R st"
  by (simp add: charts.agrees_def)

text \<open>The state after a call: sound, and a returned directory holds files as given and belongs to the caller.\<close>

definition hands_out :: "(string \<Rightarrow> dir \<Rightarrow> bool) \<Rightarrow> (dir \<Rightarrow> bool) \<Rightarrow> chart_state \<Rightarrow> ('e prepare_error, string) result \<Rightarrow> chart_state \<Rightarrow> bool" where
  "hands_out R ok st r st' =
     (cache_wf st' \<and> charts.agrees R st'
      \<and> (\<forall>p. r = Inr p \<longrightarrow> (\<exists>files. gm_get (ca_Dirs st') p = Some files \<and> ok files) \<and> p \<in> ca_Temp st ` {ca_Next st..}
            \<and> (\<forall>(_, e) \<in> set (ca_entries st'). ce_path e \<noteq> p)))"

lemma hands_out_failed: "cache_wf st' \<Longrightarrow> charts.agrees R st' \<Longrightarrow> hands_out R ok st (Inl e) st'"
  by (simp add: hands_out_def)

lemma hands_out_copy:
  assumes "cache_wf st" and "charts.agrees R st" and "createChartCopy src st = (r, st')" and "gm_get (ca_Dirs st) src = Some files" and "ok files"
  shows "hands_out R ok st r st'"
proof -
  note step = createChartCopy_spec(1) [OF assms(3)]
  have wf: "cache_wf st'" by (rule temp_step_wf [OF assms(1) step])
  have ag: "charts.agrees R st'" using assms(2) agrees_content [OF temp_step_content [OF assms(1) step]] by simp
  have "gm_get (ca_Dirs st') p = Some files \<and> p \<in> ca_Temp st ` {ca_Next st..} \<and> (\<forall>(_, e) \<in> set (ca_entries st'). ce_path e \<noteq> p)" if "r = Inr p" for p
  proof -
    have "gm_has (ca_Dirs st) src" using assms(4) by (simp add: gm_has_get)
    from createChartCopy_spec(2) [OF assms(3) that this assms(1)] assms(4)
    have p: "p = temp_dir st" and "gm_get (ca_Dirs st') p = Some files" by auto
    moreover have "fresh_path st p" using temp_fresh(1) [OF assms(1)] p by simp
    moreover have "ca_entries st' = ca_entries st" using step by (simp add: temp_step_def)
    ultimately show ?thesis by (simp add: fresh_path_def temp_dir_def)
  qed
  with wf ag assms(5) show ?thesis by (simp add: hands_out_def)
qed

lemma MkdirTemp_ok:
  assumes "cache_wf st" and "charts.agrees R st" and "MkdirTemp st = (r, st')"
  shows "cache_wf st' \<and> charts.agrees R st'"
proof -
  from assms(3) have "temp_step st st'" by (cases rule: MkdirTemp_cases) (simp_all add: temp_step_def)
  with assms(1,2) temp_step_wf agrees_content [OF temp_step_content] show ?thesis by blast
qed

lemma store_after_mkdir:
  assumes "MkdirTemp st = (Some tmp, st1)" and "next_io st1 = (f, st2)"
  obtains fs where "cache_set key tmp (st2\<lparr>ca_Dirs := gm_put tmp files (ca_Dirs st2)\<rparr>) = (store_chart key files st)\<lparr>ca_Faults := fs\<rparr>"
    and "tmp = temp_dir st"
proof -
  from next_io_state [OF assms(2)] obtain fs where st2: "st2 = st1\<lparr>ca_Faults := fs\<rparr>" by auto
  from assms(1) show thesis
  proof (cases rule: MkdirTemp_cases)
    case (2 fs1)
    then have "cache_set key tmp (st2\<lparr>ca_Dirs := gm_put tmp files (ca_Dirs st2)\<rparr>) = (store_chart key files st)\<lparr>ca_Faults := fs\<rparr>"
      by (simp add: st2 cache_set_def store_chart_def temp_dir_def)
    with 2(1) that show thesis by simp
  qed simp
qed

section \<open>Sequences of calls\<close>

lemma GenerateKey_key_of:
  "GenerateKey C m environment resolved = Inr key \<Longrightarrow> key_of C (m, environment, resolved) = Some key"
  by (auto simp: key_of_def GenerateKey_def split: option.splits)

lemma cache_get_stored:
  assumes "cache_get st key = Some p"
  obtains files where "gm_get (ca_Dirs st) p = Some files" and "stored_content st key = Some files"
proof -
  from assms obtain e where e: "gm_get (ca_entries st) key = Some e" "gm_has (ca_Dirs st) (ce_path e)" "p = ce_path e"
    by (auto simp: cache_get_def split: option.splits if_splits)
  then obtain files where "gm_get (ca_Dirs st) p = Some files" by (auto simp: gm_has_get)
  with e that show thesis by (simp add: stored_content_def)
qed

lemma hands_out_from:
  assumes "hands_out R ok st1 r st'" and "ca_Temp st1 = ca_Temp st" and "ca_Next st \<le> ca_Next st1"
  shows "hands_out R ok st r st'"
proof -
  have "p \<in> ca_Temp st1 ` {ca_Next st1..} \<Longrightarrow> p \<in> ca_Temp st ` {ca_Next st..}" for p using assms(2,3) by auto
  with assms(1) show ?thesis by (simp add: hands_out_def)
qed

lemma hands_out_weaken:
  assumes "hands_out R ok st r st'" and "\<And>files. ok files \<Longrightarrow> ok' files"
  shows "hands_out R ok' st r st'"
proof -
  have "\<exists>files. gm_get d p = Some files \<and> ok' files" if "\<exists>files. gm_get d p = Some files \<and> ok files" for d p
    using that assms(2) by blast
  with assms(1) show ?thesis by (simp add: hands_out_def)
qed

lemma right_chart_stored:
  assumes "i \<in> U" and "key_of C i = Some key" and "chart_contents C K H i = Some files"
  shows "right_chart C K H U key files"
  using assms unfolding right_chart_def by blast

lemma store_chart_temp:
  "gm_get (ca_Dirs (store_chart key files st)) (temp_dir st) = Some files"
  "ca_Temp (store_chart key files st) = ca_Temp st" "ca_Next (store_chart key files st) = Suc (ca_Next st)"
  by (simp_all add: store_chart_def cache_set_def temp_dir_def)

lemma prepare_miss_ok:
  assumes wf: "cache_wf st" and ag: "charts.agrees (right_chart C K H U) st"
    and i: "(m, environment, resolved) \<in> U" "key_of C (m, environment, resolved) = Some key"
    and run: "prepare_miss C K H m environment resolved key st = (r, st')"
  shows "hands_out (right_chart C K H U) (right_chart C K H U key) st r st'"
proof (cases "hookTaskNames K m environment resolved")
  case (Inl e)
  with run wf ag show ?thesis by (auto simp: prepare_miss_def intro: hands_out_failed)
next
  case hooks: (Inr taskNames)
  obtain t st1 where mk: "MkdirTemp st = (t, st1)" by (metis surj_pair)
  note ok1 = MkdirTemp_ok [OF wf ag mk]
  show ?thesis
  proof (cases t)
    case None
    with run hooks mk ok1 show ?thesis by (auto simp: prepare_miss_def intro: hands_out_failed)
  next
    case (Some tmp)
    note mk = mk [unfolded Some]
    show ?thesis
    proof (cases "write_chart C K H m environment resolved taskNames")
      case (Inl e)
      with run hooks mk ok1 show ?thesis by (auto simp: prepare_miss_def intro: hands_out_failed)
    next
      case (Inr files)
      have content: "chart_contents C K H (m, environment, resolved) = Some files" using hooks Inr by (simp add: chart_contents_def)
      obtain f st2 where io: "next_io st1 = (f, st2)" by (metis surj_pair)
      from next_io_state [OF io] obtain fs2 where st2: "st2 = st1\<lparr>ca_Faults := fs2\<rparr>" by auto
      show ?thesis
      proof (cases f)
        case True
        with run hooks mk Inr io have "r = Inl WriteFailed" "st' = st2" by (simp_all add: prepare_miss_def)
        with ok1 st2 show ?thesis by (auto intro: hands_out_failed)
      next
        case False
        from store_after_mkdir [OF mk io] obtain fs
          where s: "cache_set key tmp (st2\<lparr>ca_Dirs := gm_put tmp files (ca_Dirs st2)\<rparr>) = (store_chart key files st)\<lparr>ca_Faults := fs\<rparr>" (is "_ = ?st3")
            and tmp: "tmp = temp_dir st" by blast
        have copy: "createChartCopy tmp ?st3 = (r, st')"
          using run hooks mk Inr io False by (simp add: prepare_miss_def s)
        note right = right_chart_stored [OF i content]
        have "cache_wf ?st3" using store_chart_wf [OF wf] by simp
        moreover have "charts.agrees (right_chart C K H U) ?st3"
          using charts.agrees_store [OF wf ag right] by simp
        ultimately have "hands_out (right_chart C K H U) (right_chart C K H U key) ?st3 r st'"
          using copy store_chart_temp(1) right by (auto simp: tmp intro: hands_out_copy)
        then show ?thesis
          by (rule hands_out_from) (simp_all add: store_chart_temp)
      qed
    qed
  qed
qed

lemma cleanup_temp: "ca_Temp (cleanupExpired st) = ca_Temp st" "ca_Next (cleanupExpired st) = ca_Next st"
  by (simp_all add: cleanupExpired_def)

lemma key_of_input:
  assumes "key_of C (m, environment, resolved) = Some key"
  obtains x where "key_input C m resolved = Some x" and "GenerateKey C m environment resolved = (Inr key :: (unit prepare_error, string) result)"
  using assms by (auto simp: key_of_def key_input_def GenerateKey_def split: option.splits sum.splits)

text \<open>Two requests for which SHA-256 collides, on the encoded inputs or on the combined texts.\<close>

definition keys_collide ::
  "'q chart_src \<Rightarrow> 'q Spec \<times> string \<times> 'q ResolvedSpec option \<Rightarrow> 'q Spec \<times> string \<times> 'q ResolvedSpec option \<Rightarrow> bool" where
  "keys_collide C i j =
     (let (m, environment, resolved) = i; (m', environment', resolved') = j; h = embeddedChartHash (cs_Files C) in
      \<exists>x y. key_input C m resolved = Some x \<and> key_input C m' resolved' = Some y
        \<and> (x \<noteq> y \<and> Sum256 x = Sum256 y
           \<or> combined_data x environment h \<noteq> combined_data y environment' h
              \<and> Sum256 (combined_data x environment h) = Sum256 (combined_data y environment' h)))"

definition same_input ::
  "'q chart_src \<Rightarrow> 'q Spec \<times> string \<times> 'q ResolvedSpec option \<Rightarrow> 'q Spec \<times> string \<times> 'q ResolvedSpec option \<Rightarrow> bool" where
  "same_input C i j =
     (let (m, environment, resolved) = i; (m', environment', resolved') = j in
      environment = environment' \<and> key_input C m resolved = key_input C m' resolved')"

lemma same_key:
  assumes "key_of C i = Some key" and "key_of C j = Some key"
  shows "same_input C i j \<or> keys_collide C i j"
proof -
  obtain m environment resolved m' environment' resolved' where ij: "i = (m, environment, resolved)" "j = (m', environment', resolved')"
    by (metis surj_pair)
  obtain x where x: "key_input C m resolved = Some x" "GenerateKey C m environment resolved = (Inr key :: (unit prepare_error, string) result)"
    by (rule key_of_input [OF assms(1) [unfolded ij]])
  obtain y where y: "key_input C m' resolved' = Some y" "GenerateKey C m' environment' resolved' = (Inr key :: (unit prepare_error, string) result)"
    by (rule key_of_input [OF assms(2) [unfolded ij]])
  from GenerateKey_collision [OF x(1) y(1) x(2) y(2)] x(1) y(1) show ?thesis
    unfolding ij same_input_def keys_collide_def Let_def by auto
qed

lemma PrepareChart_ok:
  assumes wf: "cache_wf st" and ag: "charts.agrees (right_chart C K H U) st"
    and i: "(m, environment, resolved) \<in> U"
    and run: "PrepareChart C K H cancelled cleanup m environment resolved st = (r, st')"
  shows "hands_out (right_chart C K H U) (\<lambda>files. \<exists>key. key_of C (m, environment, resolved) = Some key \<and> right_chart C K H U key files) st r st'"
    (is "hands_out _ ?ok st r st'")
proof (cases "cancelled")
  case True
  with run wf ag show ?thesis by (auto simp: PrepareChart_def intro: hands_out_failed)
next
  case go: False
  show ?thesis
  proof (cases "GenerateKey C m environment resolved :: ('b prepare_error, string) result")
    case (Inl e)
    with run go have "r = Inl e" "st' = st" by (simp_all add: PrepareChart_def)
    with wf ag show ?thesis by (simp add: hands_out_failed)
  next
    case key: (Inr key)
    note k = GenerateKey_key_of [OF key]
    show ?thesis
    proof (cases "cache_get st key")
      case (Some p)
      obtain files where p: "gm_get (ca_Dirs st) p = Some files" "stored_content st key = Some files"
        by (rule cache_get_stored [OF Some])
      have "right_chart C K H U key files" using ag p(2) unfolding charts.agrees_def by blast
      with k have ok: "?ok files" by blast
      have copy: "createChartCopy p st = (r, st')" using run go key Some by (simp add: PrepareChart_def)
      show ?thesis by (rule hands_out_copy [where ok = ?ok, OF wf ag copy p(1) ok])
    next
      case None
      define st0 where "st0 = (if entryCount st > 0 \<and> entryCount st mod 10 = 0 \<and> cleanup then cleanupExpired st else st)"
      have st0: "cache_wf st0" "charts.agrees (right_chart C K H U) st0"
        using wf ag by (auto simp: st0_def cleanupExpired_wf charts.agrees_forget)
      have "prepare_miss C K H m environment resolved key st0 = (r, st')"
        using run go key None by (simp add: PrepareChart_def st0_def)
      from prepare_miss_ok [OF st0 i k this] have "hands_out (right_chart C K H U) ?ok st0 r st'"
        by (rule hands_out_weaken) (use k in blast)
      then show ?thesis by (rule hands_out_from) (simp_all add: st0_def cleanup_temp)
    qed
  qed
qed

text \<open>
  What happens to the cache and the disk: charts are prepared, the cleanup runs between the calls (never during a copy), time
  passes, the disk starts or stops failing, and any directory is removed (by the caller it was given
  to, or by whatever empties the temporary directory).
\<close>

inductive chart_reach ::
  "'q chart_src \<Rightarrow> 'q k8s_lib \<Rightarrow> ('q, 'e) chart_lib \<Rightarrow> ('q Spec \<times> string \<times> 'q ResolvedSpec option) set \<Rightarrow> chart_state \<Rightarrow> chart_state \<Rightarrow> bool"
  for C :: "'q chart_src" and K :: "'q k8s_lib" and H :: "('q, 'e) chart_lib" and U and st0 where
  start: "chart_reach C K H U st0 (NewChartCache ttl st0)"
| prepare: "chart_reach C K H U st0 st \<Longrightarrow> (m, environment, resolved) \<in> U
    \<Longrightarrow> chart_reach C K H U st0 (snd (PrepareChart C K H cancelled cleanup m environment resolved st))"
| cleanup: "chart_reach C K H U st0 st \<Longrightarrow> chart_reach C K H U st0 (cleanupExpired st)"
| clock: "chart_reach C K H U st0 st \<Longrightarrow> ca_Now st \<le> t \<Longrightarrow> chart_reach C K H U st0 (st\<lparr>ca_Now := t\<rparr>)"
| faults: "chart_reach C K H U st0 st \<Longrightarrow> chart_reach C K H U st0 (st\<lparr>ca_Faults := fs\<rparr>)"
| remove: "chart_reach C K H U st0 st \<Longrightarrow> chart_reach C K H U st0 (st\<lparr>ca_Dirs := gm_del p (ca_Dirs st)\<rparr>)"

definition chart_inv where
  "chart_inv C K H U st = (cache_wf st \<and> charts.agrees (right_chart C K H U) st)"

lemma chart_inv_remove:
  assumes "chart_inv C K H U st"
  shows "chart_inv C K H U (st\<lparr>ca_Dirs := gm_del p (ca_Dirs st)\<rparr>)"
proof -
  have "stored_content (st\<lparr>ca_Dirs := gm_del p (ca_Dirs st)\<rparr>) k = Some files \<Longrightarrow> stored_content st k = Some files" for k files
    by (auto simp: stored_content_def split: option.splits if_splits)
  moreover have "fresh_path st q \<Longrightarrow> fresh_path (st\<lparr>ca_Dirs := gm_del p (ca_Dirs st)\<rparr>) q" for q
    by (auto simp: fresh_path_def gm_has_get)
  ultimately show ?thesis using assms unfolding chart_inv_def cache_wf_def charts.agrees_def by simp
qed

lemma chart_reach_inv:
  assumes "chart_reach C K H U st0 st" and "cache_wf st0"
  shows "chart_inv C K H U st"
  using assms(1)
proof induction
  case (start ttl)
  have "fresh_path st0 q \<Longrightarrow> fresh_path (NewChartCache ttl st0) q" for q by (simp add: fresh_path_def NewChartCache_def)
  with assms(2) show ?case
    by (simp add: chart_inv_def cache_wf_def charts.agrees_def stored_content_def NewChartCache_def gm_wf_def)
next
  case (prepare st m environment resolved cancelled cleanup)
  obtain r st' where run: "PrepareChart C K H cancelled cleanup m environment resolved st = (r, st')" by (metis surj_pair)
  from prepare.IH PrepareChart_ok [OF _ _ prepare.hyps(2) run] show ?case
    by (simp add: chart_inv_def hands_out_def run)
next
  case (cleanup st)
  then show ?case by (simp add: chart_inv_def cleanupExpired_wf charts.agrees_forget)
next
  case (clock st t)
  have "stored_content (st\<lparr>ca_Now := t\<rparr>) = stored_content st" "fresh_path (st\<lparr>ca_Now := t\<rparr>) = fresh_path st"
    by (simp_all add: fun_eq_iff stored_content_def fresh_path_def split: option.splits)
  with clock.IH show ?case by (simp add: chart_inv_def cache_wf_def charts.agrees_def)
next
  case (faults st fs)
  then show ?case by (simp add: chart_inv_def)
qed (rule chart_inv_remove)

text \<open>
  C5: whatever happened since the cache was made (charts prepared for requests of \<open>U\<close>, cleanups
  between the calls, waiting, failures of the disk, removal of any directory, those of the cache
  included), a chart prepared with success is exactly the chart of a request of \<open>U\<close> for the same
  environment and with the same encoded spec, or SHA-256 collides for the two; it lies in a directory
  that did not exist before the call and that the cache does not own, so removing it takes nothing
  from the cache. The request need not be the one of the call: what the encoding leaves out, the key
  leaves out.
\<close>

theorem chart_cache_transparent:
  assumes "cache_wf st0" and "chart_reach C K H U st0 st"
    and "(m, environment, resolved) \<in> U"
    and "PrepareChart C K H cancelled cleanup m environment resolved st = (Inr p, st')"
  shows "(\<exists>j \<in> U. \<exists>files. chart_contents C K H j = Some files \<and> gm_get (ca_Dirs st') p = Some files
           \<and> (same_input C (m, environment, resolved) j \<or> keys_collide C (m, environment, resolved) j))
    \<and> \<not> gm_has (ca_Dirs st) p \<and> (\<forall>(_, e) \<in> set (ca_entries st'). ce_path e \<noteq> p)"
proof -
  from chart_reach_inv [OF assms(2,1)] have inv: "cache_wf st" "charts.agrees (right_chart C K H U) st"
    by (simp_all add: chart_inv_def)
  note out = PrepareChart_ok [OF inv assms(3,4), unfolded hands_out_def]
  then obtain n where "p = ca_Temp st n" "ca_Next st \<le> n" by auto
  then have "\<not> gm_has (ca_Dirs st) p" using cache_wfD(1) [OF inv(1)] by (simp add: gm_has_get)
  moreover from out obtain files key where "gm_get (ca_Dirs st') p = Some files" "key_of C (m, environment, resolved) = Some key"
    "right_chart C K H U key files" by blast
  moreover from this(3) obtain j where "j \<in> U" "key_of C j = Some key" "chart_contents C K H j = Some files"
    unfolding right_chart_def by blast
  ultimately show ?thesis using out same_key by blast
qed

text \<open>
  two requests get the same cache key only for the same environment and the same encoded
  spec, unless SHA-256 collides on the two encodings or on the two combined texts: the parts of the
  combined text can be told apart whatever the name of the environment holds.
\<close>

theorem generate_key_exact:
  assumes "key_input C m resolved = Some x" and "key_input C m' resolved' = Some y"
    and "GenerateKey C m environment resolved = (Inr key :: ('e prepare_error, string) result)"
    and "GenerateKey C m' environment' resolved' = (Inr key :: ('e prepare_error, string) result)"
  shows "(x = y \<and> environment = environment')
    \<or> (x \<noteq> y \<and> Sum256 x = Sum256 y)
    \<or> (let h = embeddedChartHash (cs_Files C); a = combined_data x environment h; b = combined_data y environment' h
       in a \<noteq> b \<and> Sum256 a = Sum256 b)"
  by (rule GenerateKey_collision [OF assms])

section \<open>Examples\<close>

text \<open>
  The encoder of the example writes a spec as the code does in one respect: the flag of metrics that
  are switched off is not written (\<open>json:"-"\<close>).
\<close>

definition ex_src :: "int chart_src" where
  "ex_src =
     \<lparr>cs_Files = [(''chart/Chart.yaml.gotmpl'', ''n''), (''chart/charts/lib/templates/app.yaml'', ''a'')],
      cs_Template = \<lambda>_ text data. Some (text @ cd_Name data),
      cs_JSONSpec = \<lambda>m. Some (s_Project m @ concat (map (\<lambda>(n, c). n @ (case c_Metrics c of None \<Rightarrow> [] | Some x \<Rightarrow> m_Path x)) (s_Components m))),
      cs_JSONResolved = \<lambda>r. None, cs_YAML = \<lambda>v. Some (concat (map (\<lambda>(k, x). k @ (case x of JObj fs \<Rightarrow> concat (map fst fs) | _ \<Rightarrow> [])) v))\<rparr>"

definition ex_chart_state :: chart_state where
  "ex_chart_state = \<lparr>ca_entries = [], ca_ttl = 0, ca_Dirs = [], ca_Temp = \<lambda>n. replicate n CHR ''t'', ca_Next = 0, ca_Now = 0, ca_Faults = []\<rparr>"

definition ex_metrics :: "bool \<Rightarrow> int Spec" where
  "ex_metrics disabled =
     \<lparr>s_APIVersion = [], s_Project = ''shop'', s_Environments = [],
      s_Components = [(''web'', zero_Component\<lparr>c_Image := ''web'', c_ShutdownTimeout := ''30s'', c_Port := 8080,
        c_Metrics := Some \<lparr>m_Disabled = disabled, m_Enabled = None, m_Port = 0, m_Path = ''/metrics'', m_Interval = [], m_ScrapeTimeout = []\<rparr>\<rparr>)],
      s_Tasks = []\<rparr>"

definition ex_request :: "bool \<Rightarrow> int Spec \<times> string \<times> int ResolvedSpec option" where
  "ex_request disabled = (ex_metrics disabled, ''prod'', None)"

definition ex_prepare :: "bool \<Rightarrow> chart_state \<Rightarrow> (unit prepare_error, string) result \<times> chart_state" where
  "ex_prepare disabled = PrepareChart ex_src int_lib ex_chart_lib False False (ex_metrics disabled) ''prod'' None"

lemma ex_chart_state_wf: "cache_wf ex_chart_state"
  by (auto simp: cache_wf_def ex_chart_state_def fresh_path_def gm_wf_def gm_has_def gm_get_def inj_def dest: arg_cong [where f = length])

text \<open>The chart with metrics is prepared first, then the one without.\<close>

definition ex_first :: chart_state where
  "ex_first = snd (ex_prepare False (NewChartCache 0 ex_chart_state))"

definition ex_files :: "bool \<Rightarrow> dir" where
  "ex_files disabled = (case write_chart ex_src int_lib ex_chart_lib (ex_metrics disabled) ''prod'' None [] of Inr d \<Rightarrow> d | Inl _ \<Rightarrow> [])"

lemma ex_written:
  "write_chart ex_src int_lib ex_chart_lib (ex_metrics False) ''prod'' None [] = Inr (ex_files False)"
  "hookTaskNames int_lib (ex_metrics False) ''prod'' None = Inr []"
  by code_simp+

lemma ex_written_other:
  "write_chart ex_src int_lib ex_chart_lib (ex_metrics True) ''prod'' None [] = Inr (ex_files True)"
  "hookTaskNames int_lib (ex_metrics True) ''prod'' None = Inr []" "ex_files True \<noteq> ex_files False"
  by code_simp+

lemma ex_same_key: "GenerateKey ex_src (ex_metrics True) environment None = GenerateKey ex_src (ex_metrics False) environment None"
  by (simp add: GenerateKey_def ex_src_def ex_metrics_def)

lemma ex_key:
  obtains key where "GenerateKey ex_src (ex_metrics disabled) ''prod'' None = (Inr key :: (unit prepare_error, string) result)"
  by (simp add: GenerateKey_def ex_src_def)

lemma ex_second:
  "ex_prepare True ex_first = (Inr ''tt'', snd (ex_prepare True ex_first)) \<and> gm_get (ca_Dirs (snd (ex_prepare True ex_first))) ''tt'' = Some (ex_files False)"
proof -
  obtain key where key: "GenerateKey ex_src (ex_metrics False) ''prod'' None = (Inr key :: (unit prepare_error, string) result)"
    by (rule ex_key)
  have first: "ex_first = \<lparr>ca_entries = [(key, \<lparr>ce_path = [], ce_createdAt = 0\<rparr>)], ca_ttl = defaultChartCacheTTL,
      ca_Dirs = [([], ex_files False), (''t'', ex_files False)], ca_Temp = \<lambda>n. replicate n CHR ''t'', ca_Next = 2, ca_Now = 0, ca_Faults = []\<rparr>"
    by (simp add: ex_first_def ex_prepare_def PrepareChart_def key cache_get_def NewChartCache_def ex_chart_state_def entryCount_def
        prepare_miss_def ex_written MkdirTemp_def next_io_def createChartCopy_def cache_set_def gm_put_def gm_get_def)
  show ?thesis
    by (simp add: first ex_prepare_def PrepareChart_def ex_same_key key cache_get_def MkdirTemp_def next_io_def createChartCopy_def
        gm_has_def gm_get_def gm_put_def defaultChartCacheTTL_def numeral_2_eq_2)
qed

text \<open>
  Preparing the chart with metrics switched off after the one with metrics returns the chart with
  metrics: the two requests have the same key and different charts.
\<close>

lemma disabled_metrics_reuse:
  "gm_get (ca_Dirs (snd (ex_prepare True ex_first))) ''tt'' = chart_contents ex_src int_lib ex_chart_lib (ex_request False)
   \<and> chart_contents ex_src int_lib ex_chart_lib (ex_request True) \<noteq> chart_contents ex_src int_lib ex_chart_lib (ex_request False)"
  using ex_second ex_written_other(3) by (simp add: chart_contents_def ex_request_def ex_written ex_written_other)

theorem chart_cache_transparent_witness:
  "\<exists>disabled files. chart_contents ex_src int_lib ex_chart_lib (ex_request disabled) = Some files
     \<and> gm_get (ca_Dirs (snd (ex_prepare True ex_first))) ''tt'' = Some files \<and> \<not> gm_has (ca_Dirs ex_first) ''tt''"
proof -
  let ?U = "{ex_request False, ex_request True}"
  have reach: "chart_reach ex_src int_lib ex_chart_lib ?U ex_chart_state ex_first"
    unfolding ex_first_def ex_prepare_def by (intro chart_reach.prepare chart_reach.start) (simp add: ex_request_def)
  have mem: "(ex_metrics True, ''prod'', None) \<in> ?U" by (simp add: ex_request_def)
  have run: "PrepareChart ex_src int_lib ex_chart_lib False False (ex_metrics True) ''prod'' None ex_first
      = (Inr ''tt'', snd (ex_prepare True ex_first))"
    using ex_second unfolding ex_prepare_def by blast
  from chart_cache_transparent [OF ex_chart_state_wf reach mem run] show ?thesis by blast
qed

theorem generate_key_exact_witness:
  "\<exists>key. GenerateKey ex_src (ex_metrics False) ''prod'' None = (Inr key :: (unit prepare_error, string) result)
     \<and> key_input ex_src (ex_metrics False) None = Some ''shopweb/metrics''
     \<and> (\<forall>environment. GenerateKey ex_src (ex_metrics True) environment None = (Inr key :: (unit prepare_error, string) result) \<longrightarrow>
          environment = ''prod'' \<or> combined_data ''shopweb/metrics'' ''prod'' (embeddedChartHash (cs_Files ex_src)) \<noteq> combined_data ''shopweb/metrics'' environment (embeddedChartHash (cs_Files ex_src)))"
proof -
  have k: "key_input ex_src (ex_metrics n) None = Some ''shopweb/metrics''" for n
    by (simp add: key_input_def ex_src_def ex_metrics_def)
  obtain key where g: "GenerateKey ex_src (ex_metrics False) ''prod'' None = (Inr key :: (unit prepare_error, string) result)"
    by (simp add: GenerateKey_def ex_src_def)
  have "environment = ''prod'' \<or> combined_data ''shopweb/metrics'' ''prod'' (embeddedChartHash (cs_Files ex_src)) \<noteq> combined_data ''shopweb/metrics'' environment (embeddedChartHash (cs_Files ex_src))"
    if "GenerateKey ex_src (ex_metrics True) environment None = (Inr key :: (unit prepare_error, string) result)" for environment
    using generate_key_exact [OF k k g that] unfolding Let_def by blast
  with k g show ?thesis by blast
qed

end
