(* ===== verification/Watcher.thy ===== *)
theory Watcher
  imports Releases Cluster_Checks Plan_Output Go_Path
begin

text \<open>
  Pods and events of a release: the queries of \<open>internal/k8s/pods.go\<close> and \<open>components.go\<close>, the stream of
  events of \<open>events.go\<close>, and the watcher that runs beside an installation
  (\<open>internal/cmd/deploy/watcher.go\<close>). The answers of the API server are parameters. Which of the
  channels a \<open>select\<close> takes is a schedule, an argument, so that the theorems hold for every
  interleaving. The list of warnings keeps the contract of the locale \<open>keyed_log\<close>.
\<close>

section \<open>Pods\<close>

record pod_object = pod +
  px_Name :: string
  px_Namespace :: string
  px_Containers :: "string list"

record PodInfo =
  pi_Name :: string
  pi_Namespace :: string
  pi_Containers :: "string list"
  pi_Status :: string

text \<open>
  The pods of a namespace: those a selector selects, the running ones only where the field selector
  asks for them, and the one of a name.
\<close>

record 'e pods_api =
  pa_List :: "string \<Rightarrow> label_selector \<Rightarrow> bool \<Rightarrow> ('e, pod_object list) result"
  pa_Get :: "string \<Rightarrow> string \<Rightarrow> ('e, pod_object) result"

datatype 'e pods_error =
    PodSelector selector_error
  | PodList 'e
  | PodGet string 'e
  | ComponentNotFound string string

definition pod_info :: "pod_object \<Rightarrow> PodInfo" where
  "pod_info p = \<lparr>pi_Name = px_Name p, pi_Namespace = px_Namespace p, pi_Containers = px_Containers p, pi_Status = pod_Phase p\<rparr>"

definition list_pods ::
  "'e pods_api \<Rightarrow> string \<Rightarrow> bool \<Rightarrow> (selector_error, label_selector) result \<Rightarrow> ('e pods_error, pod_object list) result" where
  "list_pods A namespace running selector =
     (case selector of
        Inl e \<Rightarrow> Inl (PodSelector e)
      | Inr sel \<Rightarrow> (case pa_List A namespace sel running of Inl e \<Rightarrow> Inl (PodList e) | Inr pods \<Rightarrow> Inr pods))"

definition GetRunningPods ::
  "(string \<Rightarrow> bool) \<Rightarrow> 'e pods_api \<Rightarrow> string \<Rightarrow> string \<Rightarrow> string \<Rightarrow> string \<Rightarrow> ('e pods_error, PodInfo list) result" where
  "GetRunningPods V A namespace project component environment =
     bindE (list_pods A namespace True (BuildSelector V project component environment)) (\<lambda>pods. Inr (map pod_info pods))"

definition GetPodInfo :: "'e pods_api \<Rightarrow> string \<Rightarrow> string \<Rightarrow> ('e pods_error, PodInfo) result" where
  "GetPodInfo A namespace podName = (case pa_Get A namespace podName of Inl e \<Rightarrow> Inl (PodGet podName e) | Inr p \<Rightarrow> Inr (pod_info p))"

definition isPodContainersReady :: "bool list \<Rightarrow> bool" where
  "isPodContainersReady statuses = list_all id statuses"

text \<open>With an error the counts are zero and the text is \<open>0/0\<close>.\<close>

definition GetPodStatus ::
  "(string \<Rightarrow> bool) \<Rightarrow> 'e pods_api \<Rightarrow> string \<Rightarrow> string \<Rightarrow> (nat \<times> nat \<times> string) \<times> 'e pods_error option" where
  "GetPodStatus V A namespace releaseName =
     (case list_pods A namespace False (bindE (NewRequirement V ''app.kubernetes.io/instance'' releaseName) (\<lambda>req. Inr [req])) of
        Inl e \<Rightarrow> ((0, 0, ''0/0''), Some e)
      | Inr pods \<Rightarrow>
          let totalPods = length pods;
              readyPods = length (filter (\<lambda>p. pod_Phase p = ''Running'' \<and> isPodContainersReady (pod_ContainersReady p)) pods)
          in ((totalPods, readyPods, Itoa readyPods @ ''/'' @ Itoa totalPods), None))"

definition ValidatePodExists :: "'e pods_api \<Rightarrow> string \<Rightarrow> string \<Rightarrow> 'e pods_error check" where
  "ValidatePodExists A namespace podName = (case pa_Get A namespace podName of Inl e \<Rightarrow> Some (PodGet podName e) | Inr _ \<Rightarrow> None)"

text \<open>The values of a label over a list of pods, each once; the map of the code has no order of its own.\<close>

definition label_values :: "string \<Rightarrow> pod_object list \<Rightarrow> string list" where
  "label_values key pods = first_seen (List.map_filter (\<lambda>p. gm_get (pod_Labels p) key) pods)"

definition GetAvailableComponents ::
  "(string \<Rightarrow> bool) \<Rightarrow> 'e pods_api \<Rightarrow> string \<Rightarrow> string \<Rightarrow> ('e pods_error, string list) result" where
  "GetAvailableComponents V A namespace projectName =
     bindE (list_pods A namespace True (BuildProjectSelector V projectName)) (\<lambda>pods. Inr (label_values ComponentLabel pods))"

definition ValidateComponentExists ::
  "(string \<Rightarrow> bool) \<Rightarrow> 'e pods_api \<Rightarrow> string \<Rightarrow> string \<Rightarrow> string \<Rightarrow> 'e pods_error check" where
  "ValidateComponentExists V A namespace projectName componentName =
     (case GetRunningPods V A namespace projectName componentName [] of
        Inl e \<Rightarrow> Some e
      | Inr pods \<Rightarrow> if pods = [] then Some (ComponentNotFound componentName projectName) else None)"

definition GetAvailableEnvironments ::
  "(string \<Rightarrow> bool) \<Rightarrow> 'e pods_api \<Rightarrow> string \<Rightarrow> string \<Rightarrow> string \<Rightarrow> ('e pods_error, string list) result" where
  "GetAvailableEnvironments V A namespace projectName componentName =
     bindE (list_pods A namespace True (BuildComponentSelector V projectName componentName)) (\<lambda>pods. Inr (label_values EnvironmentLabel pods))"

section \<open>Events\<close>

text \<open>A time is the number of nanoseconds since the epoch, and nothing for the zero time.\<close>

record core_event =
  ev_UID :: string
  ev_Type :: string
  ev_Reason :: string
  ev_Message :: string
  ev_Kind :: string
  ev_Name :: string
  ev_Count :: int
  ev_LastTimestamp :: "int option"
  ev_EventTime :: "int option"
  ev_CreationTimestamp :: "int option"

record DeployEvent =
  dev_UID :: string
  dev_Type :: string
  dev_Reason :: string
  dev_Message :: string
  dev_Object :: string
  dev_Count :: int
  dev_Timestamp :: "int option"

datatype watch_event = WatchError | OtherObject | EventObject core_event

definition toDeployEvent :: "watch_event \<Rightarrow> string \<Rightarrow> DeployEvent option" where
  "toDeployEvent ev prefix =
     (case ev of
        EventObject coreEv \<Rightarrow>
          if \<not> HasPrefix (ev_Name coreEv) prefix then None
          else
            let ts = ev_LastTimestamp coreEv;
                ts = (if ts = None then ev_EventTime coreEv else ts);
                ts = (if ts = None then ev_CreationTimestamp coreEv else ts)
            in Some \<lparr>dev_UID = ev_UID coreEv, dev_Type = ev_Type coreEv, dev_Reason = ev_Reason coreEv, dev_Message = ev_Message coreEv,
                     dev_Object = Lower (ev_Kind coreEv) @ ''/'' @ ev_Name coreEv, dev_Count = (if ev_Count coreEv = 0 then 1 else ev_Count coreEv),
                     dev_Timestamp = ts\<rparr>
      | _ \<Rightarrow> None)"

definition initial_version :: "string \<Rightarrow> string" where
  "initial_version rv = (if rv = [] \<or> rv = ''0'' then ''1'' else rv)"

datatype 'e watch_error = ListEvents 'e | CreateWatcher 'e

text \<open>
  The events that the channel carries until it is closed: \<open>listed\<close> answers the list, \<open>stream\<close> gives
  what the watch sees from a resource version on.
\<close>

definition WatchDeployEvents ::
  "('e, string) result \<Rightarrow> (string \<Rightarrow> ('e, watch_event list) result) \<Rightarrow> string \<Rightarrow> ('e watch_error, DeployEvent list) result" where
  "WatchDeployEvents listed stream releasePrefix =
     (case listed of
        Inl e \<Rightarrow> Inl (ListEvents e)
      | Inr rv \<Rightarrow>
          (case stream (initial_version rv) of
             Inl e \<Rightarrow> Inl (CreateWatcher e)
           | Inr evs \<Rightarrow>
               Inr (List.map_filter (\<lambda>ev. toDeployEvent ev (releasePrefix @ ''-'')) (filter (\<lambda>ev. ev \<noteq> WatchError) evs))))"

section \<open>The watcher\<close>

datatype 'e poll_error = PollCanceled | PollFailed 'e

datatype 'e status_call =
    TitleUnavailable "'e watch_error"
  | SetTitle string
  | SetRow string string string string bool
  | SetCompletionWarning

text \<open>The polls made so far and the calls of the status view are recorded.\<close>

record 'e watcher =
  wa_warnings :: "DeployEvent list"
  wa_summary :: "ComponentStatus list"
  wa_pollStale :: bool
  wa_Polls :: nat
  wa_Calls :: "'e status_call list"

type_synonym 'e pod_polls = "nat \<Rightarrow> ('e poll_error, pod list) result"

definition NewDeployWatcher :: "'e watcher" where
  "NewDeployWatcher = \<lparr>wa_warnings = [], wa_summary = [], wa_pollStale = False, wa_Polls = 0, wa_Calls = []\<rparr>"

definition shows_call :: "'e status_call \<Rightarrow> 'e watcher \<Rightarrow> 'e watcher" where
  "shows_call call w = w\<lparr>wa_Calls := wa_Calls w @ [call]\<rparr>"

fun put_warning :: "DeployEvent \<Rightarrow> DeployEvent list \<Rightarrow> DeployEvent list" where
  "put_warning ev [] = [ev]"
| "put_warning ev (ww # ws) = (if dev_UID ww = dev_UID ev then ev # ws else ww # put_warning ev ws)"

definition trackWarning :: "DeployEvent \<Rightarrow> 'e watcher \<Rightarrow> 'e watcher" where
  "trackWarning ev w = (if dev_Type ev \<noteq> ''Warning'' then w else w\<lparr>wa_warnings := put_warning ev (wa_warnings w)\<rparr>)"

definition pushRow :: "DeployEvent \<Rightarrow> 'e watcher \<Rightarrow> 'e watcher" where
  "pushRow ev w =
     (let msg = dev_Message ev @ (if dev_Count ev > 1 then '' (x'' @ fmt_d (dev_Count ev) @ '')'' else [])
      in shows_call (SetRow (dev_UID ev) (dev_Reason ev) (dev_Object ev) msg (dev_Type ev = ''Warning'')) w)"

definition readyTotal :: "ComponentStatus list \<Rightarrow> int \<times> int" where
  "readyTotal statuses = (sum_list (map cs_ReadyPods statuses), sum_list (map cs_TotalPods statuses))"

definition watcher_title :: "'e watcher \<Rightarrow> string" where
  "watcher_title w =
     (let (ready, all_pods) = readyTotal (wa_summary w) in
      if wa_pollStale w then
        (if wa_summary w = [] then ''pod status unavailable (retrying...)''
         else ''pods '' @ fmt_d ready @ ''/'' @ fmt_d all_pods @ '' ready (status stale)'')
      else if wa_summary w = [] then ''waiting for pods...''
      else ''pods '' @ fmt_d ready @ ''/'' @ fmt_d all_pods @ '' ready'')"

definition updateTitle :: "'e watcher \<Rightarrow> 'e watcher" where
  "updateTitle w = shows_call (SetTitle (watcher_title w)) w"

definition refreshPodStatus :: "'e pod_polls \<Rightarrow> string \<Rightarrow> 'e watcher \<Rightarrow> 'e watcher" where
  "refreshPodStatus polls releaseName w =
     (let answer = Poll releaseName (polls (wa_Polls w)); w = w\<lparr>wa_Polls := Suc (wa_Polls w)\<rparr> in
      case answer of
        Inl PollCanceled \<Rightarrow> w
      | Inl (PollFailed _) \<Rightarrow> w\<lparr>wa_pollStale := True\<rparr>
      | Inr statuses \<Rightarrow> w\<lparr>wa_summary := statuses, wa_pollStale := False\<rparr>)"

text \<open>\<open>ticks\<close>: how often the ticker is taken before the deadline of the last refresh.\<close>

fun finalRefresh :: "'e pod_polls \<Rightarrow> string \<Rightarrow> nat \<Rightarrow> 'e watcher \<Rightarrow> 'e watcher" where
  "finalRefresh polls releaseName ticks w =
     (let w = updateTitle (refreshPodStatus polls releaseName w) in
      if AllReady (wa_summary w) then w
      else case ticks of 0 \<Rightarrow> shows_call SetCompletionWarning w | Suc n \<Rightarrow> finalRefresh polls releaseName n w)"

declare finalRefresh.simps [simp del]

text \<open>
  What the \<open>select\<close> takes next: an event (or the end of the closed channel), the ticker, or the end of
  the context, with the ticks of the last refresh.
\<close>

datatype choice = TakeEvent | TakeTick | TakeDone nat

text \<open>Waiting for the context alone. Without an end of the context the watcher has not returned.\<close>

fun await_done :: "choice list \<Rightarrow> nat option" where
  "await_done [] = None"
| "await_done (TakeDone n # cs) = Some n"
| "await_done (TakeEvent # cs) = await_done cs"
| "await_done (TakeTick # cs) = await_done cs"

fun watch_loop :: "'e pod_polls \<Rightarrow> string \<Rightarrow> DeployEvent list \<Rightarrow> choice list \<Rightarrow> 'e watcher \<Rightarrow> 'e watcher option" where
  "watch_loop polls releaseName evs [] w = None"
| "watch_loop polls releaseName evs (TakeDone n # cs) w = Some (finalRefresh polls releaseName n w)"
| "watch_loop polls releaseName [] (TakeEvent # cs) w = map_option (\<lambda>n. finalRefresh polls releaseName n w) (await_done cs)"
| "watch_loop polls releaseName (ev # evs) (TakeEvent # cs) w =
     watch_loop polls releaseName evs cs (updateTitle (refreshPodStatus polls releaseName (pushRow ev (trackWarning ev w))))"
| "watch_loop polls releaseName evs (TakeTick # cs) w =
     watch_loop polls releaseName evs cs (updateTitle (refreshPodStatus polls releaseName w))"

definition Watcher_Run ::
  "'e pod_polls \<Rightarrow> string \<Rightarrow> ('e watch_error, DeployEvent list) result \<Rightarrow> choice list \<Rightarrow> 'e watcher \<Rightarrow> 'e watcher option" where
  "Watcher_Run polls releaseName events choices w =
     (case events of
        Inl e \<Rightarrow> map_option (\<lambda>_. shows_call (TitleUnavailable e) w) (await_done choices)
      | Inr evs \<Rightarrow> watch_loop polls releaseName evs choices w)"

section \<open>Queries agree\<close>

text \<open>What the API server documents of a list: the pods of the namespace that the selectors select.\<close>

definition honest_pods :: "'e pods_api \<Rightarrow> pod_object list \<Rightarrow> bool" where
  "honest_pods A pods =
     (\<forall>namespace sel running. pa_List A namespace sel running =
        Inr (filter (\<lambda>p. px_Namespace p = namespace \<and> selector_matches sel (pod_Labels p) \<and> (running \<longrightarrow> pod_Phase p = ''Running'')) pods))"

lemma map_filter_set: "x \<in> set (List.map_filter f ys) \<longleftrightarrow> (\<exists>y \<in> set ys. f y = Some x)"
  by (force simp: List.map_filter_def)

lemma BuildSelector_ok:
  assumes "BuildSelector V project [] [] = Inr sel" and "component = [] \<or> V component"
  obtains sel' where "BuildSelector V project component [] = Inr sel'"
    and "\<And>ls. selector_matches sel' ls \<longleftrightarrow> selector_matches sel ls \<and> (component = [] \<or> gm_get ls ComponentLabel = Some component)"
proof -
  from assms have "\<exists>sel'. BuildSelector V project component [] = Inr sel'
    \<and> (\<forall>ls. selector_matches sel' ls \<longleftrightarrow> selector_matches sel ls \<and> (component = [] \<or> gm_get ls ComponentLabel = Some component))"
    by (auto simp: BuildSelector_def WithProject_def WithComponent_def WithEnvironment_def NewRequirement_def selector_matches_def split: if_splits)
  with that show thesis by blast
qed

text \<open>
  a component is offered for a project exactly when the check for it passes, which is when
  a running pod carries its label and that of the project.
\<close>

theorem component_listed_iff_exists:
  assumes "honest_pods A pods" and "GetAvailableComponents V A namespace project = Inr components"
    and "component \<noteq> []" and "V component"
  shows "component \<in> set components \<longleftrightarrow> ValidateComponentExists V A namespace project component = None"
proof -
  from assms(1,2) obtain sel where sel: "BuildSelector V project [] [] = Inr sel"
    and cs: "components = label_values ComponentLabel
      (filter (\<lambda>p. px_Namespace p = namespace \<and> selector_matches sel (pod_Labels p) \<and> pod_Phase p = ''Running'') pods)"
    by (auto simp: GetAvailableComponents_def BuildProjectSelector_def list_pods_def honest_pods_def bindE_def split: sum.splits)
  obtain sel' where s': "BuildSelector V project component [] = Inr sel'"
    and m: "\<And>ls. selector_matches sel' ls \<longleftrightarrow> selector_matches sel ls \<and> (component = [] \<or> gm_get ls ComponentLabel = Some component)"
    using BuildSelector_ok [OF sel] assms(4) by blast
  have "ValidateComponentExists V A namespace project component = None
      \<longleftrightarrow> (\<exists>p \<in> set pods. px_Namespace p = namespace \<and> selector_matches sel' (pod_Labels p) \<and> pod_Phase p = ''Running'')"
    using assms(1) s' by (auto simp: ValidateComponentExists_def GetRunningPods_def list_pods_def honest_pods_def filter_empty_conv)
  then show ?thesis using assms(3) by (auto simp: cs label_values_def map_filter_set m)
qed

section \<open>A log with one entry per key\<close>

definition latest_by :: "('a \<Rightarrow> 'k) \<Rightarrow> 'a list \<Rightarrow> 'a list" where
  "latest_by key xs = map (\<lambda>k. last (filter (\<lambda>x. key x = k) xs)) (first_seen (map key xs))"

locale keyed_log =
  fixes key :: "'a \<Rightarrow> 'k"
    and put :: "'a \<Rightarrow> 'a list \<Rightarrow> 'a list"
  assumes put_new: "key a \<notin> key ` set xs \<Longrightarrow> put a xs = xs @ [a]"
    and put_old: "key a \<in> key ` set xs \<Longrightarrow> distinct (map key xs) \<Longrightarrow> put a xs = map (\<lambda>x. if key x = key a then a else x) xs"
begin

lemma last_of_key:
  assumes "k \<in> key ` set xs"
  shows "key (last (filter (\<lambda>x. key x = k) xs)) = k"
proof -
  from assms have "filter (\<lambda>x. key x = k) xs \<noteq> []" by (auto simp: filter_empty_conv)
  then show ?thesis using last_in_set by fastforce
qed

lemma keys_latest: "map key (latest_by key xs) = first_seen (map key xs)"
  unfolding latest_by_def using last_of_key by (auto intro: map_idI)

lemma put_latest: "put a (latest_by key xs) = latest_by key (xs @ [a])"
proof -
  have keys: "key ` set (latest_by key xs) = key ` set xs" by (metis keys_latest set_first_seen(1) set_map)
  show ?thesis
  proof (cases "key a \<in> key ` set xs")
    case True
    have "distinct (map key (latest_by key xs))" by (simp add: keys_latest)
    with True keys have "put a (latest_by key xs) = map (\<lambda>x. if key x = key a then a else x) (latest_by key xs)" by (simp add: put_old)
    with True show ?thesis by (auto simp: latest_by_def first_seen_snoc last_of_key)
  next
    case False
    then have "filter (\<lambda>x. key x = key a) xs = []" unfolding filter_empty_conv by (metis imageI)
    moreover have "k \<noteq> key a" if "k \<in> set (first_seen (map key xs))" for k using False that by (metis set_first_seen(1) set_map)
    ultimately show ?thesis using False keys by (auto simp: put_new latest_by_def first_seen_snoc)
  qed
qed

end

lemma put_warning_new: "dev_UID a \<notin> dev_UID ` set xs \<Longrightarrow> put_warning a xs = xs @ [a]"
  by (induction xs) auto

lemma put_warning_old:
  "dev_UID a \<in> dev_UID ` set xs \<Longrightarrow> distinct (map dev_UID xs) \<Longrightarrow> put_warning a xs = map (\<lambda>x. if dev_UID x = dev_UID a then a else x) xs"
proof (induction xs)
  case (Cons x xs)
  show ?case
  proof (cases "dev_UID x = dev_UID a")
    case True
    with Cons.prems(2) have "map (\<lambda>y. if dev_UID y = dev_UID a then a else y) xs = xs"
      by (intro map_idI) (metis distinct.simps(2) image_eqI list.simps(9) list.set_map)
    with True show ?thesis by simp
  next
    case False
    with Cons show ?thesis by simp
  qed
qed simp

interpretation warnings: keyed_log dev_UID put_warning
  by unfold_locales (fact put_warning_new, fact put_warning_old)

section \<open>What the watcher reports\<close>

definition poll_answers :: "'e pod_polls \<Rightarrow> string \<Rightarrow> nat \<Rightarrow> ('e poll_error, ComponentStatus list) result list" where
  "poll_answers polls releaseName k = map (\<lambda>i. Poll releaseName (polls i)) [0..<k]"

text \<open>The last successful answer, and whether the last answer that is not a cancellation is a failure.\<close>

definition last_summary :: "('e poll_error, ComponentStatus list) result list \<Rightarrow> ComponentStatus list" where
  "last_summary answers = (case filter is_ok (rev answers) of Inr statuses # _ \<Rightarrow> statuses | _ \<Rightarrow> [])"

definition last_stale :: "('e poll_error, ComponentStatus list) result list \<Rightarrow> bool" where
  "last_stale answers = (case filter (\<lambda>a. a \<noteq> Inl PollCanceled) (rev answers) of a # _ \<Rightarrow> \<not> is_ok a | [] \<Rightarrow> False)"

definition warning_events :: "DeployEvent list \<Rightarrow> DeployEvent list" where
  "warning_events evs = filter (\<lambda>ev. dev_Type ev = ''Warning'') evs"

definition watch_inv :: "'e pod_polls \<Rightarrow> string \<Rightarrow> DeployEvent list \<Rightarrow> 'e watcher \<Rightarrow> bool" where
  "watch_inv polls releaseName seen w =
     (wa_warnings w = latest_by dev_UID (warning_events seen)
      \<and> wa_summary w = last_summary (poll_answers polls releaseName (wa_Polls w))
      \<and> wa_pollStale w = last_stale (poll_answers polls releaseName (wa_Polls w)))"

lemma shows_call_inv [simp]: "watch_inv polls releaseName seen (shows_call call w) = watch_inv polls releaseName seen w"
  by (simp add: watch_inv_def shows_call_def)

lemma refresh_inv:
  assumes "watch_inv polls releaseName seen w"
  shows "watch_inv polls releaseName seen (refreshPodStatus polls releaseName w)"
proof (cases "Poll releaseName (polls (wa_Polls w))")
  case (Inl e)
  with assms show ?thesis
    by (cases e) (simp_all add: refreshPodStatus_def watch_inv_def poll_answers_def last_summary_def last_stale_def)
next
  case (Inr statuses)
  with assms show ?thesis
    by (simp add: refreshPodStatus_def watch_inv_def poll_answers_def last_summary_def last_stale_def)
qed

lemma updateTitle_inv [simp]: "watch_inv polls releaseName seen (updateTitle w) = watch_inv polls releaseName seen w"
  by (simp add: updateTitle_def)

lemma event_inv:
  assumes "watch_inv polls releaseName seen w"
  shows "watch_inv polls releaseName (seen @ [ev]) (pushRow ev (trackWarning ev w))"
  using assms warnings.put_latest [of ev "warning_events seen"]
  by (auto simp: pushRow_def Let_def trackWarning_def watch_inv_def warning_events_def shows_call_def)

lemma finalRefresh_inv:
  "watch_inv polls releaseName seen w \<Longrightarrow> watch_inv polls releaseName seen (finalRefresh polls releaseName ticks w)"
proof (induction ticks arbitrary: w)
  case 0
  then show ?case by (subst finalRefresh.simps) (simp add: Let_def refresh_inv)
next
  case (Suc n)
  then show ?case by (subst finalRefresh.simps) (simp add: Let_def refresh_inv)
qed

lemma finalRefresh_end:
  "AllReady (wa_summary (finalRefresh polls releaseName ticks w)) \<or> last (wa_Calls (finalRefresh polls releaseName ticks w)) = SetCompletionWarning"
proof (induction ticks arbitrary: w)
  case 0
  then show ?case by (simp add: finalRefresh.simps [of _ _ 0] Let_def shows_call_def)
next
  case (Suc n)
  then show ?case by (simp add: finalRefresh.simps [of _ _ "Suc n"] Let_def)
qed

lemma finalRefresh_polls:
  "wa_Polls w < wa_Polls (finalRefresh polls releaseName ticks w) \<and> wa_Polls (finalRefresh polls releaseName ticks w) \<le> wa_Polls w + Suc ticks"
proof -
  have once: "wa_Polls (updateTitle (refreshPodStatus polls releaseName w)) = Suc (wa_Polls w)" for w
    by (simp add: updateTitle_def shows_call_def refreshPodStatus_def Let_def split: sum.splits poll_error.splits)
  show ?thesis
  proof (induction ticks arbitrary: w)
    case 0
    then show ?case by (simp add: finalRefresh.simps [of _ _ 0] Let_def shows_call_def once [unfolded shows_call_def])
  next
    case (Suc n)
    show ?case
      using Suc.IH [of "updateTitle (refreshPodStatus polls releaseName w)"]
      by (simp add: finalRefresh.simps [of _ _ "Suc n"] Let_def once)
  qed
qed

text \<open>The events that a schedule takes before the context is over.\<close>

definition taken_events :: "DeployEvent list \<Rightarrow> choice list \<Rightarrow> DeployEvent list" where
  "taken_events evs choices = take (length (filter (\<lambda>c. c = TakeEvent) (takeWhile (\<lambda>c. \<forall>n. c \<noteq> TakeDone n) choices))) evs"

lemma taken_events_simps [simp]:
  "taken_events evs (TakeDone n # cs) = []" "taken_events [] cs = []"
  "taken_events (ev # evs) (TakeEvent # cs) = ev # taken_events evs cs" "taken_events evs (TakeTick # cs) = taken_events evs cs"
  by (simp_all add: taken_events_def)

lemma await_done_iff: "await_done cs \<noteq> None \<longleftrightarrow> (\<exists>n. TakeDone n \<in> set cs)"
  by (induction cs rule: await_done.induct) auto

definition watch_report :: "'e pod_polls \<Rightarrow> string \<Rightarrow> DeployEvent list \<Rightarrow> 'e watcher \<Rightarrow> bool" where
  "watch_report polls releaseName seen w =
     (watch_inv polls releaseName seen w \<and> (AllReady (wa_summary w) \<or> last (wa_Calls w) = SetCompletionWarning))"

lemma finalRefresh_report: "watch_inv polls releaseName seen w \<Longrightarrow> watch_report polls releaseName seen (finalRefresh polls releaseName n w)"
  unfolding watch_report_def using finalRefresh_inv finalRefresh_end by blast

lemma watch_loop_report:
  assumes "watch_inv polls releaseName seen w" and "watch_loop polls releaseName evs cs w = Some w'"
  shows "watch_report polls releaseName (seen @ taken_events evs cs) w'"
  using assms
proof (induction polls releaseName evs cs w arbitrary: seen rule: watch_loop.induct)
  case (2 polls releaseName evs n cs w)
  then show ?case using finalRefresh_report by auto
next
  case (3 polls releaseName cs w)
  then show ?case using finalRefresh_report by auto
next
  case (4 polls releaseName ev evs cs w)
  have "watch_inv polls releaseName (seen @ [ev]) (updateTitle (refreshPodStatus polls releaseName (pushRow ev (trackWarning ev w))))"
    using event_inv [OF "4.prems"(1)] by (simp add: refresh_inv)
  from "4.IH" [OF this] "4.prems"(2) show ?case by simp
next
  case (5 polls releaseName evs cs w)
  have "watch_inv polls releaseName seen (updateTitle (refreshPodStatus polls releaseName w))"
    using "5.prems"(1) by (simp add: refresh_inv)
  from "5.IH" [OF this] "5.prems"(2) show ?case by simp
qed simp

lemma watch_loop_returns_iff: "watch_loop polls releaseName evs cs w \<noteq> None \<longleftrightarrow> (\<exists>n. TakeDone n \<in> set cs)"
  using await_done_iff by (induction polls releaseName evs cs w rule: watch_loop.induct) auto

text \<open>
  C14: when the context ends, the watcher returns, for every interleaving of events, ticks and
  the end of the installation, and this is what it reports. Its warnings are the latest warning of
  each event among those taken, in the order in which the events first appeared; its summary is the
  answer of the last successful poll; its status is stale exactly when the last poll that was not
  cancelled failed; and it ends with all pods ready or with the completion marked as a warning.
\<close>

theorem watcher_report_exact:
  assumes "TakeDone n \<in> set choices"
  shows "\<exists>w. Watcher_Run polls releaseName (Inr evs) choices NewDeployWatcher = Some w
    \<and> wa_warnings w = latest_by dev_UID (filter (\<lambda>ev. dev_Type ev = ''Warning'') (taken_events evs choices))
    \<and> wa_summary w = last_summary (poll_answers polls releaseName (wa_Polls w))
    \<and> wa_pollStale w = last_stale (poll_answers polls releaseName (wa_Polls w))
    \<and> (AllReady (wa_summary w) \<or> last (wa_Calls w) = SetCompletionWarning)"
proof -
  have inv: "watch_inv polls releaseName [] NewDeployWatcher"
    by (simp add: watch_inv_def NewDeployWatcher_def latest_by_def first_seen_def warning_events_def poll_answers_def last_summary_def last_stale_def)
  obtain w where w: "watch_loop polls releaseName evs choices NewDeployWatcher = Some w"
    using watch_loop_returns_iff [of polls releaseName evs choices NewDeployWatcher] assms by auto
  from watch_loop_report [OF inv w] have "watch_report polls releaseName (taken_events evs choices) w" by simp
  with w show ?thesis unfolding Watcher_Run_def watch_report_def watch_inv_def warning_events_def by auto
qed

text \<open>
  The watcher returns exactly when the context ends, also when the events could not be watched at
  all; its last refresh polls at least once and no more than once per tick and once more.
\<close>

theorem watcher_returns_iff:
  "(Watcher_Run polls releaseName events choices w \<noteq> None) = (\<exists>n. TakeDone n \<in> set choices)
   \<and> wa_Polls w < wa_Polls (finalRefresh polls releaseName ticks w) \<and> wa_Polls (finalRefresh polls releaseName ticks w) \<le> wa_Polls w + Suc ticks"
  using finalRefresh_polls [of w polls releaseName ticks] watch_loop_returns_iff [of polls releaseName _ choices w] await_done_iff [of choices]
  by (cases events) (simp_all add: Watcher_Run_def)

text \<open>The events of another release whose name continues this one with a dash are taken as well.\<close>

lemma foreign_release_events:
  assumes "ev_Name e = (releaseName @ ''-'' @ suffix) @ ''-'' @ rest"
  shows "toDeployEvent (EventObject e) (releaseName @ ''-'') \<noteq> None"
  using assms HasPrefix_append [of "releaseName @ ''-''" "suffix @ ''-'' @ rest"] by (simp add: toDeployEvent_def Let_def)

section \<open>Examples\<close>

definition ex_event :: "string \<Rightarrow> string \<Rightarrow> string \<Rightarrow> watch_event" where
  "ex_event uid type msg =
     EventObject \<lparr>ev_UID = uid, ev_Type = type, ev_Reason = ''r'', ev_Message = msg, ev_Kind = ''Pod'', ev_Name = ''shop-prod-web'', ev_Count = 0,
       ev_LastTimestamp = None, ev_EventTime = None, ev_CreationTimestamp = Some 1\<rparr>"

definition ex_events :: "DeployEvent list" where
  "ex_events = (case WatchDeployEvents (Inr [] :: (unit, _) result)
      (\<lambda>_. Inr [ex_event ''a'' ''Warning'' ''first'', WatchError, ex_event ''b'' ''Normal'' [], ex_event ''c'' ''Warning'' [], ex_event ''a'' ''Warning'' ''second''])
      ''shop-prod'' of Inr evs \<Rightarrow> evs | Inl _ \<Rightarrow> [])"

definition ex_polls :: "unit pod_polls" where
  "ex_polls n = (if n < 5 then Inr ex_pods else Inl (PollFailed ()))"

definition ex_watched :: "unit watcher option" where
  "ex_watched = Watcher_Run ex_polls ''shop-prod'' (Inr ex_events) [TakeEvent, TakeTick, TakeEvent, TakeEvent, TakeEvent, TakeDone 1] NewDeployWatcher"

theorem watcher_report_exact_witness:
  "\<exists>w. ex_watched = Some w \<and> map dev_Message (wa_warnings w) = [''second'', []] \<and> wa_pollStale w \<and> last (wa_Calls w) = SetCompletionWarning"
proof -
  have "(case ex_watched of None \<Rightarrow> False | Some w \<Rightarrow> wa_pollStale w \<and> \<not> AllReady (wa_summary w))" by code_simp
  then obtain w where w: "ex_watched = Some w" "wa_pollStale w" "\<not> AllReady (wa_summary w)" by (auto split: option.splits)
  have m: "map dev_Message (latest_by dev_UID (filter (\<lambda>ev. dev_Type ev = ''Warning'') ex_events)) = [''second'', []]"
    and "length ex_events = 4" by code_simp+
  then have "taken_events ex_events [TakeEvent, TakeTick, TakeEvent, TakeEvent, TakeEvent, TakeDone 1] = ex_events"
    by (simp add: taken_events_def)
  with watcher_report_exact [of 1 "[TakeEvent, TakeTick, TakeEvent, TakeEvent, TakeEvent, TakeDone 1]" ex_polls "''shop-prod''" ex_events] w m
  show ?thesis unfolding ex_watched_def by auto
qed

definition ex_pods_api :: "unit pods_api" where
  "ex_pods_api =
     \<lparr>pa_List = \<lambda>namespace sel running. Inr (filter (\<lambda>p. px_Namespace p = namespace \<and> selector_matches sel (pod_Labels p) \<and> (running \<longrightarrow> pod_Phase p = ''Running''))
        [\<lparr>pod_Labels = [(ProjectLabel, ''shop''), (ComponentLabel, ''web'')], pod_Phase = ''Running'', pod_ContainersReady = [],
          px_Name = ''web-0'', px_Namespace = ''default'', px_Containers = [''web'']\<rparr>]),
      pa_Get = \<lambda>_ _. Inl ()\<rparr>"

theorem component_listed_iff_exists_witness:
  "\<exists>components. GetAvailableComponents (\<lambda>_. True) ex_pods_api ''default'' ''shop'' = Inr components \<and> ''web'' \<in> set components
     \<and> ValidateComponentExists (\<lambda>_. True) ex_pods_api ''default'' ''shop'' ''web'' = None"
proof -
  have "honest_pods ex_pods_api [\<lparr>pod_Labels = [(ProjectLabel, ''shop''), (ComponentLabel, ''web'')], pod_Phase = ''Running'', pod_ContainersReady = [],
          px_Name = ''web-0'', px_Namespace = ''default'', px_Containers = [''web'']\<rparr>]"
    by (simp add: honest_pods_def ex_pods_api_def)
  moreover have l: "GetAvailableComponents (\<lambda>_. True) ex_pods_api ''default'' ''shop'' = Inr [''web'']" by code_simp
  ultimately have "''web'' \<in> set [''web''] \<longleftrightarrow> ValidateComponentExists (\<lambda>_. True) ex_pods_api ''default'' ''shop'' ''web'' = None"
    by (rule component_listed_iff_exists) simp_all
  with l show ?thesis by simp
qed

end
