(* ===== verification/Sessions.thy ===== *)
theory Sessions
  imports Delete Deploy Go_Path
begin

text \<open>
  The session that every command starts from (\<open>internal/session/session.go\<close>, \<open>constants.go\<close>): its
  options, the memoised platform file, the choice of the cluster and the memoised clients; and the
  hints of \<open>internal/cmd/cmdopts\<close>. The file system, the variables of the process and the kubeconfig
  are a record of functions, the world, which may be another one at every call.
\<close>

section \<open>Sessions\<close>

datatype CommandPolicy = PolicyLenient | PolicyStrict

record 'q Session =
  ss_namespace :: string
  ss_kubeconfig :: string
  ss_kubeContext :: string
  ss_extraKubeconfigPaths :: "string list"
  ss_specPath :: string
  ss_platformPath :: string
  ss_commandPolicy :: CommandPolicy
  ss_storageDriver :: string
  ss_debug :: bool
  ss_timeout :: int
  ss_platform :: "'q PlatformConfig option"

definition DefaultSpecPath :: string where "DefaultSpecPath = ''deployah.yaml''"
definition DefaultPlatformPath :: string where "DefaultPlatformPath = ''deployah.platform.yaml''"
definition PlatformEnvVar :: string where "PlatformEnvVar = ''DEPLOYAH_PLATFORM_FILE''"
definition DefaultTimeout :: int where "DefaultTimeout = 10 * 60 * 10 ^ 9"
definition DefaultStorageDriver :: string where "DefaultStorageDriver = ''secret''"
definition DefaultNamespace :: string where "DefaultNamespace = ''default''"
definition HelmTimeoutMin :: int where "HelmTimeoutMin = 30 * 10 ^ 9"
definition HelmTimeoutMax :: int where "HelmTimeoutMax = 60 * 60 * 10 ^ 9"

definition ValidateTimeout :: "int \<Rightarrow> bool" where
  "ValidateTimeout timeout = (HelmTimeoutMin \<le> timeout \<and> timeout \<le> HelmTimeoutMax)"

definition GetValidStorageDrivers :: "string list" where
  "GetValidStorageDrivers = [''secret'', ''configmap'', ''memory'']"

definition ValidateStorageDriver :: "string \<Rightarrow> bool" where
  "ValidateStorageDriver driver = (driver = ''secret'' \<or> driver = ''configmap'' \<or> driver = ''memory'')"

type_synonym 'q session_option = "'q Session \<Rightarrow> 'q Session"

definition WithNamespace :: "string \<Rightarrow> 'q session_option" where "WithNamespace namespace s = s\<lparr>ss_namespace := namespace\<rparr>"
definition WithKubeconfig :: "string \<Rightarrow> 'q session_option" where "WithKubeconfig kubeconfig s = s\<lparr>ss_kubeconfig := kubeconfig\<rparr>"
definition WithKubeContext :: "string \<Rightarrow> 'q session_option" where "WithKubeContext kubeContext s = s\<lparr>ss_kubeContext := kubeContext\<rparr>"
definition WithExtraKubeconfigPaths :: "string list \<Rightarrow> 'q session_option" where
  "WithExtraKubeconfigPaths paths s = s\<lparr>ss_extraKubeconfigPaths := ss_extraKubeconfigPaths s @ paths\<rparr>"
definition WithSpecPath :: "string \<Rightarrow> 'q session_option" where "WithSpecPath specPath s = s\<lparr>ss_specPath := specPath\<rparr>"
definition WithPlatformFile :: "string \<Rightarrow> 'q session_option" where "WithPlatformFile path s = s\<lparr>ss_platformPath := path\<rparr>"
definition WithCommandPolicy :: "CommandPolicy \<Rightarrow> 'q session_option" where "WithCommandPolicy policy s = s\<lparr>ss_commandPolicy := policy\<rparr>"
definition WithStorageDriver :: "string \<Rightarrow> 'q session_option" where "WithStorageDriver driver s = s\<lparr>ss_storageDriver := driver\<rparr>"
definition WithDebug :: "bool \<Rightarrow> 'q session_option" where "WithDebug keep s = s\<lparr>ss_debug := keep\<rparr>"
definition WithTimeout :: "int \<Rightarrow> 'q session_option" where "WithTimeout timeout s = s\<lparr>ss_timeout := timeout\<rparr>"

definition New :: "'q session_option list \<Rightarrow> 'q Session" where
  "New options =
     fold (\<lambda>opt. opt) options
       \<lparr>ss_namespace = [], ss_kubeconfig = [], ss_kubeContext = [], ss_extraKubeconfigPaths = [], ss_specPath = [], ss_platformPath = [],
        ss_commandPolicy = PolicyLenient, ss_storageDriver = DefaultStorageDriver, ss_debug = False, ss_timeout = DefaultTimeout, ss_platform = None\<rparr>"

section \<open>The platform file and the target\<close>

text \<open>The loading rules of the kubeconfig: an explicit path, or further paths in front of the default ones.\<close>

datatype loading_rules = ExplicitPath string | Precedence "string list" | DefaultRules

record ('q, 'e) session_world =
  wd_Getenv :: "string \<Rightarrow> string"
  wd_Exists :: "string \<Rightarrow> bool"
  wd_LoadPlatform :: "string \<Rightarrow> ('e, 'q PlatformConfig) result"
  wd_LoadSpec :: "string \<Rightarrow> string \<Rightarrow> 'q PlatformConfig option \<Rightarrow> ('e, 'q Spec) result"
  wd_CurrentContext :: "loading_rules \<Rightarrow> ('e, string) result"

definition resolvePlatformPath :: "('q, 'e) session_world \<Rightarrow> 'q Session \<Rightarrow> string" where
  "resolvePlatformPath W s =
     (if ss_platformPath s \<noteq> [] then ss_platformPath s
      else if wd_Getenv W PlatformEnvVar \<noteq> [] then wd_Getenv W PlatformEnvVar
      else if ss_specPath s \<noteq> [] then path_Join [path_Dir (ss_specPath s), DefaultPlatformPath]
      else DefaultPlatformPath)"

definition Session_Platform :: "('q, 'e) session_world \<Rightarrow> 'q Session \<Rightarrow> ('e, 'q PlatformConfig option) result \<times> 'q Session" where
  "Session_Platform W s =
     (case ss_platform s of
        Some p \<Rightarrow> (Inr (Some p), s)
      | None \<Rightarrow>
          let explicit = (ss_platformPath s \<noteq> [] \<or> wd_Getenv W PlatformEnvVar \<noteq> []);
              path = resolvePlatformPath W s
          in if \<not> explicit \<and> \<not> wd_Exists W path then (Inr None, s)
             else case wd_LoadPlatform W path of
                    Inl e \<Rightarrow> (Inl e, s)
                  | Inr p \<Rightarrow> (Inr (Some p), s\<lparr>ss_platform := Some p\<rparr>))"

definition SpecPath :: "'q Session \<Rightarrow> string" where
  "SpecPath s = (if ss_specPath s = [] then DefaultSpecPath else ss_specPath s)"

definition PlatformPath :: "('q, 'e) session_world \<Rightarrow> 'q Session \<Rightarrow> string" where
  "PlatformPath = resolvePlatformPath"

datatype 'e session_error = SessionPlatform 'e | SessionSpec 'e

definition Session_Spec :: "('q, 'e) session_world \<Rightarrow> string \<Rightarrow> 'q Session \<Rightarrow> ('e session_error, 'q Spec) result \<times> 'q Session" where
  "Session_Spec W environment s =
     (case Session_Platform W s of
        (Inl e, s) \<Rightarrow> (Inl (SessionPlatform e), s)
      | (Inr platform, s) \<Rightarrow>
          (case wd_LoadSpec W (SpecPath s) environment platform of Inl e \<Rightarrow> (Inl (SessionSpec e), s) | Inr m \<Rightarrow> (Inr m, s)))"

definition loading_rules_of :: "'q Session \<Rightarrow> loading_rules" where
  "loading_rules_of s =
     (if ss_kubeconfig s \<noteq> [] then ExplicitPath (ss_kubeconfig s)
      else if ss_extraKubeconfigPaths s \<noteq> [] then Precedence (ss_extraKubeconfigPaths s)
      else DefaultRules)"

definition CurrentKubeContext :: "('q, 'e) session_world \<Rightarrow> 'q Session \<Rightarrow> string" where
  "CurrentKubeContext W s = (case wd_CurrentContext W (loading_rules_of s) of Inl _ \<Rightarrow> [] | Inr current \<Rightarrow> current)"

record 'c Cluster =
  cl_kubeContext :: string
  cl_usedFallback :: bool
  cl_fallbackContext :: string
  cl_helm :: "'c option"
  cl_k8s :: "'c option"

definition Target :: "('q, 'e) session_world \<Rightarrow> string \<Rightarrow> 'q Session \<Rightarrow> 'c Cluster \<times> 'q Session" where
  "Target W env s =
     (let (kubeCtx, s) =
            (if ss_kubeContext s = [] \<and> env \<noteq> [] then
               (case Session_Platform W s of
                  (Inr (Some p), s) \<Rightarrow> (PlatformEnvContext (Some p) env, s)
                | (_, s) \<Rightarrow> ([], s))
             else (ss_kubeContext s, s))
      in (if kubeCtx = []
          then \<lparr>cl_kubeContext = kubeCtx, cl_usedFallback = True, cl_fallbackContext = CurrentKubeContext W s, cl_helm = None, cl_k8s = None\<rparr>
          else \<lparr>cl_kubeContext = kubeCtx, cl_usedFallback = False, cl_fallbackContext = [], cl_helm = None, cl_k8s = None\<rparr>, s))"

definition ContextFallback :: "'c Cluster \<Rightarrow> string option" where
  "ContextFallback cl = (if cl_usedFallback cl then Some (cl_fallbackContext cl) else None)"

definition Session_Close :: "'q Session \<Rightarrow> 'q Session" where
  "Session_Close s = s\<lparr>ss_platform := None\<rparr>"

definition Cluster_Namespace :: "'q Session \<Rightarrow> string" where
  "Cluster_Namespace s = (if ss_namespace s \<noteq> [] then ss_namespace s else DefaultNamespace)"

text \<open>The copy leaves out the command policy, which no client reads.\<close>

definition cloneWithContext :: "string \<Rightarrow> 'q Session \<Rightarrow> 'q Session" where
  "cloneWithContext kubeContext s = s\<lparr>ss_kubeContext := kubeContext, ss_commandPolicy := PolicyLenient, ss_platform := None\<rparr>"

definition sessionForContext :: "'c Cluster \<Rightarrow> 'q Session \<Rightarrow> 'q Session" where
  "sessionForContext cl = cloneWithContext (cl_kubeContext cl)"

datatype helm_option =
    HelmNamespace string
  | HelmKubeconfig string
  | HelmKubeContext string
  | HelmExtraPaths "string list"
  | HelmStorageDriver string
  | HelmTimeout int
  | HelmDebug bool

definition defaultHelmFactory :: "'q Session \<Rightarrow> helm_option list" where
  "defaultHelmFactory s =
     (if ss_namespace s \<noteq> [] then [HelmNamespace (ss_namespace s)] else [])
     @ (if ss_kubeconfig s \<noteq> [] then [HelmKubeconfig (ss_kubeconfig s)] else [])
     @ (if ss_kubeContext s \<noteq> [] then [HelmKubeContext (ss_kubeContext s)] else [])
     @ (if ss_extraKubeconfigPaths s \<noteq> [] then [HelmExtraPaths (ss_extraKubeconfigPaths s)] else [])
     @ (if ss_storageDriver s \<noteq> [] then [HelmStorageDriver (ss_storageDriver s)] else [])
     @ (if ss_timeout s > 0 then [HelmTimeout (ss_timeout s)] else [])
     @ (if ss_debug s then [HelmDebug (ss_debug s)] else [])"

text \<open>\<open>factory\<close>: what creating a client from a session gives at this call.\<close>

definition Cluster_Helm :: "('q Session \<Rightarrow> ('e, 'c) result) \<Rightarrow> 'q Session \<Rightarrow> 'c Cluster \<Rightarrow> ('e, 'c) result \<times> 'c Cluster" where
  "Cluster_Helm factory s cl =
     (case cl_helm cl of
        Some c \<Rightarrow> (Inr c, cl)
      | None \<Rightarrow> (case factory (sessionForContext cl s) of Inl e \<Rightarrow> (Inl e, cl) | Inr c \<Rightarrow> (Inr c, cl\<lparr>cl_helm := Some c\<rparr>)))"

definition Cluster_Kubernetes :: "('q Session \<Rightarrow> ('e, 'c) result) \<Rightarrow> 'q Session \<Rightarrow> 'c Cluster \<Rightarrow> ('e, 'c) result \<times> 'c Cluster" where
  "Cluster_Kubernetes factory s cl =
     (case cl_k8s cl of
        Some cs \<Rightarrow> (Inr cs, cl)
      | None \<Rightarrow> (case factory (sessionForContext cl s) of Inl e \<Rightarrow> (Inl e, cl) | Inr cs \<Rightarrow> (Inr cs, cl\<lparr>cl_k8s := Some cs\<rparr>)))"

text \<open>In the cluster its own configuration is used; outside, the kubeconfig, with the context as an override.\<close>

definition kubeconfigRESTConfig :: "(loading_rules \<Rightarrow> string \<Rightarrow> ('e, 'k) result) \<Rightarrow> 'q Session \<Rightarrow> ('e, 'k) result" where
  "kubeconfigRESTConfig client s = client (loading_rules_of s) (ss_kubeContext s)"

definition Cluster_RESTConfig ::
  "'k option \<Rightarrow> (loading_rules \<Rightarrow> string \<Rightarrow> ('e, 'k) result) \<Rightarrow> 'q Session \<Rightarrow> 'c Cluster \<Rightarrow> ('e, 'k) result" where
  "Cluster_RESTConfig inCluster client s cl =
     (case inCluster of Some cfg \<Rightarrow> Inr cfg | None \<Rightarrow> kubeconfigRESTConfig client (sessionForContext cl s))"

definition defaultKubernetesFactory ::
  "'k option \<Rightarrow> (loading_rules \<Rightarrow> string \<Rightarrow> ('e, 'k) result) \<Rightarrow> ('k \<Rightarrow> ('e, 'c) result) \<Rightarrow> 'q Session \<Rightarrow> ('e, 'c) result" where
  "defaultKubernetesFactory inCluster client newForConfig s =
     bindE (case inCluster of Some cfg \<Rightarrow> Inr cfg | None \<Rightarrow> kubeconfigRESTConfig client s) newForConfig"

section \<open>Hints\<close>

text \<open>
  A Go error: one that wraps nothing, one or several others. What the libraries say of a single error
  is a record of tests.
\<close>

datatype 'a go_error = Plain 'a | Wraps 'a "'a go_error" | Joins 'a "'a go_error list"

record 'a error_tests =
  et_Config :: "'a \<Rightarrow> bool"
  et_Net :: "'a \<Rightarrow> bool"
  et_Errno :: "'a \<Rightarrow> string option"

text \<open>The errors that \<open>errors.Unwrap\<close> meets, and those that \<open>errors.As\<close> meets, in its order.\<close>

fun unwrap_chain :: "'a go_error \<Rightarrow> 'a list" where
  "unwrap_chain (Plain a) = [a]"
| "unwrap_chain (Wraps a e) = a # unwrap_chain e"
| "unwrap_chain (Joins a es) = [a]"

fun error_nodes :: "'a go_error \<Rightarrow> 'a list" where
  "error_nodes (Plain a) = [a]"
| "error_nodes (Wraps a e) = a # error_nodes e"
| "error_nodes (Joins a es) = a # concat (map error_nodes es)"

definition refused :: "string \<Rightarrow> bool" where
  "refused errno = (errno = ''ECONNREFUSED'' \<or> errno = ''ECONNRESET'')"

definition reached_by_as :: "'a error_tests \<Rightarrow> 'a list \<Rightarrow> bool" where
  "reached_by_as T ns =
     (list_ex (et_Net T) ns \<or> (case List.map_filter (et_Errno T) ns of errno # _ \<Rightarrow> refused errno | [] \<Rightarrow> False))"

fun isClusterUnreachable :: "'a error_tests \<Rightarrow> 'a go_error \<Rightarrow> bool" where
  "isClusterUnreachable T (Plain a) = (et_Config T a \<or> reached_by_as T [a])"
| "isClusterUnreachable T (Wraps a e) = (list_ex (et_Config T) (a # unwrap_chain e) \<or> reached_by_as T (a # error_nodes e))"
| "isClusterUnreachable T (Joins a es) =
     (et_Config T a \<or> list_ex (isClusterUnreachable T) es \<or> reached_by_as T (a # concat (map error_nodes es)))"

section \<open>One platform file per run\<close>

datatype session_op = CallPlatform | CallSpec string | CallTarget string

fun session_step :: "('q, 'e) session_world \<times> session_op \<Rightarrow> 'q Session \<Rightarrow> 'q Session" where
  "session_step (W, CallPlatform) s = snd (Session_Platform W s)"
| "session_step (W, CallSpec environment) s = snd (Session_Spec W environment s)"
| "session_step (W, CallTarget env) s = snd (Target W env s :: unit Cluster \<times> 'q Session)"

lemma Session_Platform_cached:
  assumes "ss_platform s = Some p"
  shows "Session_Platform W s = (Inr (Some p), s)"
  using assms by (simp add: Session_Platform_def)

lemma Session_Platform_found:
  assumes "Session_Platform W s = (Inr (Some p), s')"
  shows "ss_platform s' = Some p \<and> ss_kubeContext s' = ss_kubeContext s"
  using assms by (auto simp: Session_Platform_def Let_def split: option.splits if_splits sum.splits)

lemma session_step_cached: "ss_platform s = Some p \<Longrightarrow> session_step op s = s"
  by (cases "(op, s)" rule: session_step.cases) (simp_all add: Session_Platform_cached Session_Spec_def Target_def split: sum.splits)

lemma session_steps_cached: "ss_platform s = Some p \<Longrightarrow> fold session_step ops s = s"
  by (induction ops) (simp_all add: session_step_cached)

text \<open>
  C15: once a command has read the platform file, every later call of the same session sees
  the same contents, whatever happened to the file, the variables of the process and the kubeconfig
  in between, and the context of an environment is the one these contents name.
\<close>

theorem session_platform_stable:
  assumes "Session_Platform W s = (Inr (Some p), s')"
  shows "Session_Platform W' (fold session_step ops s') = (Inr (Some p), s')
    \<and> (ss_kubeContext s = [] \<and> env \<noteq> [] \<longrightarrow>
         cl_kubeContext (fst (Target W' env (fold session_step ops s') :: unit Cluster \<times> 'q Session)) = PlatformEnvContext (Some p) env)"
proof -
  from Session_Platform_found [OF assms] have p: "ss_platform s' = Some p" and k: "ss_kubeContext s' = ss_kubeContext s" by simp_all
  show ?thesis
    by (simp add: session_steps_cached [OF p] Session_Platform_cached [OF p] Target_def k)
qed

lemma clients_memo:
  "Cluster_Helm factory s cl = (Inr c, cl') \<Longrightarrow> Cluster_Helm factory' s' cl' = (Inr c, cl')"
  "Cluster_Kubernetes factory s cl = (Inr c, cl') \<Longrightarrow> Cluster_Kubernetes factory' s' cl' = (Inr c, cl')"
  by (auto simp: Cluster_Helm_def Cluster_Kubernetes_def split: option.splits sum.splits)

section \<open>The cluster that a command works on\<close>

text \<open>The context of an environment in the platform file, where there is one that can be read.\<close>

definition platform_context :: "('q, 'e) session_world \<Rightarrow> string \<Rightarrow> 'q Session \<Rightarrow> string" where
  "platform_context W env s = (case fst (Session_Platform W s) of Inr (Some p) \<Rightarrow> PlatformEnvContext (Some p) env | _ \<Rightarrow> [])"

definition delete_env_of ::
  "('q, 'e) session_world \<Rightarrow> 'e option \<Rightarrow> 'e option \<Rightarrow> (string \<Rightarrow> bool \<Rightarrow> ('e, bool) result) \<Rightarrow> 'q Session \<Rightarrow> 'c Cluster \<Rightarrow> 'e delete_env" where
  "delete_env_of W helm kubernetes confirm s cl =
     \<lparr>dv_Platform = bindE (fst (Session_Platform W s)) (\<lambda>p. Inr (p \<noteq> None)), dv_Target = Inr (Cluster_Namespace s),
      dv_Context = cl_kubeContext cl, dv_Fallback = ContextFallback cl,
      dv_Helm = helm, dv_Kubernetes = kubernetes, dv_Confirm = confirm\<rparr>"

lemma Session_Platform_rules: "loading_rules_of (snd (Session_Platform W s)) = loading_rules_of s"
  by (simp add: loading_rules_of_def Session_Platform_def Let_def split: option.splits sum.splits)

lemma Target_context:
  "cl_kubeContext (fst (Target W env s)) =
     (if ss_kubeContext s \<noteq> [] then ss_kubeContext s else if env \<noteq> [] then platform_context W env s else [])"
  by (auto simp: Target_def platform_context_def case_prod_beta split: sum.splits option.splits prod.splits)

lemma Target_fallback:
  "cl_usedFallback (fst (Target W env s)) \<longleftrightarrow> cl_kubeContext (fst (Target W env s)) = []"
  "cl_kubeContext (fst (Target W env s)) = [] \<Longrightarrow> cl_fallbackContext (fst (Target W env s)) = CurrentKubeContext W s"
proof -
  show "cl_usedFallback (fst (Target W env s)) \<longleftrightarrow> cl_kubeContext (fst (Target W env s)) = []"
    by (auto simp: Target_def case_prod_beta)
  have "CurrentKubeContext W (snd (Session_Platform W s)) = CurrentKubeContext W s"
    by (simp add: CurrentKubeContext_def Session_Platform_rules)
  then show "cl_kubeContext (fst (Target W env s)) = [] \<Longrightarrow> cl_fallbackContext (fst (Target W env s)) = CurrentKubeContext W s"
    by (auto simp: Target_def case_prod_beta split: sum.splits option.splits prod.splits)
qed

lemma Session_Platform_clone: "cloneWithContext kubeCtx (snd (Session_Platform W s)) = cloneWithContext kubeCtx s"
  by (simp add: cloneWithContext_def Session_Platform_def Let_def split: option.splits sum.splits)

lemma Target_session:
  fixes s :: "'q Session"
  shows "sessionForContext cl (snd (Target W env s :: 'c Cluster \<times> 'q Session)) = sessionForContext cl s"
proof -
  let ?s = "snd (Target W env s :: 'c Cluster \<times> 'q Session)"
  have "?s = s \<or> ?s = snd (Session_Platform W s)"
    by (auto simp: Target_def case_prod_beta split: sum.splits option.splits prod.splits)
  then show ?thesis by (auto simp: sessionForContext_def Session_Platform_clone)
qed

lemma Target_fresh: "cl_helm (fst (Target W env s)) = None" "cl_k8s (fst (Target W env s)) = None"
  by (simp_all add: Target_def case_prod_beta)

lemma clients_fresh:
  "cl_helm cl = None \<Longrightarrow> fst (Cluster_Helm factory s cl) = factory (sessionForContext cl s)"
  "cl_k8s cl = None \<Longrightarrow> fst (Cluster_Kubernetes factory s cl) = factory (sessionForContext cl s)"
  by (simp_all add: Cluster_Helm_def Cluster_Kubernetes_def split: sum.splits)

text \<open>
  C16: the context of a target is the flag, otherwise what the platform file names for the
  environment, otherwise none. The Helm client is created with that context and with no other. The
  Kubernetes client and the REST configuration are created from the kubeconfig with that context only
  outside a cluster: where the process has an in-cluster configuration they take this one and ignore
  the context. The question of the delete command names the context, or the current context of
  the kubeconfig where the target falls back to that; and the text of the fallback warning is empty
  exactly when the target does not fall back.
\<close>

theorem target_exact:
  fixes s :: "'q Session" and W :: "('q, 'e) session_world"
  shows "let cl = (fst (Target W env s) :: 'c Cluster); s1 = snd (Target W env s :: 'c Cluster \<times> 'q Session);
             kubeCtx = (if ss_kubeContext s \<noteq> [] then ss_kubeContext s else if env \<noteq> [] then platform_context W env s else []);
             config = (case inCluster of Some cfg \<Rightarrow> Inr cfg | None \<Rightarrow> client (loading_rules_of s) kubeCtx)
         in fst (Cluster_Helm (\<lambda>s. newClient (defaultHelmFactory s)) s1 cl) = newClient (defaultHelmFactory (s\<lparr>ss_kubeContext := kubeCtx\<rparr>))
          \<and> (\<forall>c. HelmKubeContext c \<in> set (defaultHelmFactory (s\<lparr>ss_kubeContext := kubeCtx\<rparr>)) \<longleftrightarrow> c = kubeCtx \<and> kubeCtx \<noteq> [])
          \<and> kubeconfigRESTConfig client (sessionForContext cl s1) = client (loading_rules_of s) kubeCtx
          \<and> fst (Cluster_Kubernetes (defaultKubernetesFactory inCluster client newForConfig) s1 cl) = bindE config newForConfig
          \<and> Cluster_RESTConfig inCluster client s1 cl = config
          \<and> target_context (delete_env_of W helm kubernetes confirm s1 cl) = (if kubeCtx \<noteq> [] then kubeCtx else CurrentKubeContext W s)
          \<and> (WarnContextFallback (ContextFallback cl) env = []) = (kubeCtx \<noteq> [])"
proof -
  define kubeCtx where "kubeCtx = (if ss_kubeContext s \<noteq> [] then ss_kubeContext s else if env \<noteq> [] then platform_context W env s else [])"
  define cl :: "'c Cluster" where "cl = fst (Target W env s)"
  define s1 where "s1 = snd (Target W env s :: 'c Cluster \<times> 'q Session)"
  have kube: "cl_kubeContext cl = kubeCtx" unfolding cl_def kubeCtx_def by (rule Target_context)
  have fallback: "cl_usedFallback cl = (kubeCtx = [])" unfolding kube [symmetric] unfolding cl_def by (rule Target_fallback(1))
  have current: "kubeCtx = [] \<Longrightarrow> cl_fallbackContext cl = CurrentKubeContext W s"
    unfolding kube [symmetric] unfolding cl_def by (rule Target_fallback(2))
  have fresh: "cl_helm cl = None" "cl_k8s cl = None" unfolding cl_def by (rule Target_fresh)+
  have session: "sessionForContext cl s1 = cloneWithContext kubeCtx s"
    unfolding s1_def Target_session by (simp add: sessionForContext_def kube)
  have options: "defaultHelmFactory (cloneWithContext kubeCtx s) = defaultHelmFactory (s\<lparr>ss_kubeContext := kubeCtx\<rparr>)"
    by (simp add: defaultHelmFactory_def cloneWithContext_def)
  have rest: "kubeconfigRESTConfig client (cloneWithContext kubeCtx s) = client (loading_rules_of s) kubeCtx"
    by (simp add: kubeconfigRESTConfig_def loading_rules_of_def cloneWithContext_def)
  have "fst (Cluster_Helm (\<lambda>s. newClient (defaultHelmFactory s)) s1 cl) = newClient (defaultHelmFactory (s\<lparr>ss_kubeContext := kubeCtx\<rparr>))"
    by (simp add: clients_fresh(1) [OF fresh(1)] session options)
  moreover have "\<forall>c. HelmKubeContext c \<in> set (defaultHelmFactory (s\<lparr>ss_kubeContext := kubeCtx\<rparr>)) \<longleftrightarrow> c = kubeCtx \<and> kubeCtx \<noteq> []"
    unfolding defaultHelmFactory_def by auto
  moreover have "fst (Cluster_Kubernetes (defaultKubernetesFactory inCluster client newForConfig) s1 cl)
      = bindE (case inCluster of Some cfg \<Rightarrow> Inr cfg | None \<Rightarrow> client (loading_rules_of s) kubeCtx) newForConfig"
    by (cases inCluster) (simp_all add: clients_fresh(2) [OF fresh(2)] defaultKubernetesFactory_def session rest)
  moreover have "target_context (delete_env_of W helm kubernetes confirm s1 cl) = (if kubeCtx \<noteq> [] then kubeCtx else CurrentKubeContext W s)"
    using current by (simp add: target_context_def delete_env_of_def ContextFallback_def kube fallback)
  moreover have "WarnContextFallback (ContextFallback cl) env = [] \<longleftrightarrow> kubeCtx \<noteq> []"
    by (simp add: WarnContextFallback_def ContextFallback_def fallback Let_def)
  moreover have "Cluster_RESTConfig inCluster client s1 cl = (case inCluster of Some cfg \<Rightarrow> Inr cfg | None \<Rightarrow> client (loading_rules_of s) kubeCtx)"
    by (cases inCluster) (simp_all add: Cluster_RESTConfig_def session rest)
  moreover have "kubeconfigRESTConfig client (sessionForContext cl s1) = client (loading_rules_of s) kubeCtx" by (simp add: session rest)
  ultimately show ?thesis
    unfolding Let_def kubeCtx_def [symmetric] cl_def [symmetric] s1_def [symmetric] by blast
qed

section \<open>Which errors get the hint\<close>

definition unreachable_node :: "'a error_tests \<Rightarrow> 'a \<Rightarrow> bool" where
  "unreachable_node T a = (et_Config T a \<or> et_Net T a \<or> (\<exists>errno. et_Errno T a = Some errno \<and> refused errno))"

lemma reached_by_as_sound: "reached_by_as T ns \<Longrightarrow> \<exists>a \<in> set ns. unreachable_node T a"
proof (induction ns)
  case (Cons a ns)
  then show ?case by (cases "et_Errno T a") (auto simp: reached_by_as_def unreachable_node_def List.map_filter_def)
qed (simp add: reached_by_as_def List.map_filter_def)

lemma unwrap_chain_nodes: "set (unwrap_chain e) \<subseteq> set (error_nodes e)"
  by (induction e) auto

text \<open>The hint is never given without an error below that explains it.\<close>

lemma hint_sound: "isClusterUnreachable T e \<Longrightarrow> \<exists>a \<in> set (error_nodes e). unreachable_node T a"
proof (induction T e rule: isClusterUnreachable.induct)
  case (1 T a)
  then show ?case using reached_by_as_sound [of T "[a]"] by (auto simp: unreachable_node_def)
next
  case (2 T a e)
  then show ?case using reached_by_as_sound [of T "a # error_nodes e"] unwrap_chain_nodes [of e]
    by (auto simp: unreachable_node_def list_ex_iff)
next
  case (3 T a es)
  then show ?case using reached_by_as_sound [of T "a # concat (map error_nodes es)"]
    by (fastforce simp: unreachable_node_def list_ex_iff)
qed

text \<open>A missing context inside a joined error is not seen once the joined error is wrapped.\<close>

lemma wrapped_join_missed:
  assumes "\<not> et_Config T a" "\<not> et_Config T b" "list_all (\<lambda>x. \<not> et_Net T x \<and> et_Errno T x = None) [a, b, c]"
  shows "isClusterUnreachable T (Joins b [Plain c]) = et_Config T c \<and> \<not> isClusterUnreachable T (Wraps a (Joins b [Plain c]))"
  using assms by (simp add: reached_by_as_def List.map_filter_def)

section \<open>Examples\<close>

definition ex_session_world :: "string \<Rightarrow> (int, unit) session_world" where
  "ex_session_world kubeCtx =
     \<lparr>wd_Getenv = \<lambda>_. [], wd_Exists = \<lambda>p. p = ''app/deployah.platform.yaml'',
      wd_LoadPlatform = \<lambda>_. Inr \<lparr>pc_APIVersion = [], pc_Profiles = None, pc_Environments = [(''prod'', zero_PlatformEnvironment\<lparr>pe_Context := kubeCtx\<rparr>)]\<rparr>,
      wd_LoadSpec = \<lambda>_ _ _. Inl (), wd_CurrentContext = \<lambda>_. Inr ''kind''\<rparr>"

definition ex_session :: "int Session" where
  "ex_session = New [WithSpecPath ''app/deployah.yaml'']"

theorem session_platform_stable_witness:
  "\<exists>s'. ss_platform s' \<noteq> None
     \<and> cl_kubeContext (fst (Target (ex_session_world ''other'') ''prod'' (fold session_step [(ex_session_world ''other'', CallTarget ''prod'')] s') :: unit Cluster \<times> _)) = ''east''"
proof -
  have "(case Session_Platform (ex_session_world ''east'') ex_session of (Inr (Some p), s') \<Rightarrow> PlatformEnvContext (Some p) ''prod'' = ''east'' | _ \<Rightarrow> False)"
    by code_simp
  then obtain p s' where s: "Session_Platform (ex_session_world ''east'') ex_session = (Inr (Some p), s')" and e: "PlatformEnvContext (Some p) ''prod'' = ''east''"
    by (auto split: prod.splits sum.splits option.splits)
  have "ss_kubeContext ex_session = [] \<and> ''prod'' \<noteq> []" by code_simp
  with session_platform_stable [OF s, of "ex_session_world ''other''" "[(ex_session_world ''other'', CallTarget ''prod'')]" "''prod''"] e
    Session_Platform_found [OF s] show ?thesis by auto
qed

end
