(* ===== verification/Spec2Isabelle.thy ===== *)
theory Spec2Isabelle
  imports Resolve Plan_Output Drift Deploy Jobs Delete Chart_Cache Watcher Sessions
begin

text \<open>
  Deployah (\<open>src/\<close>): a verification library for the deployment tool.

  \<^bold>\<open>The program.\<close> A project file (\<open>deployah.yaml\<close>) declares components and tasks, a platform file
  the environments, profiles and domains. The tool validates both, resolves the project for one
  environment, generates a chart, shows what a deployment would change and applies it with Helm
  and the Kubernetes API.

  \<^bold>\<open>The theories.\<close>
  \<^item> \<open>Prelude\<close>: results, Go maps as association lists, Go strings, generic lemmas. \<open>Go_Path\<close>: file
    paths. \<open>Sha256\<close>: the digest behind the names of environments.
  \<^item> \<open>Spec_Types\<close> (\<open>internal/spec/types.go\<close>, \<open>task.go\<close>, \<open>platform.go\<close>, \<open>resolved_spec.go\<close>): one record
    per struct, with the field names of the source behind a prefix.
  \<^item> \<open>Hook_Weights\<close> (\<open>task_after.go\<close>): Kahn's algorithm over the \<open>after\<close> relation. It succeeds exactly on
    acyclic relations, the weights are the lengths of the longest dependency chains, the cycle
    error is exact. The contract is the locale \<open>hook_scheduler\<close>.
  \<^item> \<open>Env_Identity\<close> (\<open>env_identity.go\<close>, parts of \<open>loader.go\<close>): environment names, the wildcard matcher
    (locale \<open>env_matcher\<close>), the registry and the selection of the target.
  \<^item> \<open>Duration\<close> (\<open>duration.go\<close>) over a model of \<open>time.ParseDuration\<close>, with its int64 arithmetic.
  \<^item> \<open>Profiles\<close> (\<open>profile.go\<close>): merging and enforcing platform profiles; the locales \<open>last_wins\<close> and
    \<open>strictest_wins\<close> carry the overlay fields and the constraints.
  \<^item> \<open>Validation\<close> (\<open>validate.go\<close>, \<open>field_validation.go\<close>), \<open>Tasks\<close> (\<open>task.go\<close>, \<open>task_job.go\<close>,
    \<open>task_validate.go\<close>), \<open>Platform\<close> (\<open>platform_loader.go\<close>), \<open>Resolve\<close> (\<open>resolve.go\<close>).
  \<^item> \<open>Plan_Diff\<close> (\<open>internal/plan\<close>: types, resources, normalisation, diff, masking, history, build),
    \<open>Plan_Output\<close> (text, YAML tree and JSON), \<open>Drift\<close> (\<open>internal/drift\<close>).
  \<^item> \<open>Workload\<close> (\<open>internal/cmd/deploy/guards.go\<close>, the host name guard, resize detection), \<open>Resize\<close>
    (\<open>resize.go\<close>) against a model of the cluster API in which any call may fail, \<open>Cluster_Checks\<close>
    (\<open>internal/k8s\<close> requirements, capabilities, version, certificates; \<open>internal/readiness\<close>).
  \<^item> \<open>Extras\<close> and \<open>Crds\<close> (\<open>internal/extras\<close>): extra manifests, scope, identity, post-rendering, and the
    installation of CRDs with the trace of its API calls.
  \<^item> \<open>Deploy\<close> (\<open>internal/cmd/deploy/deploy.go\<close>): the command, composed of all of these, with a log of
    what it shows, asks and writes.

  \<^item> \<open>Chart_Values\<close> (\<open>internal/helm/generate.go\<close>, \<open>task.go\<close>): the values of the generated chart, probes and
    autoscaling included, and the resolved block, which makes the guards of the next deployment pass.
  \<^item> \<open>Chart_Cache\<close> (\<open>internal/helm/cache.go\<close>, \<open>PrepareChart\<close>): cache keys, expiry, copies, the files of the
    chart. The locale \<open>memo_table\<close> is its contract; over every sequence of calls, cleanups and failures a
    prepared chart is the chart of a request with the same environment and the same encoded input.
  \<^item> \<open>Releases\<close> (\<open>internal/helm/helm.go\<close>, \<open>internal/k8s/selectors.go\<close>, list and status): label selectors,
    install or upgrade, release queries. \<open>Jobs\<close> (\<open>internal/k8s/jobs.go\<close>, \<open>internal/cmd/run\<close>): task Jobs and
    the run command, against a server whose failing calls may take effect or not. \<open>Delete\<close> (\<open>internal/cmd/delete\<close>): the delete command and its preview.
  \<^item> \<open>Watcher\<close> (\<open>internal/k8s\<close> pods, components, events; \<open>internal/cmd/deploy/watcher.go\<close>): the pods of a
    release and the watcher beside an installation, for every schedule of its \<open>select\<close>; the locale
    \<open>keyed_log\<close> carries its list of warnings. \<open>Sessions\<close> (\<open>internal/session\<close>, \<open>internal/cmd/cmdopts\<close>): the
    platform file, the target cluster and the clients that all commands share.

  \<^bold>\<open>How code becomes definitions.\<close> A pure function is a HOL function of the same name. A call that
  returns an error is a sum (\<open>Inl\<close> the error, a datatype with one constructor per message). A Go
  map is an association list whose order stands for one iteration order; results that do not
  depend on it are theorems over every order. Stateful code passes a record and returns it.
  Third-party code (quantities, the YAML comparison, unstructured objects, certificates, the
  API server, the prompt, the clock) is a parameter, a record of functions; what a theorem needs
  of it is a named hypothesis (\<open>quantity_laws\<close>, \<open>compare_refl\<close>, \<open>obj_laws\<close>, \<open>plain_names\<close>, \<open>helm_laws\<close>,
  \<open>uninstall_law\<close>, \<open>honest\<close>, \<open>echoes\<close>), and the witness
  of the theorem instantiates it.

  \<^bold>\<open>Bounds and loops.\<close> Integers are unbounded where the code compares or adds small counts; where a
  width matters (durations, Job fields, SHA-256) it is written out. The poll loop for volumes is a
  \<open>partial_function\<close> and proved to return when the deadline passes; the wait for CRDs recurses over the
  number of polls that the context allows, and so does the wait for a Job; all other loops are structural or have a measure.

  \<^bold>\<open>Not modelled.\<close> The command-line framework, prompts, colours and tables, with the commands that only
  print what modelled operations return (user interface); the interactive forms of the init command;
  the Helm SDK and the Kubernetes client (third-party), so also the rendering of a chart and the
  reading of live objects; the local cluster manager, log streaming and the remote shell (process and
  network I/O); JSON schema validation, YAML decoding and variable substitution (third-party).
\<close>

end
